(* ===== verification/Mesh_Prelude.thy ===== *)
theory Mesh_Prelude
  imports Main "HOL-Library.Multiset" "HOL-Library.List_Lexorder"
    "HOL-Library.Char_ord" "HOL-Library.Product_Lexorder"
begin

text \<open>
  The vocabulary every theory of the development shares: the sentinel errors of
  \<^verbatim>\<open>internal/control/service.go\<close> as a datatype, results as a sum with the error
  on the left, Go times and pointers to times, the index search that stands for
  the handlers' \<^verbatim>\<open>for index := range state.X\<close> loops, and the facts about lists,
  results and multisets on which the component theories rely.
\<close>

section \<open>Errors and results\<close>

text \<open>
  One constructor per sentinel of the package.  An error the code builds without
  wrapping a sentinel (\<^verbatim>\<open>errors.New\<close> or \<^verbatim>\<open>fmt.Errorf\<close> with no \<^verbatim>\<open>%w\<close>) is
  \<open>ErrInternal\<close>.  The text of a message is not part of the model.
\<close>

datatype error =
    ErrNotFound
  | ErrConflict
  | ErrInvalid
  | ErrUnauthorized
  | ErrRateLimited
  | ErrInvalidStateStore
  | ErrUncertainCommit
  | ErrInternal

type_synonym 'a result = "error + 'a"

text \<open>
  A \<^verbatim>\<open>time.Time\<close> is the number of nanoseconds since year 1, so the zero time of Go
  is 0 and \<^verbatim>\<open>t.IsZero()\<close> is \<^prop>\<open>t = (0::int)\<close>; a \<^verbatim>\<open>*time.Time\<close> is an option.
\<close>

type_synonym time = int

abbreviation second :: time where "second \<equiv> 1000000000"
abbreviation minute :: time where "minute \<equiv> 60 * second"
abbreviation hour :: time where "hour \<equiv> 60 * minute"

definition bind_result :: "'a result \<Rightarrow> ('a \<Rightarrow> 'b result) \<Rightarrow> 'b result" where
  "bind_result r f = (case r of Inl e \<Rightarrow> Inl e | Inr a \<Rightarrow> f a)"

definition guard_result :: "bool \<Rightarrow> error \<Rightarrow> 'a result \<Rightarrow> 'a result" where
  "guard_result ok e r = (if ok then r else Inl e)"

definition is_ok :: "'a result \<Rightarrow> bool" where
  "is_ok r = (case r of Inl e \<Rightarrow> False | Inr a \<Rightarrow> True)"

fun map_result :: "('a \<Rightarrow> 'b result) \<Rightarrow> 'a list \<Rightarrow> 'b list result" where
  "map_result f [] = Inr []"
| "map_result f (x # xs) =
     (case f x of Inl e \<Rightarrow> Inl e | Inr y \<Rightarrow>
        (case map_result f xs of Inl e \<Rightarrow> Inl e | Inr ys \<Rightarrow> Inr (y # ys)))"

section \<open>Loops over slices\<close>

text \<open>\<^verbatim>\<open>for index := range xs { if P(xs[index]) { ... return } }\<close>: the first index.\<close>

fun find_idx :: "('a \<Rightarrow> bool) \<Rightarrow> 'a list \<Rightarrow> nat option" where
  "find_idx P [] = None"
| "find_idx P (x # xs) = (if P x then Some 0 else map_option Suc (find_idx P xs))"

text \<open>The check of neighbours that follows a \<^verbatim>\<open>sort.Slice\<close>.\<close>

fun adjacent_all :: "('a \<Rightarrow> 'a \<Rightarrow> bool) \<Rightarrow> 'a list \<Rightarrow> bool" where
  "adjacent_all P [] = True"
| "adjacent_all P [x] = True"
| "adjacent_all P (x # y # xs) = (P x y \<and> adjacent_all P (y # xs))"

named_theorems result_simps \<open>evaluation of the result combinators\<close>

lemmas [result_simps] = bind_result_def guard_result_def is_ok_def

lemma bind_result_Inr [simp]:
  "bind_result r f = Inr b \<longleftrightarrow> (\<exists>a. r = Inr a \<and> f a = Inr b)"
  by (cases r) (auto simp: bind_result_def)

lemma bind_result_simps [simp]:
  "bind_result (Inr a) f = f a" "bind_result (Inl e) f = Inl e"
  by (simp_all add: bind_result_def)

lemma guard_result_Inr [simp]:
  "guard_result ok e r = Inr b \<longleftrightarrow> ok \<and> r = Inr b"
  by (simp add: guard_result_def)

lemma is_ok_iff: "is_ok r \<longleftrightarrow> (\<exists>a. r = Inr a)"
  by (cases r) (auto simp: is_ok_def)

lemma is_ok_simps [simp]: "is_ok (Inr a)" "\<not> is_ok (Inl e)"
  by (simp_all add: is_ok_def)

lemma map_result_Inr:
  "map_result f xs = Inr ys \<longleftrightarrow> list_all2 (\<lambda>x y. f x = Inr y) xs ys"
proof (induction xs arbitrary: ys)
  case Nil
  then show ?case by auto
next
  case (Cons x xs)
  show ?case
  proof (cases ys)
    case Nil
    then show ?thesis by (auto split: sum.splits)
  next
    case ys: (Cons y ys')
    have "map_result f (x # xs) = Inr ys \<longleftrightarrow> f x = Inr y \<and> map_result f xs = Inr ys'"
      unfolding ys by (auto split: sum.splits)
    with Cons.IH [of ys'] ys show ?thesis by simp
  qed
qed

lemma map_result_length: "map_result f xs = Inr ys \<Longrightarrow> length ys = length xs"
  by (auto simp: map_result_Inr dest: list_all2_lengthD)

section \<open>Facts about index search\<close>

lemma find_idx_SomeD:
  "find_idx P xs = Some i \<Longrightarrow> i < length xs \<and> P (xs ! i) \<and> (\<forall>j<i. \<not> P (xs ! j))"
proof (induction xs arbitrary: i)
  case Nil
  then show ?case by simp
next
  case (Cons x xs)
  show ?case
  proof (cases "P x")
    case True
    with Cons.prems show ?thesis by simp
  next
    case False
    with Cons.prems obtain k where k: "find_idx P xs = Some k" "i = Suc k" by auto
    with Cons.IH False show ?thesis by (auto simp: less_Suc_eq_0_disj)
  qed
qed

lemma find_idx_lt: "find_idx P xs = Some i \<Longrightarrow> i < length xs"
  and find_idx_P: "find_idx P xs = Some i \<Longrightarrow> P (xs ! i)"
  and find_idx_mem: "find_idx P xs = Some i \<Longrightarrow> xs ! i \<in> set xs"
  by (auto dest: find_idx_SomeD)

lemma find_idx_None: "find_idx P xs = None \<longleftrightarrow> (\<forall>x\<in>set xs. \<not> P x)"
  by (induction xs) auto

lemma find_find_idx: "List.find P xs = map_option ((!) xs) (find_idx P xs)"
  by (induction xs) (auto simp: option.map_comp o_def)

lemma find_map: "List.find P (map f xs) = map_option f (List.find (\<lambda>x. P (f x)) xs)"
  by (induction xs) auto

lemma list_all2_find:
  assumes "list_all2 R xs ys" "\<And>a b. R a b \<Longrightarrow> P b = P a" "List.find P xs = Some a"
  shows "\<exists>b. List.find P ys = Some b \<and> R a b"
  using assms by (induction xs ys rule: list_all2_induct) (auto split: if_splits)

lemma find_idx_map: "find_idx P (map f xs) = find_idx (P \<circ> f) xs"
  by (induction xs) auto

lemma find_idx_update_same:
  assumes "find_idx P xs = Some i" "P v"
  shows "find_idx P (xs[i := v]) = Some i"
  using assms by (induction xs arbitrary: i) (auto split: if_splits)

lemma find_idx_update_other:
  assumes "P (xs ! j) \<longleftrightarrow> P v" "j < length xs"
  shows "find_idx P (xs[j := v]) = find_idx P xs"
  using assms by (induction xs arbitrary: j) (auto split: nat.splits)

lemma find_idx_append:
  "find_idx P (xs @ ys) =
    (case find_idx P xs of Some i \<Rightarrow> Some i | None \<Rightarrow> map_option ((+) (length xs)) (find_idx P ys))"
  by (induction xs; cases "find_idx P ys") (auto split: option.splits)

lemma ball_list_update:
  "\<lbrakk>\<forall>x\<in>set xs. P x; P v\<rbrakk> \<Longrightarrow> \<forall>x\<in>set (xs[i := v]). P x"
  using set_update_subset_insert by fastforce

lemma in_set_update_cases:
  assumes "x \<in> set (xs[i := v])"
  obtains "x = v" "i < length xs" | j where "j < length xs" "j \<noteq> i" "x = xs ! j"
proof -
  from assms obtain j where j: "j < length xs" "x = xs[i := v] ! j"
    by (auto simp: in_set_conv_nth)
  show thesis
    by (cases "j = i") (use j that in auto)
qed

lemma map_update_same:
  "i < length xs \<Longrightarrow> f v = f (xs ! i) \<Longrightarrow> map f (xs[i := v]) = map f xs"
  by (simp add: map_update list_update_same_conv)

section \<open>Neighbours, pairs and order\<close>

lemma map_insort_key: "map f (insort_key (g \<circ> f) x xs) = insort_key g (f x) (map f xs)"
  by (induction xs) auto

lemma map_sort_key: "map f (sort_key (g \<circ> f) xs) = sort_key g (map f xs)"
  by (induction xs) (simp_all add: map_insort_key [unfolded o_def])

lemma sort_key_idem [simp]: "sort_key f (sort_key f xs) = sort_key f xs"
  by (rule sort_key_id_if_sorted) (rule sorted_sort_key)

lemma sort_key_Nil_iff [simp]: "sort_key f xs = [] \<longleftrightarrow> xs = []"
  by (metis length_0_conv length_sort)

lemma list_all2_const:
  "list_all2 P xs ys \<Longrightarrow> (\<And>x y. P x y \<Longrightarrow> P (f y) y) \<Longrightarrow> list_all2 P (map f ys) ys"
  by (induction xs ys rule: list_all2_induct) auto

lemma adjacent_all_conv:
  "adjacent_all P xs \<longleftrightarrow> (\<forall>i. Suc i < length xs \<longrightarrow> P (xs ! i) (xs ! Suc i))"
proof (induction P xs rule: adjacent_all.induct)
  case (3 P x y xs)
  then show ?case by (auto simp: less_Suc_eq_0_disj nth_Cons split: nat.splits)
qed auto

lemma adjacent_all_sorted_wrt: "sorted_wrt P xs \<Longrightarrow> adjacent_all P xs"
  by (auto simp: adjacent_all_conv sorted_wrt_iff_nth_less)

text \<open>A symmetric relation between all pairs of positions does not see the order.\<close>

lemma sorted_wrt_symp_mset:
  assumes "symp P"
  shows "sorted_wrt P xs \<longleftrightarrow> (\<forall>x\<in>#mset xs. \<forall>y\<in>#mset xs - {#x#}. P x y)"
proof (induction xs)
  case Nil
  then show ?case by simp
next
  case (Cons a xs)
  have "(\<forall>x\<in>#mset (a # xs). \<forall>y\<in>#mset (a # xs) - {#x#}. P x y) \<longleftrightarrow>
        (\<forall>y\<in>set xs. P a y) \<and> (\<forall>x\<in>#mset xs. \<forall>y\<in>#mset xs - {#x#}. P x y)"
    (is "?l \<longleftrightarrow> ?r")
  proof
    assume l: ?l
    have "P x y" if "x \<in># mset xs" "y \<in># mset xs - {#x#}" for x y
    proof -
      have "y \<in># mset (a # xs) - {#x#}"
        using that by (cases "x = a") (auto dest: in_diffD)
      with l that(1) show ?thesis by auto
    qed
    with l show ?r by auto
  next
    assume r: ?r
    show ?l
    proof (intro ballI)
      fix x y
      assume x: "x \<in># mset (a # xs)" and y: "y \<in># mset (a # xs) - {#x#}"
      show "P x y"
      proof (cases "x = a")
        case True
        with y r show ?thesis by auto
      next
        case False
        with x y r assms show ?thesis
          by (auto simp: diff_union_swap2 dest: sympD)
      qed
    qed
  qed
  with Cons.IH show ?case by simp
qed

lemma sorted_wrt_symp_perm:
  "symp P \<Longrightarrow> mset xs = mset ys \<Longrightarrow> sorted_wrt P xs \<longleftrightarrow> sorted_wrt P ys"
  by (simp add: sorted_wrt_symp_mset)

lemma sorted_wrt_filter_imp:
  "sorted_wrt P xs \<Longrightarrow> sorted_wrt P (filter Q xs)"
  by (induction xs) auto

lemma strict_sorted_eqI:
  fixes xs ys :: "'a::linorder list"
  assumes "sorted_wrt (<) xs" "sorted_wrt (<) ys" "set xs = set ys"
  shows "xs = ys"
  using assms by (metis strict_sorted_iff sorted_distinct_set_unique)

end
