(* ===== verification/Mesh_Text.thy ===== *)
theory Mesh_Text
  imports Mesh_Prelude "HOL-Library.Sublist"
begin

text \<open>
  Text as the control plane reads it.  A Go string is its byte sequence, a
  \<^typ>\<open>string\<close>.  The theory holds the anchored patterns of
  \<^verbatim>\<open>internal/control/service.go\<close>, the persisted-identifier test of
  \<^verbatim>\<open>store.go\<close>, and what the package uses of \<^verbatim>\<open>strings\<close> and
  \<^verbatim>\<open>strconv\<close>: \<^verbatim>\<open>TrimSpace\<close>, \<^verbatim>\<open>ToLower\<close>, \<^verbatim>\<open>EqualFold\<close>, \<^verbatim>\<open>Itoa\<close>, the
  canonical decimal numerals and splitting at a byte, with their round trips.
\<close>

section \<open>Patterns\<close>

definition is_lower :: "char \<Rightarrow> bool" where
  "is_lower c = (CHR ''a'' \<le> c \<and> c \<le> CHR ''z'')"

definition is_upper :: "char \<Rightarrow> bool" where
  "is_upper c = (CHR ''A'' \<le> c \<and> c \<le> CHR ''Z'')"

definition is_digit :: "char \<Rightarrow> bool" where
  "is_digit c = (CHR ''0'' \<le> c \<and> c \<le> CHR ''9'')"

definition is_alnum :: "char \<Rightarrow> bool" where
  "is_alnum c = (is_lower c \<or> is_upper c \<or> is_digit c)"

text \<open>An anchored pattern \<^verbatim>\<open>^[first][rest]{0,n}$\<close>.\<close>

definition head_tail_pattern :: "(char \<Rightarrow> bool) \<Rightarrow> (char \<Rightarrow> bool) \<Rightarrow> nat \<Rightarrow> string \<Rightarrow> bool" where
  "head_tail_pattern first rest n s =
     (case s of [] \<Rightarrow> False | c # cs \<Rightarrow> first c \<and> length cs \<le> n \<and> list_all rest cs)"

definition namePattern :: "string \<Rightarrow> bool" where
  "namePattern = head_tail_pattern is_alnum (\<lambda>c. is_alnum c \<or> c \<in> set ''._-'') 62"

definition groupPattern :: "string \<Rightarrow> bool" where
  "groupPattern = head_tail_pattern is_alnum (\<lambda>c. is_alnum c \<or> c \<in> set ''_-'') 31"

definition topologyLabelPattern :: "string \<Rightarrow> bool" where
  "topologyLabelPattern =
     head_tail_pattern (\<lambda>c. is_lower c \<or> is_digit c)
       (\<lambda>c. is_lower c \<or> is_digit c \<or> c \<in> set ''._-'') 62"

definition fingerprintPattern :: "string \<Rightarrow> bool" where
  "fingerprintPattern s =
     (length s = 64 \<and> list_all (\<lambda>c. is_digit c \<or> (CHR ''a'' \<le> c \<and> c \<le> CHR ''f'')) s)"

definition validPersistedID :: "string \<Rightarrow> bool" where
  "validPersistedID s =
     (s \<noteq> [] \<and> length s \<le> 128 \<and> list_all (\<lambda>c. is_alnum c \<or> c \<in> set ''-_'') s)"

section \<open>Whitespace and case\<close>

text \<open>
  The byte sequences \<^verbatim>\<open>strings.TrimSpace\<close> removes: the six ASCII spaces and the
  UTF-8 encodings of the other code points with \<^verbatim>\<open>unicode.IsSpace\<close>.
\<close>

definition space_encodings :: "string list" where
  "space_encodings =
     [[CHR 0x09], [CHR 0x0A], [CHR 0x0B], [CHR 0x0C], [CHR 0x0D], [CHR 0x20],
      [CHR 0xC2, CHR 0x85], [CHR 0xC2, CHR 0xA0], [CHR 0xE1, CHR 0x9A, CHR 0x80],
      [CHR 0xE2, CHR 0x80, CHR 0x80], [CHR 0xE2, CHR 0x80, CHR 0x81],
      [CHR 0xE2, CHR 0x80, CHR 0x82], [CHR 0xE2, CHR 0x80, CHR 0x83],
      [CHR 0xE2, CHR 0x80, CHR 0x84], [CHR 0xE2, CHR 0x80, CHR 0x85],
      [CHR 0xE2, CHR 0x80, CHR 0x86], [CHR 0xE2, CHR 0x80, CHR 0x87],
      [CHR 0xE2, CHR 0x80, CHR 0x88], [CHR 0xE2, CHR 0x80, CHR 0x89],
      [CHR 0xE2, CHR 0x80, CHR 0x8A], [CHR 0xE2, CHR 0x80, CHR 0xA8],
      [CHR 0xE2, CHR 0x80, CHR 0xA9], [CHR 0xE2, CHR 0x80, CHR 0xAF],
      [CHR 0xE2, CHR 0x81, CHR 0x9F], [CHR 0xE3, CHR 0x80, CHR 0x80]]"

fun strip_front :: "string list \<Rightarrow> nat \<Rightarrow> string \<Rightarrow> string" where
  "strip_front ws 0 s = s"
| "strip_front ws (Suc k) s =
     (case List.find (\<lambda>w. prefix w s) ws of
        None \<Rightarrow> s
      | Some w \<Rightarrow> strip_front ws k (drop (length w) s))"

text \<open>Every round removes at least one byte, so as many rounds as bytes are enough.\<close>

definition trim_left :: "string \<Rightarrow> string" where
  "trim_left s = strip_front space_encodings (length s) s"

definition trim_right :: "string \<Rightarrow> string" where
  "trim_right s = rev (strip_front (map rev space_encodings) (length s) (rev s))"

definition TrimSpace :: "string \<Rightarrow> string" where
  "TrimSpace s = trim_right (trim_left s)"

definition to_lower_char :: "char \<Rightarrow> char" where
  "to_lower_char c = (if is_upper c then char_of (of_char c + (32::nat)) else c)"

text \<open>
  \<^verbatim>\<open>strings.ToLower\<close> and \<^verbatim>\<open>strings.EqualFold\<close> on ASCII text; the code calls them on
  values that the ASCII patterns above have accepted or then refuse.
\<close>

definition ToLower :: "string \<Rightarrow> string" where
  "ToLower = map to_lower_char"

definition EqualFold :: "string \<Rightarrow> string \<Rightarrow> bool" where
  "EqualFold a b = (ToLower a = ToLower b)"

section \<open>Decimal numerals\<close>

definition digit_char :: "nat \<Rightarrow> char" where
  "digit_char n = ''0123456789'' ! n"

definition digit_val :: "char \<Rightarrow> nat" where
  "digit_val c = of_char c - 48"

fun itoa :: "nat \<Rightarrow> string" where
  "itoa n = (if n < 10 then [digit_char n] else itoa (n div 10) @ [digit_char (n mod 10)])"

declare itoa.simps [simp del]

definition dec_val :: "string \<Rightarrow> nat" where
  "dec_val s = foldl (\<lambda>a c. a * 10 + digit_val c) 0 s"

text \<open>The same on integers, which evaluate in binary; \<^verbatim>\<open>strconv.FormatInt\<close> with its sign.\<close>

function itoa_int :: "int \<Rightarrow> string" where
  "itoa_int n = (if n < 10 then [digit_char (nat n)] else itoa_int (n div 10) @ [digit_char (nat (n mod 10))])"
  by pat_completeness auto
termination by (relation "measure nat") auto

declare itoa_int.simps [simp del]

definition FormatInt :: "int \<Rightarrow> string" where
  "FormatInt n = (if n < 0 then CHR ''-'' # itoa_int (- n) else itoa_int n)"

definition dec_int :: "string \<Rightarrow> int" where
  "dec_int s = foldl (\<lambda>a c. a * 10 + int (digit_val c)) 0 s"

text \<open>A numeral with no sign and no superfluous leading zero.\<close>

definition canonical_dec :: "string \<Rightarrow> bool" where
  "canonical_dec s = (s \<noteq> [] \<and> list_all is_digit s \<and> (length s = 1 \<or> hd s \<noteq> CHR ''0''))"

definition parse_dec :: "string \<Rightarrow> nat option" where
  "parse_dec s = (if canonical_dec s then Some (dec_val s) else None)"

section \<open>Splitting and joining\<close>

fun split_at :: "char \<Rightarrow> string \<Rightarrow> string list" where
  "split_at d [] = [[]]"
| "split_at d (c # cs) =
     (if c = d then [] # split_at d cs
      else (case split_at d cs of [] \<Rightarrow> [[c]] | w # ws \<Rightarrow> (c # w) # ws))"

fun join_with :: "string \<Rightarrow> string list \<Rightarrow> string" where
  "join_with d [] = []"
| "join_with d [w] = w"
| "join_with d (w # v # vs) = w @ d @ join_with d (v # vs)"

text \<open>\<^verbatim>\<open>appendUnique\<close> of \<^verbatim>\<open>service.go\<close>.\<close>

definition appendUnique :: "string list \<Rightarrow> string \<Rightarrow> string list" where
  "appendUnique vs v = (if v \<in> set vs then vs else vs @ [v])"

section \<open>Lemmas: trimming\<close>

lemma strip_front_decomp: "\<exists>u. s = u @ strip_front ws k s"
proof (induction ws k s rule: strip_front.induct)
  case (2 ws k s)
  show ?case
  proof (cases "List.find (\<lambda>w. prefix w s) ws")
    case (Some w)
    then have "prefix w s" by (auto simp: find_Some_iff)
    then have "s = w @ drop (length w) s" by (auto simp: prefix_def)
    with 2 [OF Some] Some show ?thesis by (metis append.assoc option.case(2) strip_front.simps(2))
  qed simp
qed simp

lemma strip_front_done:
  assumes "\<forall>w\<in>set ws. w \<noteq> []" "length s \<le> k"
  shows "List.find (\<lambda>w. prefix w (strip_front ws k s)) ws = None"
  using assms
proof (induction ws k s rule: strip_front.induct)
  case (1 ws s)
  then show ?case by (auto simp: find_None_iff)
next
  case (2 ws k s)
  show ?case
  proof (cases "List.find (\<lambda>w. prefix w s) ws")
    case (Some w)
    then have w: "prefix w s" "w \<in> set ws" by (auto simp: find_Some_iff)
    with 2 have "w \<noteq> []" by blast
    with w 2 have "length (drop (length w) s) \<le> k"
      by (cases w) auto
    with 2 Some show ?thesis by simp
  qed simp
qed

lemma strip_front_fix:
  "List.find (\<lambda>w. prefix w s) ws = None \<Longrightarrow> strip_front ws k s = s"
  by (cases k) auto

lemma space_encodings_nonempty:
  "\<forall>w\<in>set space_encodings. w \<noteq> []" "\<forall>w\<in>set (map rev space_encodings). w \<noteq> []"
  by (simp_all add: space_encodings_def)

lemma trim_left_no_space:
  "List.find (\<lambda>w. prefix w (trim_left s)) space_encodings = None"
  unfolding trim_left_def by (rule strip_front_done) (use space_encodings_nonempty in auto)

lemma trim_right_no_space:
  "List.find (\<lambda>w. prefix w (rev (trim_right s))) (map rev space_encodings) = None"
  unfolding trim_right_def rev_rev_ident
  by (rule strip_front_done) (use space_encodings_nonempty in auto)

lemma trim_right_prefix: "prefix (trim_right s) s"
proof -
  obtain u where "rev s = u @ strip_front (map rev space_encodings) (length s) (rev s)"
    using strip_front_decomp by blast
  then have "s = rev (strip_front (map rev space_encodings) (length s) (rev s)) @ rev u"
    by (metis rev_append rev_rev_ident)
  then show ?thesis unfolding trim_right_def by (metis prefixI)
qed

lemma trim_left_fix: "List.find (\<lambda>w. prefix w s) space_encodings = None \<Longrightarrow> trim_left s = s"
  unfolding trim_left_def by (rule strip_front_fix)

lemma trim_right_fix:
  "List.find (\<lambda>w. prefix w (rev s)) (map rev space_encodings) = None \<Longrightarrow> trim_right s = s"
  unfolding trim_right_def by (simp add: strip_front_fix)

lemma TrimSpace_idem [simp]: "TrimSpace (TrimSpace s) = TrimSpace s"
proof -
  let ?t = "trim_left s" and ?r = "TrimSpace s"
  have "List.find (\<lambda>w. prefix w ?r) space_encodings = None"
    using trim_left_no_space [of s] trim_right_prefix [of ?t]
    by (auto simp: find_None_iff TrimSpace_def dest: prefix_order.trans)
  then have "trim_left ?r = ?r" by (rule trim_left_fix)
  moreover have "trim_right ?r = ?r"
    unfolding TrimSpace_def by (rule trim_right_fix) (rule trim_right_no_space)
  ultimately show ?thesis by (simp add: TrimSpace_def)
qed

text \<open>A text whose bytes are printable ASCII is left alone.\<close>

definition graphic :: "char \<Rightarrow> bool" where
  "graphic c = (CHR 0x21 \<le> c \<and> c \<le> CHR 0x7E)"

lemma graphic_not_space_head:
  "graphic c \<Longrightarrow> \<not> prefix w (c # cs)" if "w \<in> set space_encodings" for w
  using that by (auto simp: space_encodings_def graphic_def less_eq_char_def)

lemma graphic_not_space_last:
  "graphic c \<Longrightarrow> \<not> prefix w (c # cs)" if "w \<in> set (map rev space_encodings)" for w
  using that by (auto simp: space_encodings_def graphic_def less_eq_char_def)

lemma TrimSpace_graphic:
  assumes "list_all graphic s"
  shows "TrimSpace s = s"
proof (cases "s = []")
  case True
  then show ?thesis by (simp add: TrimSpace_def trim_left_def trim_right_def)
next
  case False
  then have "graphic (hd s)" "graphic (last s)" using assms by (auto simp: list_all_iff)
  then have "trim_left s = s"
    using False graphic_not_space_head [of _ "hd s" "tl s"]
    by (intro trim_left_fix) (auto simp: find_None_iff)
  moreover have "rev s = last s # tl (rev s)" using False by (simp add: hd_rev [symmetric])
  with \<open>graphic (last s)\<close> have "trim_right s = s"
    using graphic_not_space_last [of _ "last s" "tl (rev s)"]
    by (intro trim_right_fix) (metis find_None_iff2)
  ultimately show ?thesis by (simp add: TrimSpace_def)
qed

section \<open>Lemmas: numerals\<close>

lemma digit_char_of: "n < 10 \<Longrightarrow> digit_char n = char_of (48 + n)"
proof -
  assume "n < 10"
  then have "n \<in> {0,1,2,3,4,5,6,7,8,9}" by auto
  moreover have "\<forall>n\<in>{0,1,2,3,4,5,6,7,8,9}. digit_char n = char_of (48 + n)"
    unfolding digit_char_def by code_simp
  ultimately show ?thesis by blast
qed

lemma digit_val_char: "n < 10 \<Longrightarrow> digit_val (digit_char n) = n"
  by (simp add: digit_val_def digit_char_of)

lemma is_digit_char: "n < 10 \<Longrightarrow> is_digit (digit_char n)"
  by (simp add: is_digit_def digit_char_of less_eq_char_def)

lemma digit_val_lt: "is_digit c \<Longrightarrow> digit_val c < 10"
  by (auto simp: is_digit_def digit_val_def less_eq_char_def)

lemma digit_char_val: "is_digit c \<Longrightarrow> digit_char (digit_val c) = c"
  using digit_val_lt [of c]
  by (simp add: is_digit_def digit_char_of digit_val_def less_eq_char_def)

lemma digit_char_0: "digit_char 0 = CHR ''0''"
  by (simp add: digit_char_def)

lemma digit_val_zero: "is_digit c \<Longrightarrow> digit_val c = 0 \<longleftrightarrow> c = CHR ''0''"
  using digit_char_val [of c] digit_char_0 by (auto simp: digit_val_def)

lemma digit_char_zero: "n < 10 \<Longrightarrow> digit_char n = CHR ''0'' \<longleftrightarrow> n = 0"
  by (metis digit_val_char digit_val_zero is_digit_char)

lemma digit_graphic: "is_digit c \<Longrightarrow> graphic c"
  by (simp add: is_digit_def graphic_def less_eq_char_def)

lemma dec_val_snoc [simp]: "dec_val (s @ [c]) = dec_val s * 10 + digit_val c"
  and dec_val_single [simp]: "dec_val [c] = digit_val c"
  and dec_val_Nil [simp]: "dec_val [] = 0"
  by (simp_all add: dec_val_def)

lemma itoa_digits: "list_all is_digit (itoa n)"
proof (induction n rule: itoa.induct)
  case (1 n)
  then show ?case by (subst itoa.simps) (simp add: is_digit_char)
qed

lemma itoa_nonempty [simp]: "itoa n \<noteq> []"
  by (subst itoa.simps) simp

lemma itoa_hd: "0 < n \<Longrightarrow> hd (itoa n) \<noteq> CHR ''0''"
proof (induction n rule: itoa.induct)
  case (1 n)
  then show ?case by (subst itoa.simps) (auto simp: digit_char_zero)
qed

lemma dec_val_itoa [simp]: "dec_val (itoa n) = n"
proof (induction n rule: itoa.induct)
  case (1 n)
  then show ?case by (subst itoa.simps) (simp add: digit_val_char)
qed

lemma itoa_0: "itoa 0 = ''0''"
  by (subst itoa.simps) (simp add: digit_char_0)

lemma canonical_itoa [simp]: "canonical_dec (itoa n)"
proof (cases "n = 0")
  case True
  then show ?thesis by (simp add: itoa_0 canonical_dec_def is_digit_def)
next
  case False
  then show ?thesis by (simp add: canonical_dec_def itoa_digits itoa_hd)
qed

lemma dec_val_pos:
  "list_all is_digit s \<Longrightarrow> s \<noteq> [] \<Longrightarrow> hd s \<noteq> CHR ''0'' \<Longrightarrow> 0 < dec_val s"
proof (induction s rule: rev_induct)
  case (snoc c s)
  then show ?case by (cases "s = []") (auto simp: digit_val_zero intro: gr0I)
qed simp

lemma itoa_dec_val: "canonical_dec s \<Longrightarrow> itoa (dec_val s) = s"
proof (induction s rule: rev_induct)
  case Nil
  then show ?case by (simp add: canonical_dec_def)
next
  case (snoc c s)
  then have c: "is_digit c" by (simp add: canonical_dec_def)
  show ?case
  proof (cases "s = []")
    case True
    with c show ?thesis by (simp add: itoa.simps digit_val_lt digit_char_val)
  next
    case False
    with snoc.prems have can: "canonical_dec s" and pos: "0 < dec_val s"
      by (auto simp: canonical_dec_def intro: dec_val_pos)
    have "itoa (dec_val (s @ [c])) = itoa (dec_val s) @ [c]"
      using c pos digit_val_lt [OF c] by (subst itoa.simps) (simp add: digit_char_val)
    with snoc.IH can show ?thesis by simp
  qed
qed

lemma parse_dec_itoa [simp]: "parse_dec (itoa n) = Some n"
  by (simp add: parse_dec_def)

lemma parse_dec_SomeD: "parse_dec s = Some n \<Longrightarrow> s = itoa n"
  by (auto simp: parse_dec_def itoa_dec_val split: if_splits)

lemma itoa_inj: "itoa m = itoa n \<longleftrightarrow> m = n"
  by (metis dec_val_itoa)

lemma itoa_code [code]: "itoa n = itoa_int (int n)"
proof (induction n rule: itoa.induct)
  case (1 n)
  have "int n div 10 = int (n div 10)" "int n mod 10 = int (n mod 10)" by (simp_all add: of_nat_div of_nat_mod)
  with 1 show ?case by (subst itoa.simps, subst itoa_int.simps) (simp del: of_nat_div of_nat_mod)
qed

lemma dec_int_val: "dec_int s = int (dec_val s)"
  by (induction s rule: rev_induct) (simp_all add: dec_int_def)

lemma FormatInt_nat: "FormatInt (int n) = itoa n"
  by (simp add: FormatInt_def itoa_code)

section \<open>Lemmas: splitting\<close>

lemma split_at_nonempty [simp]: "split_at d s \<noteq> []"
  by (induction s) (auto split: list.splits)

lemma join_split: "join_with [d] (split_at d s) = s"
proof (induction s)
  case (Cons c s)
  obtain w ws where ws: "split_at d s = w # ws"
    by (cases "split_at d s") auto
  with Cons show ?case by (cases ws) auto
qed simp

lemma split_at_append:
  "d \<notin> set w \<Longrightarrow> split_at d (w @ d # s) = w # split_at d s"
  by (induction w) auto

lemma split_at_none: "d \<notin> set w \<Longrightarrow> split_at d w = [w]"
  by (induction w) auto

lemma split_join:
  "ws \<noteq> [] \<Longrightarrow> \<forall>w\<in>set ws. d \<notin> set w \<Longrightarrow> split_at d (join_with [d] ws) = ws"
proof (induction ws rule: induct_list012)
  case (3 w v ws)
  then show ?case by (simp add: split_at_append)
qed (auto simp: split_at_none)

lemma itoa_no_sep: "\<not> is_digit d \<Longrightarrow> d \<notin> set (itoa n)"
  using itoa_digits [of n] by (auto simp: list_all_iff)

end
