(* ===== verification/Mesh_Prefix.thy ===== *)
theory Mesh_Prefix
  imports Mesh_Text "HOL-Library.Word"
begin

unbundle bit_operations_syntax

text \<open>
  IPv4 addresses and prefixes: what \<^verbatim>\<open>internal/control/routes.go\<close> uses of
  \<^verbatim>\<open>net/netip\<close> (parsing, printing, masking, containment, the unicast test) on 32-bit
  words, the comparison \<^verbatim>\<open>compareIPv4Prefixes\<close> as a linear order, and the
  normalisation of routed subnets.  An input that is not dotted IPv4 is refused
  here; every caller refuses an IPv6 prefix with the same error.
\<close>

section \<open>Addresses and prefixes\<close>

datatype prefix = Prefix (Addr: "32 word") (Bits: nat)

definition octet :: "nat \<Rightarrow> 32 word \<Rightarrow> nat" where
  "octet i w = nat (uint w div 256 ^ (3 - i) mod 256)"

definition As4 :: "32 word \<Rightarrow> nat list" where
  "As4 w = [octet 0 w, octet 1 w, octet 2 w, octet 3 w]"

definition from_octets :: "nat \<Rightarrow> nat \<Rightarrow> nat \<Rightarrow> nat \<Rightarrow> 32 word" where
  "from_octets a b c d = word_of_int (((int a * 256 + int b) * 256 + int c) * 256 + int d)"

definition addr_str :: "32 word \<Rightarrow> string" where
  "addr_str w = join_with ''.'' (map itoa (As4 w))"

definition parse_octet :: "string \<Rightarrow> nat option" where
  "parse_octet s = (case parse_dec s of None \<Rightarrow> None | Some n \<Rightarrow> if n \<le> 255 then Some n else None)"

definition ParseAddr :: "string \<Rightarrow> 32 word option" where
  "ParseAddr s =
     (case map parse_octet (split_at (CHR ''.'') s) of
        [Some a, Some b, Some c, Some d] \<Rightarrow> Some (from_octets a b c d)
      | _ \<Rightarrow> None)"

definition prefix_str :: "prefix \<Rightarrow> string" where
  "prefix_str p = addr_str (Addr p) @ ''/'' @ itoa (Bits p)"

definition ParsePrefix :: "string \<Rightarrow> prefix option" where
  "ParsePrefix s =
     (case split_at (CHR ''/'') s of
        [a, b] \<Rightarrow> (case (ParseAddr a, parse_dec b) of
                    (Some w, Some n) \<Rightarrow> if n \<le> 32 then Some (Prefix w n) else None
                  | _ \<Rightarrow> None)
      | _ \<Rightarrow> None)"

definition Masked :: "prefix \<Rightarrow> prefix" where
  "Masked p = Prefix (Addr p AND NOT (mask (32 - Bits p))) (Bits p)"

definition Contains :: "prefix \<Rightarrow> 32 word \<Rightarrow> bool" where
  "Contains p a = (drop_bit (32 - Bits p) (a XOR Addr p) = 0)"

definition IsGlobalUnicast :: "32 word \<Rightarrow> bool" where
  "IsGlobalUnicast w =
     (w \<noteq> 0 \<and> w \<noteq> - 1 \<and> octet 0 w \<noteq> 127 \<and> \<not> (224 \<le> octet 0 w \<and> octet 0 w \<le> 239) \<and>
      \<not> (octet 0 w = 169 \<and> octet 1 w = 254))"

section \<open>Comparison\<close>

definition prefixesOverlap :: "prefix \<Rightarrow> prefix \<Rightarrow> bool" where
  "prefixesOverlap left right = (Contains left (Addr right) \<or> Contains right (Addr left))"

fun compare_octets :: "nat list \<Rightarrow> nat list \<Rightarrow> int" where
  "compare_octets (l # ls) (r # rs) =
     (if l < r then -1 else if r < l then 1 else compare_octets ls rs)"
| "compare_octets _ _ = 0"

definition compareIPv4Prefixes :: "prefix \<Rightarrow> prefix \<Rightarrow> int" where
  "compareIPv4Prefixes left right =
     (let c = compare_octets (As4 (Addr left)) (As4 (Addr right)) in
      if c \<noteq> 0 then c
      else if Bits left < Bits right then -1
      else if Bits right < Bits left then 1 else 0)"

instantiation prefix :: linorder
begin

definition less_eq_prefix :: "prefix \<Rightarrow> prefix \<Rightarrow> bool" where
  "less_eq_prefix p q = (Addr p < Addr q \<or> Addr p = Addr q \<and> Bits p \<le> Bits q)"

definition less_prefix :: "prefix \<Rightarrow> prefix \<Rightarrow> bool" where
  "less_prefix p q = (Addr p < Addr q \<or> Addr p = Addr q \<and> Bits p < Bits q)"

instance
  by standard (auto simp: less_eq_prefix_def less_prefix_def prefix.expand)

end

section \<open>Routed subnets\<close>

abbreviation (input) maxRoutedSubnetsPerNode :: nat where "maxRoutedSubnetsPerNode \<equiv> 8"

definition parseCanonicalRoutedSubnet :: "string \<Rightarrow> prefix result" where
  "parseCanonicalRoutedSubnet value =
     (if value = [] \<or> TrimSpace value \<noteq> value then Inl ErrInternal
      else case ParsePrefix value of
        None \<Rightarrow> Inl ErrInternal
      | Some p \<Rightarrow>
          if p \<noteq> Masked p \<or> prefix_str p \<noteq> value then Inl ErrInternal
          else if Bits p < 1 \<or> \<not> IsGlobalUnicast (Addr p) then Inl ErrInternal
          else Inr p)"

fun scan_routed_subnets :: "string list \<Rightarrow> string list \<Rightarrow> prefix list result" where
  "scan_routed_subnets seen [] = Inr []"
| "scan_routed_subnets seen (raw # raws) =
     (case parseCanonicalRoutedSubnet (TrimSpace raw) of
        Inl e \<Rightarrow> Inl ErrInvalid
      | Inr p \<Rightarrow>
          if prefix_str p \<in> set seen then Inl ErrInvalid
          else (case scan_routed_subnets (prefix_str p # seen) raws of
                  Inl e \<Rightarrow> Inl e
                | Inr ps \<Rightarrow> Inr (p # ps)))"

definition normalizeRoutedSubnets :: "string list \<Rightarrow> string list result" where
  "normalizeRoutedSubnets values =
     (if length values > maxRoutedSubnetsPerNode then Inl ErrInvalid
      else if values = [] then Inr []
      else case scan_routed_subnets [] values of
        Inl e \<Rightarrow> Inl e
      | Inr ps \<Rightarrow>
          (let sorted_prefixes = sort ps in
           if \<not> adjacent_all (\<lambda>p q. \<not> prefixesOverlap p q) sorted_prefixes then Inl ErrInvalid
           else Inr (map prefix_str sorted_prefixes)))"

definition validateCanonicalRoutedSubnets :: "string list \<Rightarrow> unit result" where
  "validateCanonicalRoutedSubnets values =
     (case normalizeRoutedSubnets values of
        Inl e \<Rightarrow> Inl e
      | Inr normalized \<Rightarrow>
          if length normalized \<noteq> length values then Inl ErrInternal
          else if values \<noteq> normalized then Inl ErrInternal
          else Inr ())"

section \<open>Lemmas: printing and parsing\<close>

lemma octet_nat: "octet i w = unat w div 256 ^ (3 - i) mod 256"
proof -
  have "uint w div 256 ^ (3 - i) mod 256 = int (unat w div 256 ^ (3 - i) mod 256)"
    by (simp add: of_nat_div of_nat_mod)
  then show ?thesis unfolding octet_def by (simp only: nat_int)
qed

lemma from_octets_nat:
  "from_octets a b c d = of_nat (((a * 256 + b) * 256 + c) * 256 + d)"
  unfolding from_octets_def by simp

lemma octet_lt [simp]: "octet i w < 256"
  by (simp add: octet_nat)

lemma octet_le [simp]: "octet i w \<le> 255"
  using octet_lt [of i w] by linarith

lemma nat_octets:
  fixes n :: nat
  assumes "n < 4294967296"
  shows "n = ((n div 16777216 mod 256 * 256 + n div 65536 mod 256) * 256 + n div 256 mod 256) * 256 + n mod 256"
proof -
  have "n div 16777216 < 256" using assms by (simp add: div_less_iff_less_mult)
  moreover have "n div 65536 = n div 16777216 * 256 + n div 65536 mod 256"
    using div_mod_decomp [of "n div 65536" 256] by (simp add: div_mult2_eq [symmetric])
  moreover have "n div 256 = n div 65536 * 256 + n div 256 mod 256"
    using div_mod_decomp [of "n div 256" 256] by (simp add: div_mult2_eq [symmetric])
  moreover have "n = n div 256 * 256 + n mod 256" by (rule div_mod_decomp)
  ultimately show ?thesis by (metis mod_less)
qed

lemma unat_octets:
  "unat w = ((octet 0 w * 256 + octet 1 w) * 256 + octet 2 w) * 256 + octet 3 w"
proof -
  have "unat w < 4294967296" using unsigned_less [of w, where ?'a = nat] by simp
  moreover have "(256::nat) ^ (3 - 0) = 16777216" "(256::nat) ^ (3 - 1) = 65536"
    "(256::nat) ^ (3 - 2) = 256" "(256::nat) ^ (3 - 3) = 1" by simp_all
  ultimately show ?thesis
    using nat_octets [of "unat w"] unfolding octet_nat by (simp only: div_by_1)
qed

lemma from_octets_of [simp]:
  "from_octets (octet 0 w) (octet 1 w) (octet 2 w) (octet 3 w) = w"
  unfolding from_octets_nat unat_octets [symmetric] by simp

lemmas [simp] = from_octets_of [unfolded One_nat_def]

lemma base256:
  fixes x d :: nat
  assumes "d \<le> 255"
  shows "(x * 256 + d) div 256 = x" "(x * 256 + d) mod 256 = d"
  using assms by simp_all

lemma octets_from:
  assumes "a \<le> 255" "b \<le> 255" "c \<le> 255" "d \<le> 255"
  shows "octet 0 (from_octets a b c d) = a" "octet 1 (from_octets a b c d) = b"
    "octet 2 (from_octets a b c d) = c" "octet 3 (from_octets a b c d) = d"
proof -
  define n where "n = ((a * 256 + b) * 256 + c) * 256 + d"
  have u: "unat (from_octets a b c d) = n"
    unfolding from_octets_nat n_def [symmetric]
    by (subst unat_of_nat) (use assms n_def in simp)
  have n1: "n div 256 = (a * 256 + b) * 256 + c" "n mod 256 = d"
    unfolding n_def by (rule base256 [OF assms(4)])+
  have n2: "n div 256 div 256 = a * 256 + b" "n div 256 mod 256 = c"
    unfolding n1 by (rule base256 [OF assms(3)])+
  have n3: "n div 256 div 256 div 256 = a" "n div 256 div 256 mod 256 = b"
    unfolding n2 by (rule base256 [OF assms(2)])+
  have e: "n div 65536 = n div 256 div 256" "n div 16777216 = n div 256 div 256 div 256"
    by (simp_all add: div_mult2_eq [symmetric])
  show "octet 0 (from_octets a b c d) = a" "octet 1 (from_octets a b c d) = b"
    "octet 2 (from_octets a b c d) = c" "octet 3 (from_octets a b c d) = d"
    using assms(1) n1 n2 n3 by (simp_all add: octet_nat u e)
qed

lemma As4_inj: "As4 v = As4 w \<longleftrightarrow> v = w"
proof
  assume "As4 v = As4 w"
  then have "octet 0 v = octet 0 w" "octet 1 v = octet 1 w" "octet 2 v = octet 2 w"
    "octet 3 v = octet 3 w" by (simp_all add: As4_def)
  then have "unat v = unat w" by (simp only: unat_octets)
  then show "v = w" by (rule unsigned_word_eqI)
qed simp

lemma dot_not_digit: "\<not> is_digit (CHR ''.'')" "\<not> is_digit (CHR ''/'')"
  by (simp_all add: is_digit_def)

lemma split_addr_str: "split_at (CHR ''.'') (addr_str w) = map itoa (As4 w)"
  unfolding addr_str_def
  by (rule split_join) (auto simp: As4_def itoa_no_sep dot_not_digit)

lemma ParseAddr_str [simp]: "ParseAddr (addr_str w) = Some w"
  by (simp add: ParseAddr_def split_addr_str As4_def parse_octet_def)

lemma parse_octet_SomeD: "parse_octet s = Some n \<Longrightarrow> s = itoa n \<and> n \<le> 255"
  by (auto simp: parse_octet_def split: option.splits if_splits dest: parse_dec_SomeD)

lemma ParseAddr_SomeD:
  assumes "ParseAddr s = Some w"
  shows "s = addr_str w"
proof -
  from assms obtain a b c d where
    o: "map parse_octet (split_at (CHR ''.'') s) = [Some a, Some b, Some c, Some d]"
    and w: "w = from_octets a b c d"
    by (auto simp: ParseAddr_def split: list.splits option.splits)
  then have p: "split_at (CHR ''.'') s = [itoa a, itoa b, itoa c, itoa d]"
    and le: "a \<le> 255" "b \<le> 255" "c \<le> 255" "d \<le> 255"
    by (auto simp: map_eq_Cons_conv dest: parse_octet_SomeD)
  have "s = join_with ''.'' [itoa a, itoa b, itoa c, itoa d]"
    using join_split [of "CHR ''.''" s] p by simp
  then show ?thesis by (simp add: addr_str_def As4_def w octets_from [unfolded One_nat_def] le)
qed

lemma addr_str_chars: "x \<in> set (addr_str w) \<Longrightarrow> is_digit x \<or> x = CHR ''.''"
  using itoa_digits by (auto simp: addr_str_def As4_def list_all_iff)

lemma slash_not_in_addr [simp]: "CHR ''/'' \<notin> set (addr_str w)"
  using addr_str_chars [of "CHR ''/''" w] by (auto simp: dot_not_digit)

lemma split_prefix_str:
  "split_at (CHR ''/'') (prefix_str p) = [addr_str (Addr p), itoa (Bits p)]"
  by (simp add: prefix_str_def split_at_append split_at_none itoa_no_sep dot_not_digit)

lemma ParsePrefix_str: "Bits p \<le> 32 \<Longrightarrow> ParsePrefix (prefix_str p) = Some p"
  by (simp add: ParsePrefix_def split_prefix_str)

lemma ParsePrefix_SomeD:
  assumes "ParsePrefix s = Some p"
  shows "s = prefix_str p \<and> Bits p \<le> 32"
proof -
  from assms obtain a b where sp: "split_at (CHR ''/'') s = [a, b]"
    and a: "ParseAddr a = Some (Addr p)" and b: "parse_dec b = Some (Bits p)" and "Bits p \<le> 32"
    by (auto simp: ParsePrefix_def split: list.splits option.splits if_splits)
  then show ?thesis
    using join_split [of "CHR ''/''" s]
    by (auto simp: prefix_str_def dest: ParseAddr_SomeD parse_dec_SomeD)
qed

lemma prefix_str_inj:
  assumes "prefix_str p = prefix_str q"
  shows "p = q"
proof -
  have "[addr_str (Addr p), itoa (Bits p)] = [addr_str (Addr q), itoa (Bits q)]"
    using assms split_prefix_str by metis
  then have "ParseAddr (addr_str (Addr p)) = ParseAddr (addr_str (Addr q))" "itoa (Bits p) = itoa (Bits q)"
    by simp_all
  then show ?thesis by (simp add: itoa_inj prefix.expand)
qed

lemma prefix_str_graphic: "list_all graphic (prefix_str p)"
proof -
  have "graphic (CHR ''.'')" "graphic (CHR ''/'')" by (simp_all add: graphic_def)
  moreover have "graphic x" if "x \<in> set (itoa n)" for x n
    using that itoa_digits [of n] by (auto simp: list_all_iff intro: digit_graphic)
  moreover have "graphic x" if "x \<in> set (addr_str w)" for x w
    using addr_str_chars [OF that] \<open>graphic (CHR ''.'')\<close> by (auto intro: digit_graphic)
  ultimately show ?thesis by (auto simp: prefix_str_def list_all_iff)
qed

lemma prefix_str_nonempty [simp]: "prefix_str p \<noteq> []"
  by (simp add: prefix_str_def)

lemma TrimSpace_prefix_str [simp]: "TrimSpace (prefix_str p) = prefix_str p"
  by (rule TrimSpace_graphic) (rule prefix_str_graphic)

section \<open>Lemmas: containment, overlap and order\<close>

lemma xor_eq_0: "(a XOR b = 0) \<longleftrightarrow> a = (b :: 'a::len word)"
  by (metis xor_self_eq bit.xor_left_self xor.right_neutral)

lemma Contains_iff:
  "Contains p a \<longleftrightarrow> drop_bit (32 - Bits p) a = drop_bit (32 - Bits p) (Addr p)"
  by (simp add: Contains_def xor_eq_0)

lemma Contains_Addr [simp]: "Contains p (Addr p)"
  by (simp add: Contains_iff)

lemma drop_bit_weaken:
  fixes a b :: "'a::len word"
  assumes "drop_bit m a = drop_bit m b" "m \<le> n"
  shows "drop_bit n a = drop_bit n b"
proof -
  have "drop_bit (n - m + m) a = drop_bit (n - m + m) b"
    unfolding drop_bit_drop_bit [symmetric] by (simp only: assms(1))
  with assms(2) show ?thesis by simp
qed

lemma unat_drop_bit: "unat (drop_bit n w) = unat w div 2 ^ n"
  by (simp add: unsigned_drop_bit_eq take_bit_nat_eq_self flip: drop_bit_eq_div)

lemma drop_bit_between:
  fixes a b c :: "'a::len word"
  assumes "a \<le> b" "b \<le> c" "drop_bit n a = drop_bit n c"
  shows "drop_bit n b = drop_bit n a"
proof -
  have "unat a div 2 ^ n = unat c div 2 ^ n"
    using arg_cong [OF assms(3), of unat] by (simp only: unat_drop_bit)
  moreover have "unat a div 2 ^ n \<le> unat b div 2 ^ n" "unat b div 2 ^ n \<le> unat c div 2 ^ n"
    using assms(1,2) by (simp_all add: word_le_nat_alt div_le_mono)
  ultimately have "unat (drop_bit n b) = unat (drop_bit n a)"
    by (simp only: unat_drop_bit)
  then show ?thesis by (rule unsigned_word_eqI)
qed

lemma prefixesOverlap_commute: "prefixesOverlap p q = prefixesOverlap q p"
  by (auto simp: prefixesOverlap_def)

lemma prefixesOverlap_refl [simp]: "prefixesOverlap p p"
  by (simp add: prefixesOverlap_def)

lemma prefixesOverlap_le:
  assumes "Bits p \<le> Bits q"
  shows "prefixesOverlap p q \<longleftrightarrow> Contains p (Addr q)"
  using assms drop_bit_weaken [of "32 - Bits q" "Addr p" "Addr q" "32 - Bits p"]
  by (auto simp: prefixesOverlap_def Contains_iff)

lemma overlap_common_le:
  assumes "Bits p \<le> Bits q"
  shows "prefixesOverlap p q \<longleftrightarrow> (\<exists>a. Contains p a \<and> Contains q a)"
proof
  assume "prefixesOverlap p q"
  with prefixesOverlap_le [OF assms] show "\<exists>a. Contains p a \<and> Contains q a"
    by (intro exI [of _ "Addr q"]) simp
next
  assume "\<exists>a. Contains p a \<and> Contains q a"
  then obtain a where a: "drop_bit (32 - Bits p) a = drop_bit (32 - Bits p) (Addr p)"
    "drop_bit (32 - Bits q) a = drop_bit (32 - Bits q) (Addr q)"
    by (auto simp: Contains_iff)
  from drop_bit_weaken [OF a(2), of "32 - Bits p"] assms a(1) show "prefixesOverlap p q"
    by (simp add: prefixesOverlap_def Contains_iff)
qed

lemma overlap_common:
  "prefixesOverlap p q \<longleftrightarrow> (\<exists>a. Contains p a \<and> Contains q a)"
  using overlap_common_le [of p q] overlap_common_le [of q p] prefixesOverlap_commute [of p q]
  by (cases "Bits p \<le> Bits q") auto

lemma prefix_le_Addr: "p \<le> q \<Longrightarrow> Addr p \<le> Addr q"
  by (auto simp: less_eq_prefix_def)

text \<open>
  Between two overlapping prefixes in the order every prefix overlaps the first
  one, or the last one when that is the shorter: this makes the comparison of
  neighbours enough.
\<close>

lemma overlap_between_first:
  assumes "p \<le> q" "q \<le> r" "prefixesOverlap p r" "Bits p \<le> Bits r"
  shows "prefixesOverlap p q"
  using drop_bit_between [of "Addr p" "Addr q" "Addr r" "32 - Bits p"] assms
  by (simp add: prefixesOverlap_le) (simp add: prefixesOverlap_def Contains_iff prefix_le_Addr)

lemma overlap_between_last:
  assumes "p \<le> q" "q \<le> r" "prefixesOverlap p r" "Bits r \<le> Bits p"
  shows "prefixesOverlap q r"
proof -
  have "Contains r (Addr p)"
    using assms(3,4) prefixesOverlap_le prefixesOverlap_commute by blast
  then have "drop_bit (32 - Bits r) (Addr q) = drop_bit (32 - Bits r) (Addr r)"
    using drop_bit_between [of "Addr p" "Addr q" "Addr r" "32 - Bits r"] assms(1,2)
    by (simp add: Contains_iff prefix_le_Addr)
  then show ?thesis by (simp add: prefixesOverlap_def Contains_iff)
qed

lemma base256_less:
  fixes a b c d :: nat
  assumes "b < 256" "d < 256"
  shows "a * 256 + b < c * 256 + d \<longleftrightarrow> a < c \<or> a = c \<and> b < d"
  using assms by (cases a c rule: linorder_cases) auto

lemma base256_eq:
  fixes a b c d :: nat
  assumes "b < 256" "d < 256"
  shows "a * 256 + b = c * 256 + d \<longleftrightarrow> a = c \<and> b = d"
  using assms by (cases a c rule: linorder_cases) auto

lemma compare_octets_lt:
  "compare_octets (As4 v) (As4 w) < 0 \<longleftrightarrow> v < w"
  "compare_octets (As4 v) (As4 w) = 0 \<longleftrightarrow> v = w"
proof -
  have "v < w \<longleftrightarrow>
      octet 0 v < octet 0 w \<or> octet 0 v = octet 0 w \<and>
      (octet 1 v < octet 1 w \<or> octet 1 v = octet 1 w \<and>
      (octet 2 v < octet 2 w \<or> octet 2 v = octet 2 w \<and> octet 3 v < octet 3 w))"
    unfolding word_less_nat_alt unat_octets base256_less [OF octet_lt octet_lt]
      base256_eq [OF octet_lt octet_lt] by blast
  then show "compare_octets (As4 v) (As4 w) < 0 \<longleftrightarrow> v < w"
    unfolding As4_def by simp
  show "compare_octets (As4 v) (As4 w) = 0 \<longleftrightarrow> v = w"
    unfolding As4_inj [symmetric] by (auto simp: As4_def split: if_splits)
qed

lemma compareIPv4Prefixes_less: "compareIPv4Prefixes p q < 0 \<longleftrightarrow> p < q"
  using compare_octets_lt [of "Addr p" "Addr q"]
  by (auto simp: compareIPv4Prefixes_def Let_def less_prefix_def)

lemma compareIPv4Prefixes_eq: "compareIPv4Prefixes p q = 0 \<longleftrightarrow> p = q"
  using compare_octets_lt(2) [of "Addr p" "Addr q"]
  by (auto simp: compareIPv4Prefixes_def Let_def prefix.expand)

lemma sorted_adjacent_disjoint:
  assumes "sorted ps" "adjacent_all (\<lambda>p q. \<not> prefixesOverlap p q) ps" "i < j" "j < length ps"
  shows "\<not> prefixesOverlap (ps ! i) (ps ! j)"
proof
  assume ov: "prefixesOverlap (ps ! i) (ps ! j)"
  have adj: "\<not> prefixesOverlap (ps ! k) (ps ! Suc k)" if "Suc k < length ps" for k
    using assms(2) that by (simp add: adjacent_all_conv)
  have le: "ps ! k \<le> ps ! l" if "k \<le> l" "l < length ps" for k l
    using assms(1) that by (simp add: sorted_nth_mono)
  obtain m where m: "j = Suc m" "i \<le> m" using assms(3) by (cases j) auto
  show False
  proof (cases "Bits (ps ! i) \<le> Bits (ps ! j)")
    case True
    then show False
      using overlap_between_first [of "ps ! i" "ps ! Suc i" "ps ! j"] ov adj [of i] le assms(3,4)
      by simp
  next
    case False
    then show False
      using overlap_between_last [of "ps ! i" "ps ! m" "ps ! j"] ov adj [of m] le m assms(4)
      by simp
  qed
qed

section \<open>Lemmas: normalisation\<close>

text \<open>What \<^verbatim>\<open>parseCanonicalRoutedSubnet\<close> accepts, as a property of the prefix.\<close>

definition canonical_routed :: "prefix \<Rightarrow> bool" where
  "canonical_routed p =
     (p = Masked p \<and> 1 \<le> Bits p \<and> Bits p \<le> 32 \<and> IsGlobalUnicast (Addr p))"

lemma parseCanonicalRoutedSubnet_iff:
  "parseCanonicalRoutedSubnet s = Inr p \<longleftrightarrow> s = prefix_str p \<and> canonical_routed p"
proof
  assume "parseCanonicalRoutedSubnet s = Inr p"
  then have "ParsePrefix s = Some p" "p = Masked p" "1 \<le> Bits p" "IsGlobalUnicast (Addr p)"
    by (auto simp: parseCanonicalRoutedSubnet_def split: if_splits option.splits)
  then show "s = prefix_str p \<and> canonical_routed p"
    by (auto simp: canonical_routed_def dest: ParsePrefix_SomeD)
next
  assume "s = prefix_str p \<and> canonical_routed p"
  then show "parseCanonicalRoutedSubnet s = Inr p"
    by (auto simp: parseCanonicalRoutedSubnet_def canonical_routed_def ParsePrefix_str)
qed

lemma scan_routed_subnets_iff:
  "scan_routed_subnets seen xs = Inr ps \<longleftrightarrow>
     map TrimSpace xs = map prefix_str ps \<and> list_all canonical_routed ps \<and>
     distinct (map prefix_str ps) \<and> set (map prefix_str ps) \<inter> set seen = {}"
proof (induction seen xs arbitrary: ps rule: scan_routed_subnets.induct)
  case (1 seen)
  then show ?case by auto
next
  case (2 seen raw raws)
  show ?case
  proof (cases ps)
    case Nil
    then show ?thesis by (auto split: sum.splits)
  next
    case (Cons p qs)
    have "scan_routed_subnets seen (raw # raws) = Inr ps \<longleftrightarrow>
        parseCanonicalRoutedSubnet (TrimSpace raw) = Inr p \<and> prefix_str p \<notin> set seen \<and>
        scan_routed_subnets (prefix_str p # seen) raws = Inr qs"
      using Cons by (auto split: sum.splits)
    then show ?thesis
      using 2 [of p qs] Cons by (auto simp: parseCanonicalRoutedSubnet_iff)
  qed
qed

definition disjoint_prefixes :: "prefix list \<Rightarrow> bool" where
  "disjoint_prefixes = sorted_wrt (\<lambda>p q. \<not> prefixesOverlap p q)"

lemma disjoint_prefixes_sort [simp]: "disjoint_prefixes (sort ps) = disjoint_prefixes ps"
  unfolding disjoint_prefixes_def
  by (rule sorted_wrt_symp_perm) (auto intro!: sympI simp: prefixesOverlap_commute)

lemma disjoint_prefixes_adjacent:
  "sorted ps \<Longrightarrow> adjacent_all (\<lambda>p q. \<not> prefixesOverlap p q) ps \<longleftrightarrow> disjoint_prefixes ps"
  by (auto simp: disjoint_prefixes_def sorted_wrt_iff_nth_less sorted_adjacent_disjoint
      intro: adjacent_all_sorted_wrt)

lemma disjoint_prefixes_distinct: "disjoint_prefixes ps \<Longrightarrow> distinct ps"
  unfolding disjoint_prefixes_def by (induction ps) auto

lemma inj_prefix_str: "inj_on prefix_str A"
  by (auto intro: inj_onI prefix_str_inj)

lemma distinct_prefix_str [simp]: "distinct (map prefix_str ps) \<longleftrightarrow> distinct ps"
  by (simp add: distinct_map inj_prefix_str)

lemma normalizeRoutedSubnets_iff:
  "normalizeRoutedSubnets xs = Inr ys \<longleftrightarrow>
     length xs \<le> maxRoutedSubnetsPerNode \<and>
     (\<exists>ps. map TrimSpace xs = map prefix_str ps \<and> list_all canonical_routed ps \<and>
           disjoint_prefixes ps \<and> ys = map prefix_str (sort ps))"
proof (cases "xs = []")
  case True
  then show ?thesis by (auto simp: normalizeRoutedSubnets_def disjoint_prefixes_def)
next
  case False
  have "normalizeRoutedSubnets xs = Inr ys \<longleftrightarrow> length xs \<le> 8 \<and>
      (\<exists>ps. scan_routed_subnets [] xs = Inr ps \<and> disjoint_prefixes ps \<and> ys = map prefix_str (sort ps))"
    using False
    by (auto simp: normalizeRoutedSubnets_def Let_def disjoint_prefixes_adjacent split: sum.splits)
  then show ?thesis
    by (auto simp: scan_routed_subnets_iff dest: disjoint_prefixes_distinct)
qed

lemma normalizeRoutedSubnets_idem:
  "normalizeRoutedSubnets xs = Inr ys \<Longrightarrow> normalizeRoutedSubnets ys = Inr ys"
proof -
  assume "normalizeRoutedSubnets xs = Inr ys"
  then obtain ps where ps: "map TrimSpace xs = map prefix_str ps" "list_all canonical_routed ps"
    "disjoint_prefixes ps" "ys = map prefix_str (sort ps)" "length xs \<le> 8"
    by (auto simp: normalizeRoutedSubnets_iff)
  then have "length ys \<le> 8" by (metis length_map length_sort)
  moreover have "map TrimSpace ys = map prefix_str (sort ps)" using ps by simp
  ultimately show ?thesis
    unfolding normalizeRoutedSubnets_iff
    using ps by (auto intro!: exI [of _ "sort ps"] simp: list_all_iff sorted_sort_id)
qed

lemma validateCanonicalRoutedSubnets_iff:
  "validateCanonicalRoutedSubnets xs = Inr () \<longleftrightarrow> normalizeRoutedSubnets xs = Inr xs"
  by (auto simp: validateCanonicalRoutedSubnets_def split: sum.splits)

lemma canonical_subnets_iff:
  "normalizeRoutedSubnets xs = Inr xs \<longleftrightarrow>
     length xs \<le> maxRoutedSubnetsPerNode \<and>
     (\<exists>ps. xs = map prefix_str ps \<and> list_all canonical_routed ps \<and>
           disjoint_prefixes ps \<and> sorted ps)"
proof
  assume n: "normalizeRoutedSubnets xs = Inr xs"
  then obtain ps where "xs = map prefix_str (sort ps)" "list_all canonical_routed ps"
    "disjoint_prefixes ps" "length xs \<le> 8"
    by (auto simp: normalizeRoutedSubnets_iff)
  then show "length xs \<le> 8 \<and> (\<exists>ps. xs = map prefix_str ps \<and> list_all canonical_routed ps \<and>
           disjoint_prefixes ps \<and> sorted ps)"
    by (auto intro!: exI [of _ "sort ps"] simp: list_all_iff)
next
  assume "length xs \<le> 8 \<and> (\<exists>ps. xs = map prefix_str ps \<and> list_all canonical_routed ps \<and>
           disjoint_prefixes ps \<and> sorted ps)"
  then obtain ps where "length xs \<le> 8" "xs = map prefix_str ps" "list_all canonical_routed ps"
    "disjoint_prefixes ps" "sorted ps" by blast
  then show "normalizeRoutedSubnets xs = Inr xs"
    unfolding normalizeRoutedSubnets_iff
    by (auto simp: o_def sorted_sort_id intro!: exI [of _ ps])
qed

lemma canonical_subnets_distinct: "normalizeRoutedSubnets xs = Inr xs \<Longrightarrow> distinct xs"
  by (auto simp: canonical_subnets_iff dest: disjoint_prefixes_distinct)

text \<open>Canonical lists are determined by their sets.\<close>

lemma canonical_subnets_eqI:
  assumes "normalizeRoutedSubnets xs = Inr xs" "normalizeRoutedSubnets ys = Inr ys"
    and "set xs = set ys"
  shows "xs = ys"
proof -
  obtain ps qs where ps: "xs = map prefix_str ps" "disjoint_prefixes ps" "sorted ps"
    and qs: "ys = map prefix_str qs" "disjoint_prefixes qs" "sorted qs"
    using assms(1,2) by (auto simp: canonical_subnets_iff)
  then have "set ps = set qs"
    using assms(3) inj_image_eq_iff [of prefix_str "set ps" "set qs"] by (simp add: inj_prefix_str)
  then have "ps = qs"
    using ps qs by (intro sorted_distinct_set_unique) (auto dest: disjoint_prefixes_distinct)
  with ps qs show ?thesis by simp
qed

lemma Contains_div:
  "Contains p a \<longleftrightarrow> unat a div 2 ^ (32 - Bits p) = unat (Addr p) div 2 ^ (32 - Bits p)"
  unfolding Contains_iff unat_drop_bit [symmetric] by (auto intro: unsigned_word_eqI)

section \<open>Properties\<close>

text \<open>Two prefixes overlap, by the two containment tests of \<^verbatim>\<open>prefixesOverlap\<close>, exactly
  when their blocks of \<open>2 ^ (32 - bits)\<close> consecutive addresses have an address in common,
  whatever their lengths and whether or not their addresses are masked.\<close>

theorem prefixesOverlap_iff_common_address:
  "prefixesOverlap p q \<longleftrightarrow>
     {a :: 32 word. unat a div 2 ^ (32 - Bits p) = unat (Addr p) div 2 ^ (32 - Bits p)} \<inter>
     {a. unat a div 2 ^ (32 - Bits q) = unat (Addr q) div 2 ^ (32 - Bits q)} \<noteq> {}"
  unfolding overlap_common Contains_div Int_def mem_Collect_eq by (simp only: Collect_empty_eq not_all not_not)

text \<open>C29. Normalising routed subnets succeeds exactly when there are at most eight inputs and each,
  without its surrounding space, is the print of a masked, non-default prefix with a unicast
  root, no two of which share an address; the result is then the prints in the order of
  \<^verbatim>\<open>compareIPv4Prefixes\<close>, so the comparison of neighbours after sorting misses no overlap.\<close>

theorem normalizeRoutedSubnets_spec:
  "normalizeRoutedSubnets xs = Inr ys \<longleftrightarrow>
     length xs \<le> 8 \<and>
     (\<exists>ps. map TrimSpace xs = map prefix_str ps \<and>
           list_all (\<lambda>p. Masked p = p \<and> 1 \<le> Bits p \<and> Bits p \<le> 32 \<and> IsGlobalUnicast (Addr p)) ps \<and>
           sorted_wrt (\<lambda>p q. \<not> (\<exists>a. Contains p a \<and> Contains q a)) ps \<and>
           ys = map prefix_str (sort ps) \<and>
           sorted_wrt (\<lambda>p q. compareIPv4Prefixes p q < 0) (sort ps))"
proof -
  have can: "canonical_routed = (\<lambda>p. Masked p = p \<and> 1 \<le> Bits p \<and> Bits p \<le> 32 \<and> IsGlobalUnicast (Addr p))"
    by (auto simp: canonical_routed_def fun_eq_iff)
  have "sorted_wrt (<) (sort ps)" if "disjoint_prefixes ps" for ps
    using disjoint_prefixes_distinct [OF that] by (simp add: strict_sorted_iff)
  then have "disjoint_prefixes ps \<and> ys = map prefix_str (sort ps) \<longleftrightarrow>
      sorted_wrt (\<lambda>p q. \<not> (\<exists>a. Contains p a \<and> Contains q a)) ps \<and> ys = map prefix_str (sort ps) \<and>
      sorted_wrt (\<lambda>p q. compareIPv4Prefixes p q < 0) (sort ps)" for ps
    unfolding compareIPv4Prefixes_less overlap_common [symmetric] disjoint_prefixes_def by metis
  then show ?thesis
    unfolding normalizeRoutedSubnets_iff can by (simp only:)
qed

text \<open>A normalised list of routed subnets is a fixed point: normalising it again returns it,
  it passes \<^verbatim>\<open>validateCanonicalRoutedSubnets\<close>, and reparsing and reprinting each of its
  entries gives the entry back.\<close>

theorem normalizeRoutedSubnets_fixed_point:
  assumes "normalizeRoutedSubnets xs = Inr ys"
  shows "normalizeRoutedSubnets ys = Inr ys \<and> validateCanonicalRoutedSubnets ys = Inr () \<and>
         map (\<lambda>s. map_option prefix_str (ParsePrefix s)) ys = map Some ys"
proof -
  have "normalizeRoutedSubnets ys = Inr ys" by (rule normalizeRoutedSubnets_idem [OF assms])
  moreover from this obtain ps where "ys = map prefix_str ps" "list_all canonical_routed ps"
    by (auto simp: canonical_subnets_iff)
  ultimately show ?thesis
    by (auto simp: validateCanonicalRoutedSubnets_iff list_all_iff canonical_routed_def ParsePrefix_str)
qed

theorem normalizeRoutedSubnets_fixed_point_witness:
  "normalizeRoutedSubnets [''192.168.10.0/24 '', '' 10.20.0.0/16''] = Inr [''10.20.0.0/16'', ''192.168.10.0/24''] \<and>
   validateCanonicalRoutedSubnets [''10.20.0.0/16'', ''192.168.10.0/24''] = Inr ()"
proof -
  have n: "normalizeRoutedSubnets [''192.168.10.0/24 '', '' 10.20.0.0/16''] = Inr [''10.20.0.0/16'', ''192.168.10.0/24'']"
    by code_simp
  show ?thesis
    by (rule conjI [OF n conjunct1 [OF conjunct2 [OF normalizeRoutedSubnets_fixed_point [OF n]]]])
qed

text \<open>
  The comment above the unicast test says that loopback, link-local and multicast ranges
  are refused; the test reads only the root address of the prefix.
\<close>

lemma routed_subnet_covers_loopback:
  "parseCanonicalRoutedSubnet ''64.0.0.0/2'' = Inr (Prefix 0x40000000 2)"
  "Contains (Prefix 0x40000000 2) 0x7F000001"
  "parseCanonicalRoutedSubnet ''128.0.0.0/1'' = Inr (Prefix 0x80000000 1)"
  "Contains (Prefix 0x80000000 1) 0xE0000001" "Contains (Prefix 0x80000000 1) 0xA9FE0001"
  by code_simp+

end
