(* ===== verification/Mesh_Token.thy ===== *)
theory Mesh_Token
  imports Mesh_Text
begin

text \<open>
  Bearer tokens, token hashes and digests (\<^verbatim>\<open>internal/control/crypto.go\<close>) and the actors that
  audit events are attributed to (\<^verbatim>\<open>actor.go\<close>).  What the code uses of
  \<^verbatim>\<open>encoding/base64\<close> and \<^verbatim>\<open>encoding/hex\<close> is defined here on lists of byte values.
  SHA-256 is an argument \<open>sha\<close> of the definitions that hash, a function from the hashed bytes to the
  bytes of the sum; no theorem depends on which function it is.
\<close>

section \<open>Unpadded URL-safe base64\<close>

definition b64_alphabet :: string where
  "b64_alphabet = ''ABCDEFGHIJKLMNOPQRSTUVWXYZabcdefghijklmnopqrstuvwxyz0123456789-_''"

definition b64_char :: "nat \<Rightarrow> char" where
  "b64_char n = b64_alphabet ! n"

definition b64_val :: "char \<Rightarrow> nat option" where
  "b64_val c = find_idx ((=) c) b64_alphabet"

fun b64_enc :: "nat list \<Rightarrow> nat list" where
  "b64_enc [] = []"
| "b64_enc [x] = [x div 4, x mod 4 * 16]"
| "b64_enc [x, y] = [x div 4, x mod 4 * 16 + y div 16, y mod 16 * 4]"
| "b64_enc (x # y # z # bs) =
     [x div 4, x mod 4 * 16 + y div 16, y mod 16 * 4 + z div 64, z mod 64] @ b64_enc bs"

text \<open>The decoder ignores the unused low bits of the last character, as \<^verbatim>\<open>RawURLEncoding\<close> does.\<close>

fun b64_dec :: "nat list \<Rightarrow> nat list option" where
  "b64_dec [] = Some []"
| "b64_dec [a] = None"
| "b64_dec [a, b] = Some [a * 4 + b div 16]"
| "b64_dec [a, b, c] = Some [a * 4 + b div 16, b mod 16 * 16 + c div 4]"
| "b64_dec (a # b # c # d # vs) =
     map_option (\<lambda>bs. [a * 4 + b div 16, b mod 16 * 16 + c div 4, c mod 4 * 64 + d] @ bs) (b64_dec vs)"

fun all_some :: "'a option list \<Rightarrow> 'a list option" where
  "all_some [] = Some []"
| "all_some (None # xs) = None"
| "all_some (Some x # xs) = map_option ((#) x) (all_some xs)"

definition EncodeToString :: "nat list \<Rightarrow> string" where
  "EncodeToString bs = map b64_char (b64_enc bs)"

text \<open>Carriage returns and line feeds are skipped anywhere in the input.\<close>

definition DecodeString :: "string \<Rightarrow> nat list option" where
  "DecodeString s =
     (case all_some (map b64_val (filter (\<lambda>c. c \<noteq> CHR 0x0A \<and> c \<noteq> CHR 0x0D) s)) of
        None \<Rightarrow> None
      | Some vs \<Rightarrow> b64_dec vs)"

section \<open>Hashes of tokens\<close>

type_synonym sha256 = "string \<Rightarrow> nat list"

definition hex_digit :: "nat \<Rightarrow> char" where
  "hex_digit n = ''0123456789abcdef'' ! n"

definition hex_string :: "nat list \<Rightarrow> string" where
  "hex_string bs = concat (map (\<lambda>b. [hex_digit (b div 16), hex_digit (b mod 16)]) bs)"

definition ConfigDigest :: "sha256 \<Rightarrow> string \<Rightarrow> string" where
  "ConfigDigest sha config = hex_string (sha config)"

definition HashToken :: "sha256 \<Rightarrow> string \<Rightarrow> string" where
  "HashToken sha token = EncodeToString (sha token)"

definition ValidTokenHash :: "string \<Rightarrow> bool" where
  "ValidTokenHash encoded =
     (case DecodeString encoded of
        None \<Rightarrow> False
      | Some decoded \<Rightarrow> length decoded = 32 \<and> EncodeToString decoded = encoded)"

definition ValidBearerToken :: "string \<Rightarrow> bool" where
  "ValidBearerToken token =
     (case DecodeString token of
        None \<Rightarrow> False
      | Some decoded \<Rightarrow> length decoded = 32 \<and> EncodeToString decoded = token)"

definition TokenHashEqual :: "string \<Rightarrow> string \<Rightarrow> bool" where
  "TokenHashEqual expected actual =
     (case (DecodeString expected, DecodeString actual) of
        (Some a, Some b) \<Rightarrow> length a = 32 \<and> length b = 32 \<and> a = b
      | _ \<Rightarrow> False)"

definition TokenEqual :: "sha256 \<Rightarrow> string \<Rightarrow> string \<Rightarrow> bool" where
  "TokenEqual sha expectedHash token =
     (case DecodeString expectedHash of
        None \<Rightarrow> False
      | Some a \<Rightarrow> length a = length (sha token) \<and> a = sha token)"

abbreviation adminCredentialVerifierPrefix :: string where
  "adminCredentialVerifierPrefix \<equiv> ''v1:''"

definition TrimPrefix :: "string \<Rightarrow> string \<Rightarrow> string" where
  "TrimPrefix s p = (if prefix p s then drop (length p) s else s)"

definition ValidAdminCredentialVerifier :: "string \<Rightarrow> bool" where
  "ValidAdminCredentialVerifier verifier =
     (prefix adminCredentialVerifierPrefix verifier \<and>
      ValidTokenHash (TrimPrefix verifier adminCredentialVerifierPrefix))"

definition ValidMasterKeyVerifier :: "string \<Rightarrow> bool" where
  "ValidMasterKeyVerifier verifier = ValidAdminCredentialVerifier verifier"

definition adminCredentialVerifierEqual :: "string \<Rightarrow> string \<Rightarrow> bool" where
  "adminCredentialVerifierEqual expected actual =
     (if \<not> ValidAdminCredentialVerifier expected \<or> \<not> ValidAdminCredentialVerifier actual then False
      else TokenHashEqual (TrimPrefix expected adminCredentialVerifierPrefix)
             (TrimPrefix actual adminCredentialVerifierPrefix))"

definition masterKeyVerifierEqual :: "string \<Rightarrow> string \<Rightarrow> bool" where
  "masterKeyVerifierEqual expected actual = adminCredentialVerifierEqual expected actual"

section \<open>Actors\<close>

record Actor =
  actorID :: string
  actorKind :: string
  actorSessionID :: string

abbreviation legacyAdminActorID :: string where "legacyAdminActorID \<equiv> ''legacy_admin''"

definition LegacyAdminActor :: Actor where
  "LegacyAdminActor = \<lparr>actorID = legacyAdminActorID, actorKind = ''legacy_admin'', actorSessionID = []\<rparr>"

definition canonical_sha256_suffix :: "string \<Rightarrow> bool" where
  "canonical_sha256_suffix suf =
     (length suf = 43 \<and>
      (case DecodeString suf of
         None \<Rightarrow> False
       | Some decoded \<Rightarrow> length decoded = 32 \<and> EncodeToString decoded = suf))"

definition record_form :: "string \<Rightarrow> string \<Rightarrow> bool" where
  "record_form pre ident =
     (TrimPrefix ident pre \<noteq> ident \<and> validPersistedID (TrimPrefix ident pre))"

definition validateActor :: "Actor \<Rightarrow> unit result" where
  "validateActor actor =
     (if \<not> validPersistedID (actorID actor) then Inl ErrInvalid
      else if actorKind actor = ''oidc_admin'' \<and>
           (TrimPrefix (actorID actor) ''oidc_'' = actorID actor \<or>
            \<not> canonical_sha256_suffix (TrimPrefix (actorID actor) ''oidc_'')) then Inl ErrInvalid
      else if actorKind actor = ''legacy_admin'' \<and> actorID actor \<noteq> legacyAdminActorID then Inl ErrInvalid
      else if actorKind actor = ''service_account'' \<and> \<not> record_form ''service_'' (actorID actor) then Inl ErrInvalid
      else if actorKind actor = ''break_glass'' \<and> \<not> record_form ''breakglass_'' (actorID actor) then Inl ErrInvalid
      else if actorKind actor = ''node_agent'' \<and> actorSessionID actor \<noteq> [] then Inl ErrInvalid
      else if actorKind actor \<notin> {''oidc_admin'', ''legacy_admin'', ''service_account'', ''break_glass'', ''node_agent''}
        then Inl ErrInvalid
      else if actorSessionID actor \<noteq> [] \<and> \<not> validPersistedID (actorSessionID actor) then Inl ErrInvalid
      else Inr ())"

section \<open>Lemmas: base64\<close>

lemma b64_alphabet_length [simp]: "length b64_alphabet = 64"
  and b64_alphabet_distinct: "distinct b64_alphabet"
  by (simp_all add: b64_alphabet_def)

lemma b64_val_char: "n < 64 \<Longrightarrow> b64_val (b64_char n) = Some n"
proof -
  assume n: "n < 64"
  then obtain i where i: "find_idx ((=) (b64_alphabet ! n)) b64_alphabet = Some i"
    by (cases "find_idx ((=) (b64_alphabet ! n)) b64_alphabet") (auto simp: find_idx_None)
  then have "i < 64" "b64_alphabet ! n = b64_alphabet ! i"
    by (auto dest: find_idx_lt find_idx_P)
  with n i show ?thesis
    by (simp add: b64_val_def b64_char_def nth_eq_iff_index_eq b64_alphabet_distinct)
qed

lemma b64_char_not_newline: "n < 64 \<Longrightarrow> b64_char n \<noteq> CHR 0x0A \<and> b64_char n \<noteq> CHR 0x0D"
proof -
  assume "n < 64"
  then have "b64_char n \<in> set b64_alphabet" by (simp add: b64_char_def)
  then show ?thesis by (auto simp: b64_alphabet_def)
qed

lemma b64_enc_lt: "\<forall>b\<in>set bs. b < 256 \<Longrightarrow> \<forall>v\<in>set (b64_enc bs). v < 64"
  by (induction bs rule: b64_enc.induct) auto

lemma quad_arith:
  fixes x y z :: nat
  assumes "x < 256" "y < 256" "z < 256"
  shows "x div 4 * 4 + (x mod 4 * 16 + y div 16) div 16 = x"
    "(x mod 4 * 16 + y div 16) mod 16 * 16 + (y mod 16 * 4 + z div 64) div 4 = y"
    "(y mod 16 * 4 + z div 64) mod 4 * 64 + z mod 64 = z"
  using assms by (auto simp: div_mult_mod_eq)

lemma b64_dec_enc: "\<forall>b\<in>set bs. b < 256 \<Longrightarrow> b64_dec (b64_enc bs) = Some bs"
proof (induction bs rule: b64_enc.induct)
  case (4 x y z bs)
  then show ?case using quad_arith [of x y z] by simp
qed auto

lemma all_some_map_Some: "all_some (map (Some \<circ> f) xs) = Some (map f xs)"
  by (induction xs) auto

lemma DecodeString_EncodeToString:
  assumes "\<forall>b\<in>set bs. b < 256"
  shows "DecodeString (EncodeToString bs) = Some bs"
proof -
  let ?vs = "b64_enc bs"
  have lt: "\<forall>v\<in>set ?vs. v < 64" using b64_enc_lt [OF assms] .
  then have "filter (\<lambda>c. c \<noteq> CHR 0x0A \<and> c \<noteq> CHR 0x0D) (map b64_char ?vs) = map b64_char ?vs"
    by (auto simp: filter_id_conv b64_char_not_newline)
  moreover have "map b64_val (map b64_char ?vs) = map (Some \<circ> id) ?vs"
    using lt by (auto simp: b64_val_char)
  ultimately show ?thesis
    using all_some_map_Some [of id ?vs] b64_dec_enc [OF assms]
    by (simp add: DecodeString_def EncodeToString_def del: map_map)
qed

section \<open>Lemmas: token hashes\<close>

text \<open>What a sum of SHA-256 looks like: 32 bytes.\<close>

definition sum_shape :: "sha256 \<Rightarrow> bool" where
  "sum_shape sha \<longleftrightarrow> (\<forall>s. length (sha s) = 32 \<and> (\<forall>b\<in>set (sha s). b < 256))"

lemma ValidTokenHash_HashToken: "sum_shape sha \<Longrightarrow> ValidTokenHash (HashToken sha t)"
  by (simp add: sum_shape_def ValidTokenHash_def HashToken_def DecodeString_EncodeToString)

lemma ValidTokenHash_nonempty: "ValidTokenHash h \<Longrightarrow> h \<noteq> []"
  by (auto simp: ValidTokenHash_def DecodeString_def split: option.splits)

lemma TokenHashEqual_valid:
  assumes "ValidTokenHash a" "ValidTokenHash b"
  shows "TokenHashEqual a b \<longleftrightarrow> a = b"
proof -
  obtain x y where x: "DecodeString a = Some x" "length x = 32" "EncodeToString x = a"
    and y: "DecodeString b = Some y" "length y = 32" "EncodeToString y = b"
    using assms by (cases "DecodeString a"; cases "DecodeString b") (simp_all add: ValidTokenHash_def)
  then have "TokenHashEqual a b \<longleftrightarrow> x = y" by (simp add: TokenHashEqual_def)
  moreover have "x = y \<Longrightarrow> a = b" using x(3) y(3) by (simp only:)
  moreover have "a = b \<Longrightarrow> x = y" using x(1) y(1) by simp
  ultimately show ?thesis by blast
qed

lemma TokenHashEqual_sym: "TokenHashEqual a b = TokenHashEqual b a"
  by (auto simp: TokenHashEqual_def split: option.splits)

lemma TokenEqual_HashToken:
  assumes "sum_shape sha"
  shows "TokenEqual sha h t \<longleftrightarrow> TokenHashEqual h (HashToken sha t)"
  using assms
  by (auto simp: TokenEqual_def TokenHashEqual_def HashToken_def sum_shape_def
      DecodeString_EncodeToString split: option.splits)

lemma TokenEqual_valid:
  "sum_shape sha \<Longrightarrow> ValidTokenHash h \<Longrightarrow> TokenEqual sha h t \<longleftrightarrow> h = HashToken sha t"
  by (simp add: TokenEqual_HashToken TokenHashEqual_valid ValidTokenHash_HashToken)

end
