(* ===== verification/Mesh_Model.thy ===== *)
theory Mesh_Model
  imports Mesh_Prefix Mesh_Token
begin

text \<open>
  The persisted state of the control plane: the types of \<^verbatim>\<open>internal/control/model.go\<close> and the setting
  and state-machine records of \<^verbatim>\<open>dns.go\<close>, \<^verbatim>\<open>relays.go\<close>, \<^verbatim>\<open>ca_rotation.go\<close>, \<^verbatim>\<open>firewall.go\<close> and
  \<^verbatim>\<open>firewall_rollout.go\<close>, one record per Go struct and one field per Go field, followed by the lookups
  of \<^verbatim>\<open>service.go\<close>, the revision counter of \<^verbatim>\<open>firewall.go\<close> and the construction of audit events.
  Statuses, roles and phases stay strings because the code compares them as strings and gives the empty
  string a meaning.  A 64-bit counter is an \<^typ>\<open>int\<close>; where the code guards against overflow the guard is
  written, where it increments without one \<open>wrap64\<close> is.  A slice is a list; where the code tells nil from
  empty (\<open>slice\<close>) it is an optional list.
\<close>

type_synonym 'a slice = "'a list option"

definition elems :: "'a slice \<Rightarrow> 'a list" where
  "elems s = (case s of None \<Rightarrow> [] | Some xs \<Rightarrow> xs)"

lemma elems_simps [simp]: "elems None = []" "elems (Some xs) = xs"
  by (simp_all add: elems_def)

section \<open>Network settings and state machines\<close>

record FirewallRule =
  ruleProto :: string
  rulePort :: string
  ruleGroup :: string
  ruleHost :: string
  rulePeerNodeID :: string
  ruleTargetGroup :: string
  ruleTargetNodeID :: string

record FirewallPolicy =
  fwMode :: string
  fwRendererVersion :: int
  fwInbound :: "FirewallRule slice"
  fwOutbound :: "FirewallRule slice"

record NetworkDNSSettings =
  dnsEnabled :: bool
  dnsListenPort :: int
  dnsNativeResolver :: bool
  dnsSearchDomain :: string

record NetworkRelaySettings =
  relayEnabled :: bool
  relayNodeIDs :: "string slice"

record NetworkCARotation =
  caPhase :: string
  caNextCACertificate :: string
  caEncryptedNextCAKey :: string
  caPreviousTrustBundleSHA256 :: string
  caTargetCACertificateSHA256 :: string
  caStartedAt :: time
  caStageStartedAt :: time
  caStageConfigRevision :: int

record NetworkFirewallRollout =
  roPhase :: string
  roTargetPolicy :: FirewallPolicy
  roCanaryNodeIDs :: "string slice"
  roStartedAt :: time
  roPausedAt :: time
  roStageConfigRevision :: int

record NetworkRoutePolicyGateway =
  gwNodeID :: string
  gwWeight :: int

record NetworkRoutePolicy =
  rpPrefix :: string
  rpGateways :: "NetworkRoutePolicyGateway list"
  rpMTU :: int
  rpMetric :: int
  rpRequestID :: string
  rpConfigRevision :: int
  rpUpdatedAt :: time

record NetworkRouteTransfer =
  rtRequestID :: string
  rtPhase :: string
  rtSourceNodeID :: string
  rtTargetNodeID :: string
  rtRoutedSubnets :: "string list"
  rtSourceOriginalSubnets :: "string list"
  rtTargetOriginalSubnets :: "string list"
  rtTargetCertificateGeneration :: int
  rtSourceCertificateGeneration :: int
  rtStartedAt :: time
  rtPromotedAt :: time
  rtFinishedAt :: time

record NetworkRouteProfileEdit =
  peRequestID :: string
  pePhase :: string
  peNodeID :: string
  peOriginalSubnets :: "string list"
  peDesiredSubnets :: "string list"
  pePreparedCertificateGeneration :: int
  peCleanupCertificateGeneration :: int
  peStartedAt :: time
  pePromotedAt :: time
  peFinishedAt :: time

record Network =
  netID :: string
  netName :: string
  netCIDR :: string
  netDNSSettings :: NetworkDNSSettings
  netRelaySettings :: NetworkRelaySettings
  netCARotation :: NetworkCARotation
  netFirewallRollout :: NetworkFirewallRollout
  netRouteTransfer :: NetworkRouteTransfer
  netRouteProfileEdit :: NetworkRouteProfileEdit
  netRoutePolicies :: "NetworkRoutePolicy list"
  netFirewallPolicy :: FirewallPolicy
  netListenPort :: int
  netCertificateTTL :: int
  netCACertificate :: string
  netEncryptedCAKey :: string
  netConfigSigningPublicKey :: string
  netEncryptedConfigSigningKey :: string
  netConfigRevision :: int
  netConfigUpdatedAt :: time
  netCreatedAt :: time

section \<open>Nodes, tokens and certificates\<close>

record Node =
  nodeID :: string
  nodeNetworkID :: string
  nodeName :: string
  nodeIP :: string
  nodeRoutedSubnets :: "string list"
  nodeSite :: string
  nodeFailureDomain :: string
  nodeGroups :: "string list"
  nodeRole :: string
  nodePublicEndpoint :: string
  nodeStatus :: string
  nodeCertificate :: string
  nodeCertificateFingerprint :: string
  nodeCertificateAuthoritySHA256 :: string
  nodeCertificateExpiresAt :: "time option"
  nodeCertificateRenewAfter :: "time option"
  nodeCertificateGeneration :: int
  nodeAppliedConfigRevision :: int
  nodeAppliedCertificateGeneration :: int
  nodeAppliedConfigSHA256 :: string
  nodeReportedCertificateFingerprint :: string
  nodeNebulaRunning :: bool
  nodeNativeDNSActive :: bool
  nodeAgentVersion :: string
  nodeNebulaVersion :: string
  nodeAgentStatus :: string
  nodeAgentBootID :: string
  nodeHeartbeatSequence :: int
  nodeLastError :: string
  nodeLastSeenAt :: "time option"
  nodeAgentTokenHash :: string
  nodePreviousAgentTokenHash :: string
  nodePreviousAgentTokenExpiresAt :: "time option"
  nodeAgentCredentialExpiresAt :: "time option"
  nodeAgentCredentialLastUsedAt :: "time option"
  nodeAgentCredentialGeneration :: int
  nodePublicKeyHash :: string
  nodeRenewalClaimID :: string
  nodeRenewalClaimedAt :: "time option"
  nodeLastRenewedAt :: "time option"
  nodeCreatedAt :: time
  nodeEnrolledAt :: "time option"
  nodeRevokedAt :: "time option"

record EnrollmentToken =
  enrID :: string
  enrNodeID :: string
  enrTokenHash :: string
  enrCreatedAt :: time
  enrExpiresAt :: time
  enrUsedAt :: "time option"
  enrClaimID :: string
  enrClaimedAt :: "time option"
  enrClaimKeyHash :: string

record RecoveryReceipt =
  rrNodeID :: string
  rrNetworkID :: string
  rrNewAgentTokenHash :: string
  rrAgentCredentialGeneration :: int
  rrAgentCredentialExpiresAt :: time
  rrConfigSHA256 :: string
  rrConfigSignature :: string
  rrSignature :: string

record EnrollmentBundle =
  ebNodeID :: string
  ebNetworkID :: string
  ebNode :: Node
  ebCertificate :: string
  ebCA :: string
  ebConfig :: string
  ebConfigRevision :: int
  ebCertificateExpiresAt :: time
  ebCertificateRenewAfter :: time
  ebAgentCredentialExpiresAt :: time
  ebAgentCredentialGeneration :: int
  ebConfigIssuedAt :: time
  ebConfigSHA256 :: string
  ebCACertificateSHA256 :: string
  ebPreviousCACertificateSHA256 :: string
  ebCARotationRequired :: bool
  ebCertificateProfileRenewalRequired :: bool
  ebCertificateFingerprint :: string
  ebCertificateGeneration :: int
  ebPublicKeyHash :: string
  ebConfigSignature :: string
  ebConfigSigningPublicKey :: string

record AgentRecoveryToken =
  recID :: string
  recNodeID :: string
  recTokenHash :: string
  recCreatedAt :: time
  recExpiresAt :: time
  recUsedAt :: "time option"
  recClaimID :: string
  recClaimedAt :: "time option"
  recClaimKeyHash :: string
  recClaimedCredentialGeneration :: int
  recCredentialGeneration :: int
  recCredentialExpiresAt :: "time option"
  recResult :: "(EnrollmentBundle \<times> RecoveryReceipt) option"

record CertificateRevocation =
  rvFingerprint :: string
  rvNodeID :: string
  rvNetworkID :: string
  rvReason :: string
  rvAt :: time
  rvExpiresAt :: "time option"

record CertificateIssuance =
  isFingerprint :: string
  isNodeID :: string
  isNetworkID :: string
  isIssuedAt :: time
  isExpiresAt :: time

datatype Detail = DStr string | DInt int | DBool bool | DTime time | DList "Detail list"

type_synonym details = "(string \<times> Detail) list option"

record AuditEvent =
  evID :: string
  evAction :: string
  evResource :: string
  evResourceID :: string
  evAt :: time
  evDetails :: details

record State =
  Version :: int
  MasterKeyVerifier :: string
  AdminCredentialVerifier :: string
  Networks :: "Network list"
  Nodes :: "Node list"
  Enrollments :: "EnrollmentToken list"
  AgentRecoveries :: "AgentRecoveryToken list"
  Issuances :: "CertificateIssuance list"
  Revocations :: "CertificateRevocation list"
  Audit :: "AuditEvent list"

section \<open>Zero values\<close>

definition zero_firewall_policy :: FirewallPolicy where
  "zero_firewall_policy = \<lparr>fwMode = [], fwRendererVersion = 0, fwInbound = None, fwOutbound = None\<rparr>"

definition zero_ca_rotation :: NetworkCARotation where
  "zero_ca_rotation = \<lparr>caPhase = [], caNextCACertificate = [], caEncryptedNextCAKey = [],
     caPreviousTrustBundleSHA256 = [], caTargetCACertificateSHA256 = [], caStartedAt = 0,
     caStageStartedAt = 0, caStageConfigRevision = 0\<rparr>"

definition zero_rollout :: NetworkFirewallRollout where
  "zero_rollout = \<lparr>roPhase = [], roTargetPolicy = zero_firewall_policy, roCanaryNodeIDs = None,
     roStartedAt = 0, roPausedAt = 0, roStageConfigRevision = 0\<rparr>"

definition zero_route_transfer :: NetworkRouteTransfer where
  "zero_route_transfer = \<lparr>rtRequestID = [], rtPhase = [], rtSourceNodeID = [], rtTargetNodeID = [],
     rtRoutedSubnets = [], rtSourceOriginalSubnets = [], rtTargetOriginalSubnets = [],
     rtTargetCertificateGeneration = 0, rtSourceCertificateGeneration = 0, rtStartedAt = 0,
     rtPromotedAt = 0, rtFinishedAt = 0\<rparr>"

definition zero_route_profile_edit :: NetworkRouteProfileEdit where
  "zero_route_profile_edit = \<lparr>peRequestID = [], pePhase = [], peNodeID = [], peOriginalSubnets = [],
     peDesiredSubnets = [], pePreparedCertificateGeneration = 0, peCleanupCertificateGeneration = 0,
     peStartedAt = 0, pePromotedAt = 0, peFinishedAt = 0\<rparr>"

definition zero_network :: Network where
  "zero_network = \<lparr>netID = [], netName = [], netCIDR = [],
     netDNSSettings = \<lparr>dnsEnabled = False, dnsListenPort = 0, dnsNativeResolver = False, dnsSearchDomain = []\<rparr>,
     netRelaySettings = \<lparr>relayEnabled = False, relayNodeIDs = None\<rparr>, netCARotation = zero_ca_rotation,
     netFirewallRollout = zero_rollout, netRouteTransfer = zero_route_transfer,
     netRouteProfileEdit = zero_route_profile_edit, netRoutePolicies = [],
     netFirewallPolicy = zero_firewall_policy, netListenPort = 0, netCertificateTTL = 0,
     netCACertificate = [], netEncryptedCAKey = [], netConfigSigningPublicKey = [],
     netEncryptedConfigSigningKey = [], netConfigRevision = 0, netConfigUpdatedAt = 0, netCreatedAt = 0\<rparr>"

definition zero_node :: Node where
  "zero_node = \<lparr>nodeID = [], nodeNetworkID = [], nodeName = [], nodeIP = [], nodeRoutedSubnets = [],
     nodeSite = [], nodeFailureDomain = [], nodeGroups = [], nodeRole = [], nodePublicEndpoint = [],
     nodeStatus = [], nodeCertificate = [], nodeCertificateFingerprint = [],
     nodeCertificateAuthoritySHA256 = [], nodeCertificateExpiresAt = None, nodeCertificateRenewAfter = None,
     nodeCertificateGeneration = 0, nodeAppliedConfigRevision = 0, nodeAppliedCertificateGeneration = 0,
     nodeAppliedConfigSHA256 = [], nodeReportedCertificateFingerprint = [], nodeNebulaRunning = False,
     nodeNativeDNSActive = False, nodeAgentVersion = [], nodeNebulaVersion = [], nodeAgentStatus = [],
     nodeAgentBootID = [], nodeHeartbeatSequence = 0, nodeLastError = [], nodeLastSeenAt = None,
     nodeAgentTokenHash = [], nodePreviousAgentTokenHash = [], nodePreviousAgentTokenExpiresAt = None,
     nodeAgentCredentialExpiresAt = None, nodeAgentCredentialLastUsedAt = None,
     nodeAgentCredentialGeneration = 0, nodePublicKeyHash = [], nodeRenewalClaimID = [],
     nodeRenewalClaimedAt = None, nodeLastRenewedAt = None, nodeCreatedAt = 0, nodeEnrolledAt = None,
     nodeRevokedAt = None\<rparr>"

definition empty_state :: State where
  "empty_state = \<lparr>Version = 0, MasterKeyVerifier = [], AdminCredentialVerifier = [], Networks = [],
     Nodes = [], Enrollments = [], AgentRecoveries = [], Issuances = [], Revocations = [], Audit = []\<rparr>"

section \<open>Schema versions\<close>

abbreviation (input) ControlStateVersionCredentialBinding :: int where "ControlStateVersionCredentialBinding \<equiv> 2"
abbreviation (input) ControlStateVersionTopology :: int where "ControlStateVersionTopology \<equiv> 3"
abbreviation (input) ControlStateVersionNetworkDNS :: int where "ControlStateVersionNetworkDNS \<equiv> 4"
abbreviation (input) ControlStateVersionNetworkRelays :: int where "ControlStateVersionNetworkRelays \<equiv> 5"
abbreviation (input) ControlStateVersionCARotation :: int where "ControlStateVersionCARotation \<equiv> 6"
abbreviation (input) ControlStateVersionFirewallRollout :: int where "ControlStateVersionFirewallRollout \<equiv> 7"
abbreviation (input) ControlStateVersionFirewallPause :: int where "ControlStateVersionFirewallPause \<equiv> 8"
abbreviation (input) ControlStateVersionRouteTransfer :: int where "ControlStateVersionRouteTransfer \<equiv> 9"
abbreviation (input) ControlStateVersionRouteProfileEdit :: int where "ControlStateVersionRouteProfileEdit \<equiv> 10"
abbreviation (input) ControlStateVersionRoutePolicies :: int where "ControlStateVersionRoutePolicies \<equiv> 11"
abbreviation (input) ControlStateVersionNativeDNS :: int where "ControlStateVersionNativeDNS \<equiv> 12"
abbreviation (input) ControlStateVersionFirewallScopes :: int where "ControlStateVersionFirewallScopes \<equiv> 13"

section \<open>Lookups and counters\<close>

definition findNetwork :: "State \<Rightarrow> string \<Rightarrow> Network option" where
  "findNetwork state ident = List.find (\<lambda>v. netID v = ident) (Networks state)"

definition findNode :: "State \<Rightarrow> string \<Rightarrow> Node option" where
  "findNode state ident = List.find (\<lambda>v. nodeID v = ident) (Nodes state)"

abbreviation (input) MaxInt64 :: int where "MaxInt64 \<equiv> 9223372036854775807"

definition wrap64 :: "int \<Rightarrow> int" where
  "wrap64 x = (x + 9223372036854775808) mod 18446744073709551616 - 9223372036854775808"

definition nextConfigRevision :: "int \<Rightarrow> bool \<Rightarrow> int result" where
  "nextConfigRevision current changed =
     (if \<not> changed then Inr current
      else if current = MaxInt64 then Inl ErrConflict
      else Inr (current + 1))"

section \<open>Audit events\<close>

text \<open>The random identifier of the event is the argument \<open>eid\<close>.\<close>

definition newAudit :: "string \<Rightarrow> time \<Rightarrow> string \<Rightarrow> string \<Rightarrow> string \<Rightarrow> details \<Rightarrow> AuditEvent" where
  "newAudit eid at action resource ident ds =
     \<lparr>evID = eid, evAction = action, evResource = resource, evResourceID = ident, evAt = at, evDetails = ds\<rparr>"

definition actor_keys :: "string list" where
  "actor_keys = [''actor_id'', ''actor_kind'', ''actor_session_id'']"

definition newAttributedAudit ::
  "string \<Rightarrow> time \<Rightarrow> string \<Rightarrow> string \<Rightarrow> string \<Rightarrow> details \<Rightarrow> Actor \<Rightarrow> AuditEvent result" where
  "newAttributedAudit eid at action resource ident ds actor =
     (case validateActor actor of
        Inl e \<Rightarrow> Inl e
      | Inr _ \<Rightarrow>
          if list_ex (\<lambda>k. k \<in> fst ` set (elems ds)) actor_keys then Inl ErrInvalid
          else Inr (newAudit eid at action resource ident
            (Some (elems ds @ [(''actor_id'', DStr (actorID actor)), (''actor_kind'', DStr (actorKind actor)),
                               (''actor_session_id'', DStr (actorSessionID actor))]))))"

definition newOptionalAttributedAudit ::
  "string \<Rightarrow> time \<Rightarrow> string \<Rightarrow> string \<Rightarrow> string \<Rightarrow> details \<Rightarrow> Actor option \<Rightarrow> AuditEvent result" where
  "newOptionalAttributedAudit eid at action resource ident ds actor =
     (case actor of
        None \<Rightarrow> Inr (newAudit eid at action resource ident ds)
      | Some a \<Rightarrow> newAttributedAudit eid at action resource ident ds a)"

section \<open>Updating one element\<close>

definition set_network :: "State \<Rightarrow> nat \<Rightarrow> Network \<Rightarrow> State" where
  "set_network state i n = state\<lparr>Networks := (Networks state)[i := n]\<rparr>"

definition set_node :: "State \<Rightarrow> nat \<Rightarrow> Node \<Rightarrow> State" where
  "set_node state i n = state\<lparr>Nodes := (Nodes state)[i := n]\<rparr>"

definition find_network_idx :: "State \<Rightarrow> string \<Rightarrow> nat option" where
  "find_network_idx state ident = find_idx (\<lambda>n. netID n = ident) (Networks state)"

definition find_node_idx :: "State \<Rightarrow> string \<Rightarrow> nat option" where
  "find_node_idx state ident = find_idx (\<lambda>n. nodeID n = ident) (Nodes state)"

definition add_audit :: "State \<Rightarrow> AuditEvent \<Rightarrow> State" where
  "add_audit state ev = state\<lparr>Audit := Audit state @ [ev]\<rparr>"

end
