(* ===== verification/Mesh_Address.thy ===== *)
theory Mesh_Address
  imports Mesh_Model
begin

unbundle bit_operations_syntax

text \<open>
  Overlay addresses of nodes (\<^verbatim>\<open>nextAddress\<close>, \<^verbatim>\<open>validateNodeIP\<close> and their helpers in
  \<^verbatim>\<open>internal/control/service.go\<close>).  The code works on \<^verbatim>\<open>net.IP\<close>, a byte slice in which an IPv4
  address has four bytes or sixteen (the IPv4-in-IPv6 form), so that is the type here: \<^verbatim>\<open>net.IPv4\<close>
  makes the long form, \<^verbatim>\<open>To4\<close> the short one, and an index reads whatever form it is given.
\<close>

section \<open>What the code uses of \<^verbatim>\<open>net\<close>\<close>

type_synonym net_IP = "8 word list"

record IPNet =
  ipnetIP :: net_IP
  ipnetMask :: net_IP

definition bytes4 :: "32 word \<Rightarrow> net_IP" where
  "bytes4 w = map of_nat (As4 w)"

definition addr_of_bytes :: "net_IP \<Rightarrow> 32 word" where
  "addr_of_bytes ip = from_octets (unat (ip ! 0)) (unat (ip ! 1)) (unat (ip ! 2)) (unat (ip ! 3))"

definition mapped_prefix :: net_IP where
  "mapped_prefix = replicate 10 0 @ [0xFF, 0xFF]"

definition net_IPv4 :: "32 word \<Rightarrow> net_IP" where
  "net_IPv4 w = mapped_prefix @ bytes4 w"

definition To4 :: "net_IP \<Rightarrow> net_IP option" where
  "To4 ip =
     (if length ip = 4 then Some ip
      else if length ip = 16 \<and> take 12 ip = mapped_prefix then Some (drop 12 ip)
      else None)"

text \<open>The mask of \<^verbatim>\<open>net.ParseCIDR\<close> may have leading zeros.\<close>

definition parse_mask :: "string \<Rightarrow> nat option" where
  "parse_mask s = (if s \<noteq> [] \<and> list_all is_digit s \<and> dec_val s \<le> 32 then Some (dec_val s) else None)"

definition mask_word :: "nat \<Rightarrow> 32 word" where
  "mask_word n = NOT (mask (32 - n))"

definition ParseCIDR :: "string \<Rightarrow> (net_IP \<times> IPNet) option" where
  "ParseCIDR s =
     (case split_at (CHR ''/'') s of
        [a, b] \<Rightarrow> (case (ParseAddr a, parse_mask b) of
                    (Some w, Some n) \<Rightarrow>
                      Some (net_IPv4 w, \<lparr>ipnetIP = bytes4 (w AND mask_word n), ipnetMask = bytes4 (mask_word n)\<rparr>)
                  | _ \<Rightarrow> None)
      | _ \<Rightarrow> None)"

definition IPNet_Contains :: "IPNet \<Rightarrow> net_IP \<Rightarrow> bool" where
  "IPNet_Contains n ip =
     (let ip4 = (case To4 ip of Some x \<Rightarrow> x | None \<Rightarrow> ip) in
      length ip4 = length (ipnetIP n) \<and>
      list_all (\<lambda>(m, (a, b)). a AND m = b AND m) (zip (ipnetMask n) (zip (ipnetIP n) ip4)))"

definition IP_Equal :: "net_IP \<Rightarrow> net_IP \<Rightarrow> bool" where
  "IP_Equal a b = (a = b \<or> (\<exists>x. To4 a = Some x \<and> To4 b = Some x))"

lemma IP_Equal_code [code]:
  "IP_Equal a b = (a = b \<or> (case To4 a of None \<Rightarrow> False | Some x \<Rightarrow> To4 b = Some x))"
  by (auto simp: IP_Equal_def split: option.splits)

text \<open>The groups of an IPv6 literal; an embedded IPv4 address stands for the last two.\<close>

definition hex_group :: "string \<Rightarrow> nat option" where
  "hex_group s =
     (if 1 \<le> length s \<and> length s \<le> 4
      then map_option (foldl (\<lambda>a d. a * 16 + d) 0)
             (all_some (map (\<lambda>c. find_idx ((=) (to_lower_char c)) ''0123456789abcdef'') s))
      else None)"

fun v6_groups :: "string list \<Rightarrow> nat list option" where
  "v6_groups [] = Some []"
| "v6_groups [g] =
     (case hex_group g of
        Some n \<Rightarrow> Some [n]
      | None \<Rightarrow> map_option (\<lambda>w. [octet 0 w * 256 + octet 1 w, octet 2 w * 256 + octet 3 w]) (ParseAddr g))"
| "v6_groups (g # h # gs) =
     (case hex_group g of
        None \<Rightarrow> None
      | Some n \<Rightarrow> map_option ((#) n) (v6_groups (h # gs)))"

fun split_ellipsis :: "string \<Rightarrow> (string \<times> string) option" where
  "split_ellipsis (a # b # s) =
     (if a = CHR '':'' \<and> b = CHR '':'' then Some ([], s)
      else map_option (\<lambda>(l, r). (a # l, r)) (split_ellipsis (b # s)))"
| "split_ellipsis s = None"

definition colon_parts :: "string \<Rightarrow> string list" where
  "colon_parts s = (if s = [] then [] else split_at (CHR '':'') s)"

definition parse_v6 :: "string \<Rightarrow> nat list option" where
  "parse_v6 s =
     (case split_ellipsis s of
        None \<Rightarrow> (case v6_groups (colon_parts s) of
                   Some gs \<Rightarrow> if length gs = 8 then Some gs else None
                 | None \<Rightarrow> None)
      | Some (l, r) \<Rightarrow>
          (case (all_some (map hex_group (colon_parts l)), v6_groups (colon_parts r)) of
             (Some ls, Some rs) \<Rightarrow>
               if length ls + length rs \<le> 7 then Some (ls @ replicate (8 - length ls - length rs) 0 @ rs) else None
           | _ \<Rightarrow> None))"

text \<open>\<^verbatim>\<open>net.ParseIP(s).To4()\<close>: a dotted address, or an IPv6 literal of the IPv4-mapped range.\<close>

definition ParseIP_To4 :: "string \<Rightarrow> net_IP option" where
  "ParseIP_To4 s =
     (case ParseAddr s of
        Some w \<Rightarrow> Some (bytes4 w)
      | None \<Rightarrow>
          (case parse_v6 s of
             Some [0, 0, 0, 0, 0, g, h, i] \<Rightarrow>
               if g = 65535 then Some (map of_nat [h div 256, h mod 256, i div 256, i mod 256]) else None
           | _ \<Rightarrow> None))"

section \<open>Addresses of nodes\<close>

definition addIPv4 :: "net_IP \<Rightarrow> int \<Rightarrow> net_IP" where
  "addIPv4 ip n = net_IPv4 (addr_of_bytes ip + word_of_int n)"

text \<open>The loop reads \<open>ip ! 0\<close> to \<open>ip ! 3\<close> of the slice it is given.\<close>

definition isBroadcast :: "net_IP \<Rightarrow> IPNet \<Rightarrow> bool" where
  "isBroadcast ip network =
     (let base = (case To4 (ipnetIP network) of Some b \<Rightarrow> b | None \<Rightarrow> []) in
      list_all (\<lambda>i. ip ! i = base ! i OR NOT (ipnetMask network ! i)) [0, 1, 2, 3])"

definition used_addresses :: "Network \<Rightarrow> Node list \<Rightarrow> string list" where
  "used_addresses network nodes = map nodeIP (filter (\<lambda>n. nodeNetworkID n = netID network) nodes)"

definition IP_String :: "net_IP \<Rightarrow> string" where
  "IP_String ip = (case To4 ip of Some b \<Rightarrow> addr_str (addr_of_bytes b) | None \<Rightarrow> [])"

function next_address_scan :: "net_IP \<Rightarrow> IPNet \<Rightarrow> string list \<Rightarrow> int \<Rightarrow> string result" where
  "next_address_scan address ipnet used offset =
     (if offset \<ge> 65536 then Inl ErrConflict
      else let candidate = addIPv4 address offset in
        if \<not> IPNet_Contains ipnet candidate then Inl ErrConflict
        else let v = IP_String candidate in
          if v \<notin> set used \<and> \<not> isBroadcast candidate ipnet then Inr v
          else next_address_scan address ipnet used (offset + 1))"
  by pat_completeness auto
termination by (relation "measure (\<lambda>(a, i, u, offset). nat (65536 - offset))") auto

declare next_address_scan.simps [simp del]

text \<open>A CIDR that does not parse is a nil pointer in the code; it is an error here.\<close>

definition nextAddress :: "Network \<Rightarrow> Node list \<Rightarrow> string result" where
  "nextAddress network nodes =
     (case ParseCIDR (netCIDR network) of
        None \<Rightarrow> Inl ErrInternal
      | Some (base, ipnet) \<Rightarrow>
          (case To4 base of
             None \<Rightarrow> Inl ErrInternal
           | Some address \<Rightarrow> next_address_scan address ipnet (used_addresses network nodes) 10))"

definition validateNodeIP :: "Network \<Rightarrow> Node list \<Rightarrow> string \<Rightarrow> unit result" where
  "validateNodeIP network nodes v =
     (case ParseCIDR (netCIDR network) of
        None \<Rightarrow> Inl ErrInternal
      | Some (base, ipnet) \<Rightarrow>
          (case ParseIP_To4 v of
             None \<Rightarrow> Inl ErrInvalid
           | Some ip \<Rightarrow>
               if \<not> IPNet_Contains ipnet ip \<or> IP_Equal ip (ipnetIP ipnet) \<or> isBroadcast ip ipnet then Inl ErrInvalid
               else if v \<in> set (used_addresses network nodes) then Inl ErrConflict
               else Inr ()))"

text \<open>\<^verbatim>\<open>Mask.Size()\<close>: the leading ones and the length in bits, or zeros for a mask with a gap.\<close>

definition byte_bits :: "8 word \<Rightarrow> bool list" where
  "byte_bits b = map (bit b) (rev [0..<8])"

definition mask_size :: "net_IP \<Rightarrow> nat \<times> nat" where
  "mask_size m =
     (let bits = concat (map byte_bits m); ones = length (takeWhile id bits) in
      if list_all Not (drop ones bits) then (ones, length bits) else (0, 0))"

text \<open>The code dereferences the parsed network; \<open>None\<close> stands for its failure on a text that is no CIDR.\<close>

definition prefixLength :: "string \<Rightarrow> string option" where
  "prefixLength cidr = map_option (\<lambda>(ip, n). itoa (fst (mask_size (ipnetMask n)))) (ParseCIDR cidr)"

definition cidrsOverlap :: "string \<Rightarrow> string \<Rightarrow> bool" where
  "cidrsOverlap a b =
     (case (ParseCIDR a, ParseCIDR b) of
        (Some (aip, an), Some (bip, bn)) \<Rightarrow> IPNet_Contains an bip \<or> IPNet_Contains bn aip
      | _ \<Rightarrow> False)"

section \<open>Lemmas: bytes and words\<close>

lemma bytes4_length [simp]: "length (bytes4 w) = 4"
  by (simp add: bytes4_def As4_def)

lemma bytes4_nth: "i < 4 \<Longrightarrow> bytes4 w ! i = of_nat (octet i w)"
  by (auto simp: bytes4_def As4_def less_Suc_eq numeral_eq_Suc)

lemma unat_octet [simp]: "unat (of_nat (octet i w) :: 8 word) = octet i w"
  using octet_lt [of i w] by (simp add: unat_of_nat)

lemma addr_of_bytes4 [simp]: "addr_of_bytes (bytes4 w) = w"
  by (simp add: addr_of_bytes_def bytes4_nth)

lemma mapped_prefix_length [simp]: "length mapped_prefix = 12"
  by (simp add: mapped_prefix_def)

lemma To4_net_IPv4 [simp]: "To4 (net_IPv4 w) = Some (bytes4 w)"
  by (simp add: To4_def net_IPv4_def)

lemma To4_bytes4 [simp]: "To4 (bytes4 w) = Some (bytes4 w)"
  by (simp add: To4_def)

lemma IP_String_net_IPv4 [simp]: "IP_String (net_IPv4 w) = addr_str w"
  by (simp add: IP_String_def)

lemma addIPv4_bytes4 [simp]: "addIPv4 (bytes4 w) n = net_IPv4 (w + word_of_int n)"
  by (simp add: addIPv4_def)

lemma byte_ucast:
  assumes "i < 4"
  shows "(of_nat (octet i w) :: 8 word) = ucast (drop_bit (24 - 8 * i) w)"
proof (rule unsigned_word_eqI)
  have "(256::nat) ^ (3 - i) = 2 ^ (8 * (3 - i))" by (simp add: power_mult)
  also have "8 * (3 - i) = 24 - 8 * i" using assms by simp
  finally have "octet i w = unat w div 2 ^ (24 - 8 * i) mod 256" by (simp add: octet_nat)
  then show "unat (of_nat (octet i w) :: 8 word) = unat (ucast (drop_bit (24 - 8 * i) w) :: 8 word)"
    unfolding unat_octet by (simp add: unsigned_ucast_eq take_bit_eq_mod unat_drop_bit)
qed

lemma bytes4_inj: "bytes4 v = bytes4 w \<longleftrightarrow> v = w"
  by (metis addr_of_bytes4)

lemma byte_and:
  "i < 4 \<Longrightarrow> bytes4 (a AND b) ! i = bytes4 a ! i AND bytes4 b ! i"
  by (simp add: bytes4_nth byte_ucast drop_bit_and unsigned_and_eq)

lemma bytes4_eq_iff: "bytes4 v = bytes4 w \<longleftrightarrow> (\<forall>i<4. bytes4 v ! i = bytes4 w ! i)"
  by (auto simp: list_eq_iff_nth_eq)

lemma masked_push_bit: "a AND NOT (mask k) = push_bit k (drop_bit k (a :: 32 word))"
  by (rule bit_eqI) (auto simp: bit_simps)

lemma drop_bit_masked: "drop_bit k (a AND NOT (mask k)) = drop_bit k (a :: 32 word)"
  by (rule bit_eqI) (auto simp: bit_simps dest: bit_imp_le_length)

lemma masked_eq_drop_bit:
  "(a AND NOT (mask k) = b AND NOT (mask k)) \<longleftrightarrow> drop_bit k a = drop_bit k (b :: 32 word)"
proof
  assume "a AND NOT (mask k) = b AND NOT (mask k)"
  then have "drop_bit k (a AND NOT (mask k)) = drop_bit k (b AND NOT (mask k))" by (simp only:)
  then show "drop_bit k a = drop_bit k b" by (simp only: drop_bit_masked)
next
  assume "drop_bit k a = drop_bit k b"
  then show "a AND NOT (mask k) = b AND NOT (mask k)" by (simp only: masked_push_bit)
qed

lemma IPNet_Contains_word:
  assumes "ip = bytes4 w \<or> ip = net_IPv4 w"
  shows "IPNet_Contains \<lparr>ipnetIP = bytes4 (a AND mask_word n), ipnetMask = bytes4 (mask_word n)\<rparr> ip \<longleftrightarrow>
     Contains (Prefix a n) w"
proof -
  let ?m = "mask_word n"
  have to4: "(case To4 ip of Some x \<Rightarrow> x | None \<Rightarrow> ip) = bytes4 w" using assms by auto
  have "IPNet_Contains \<lparr>ipnetIP = bytes4 (a AND ?m), ipnetMask = bytes4 ?m\<rparr> ip \<longleftrightarrow>
      (\<forall>i<4. bytes4 (a AND ?m) ! i AND bytes4 ?m ! i = bytes4 w ! i AND bytes4 ?m ! i)"
    by (simp add: IPNet_Contains_def to4 Let_def list_all_length)
  also have "\<dots> \<longleftrightarrow> bytes4 ((a AND ?m) AND ?m) = bytes4 (w AND ?m)"
    unfolding bytes4_eq_iff by (simp add: byte_and)
  also have "\<dots> \<longleftrightarrow> a AND ?m = w AND ?m"
    unfolding bytes4_inj by (simp add: and.assoc)
  also have "\<dots> \<longleftrightarrow> Contains (Prefix a n) w"
    by (simp add: mask_word_def masked_eq_drop_bit Contains_iff eq_commute)
  finally show ?thesis .
qed

lemma parse_mask_itoa: "n \<le> 32 \<Longrightarrow> parse_mask (itoa n) = Some n"
  using itoa_digits [of n] by (simp add: parse_mask_def)

lemma ParseCIDR_prefix_str:
  assumes "Bits p \<le> 32"
  shows "ParseCIDR (prefix_str p) =
    Some (net_IPv4 (Addr p),
      \<lparr>ipnetIP = bytes4 (Addr p AND mask_word (Bits p)), ipnetMask = bytes4 (mask_word (Bits p))\<rparr>)"
  using assms by (simp add: ParseCIDR_def split_prefix_str parse_mask_itoa)

section \<open>Lemmas: broadcast addresses\<close>

definition broadcast :: "prefix \<Rightarrow> 32 word" where
  "broadcast p = Addr p OR mask (32 - Bits p)"

text \<open>A prefix as a managed network has it: masked, of length 16 to 28.\<close>

definition managed_prefix :: "prefix \<Rightarrow> bool" where
  "managed_prefix p \<longleftrightarrow> Masked p = p \<and> 16 \<le> Bits p \<and> Bits p \<le> 28"

lemma byte_or_not:
  "i < 4 \<Longrightarrow> bytes4 a ! i OR NOT (bytes4 b ! i) = bytes4 (a OR NOT b) ! i"
  by (simp add: bytes4_nth byte_ucast bit_eq_iff bit_simps) (auto simp: less_Suc_eq numeral_eq_Suc)

lemma isBroadcast_short:
  assumes "managed_prefix p"
  shows "isBroadcast (bytes4 w) \<lparr>ipnetIP = bytes4 (Addr p AND mask_word (Bits p)), ipnetMask = bytes4 (mask_word (Bits p))\<rparr>
     \<longleftrightarrow> w = broadcast p"
proof -
  have m: "Addr p AND mask_word (Bits p) = Addr p"
    using assms by (auto simp: managed_prefix_def Masked_def mask_word_def) (metis prefix.sel(1))
  have b: "Addr p OR NOT (mask_word (Bits p)) = broadcast p"
    by (simp add: broadcast_def mask_word_def)
  have "isBroadcast (bytes4 w) \<lparr>ipnetIP = bytes4 (Addr p AND mask_word (Bits p)), ipnetMask = bytes4 (mask_word (Bits p))\<rparr>
     \<longleftrightarrow> (\<forall>i\<in>{0,1,2,3}. bytes4 w ! i = bytes4 (broadcast p) ! i)"
    by (simp add: isBroadcast_def m byte_or_not b)
  also have "\<dots> \<longleftrightarrow> (\<forall>i<4. bytes4 w ! i = bytes4 (broadcast p) ! i)"
    by (auto simp: less_Suc_eq numeral_eq_Suc)
  finally show ?thesis by (simp add: bytes4_eq_iff [symmetric] bytes4_inj)
qed

text \<open>
  Given the sixteen-byte form the test compares the first four of ten zero bytes, and the last
  byte of a broadcast address of a managed network is not zero.
\<close>

lemma isBroadcast_long:
  assumes "Bits p \<le> 28"
  shows "\<not> isBroadcast (net_IPv4 w)
    \<lparr>ipnetIP = bytes4 (Addr p AND mask_word (Bits p)), ipnetMask = bytes4 (mask_word (Bits p))\<rparr>"
proof -
  let ?b = "(Addr p AND mask_word (Bits p)) OR NOT (mask_word (Bits p))"
  have "bit ?b 0" using assms by (simp add: mask_word_def bit_simps)
  then have "bit (bytes4 ?b ! 3) 0" by (simp add: bytes4_nth byte_ucast bit_simps)
  then have "net_IPv4 w ! 3 \<noteq> bytes4 ?b ! 3"
    by (auto simp: net_IPv4_def mapped_prefix_def nth_append)
  then show ?thesis by (simp add: isBroadcast_def byte_or_not)
qed

section \<open>Lemmas: the search for a free address\<close>

abbreviation block_size :: "prefix \<Rightarrow> nat" where
  "block_size p \<equiv> 2 ^ (32 - Bits p)"

lemma managed_block:
  assumes "managed_prefix p"
  shows "block_size p \<le> 65536" "16 \<le> block_size p" "block_size p dvd unat (Addr p)"
proof -
  have b: "16 \<le> Bits p" "Bits p \<le> 28" and m: "Masked p = p"
    using assms by (auto simp: managed_prefix_def)
  then show "block_size p \<le> 65536" "16 \<le> block_size p"
    using power_increasing [of "32 - Bits p" 16 "2::nat"] power_increasing [of 4 "32 - Bits p" "2::nat"]
    by simp_all
  have "Addr p = Addr p AND NOT (mask (32 - Bits p))" using m by (simp add: Masked_def) (metis prefix.sel(1))
  then have "unat (Addr p) = unat (push_bit (32 - Bits p) (drop_bit (32 - Bits p) (Addr p)))"
    by (simp only: masked_push_bit)
  also have "\<dots> = take_bit 32 (unat (Addr p) div block_size p * block_size p)"
    by (subst unsigned_push_bit_eq) (simp add: unat_drop_bit push_bit_eq_mult)
  also have "\<dots> = unat (Addr p) div block_size p * block_size p"
    using le_less_trans [OF div_times_less_eq_dividend unsigned_less [of "Addr p"]]
    by (intro take_bit_nat_eq_self) simp
  finally show "block_size p dvd unat (Addr p)" by (metis dvd_triv_right)
qed

lemma mod_div_block:
  fixes x n m :: nat
  assumes "0 < n"
  shows "(x mod (n * m)) div n = (x div n) mod m"
  using assms by (simp add: mod_mult2_eq)

lemma contains_offset:
  assumes p: "managed_prefix p" and k: "k < 65536"
  shows "Contains p (Addr p + of_nat k) \<longleftrightarrow> k < block_size p"
proof -
  define n q where "n = block_size p" and "q = unat (Addr p) div n"
  have n0: "0 < n" and aq: "unat (Addr p) = q * n"
    using managed_block(3) [OF p] by (simp_all add: n_def q_def)
  have b: "16 \<le> Bits p" "Bits p \<le> 28" using p by (auto simp: managed_prefix_def)
  then have nm: "(2::nat) ^ 32 = n * 2 ^ Bits p" by (simp add: n_def flip: power_add)
  have q: "q < 2 ^ Bits p"
  proof -
    have "q * n < 2 ^ Bits p * n"
      using unsigned_less [of "Addr p", where ?'a = nat] nm aq by (simp add: mult.commute)
    then show ?thesis by simp
  qed
  have kn: "k div n < 2 ^ Bits p"
  proof -
    have "(65536::nat) \<le> 2 ^ Bits p" using power_increasing [OF b(1), of "2::nat"] by simp
    with k div_le_dividend [of k n] show ?thesis by linarith
  qed
  have "unat (Addr p + of_nat k) = (q * n + k) mod (n * 2 ^ Bits p)"
    using aq nm by (simp add: unat_word_ariths unat_of_nat mod_add_right_eq flip: nm)
  then have "unat (Addr p + of_nat k) div n = (q + k div n) mod 2 ^ Bits p"
    using n0 by (simp add: mod_div_block)
  then have "Contains p (Addr p + of_nat k) \<longleftrightarrow> (q + k div n) mod 2 ^ Bits p = q"
    by (simp add: Contains_div n_def [symmetric] aq n0)
  also have "\<dots> \<longleftrightarrow> k div n = 0"
  proof (cases "q + k div n < 2 ^ Bits p")
    case True
    then show ?thesis by simp
  next
    case False
    then have "(q + k div n) mod 2 ^ Bits p = q + k div n - 2 ^ Bits p"
      using q kn by (simp add: mod_if)
    with False q kn show ?thesis by auto
  qed
  also have "\<dots> \<longleftrightarrow> k < n" using n0 by (simp add: div_eq_0_iff)
  finally show ?thesis by (simp add: n_def)
qed

abbreviation prefix_ipnet :: "prefix \<Rightarrow> IPNet" where
  "prefix_ipnet p \<equiv> \<lparr>ipnetIP = bytes4 (Addr p AND mask_word (Bits p)), ipnetMask = bytes4 (mask_word (Bits p))\<rparr>"

lemma next_address_scan_find:
  assumes p: "managed_prefix p" and k: "k \<le> block_size p"
  shows "next_address_scan (bytes4 (Addr p)) (prefix_ipnet p) used (int k) =
    (case List.find (\<lambda>j. addr_str (Addr p + of_nat j) \<notin> set used) [k..<block_size p] of
       None \<Rightarrow> Inl ErrConflict
     | Some j \<Rightarrow> Inr (addr_str (Addr p + of_nat j)))"
  using k
proof (induction "block_size p - k" arbitrary: k)
  case 0
  have "Prefix (Addr p) (Bits p) = p" by simp
  then show ?case
    using 0 contains_offset [OF p, of k] managed_block(1) [OF p]
      IPNet_Contains_word [of "net_IPv4 (Addr p + of_nat k)" "Addr p + of_nat k" "Addr p" "Bits p"]
    by (subst next_address_scan.simps) auto
next
  case (Suc m)
  then have lt: "k < block_size p" by simp
  then have k: "k < 65536" using managed_block(1) [OF p] by simp
  have "IPNet_Contains (prefix_ipnet p) (net_IPv4 (Addr p + of_nat k))"
    using contains_offset [OF p k] lt
      IPNet_Contains_word [of "net_IPv4 (Addr p + of_nat k)" "Addr p + of_nat k" "Addr p" "Bits p"] by simp
  moreover have "\<not> isBroadcast (net_IPv4 (Addr p + of_nat k)) (prefix_ipnet p)"
    using p by (intro isBroadcast_long) (simp add: managed_prefix_def)
  moreover have "next_address_scan (bytes4 (Addr p)) (prefix_ipnet p) used (int k + 1) =
    (case List.find (\<lambda>j. addr_str (Addr p + of_nat j) \<notin> set used) [Suc k..<block_size p] of
       None \<Rightarrow> Inl ErrConflict | Some j \<Rightarrow> Inr (addr_str (Addr p + of_nat j)))"
    using Suc.hyps(1) [of "Suc k"] Suc.hyps(2) lt by (simp add: add.commute)
  ultimately show ?case
    using k lt by (subst next_address_scan.simps) (simp add: Let_def upt_conv_Cons)
qed

lemma nextAddress_find:
  assumes "managed_prefix p" "netCIDR network = prefix_str p"
  shows "nextAddress network nodes =
    (case List.find (\<lambda>j. addr_str (Addr p + of_nat j) \<notin> set (used_addresses network nodes)) [10..<block_size p] of
       None \<Rightarrow> Inl ErrConflict
     | Some j \<Rightarrow> Inr (addr_str (Addr p + of_nat j)))"
proof -
  have "Bits p \<le> 32" "10 \<le> block_size p"
    using assms(1) managed_block(2) [OF assms(1)] by (auto simp: managed_prefix_def)
  then show ?thesis
    using next_address_scan_find [OF assms(1), of 10 "used_addresses network nodes"] assms(2)
    by (simp add: nextAddress_def ParseCIDR_prefix_str)
qed

lemma broadcast_offset:
  assumes "managed_prefix p"
  shows "broadcast p = Addr p + of_nat (block_size p - 1)"
proof -
  have "Addr p = Addr p AND NOT (mask (32 - Bits p))"
    using assms by (simp add: managed_prefix_def Masked_def) (metis prefix.sel(1))
  then have "\<not> bit (Addr p) i \<or> \<not> bit (mask (32 - Bits p) :: 32 word) i" for i
    by (metis bit_and_iff bit_not_iff)
  then have "broadcast p = Addr p + mask (32 - Bits p)"
    unfolding broadcast_def by (intro disjunctive_add [symmetric]) blast
  also have "(mask (32 - Bits p) :: 32 word) = of_nat (block_size p - 1)"
    by (simp add: mask_eq_exp_minus_1 of_nat_diff)
  finally show ?thesis .
qed

lemma find_filter: "List.find P xs = (case filter P xs of [] \<Rightarrow> None | x # _ \<Rightarrow> Some x)"
  by (induction xs) auto

lemma offset_inj:
  assumes "managed_prefix p" "j < block_size p" "k < block_size p"
  shows "Addr p + of_nat j = Addr p + (of_nat k :: 32 word) \<longleftrightarrow> j = k"
proof -
  have "j < 2 ^ 32" "k < 2 ^ 32" using assms(2,3) managed_block(1) [OF assms(1)] by simp_all
  then show ?thesis by (simp add: word_of_nat_eq_iff take_bit_nat_eq_self)
qed

text \<open>The addresses an operator may request: not the network's own, not the broadcast address, and free.\<close>

lemma validateNodeIP_offset:
  assumes p: "managed_prefix p" and cidr: "netCIDR network = prefix_str p" and k: "0 < k" "k < block_size p"
  shows "validateNodeIP network nodes (addr_str (Addr p + of_nat k)) =
    (if k = block_size p - 1 then Inl ErrInvalid
     else if addr_str (Addr p + of_nat k) \<in> set (used_addresses network nodes) then Inl ErrConflict else Inr ())"
proof -
  have m: "Addr p AND mask_word (Bits p) = Addr p" "Bits p \<le> 32"
    using p by (auto simp: managed_prefix_def Masked_def mask_word_def) (metis prefix.sel(1))
  have "k < 65536" using k(2) managed_block(1) [OF p] by simp
  then have "IPNet_Contains (prefix_ipnet p) (bytes4 (Addr p + of_nat k))"
    using contains_offset [OF p, of k] k(2) IPNet_Contains_word [of "bytes4 (Addr p + of_nat k)" "Addr p + of_nat k" "Addr p" "Bits p"] by simp
  moreover have "\<not> IP_Equal (bytes4 (Addr p + of_nat k)) (bytes4 (Addr p))"
    using offset_inj [OF p, of k 0] k by (simp add: IP_Equal_def bytes4_inj)
  moreover have "isBroadcast (bytes4 (Addr p + of_nat k)) (prefix_ipnet p) \<longleftrightarrow> k = block_size p - 1"
    unfolding isBroadcast_short [OF p] broadcast_offset [OF p] using offset_inj [OF p k(2), of "block_size p - 1"] k by simp
  ultimately show ?thesis
    using m by (simp add: validateNodeIP_def cidr ParseCIDR_prefix_str ParseIP_To4_def)
qed

definition small_network :: Network where
  "small_network = zero_network\<lparr>netID := ''net'', netCIDR := ''10.9.8.0/28''\<rparr>"

definition small_nodes :: "Node list" where
  "small_nodes = map (\<lambda>ip. zero_node\<lparr>nodeNetworkID := ''net'', nodeIP := ip\<rparr>)
     [''10.9.8.10'', ''10.9.8.11'', ''10.9.8.12'', ''10.9.8.13'', ''10.9.8.14'']"

lemma small_network_cidr: "netCIDR small_network = prefix_str (Prefix 0x0A090800 28)"
  unfolding small_network_def by code_simp

section \<open>Properties\<close>

text \<open>C30. The automatic choice of a node address ends with the first address of the network, counted from offset
  ten, that \<^verbatim>\<open>validateNodeIP\<close> would admit if an operator asked for it.  When there is none it does not report
  exhaustion as it should: it hands out the broadcast address of the network, which \<^verbatim>\<open>validateNodeIP\<close> refuses,
  and fails only if a node has that address already.  The cause is that the broadcast test of the search
  indexes the sixteen-byte form \<^verbatim>\<open>addIPv4\<close> returns.\<close>

theorem nextAddress_exact:
  assumes "Masked p = p" "16 \<le> Bits p" "Bits p \<le> 28" "netCIDR network = prefix_str p"
  shows "nextAddress network nodes =
    (case filter (\<lambda>a. validateNodeIP network nodes (addr_str a) = Inr ())
            (map (\<lambda>k. Addr p + of_nat k) [10..<2 ^ (32 - Bits p)]) of
       a # _ \<Rightarrow> Inr (addr_str a)
     | [] \<Rightarrow> if addr_str (broadcast p) \<in> nodeIP ` {n \<in> set nodes. nodeNetworkID n = netID network}
             then Inl ErrConflict else Inr (addr_str (broadcast p)))
    \<and> validateNodeIP network nodes (addr_str (broadcast p)) = Inl ErrInvalid"
proof -
  have p: "managed_prefix p" using assms by (simp add: managed_prefix_def)
  let ?n = "block_size p - 1" and ?a = "\<lambda>k. Addr p + of_nat k" and ?used = "set (used_addresses network nodes)"
  note ok = validateNodeIP_offset [OF p assms(4), where nodes = nodes] and size = managed_block(2) [OF p]
  have used: "nodeIP ` {n \<in> set nodes. nodeNetworkID n = netID network} = ?used" by (auto simp: used_addresses_def)
  have split: "[10..<block_size p] = [10..<?n] @ [?n]" using size upt_Suc_append [of 10 ?n] by simp
  have last: "validateNodeIP network nodes (addr_str (broadcast p)) = Inl ErrInvalid" "?a ?n = broadcast p"
    using ok [of ?n] size broadcast_offset [OF p] by simp_all
  have "filter (\<lambda>k. validateNodeIP network nodes (addr_str (?a k)) = Inr ()) [10..<?n] = filter (\<lambda>k. addr_str (?a k) \<notin> ?used) [10..<?n]"
  proof (rule filter_cong [OF refl])
    fix k assume "k \<in> set [10..<?n]"
    then have "0 < k" "k < block_size p" "k \<noteq> ?n" by auto
    then show "(validateNodeIP network nodes (addr_str (?a k)) = Inr ()) = (addr_str (?a k) \<notin> ?used)" using ok [of k] by simp
  qed
  then have "filter (\<lambda>a. validateNodeIP network nodes (addr_str a) = Inr ()) (map ?a [10..<block_size p]) =
      map ?a (filter (\<lambda>k. addr_str (?a k) \<notin> ?used) [10..<?n])"
    unfolding split using last by (simp add: filter_map o_def)
  moreover have "nextAddress network nodes = (case filter (\<lambda>k. addr_str (?a k) \<notin> ?used) ([10..<?n] @ [?n]) of
      [] \<Rightarrow> Inl ErrConflict | k # _ \<Rightarrow> Inr (addr_str (?a k)))"
    unfolding nextAddress_find [OF p assms(4)] split find_filter by (simp split: list.splits)
  ultimately show ?thesis
    unfolding used using last by (auto split: list.splits)
qed

theorem nextAddress_exact_witness:
  "nextAddress small_network [] = Inr ''10.9.8.10'' \<and> nextAddress small_network small_nodes = Inr ''10.9.8.15'' \<and>
   validateNodeIP small_network small_nodes ''10.9.8.15'' = Inl ErrInvalid"
proof -
  let ?p = "Prefix 0x0A090800 28"
  let ?hosts = "\<lambda>nodes. filter (\<lambda>a. validateNodeIP small_network nodes (addr_str a) = Inr ()) (map (\<lambda>k. Addr ?p + of_nat k) [10..<2 ^ (32 - Bits ?p)])"
  have m: "Masked ?p = ?p" by code_simp
  note exact = nextAddress_exact [OF m _ _ small_network_cidr]
  have "?hosts [] = map (\<lambda>k. Addr ?p + of_nat k) [10..<15]" "?hosts small_nodes = []" by code_simp+
  moreover have "addr_str (broadcast ?p) = ''10.9.8.15''" "addr_str (Addr ?p + of_nat 10) = ''10.9.8.10''" by code_simp+
  moreover have "''10.9.8.15'' \<notin> nodeIP ` {n \<in> set small_nodes. nodeNetworkID n = netID small_network}" by (auto simp: small_nodes_def)
  ultimately show ?thesis using exact [of "[]"] exact [of small_nodes] by (simp add: upt_rec)
qed

end
