(* ===== verification/Mesh_Handler.thy ===== *)
theory Mesh_Handler
  imports Mesh_Model "HOL-Library.Sublist"
begin

text \<open>
  The contract the network handlers of \<^verbatim>\<open>internal/control\<close> share.  A handler names a network, an
  expected configuration revision and the change it wants; it either fails, or finds nothing to do and
  returns the state as it was, or replaces that one network, moves its revision from the expected value
  to the next, stamps it, appends one audit event, and changes nothing else (a change of the trust
  bundle also drops expired recovery replays).  The locale states that contract once; what
  follows from it (no lost update, revisions that never decrease, an append-only audit log) is proved
  inside it and every handler that has it is an interpretation.
\<close>

section \<open>One committed change of one network\<close>

definition network_step :: "string \<Rightarrow> int \<Rightarrow> time \<Rightarrow> State \<Rightarrow> State \<Rightarrow> bool" where
  "network_step ident expected now s s' \<longleftrightarrow>
     (\<exists>i n ev. find_network_idx s ident = Some i \<and> netConfigRevision (Networks s ! i) = expected \<and>
        expected \<noteq> MaxInt64 \<and> netID n = ident \<and> netConfigRevision n = expected + 1 \<and>
        netConfigUpdatedAt n = now \<and> Networks s' = (Networks s)[i := n] \<and> Nodes s' = Nodes s \<and>
        Version s' = Version s \<and> Audit s' = Audit s @ [ev] \<and> Enrollments s' = Enrollments s \<and>
        Issuances s' = Issuances s \<and> Revocations s' = Revocations s \<and>
        set (AgentRecoveries s') \<subseteq> set (AgentRecoveries s))"

section \<open>Facts about network updates\<close>

lemma find_network_idx_lt: "find_network_idx s ident = Some i \<Longrightarrow> i < length (Networks s)"
  by (simp add: find_network_idx_def find_idx_lt)

lemma find_network_idx_ID: "find_network_idx s ident = Some i \<Longrightarrow> netID (Networks s ! i) = ident"
  by (auto simp: find_network_idx_def dest: find_idx_P)

lemma update_simps [simp]:
  "Networks (add_audit s ev) = Networks s" "Nodes (add_audit s ev) = Nodes s"
  "Version (add_audit s ev) = Version s" "Audit (add_audit s ev) = Audit s @ [ev]"
  "Networks (set_network s i n) = (Networks s)[i := n]" "Nodes (set_network s i n) = Nodes s"
  "Version (set_network s i n) = Version s" "Audit (set_network s i n) = Audit s"
  "Networks (set_node s i m) = Networks s" "Nodes (set_node s i m) = (Nodes s)[i := m]"
  "Version (set_node s i m) = Version s" "Audit (set_node s i m) = Audit s"
  by (simp_all add: add_audit_def set_network_def set_node_def)

lemma update_other_simps [simp]:
  "Enrollments (add_audit s ev) = Enrollments s" "AgentRecoveries (add_audit s ev) = AgentRecoveries s"
  "Issuances (add_audit s ev) = Issuances s" "Revocations (add_audit s ev) = Revocations s"
  "Enrollments (set_network s i n) = Enrollments s" "AgentRecoveries (set_network s i n) = AgentRecoveries s"
  "Issuances (set_network s i n) = Issuances s" "Revocations (set_network s i n) = Revocations s"
  "Enrollments (set_node s i m) = Enrollments s" "AgentRecoveries (set_node s i m) = AgentRecoveries s"
  "Issuances (set_node s i m) = Issuances s" "Revocations (set_node s i m) = Revocations s"
  by (simp_all add: add_audit_def set_network_def set_node_def)

lemma nextConfigRevision_Inr: "nextConfigRevision r True = Inr nr \<longleftrightarrow> r \<noteq> MaxInt64 \<and> nr = r + 1"
  by (auto simp: nextConfigRevision_def)

lemma findNode_SomeD: "findNode s x = Some v \<Longrightarrow> v \<in> set (Nodes s) \<and> nodeID v = x"
  by (auto simp: findNode_def find_Some_iff)

lemma findNode_simps [simp]:
  "findNode (add_audit s ev) = findNode s" "findNode (set_network s i n) = findNode s"
  by (simp_all add: findNode_def fun_eq_iff)

lemma findNode_cong: "Nodes s' = Nodes s \<Longrightarrow> findNode s' = findNode s"
  by (simp add: findNode_def fun_eq_iff)

lemma findNetwork_idx: "findNetwork s ident = map_option ((!) (Networks s)) (find_network_idx s ident)"
  by (simp add: findNetwork_def find_network_idx_def find_find_idx)

lemma set_network_find:
  assumes "find_network_idx s ident = Some i" "netID n = netID (Networks s ! i)" "Networks s' = (Networks s)[i := n]"
  shows "find_network_idx s' ident = Some i" "Networks s' ! i = n"
proof -
  show "Networks s' ! i = n" using find_network_idx_lt [OF assms(1)] assms(3) by simp
  show "find_network_idx s' ident = Some i"
    unfolding find_network_idx_def assms(3)
    by (rule find_idx_update_same) (use assms(1,2) find_network_idx_ID [OF assms(1)] in \<open>simp_all add: find_network_idx_def\<close>)
qed

lemma network_step_commitI:
  assumes "find_network_idx s ident = Some i" "netConfigRevision (Networks s ! i) = expected"
    and "nextConfigRevision expected True = Inr (netConfigRevision n)"
    and "netID n = netID (Networks s ! i)" "netConfigUpdatedAt n = now"
  shows "network_step ident expected now s (add_audit (set_network s i n) ev)"
    and "set recs \<subseteq> set (AgentRecoveries s) \<Longrightarrow>
      network_step ident expected now s (add_audit (set_network (s\<lparr>AgentRecoveries := recs\<rparr>) i n) ev)"
proof -
  have "expected \<noteq> MaxInt64 \<and> netConfigRevision n = expected + 1"
    using assms(3) by (auto simp: nextConfigRevision_def split: if_splits)
  then show "network_step ident expected now s (add_audit (set_network s i n) ev)"
    "set recs \<subseteq> set (AgentRecoveries s) \<Longrightarrow>
      network_step ident expected now s (add_audit (set_network (s\<lparr>AgentRecoveries := recs\<rparr>) i n) ev)"
    unfolding network_step_def using assms find_network_idx_ID [OF assms(1)] by auto
qed

lemma network_step_idx:
  assumes "network_step ident expected now s s'"
  obtains i n where "find_network_idx s ident = Some i" "find_network_idx s' ident = Some i"
    "Networks s' = (Networks s)[i := n]" "netID n = ident" "netConfigRevision (Networks s ! i) = expected"
    "netConfigRevision n = expected + 1" "expected \<noteq> MaxInt64" "Networks s' ! i = n"
proof -
  from assms obtain i n where i: "find_network_idx s ident = Some i" "netID n = ident"
      "Networks s' = (Networks s)[i := n]" "netConfigRevision (Networks s ! i) = expected"
      "netConfigRevision n = expected + 1" "expected \<noteq> MaxInt64"
    unfolding network_step_def by blast
  moreover have "find_network_idx s' ident = Some i"
    using i(1-3) by (simp add: find_network_idx_def find_idx_update_same)
  moreover have "Networks s' ! i = n" using i(3) find_network_idx_lt [OF i(1)] by simp
  ultimately show thesis using that by blast
qed

section \<open>The contract\<close>

locale revisioned_handler =
  fixes handle :: "string \<Rightarrow> 'input \<Rightarrow> time \<Rightarrow> State \<Rightarrow> ('doc \<times> State) result"
    and resolve :: "string \<Rightarrow> string"
    and expected :: "'input \<Rightarrow> int"
  assumes effect: "handle ident input now s = Inr (d, s') \<Longrightarrow>
      s' = s \<or> network_step (resolve ident) (expected input) now s s'"
begin

lemma no_lost_update:
  assumes "handle ident input now s = Inr (d, s1)" "s1 \<noteq> s"
    and "handle ident' input' now' s1 = Inr (d', s2)" "resolve ident' = resolve ident"
    and "expected input' = expected input"
  shows "s2 = s1"
proof (rule ccontr)
  assume "s2 \<noteq> s1"
  with effect [OF assms(3)] assms(4,5) have 2: "network_step (resolve ident) (expected input) now' s1 s2" by simp
  from effect [OF assms(1)] assms(2) have 1: "network_step (resolve ident) (expected input) now s s1" by simp
  then obtain i n where s1: "find_network_idx s1 (resolve ident) = Some i" "Networks s1 ! i = n"
      "netConfigRevision n = expected input + 1"
    by (rule network_step_idx)
  from 2 obtain j where "find_network_idx s1 (resolve ident) = Some j" "netConfigRevision (Networks s1 ! j) = expected input"
    by (rule network_step_idx)
  with s1 show False by simp
qed

lemma other_networks_kept:
  assumes "handle ident input now s = Inr (d, s')" "findNetwork s x = Some n" "x \<noteq> resolve ident"
  shows "findNetwork s' x = Some n"
proof -
  have find: "List.find (\<lambda>v. netID v = x) (ns[i := m]) = List.find (\<lambda>v. netID v = x) ns"
    if "i < length ns" "netID (ns ! i) \<noteq> x" "netID m \<noteq> x" for ns :: "Network list" and i m
    using that by (induction ns arbitrary: i) (auto simp: nth_Cons split: nat.splits)
  show ?thesis
    using effect [OF assms(1)]
  proof
    assume "s' = s"
    with assms(2) show ?thesis by simp
  next
    assume "network_step (resolve ident) (expected input) now s s'"
    then obtain i m where i: "find_network_idx s (resolve ident) = Some i" "netID m = resolve ident"
        and s': "Networks s' = (Networks s)[i := m]"
      by (rule network_step_idx)
    have "findNetwork s' x = findNetwork s x"
      unfolding s' findNetwork_def
      using find [of i "Networks s" m] i assms(3) find_network_idx_lt [OF i(1)] find_network_idx_ID [OF i(1)] by simp
    with assms(2) show ?thesis by simp
  qed
qed

lemma audit_append_only:
  assumes "handle ident input now s = Inr (d, s')"
  shows "\<exists>evs. Audit s' = Audit s @ evs \<and> length evs = (if s' = s then 0 else 1)"
  using effect [OF assms]
proof
  assume "network_step (resolve ident) (expected input) now s s'"
  then obtain ev where "Audit s' = Audit s @ [ev]" unfolding network_step_def by blast
  moreover from this have "s' \<noteq> s" by (metis append_self_conv not_Cons_self2)
  ultimately show ?thesis by auto
qed simp

lemma revisions_bounded:
  assumes "handle ident input now s = Inr (d, s')"
    and "list_all (\<lambda>n. 0 \<le> netConfigRevision n \<and> netConfigRevision n \<le> MaxInt64) (Networks s)"
  shows "list_all (\<lambda>n. 0 \<le> netConfigRevision n \<and> netConfigRevision n \<le> MaxInt64) (Networks s')"
    and "list_all2 (\<lambda>n n'. netID n' = netID n \<and> netConfigRevision n \<le> netConfigRevision n') (Networks s) (Networks s')"
proof -
  let ?ok = "\<lambda>n. 0 \<le> netConfigRevision n \<and> netConfigRevision n \<le> MaxInt64"
  let ?le = "\<lambda>n n'. netID n' = netID n \<and> netConfigRevision n \<le> netConfigRevision n'"
  have "list_all ?ok (Networks s') \<and> list_all2 ?le (Networks s) (Networks s')"
    using effect [OF assms(1)]
  proof
    assume "s' = s"
    with assms(2) show ?thesis by (simp add: list_all2_refl)
  next
    assume "network_step (resolve ident) (expected input) now s s'"
    then obtain i n where n: "find_network_idx s (resolve ident) = Some i" "netConfigRevision (Networks s ! i) = expected input"
        "expected input \<noteq> MaxInt64" "netID n = resolve ident" "netConfigRevision n = expected input + 1"
        "Networks s' = (Networks s)[i := n]"
      by (rule network_step_idx)
    have i: "i < length (Networks s)" using n(1) by (rule find_network_idx_lt)
    with assms(2) have old: "?ok (Networks s ! i)" by (simp add: list_all_length)
    from old n(2,3,5) have "?ok n" by simp
    then have "list_all ?ok (Networks s')"
      using assms(2) n(6) by (auto simp: list_all_iff dest: set_update_subset_insert [THEN subsetD])
    moreover have "list_all2 ?le (Networks s) (Networks s')"
      unfolding n(6) list_all2_conv_all_nth
      using n(2,4,5) find_network_idx_ID [OF n(1)] by (auto simp: nth_list_update [OF i])
    ultimately show ?thesis by simp
  qed
  then show "list_all ?ok (Networks s')" "list_all2 ?le (Networks s) (Networks s')" by simp_all
qed

end

end
