(* ===== verification/Mesh_Sample.thy ===== *)
theory Mesh_Sample
  imports Mesh_Handler
begin

text \<open>
  A small control-plane state on which the witnesses of the component theories evaluate their
  definitions: one network, a gateway that routes one prefix, a second active node, and a revoked one.
\<close>

text \<open>A stand-in for SHA-256 on the short texts of the sample: the length and the last byte.\<close>

definition demo_sha :: sha256 where
  "demo_sha s = [length s mod 256, if s = [] then 0 else of_char (last s)]"

text \<open>A stand-in with sums of 32 bytes: the first byte, repeated.\<close>

definition wide_sha :: sha256 where
  "wide_sha s = replicate 32 (case s of [] \<Rightarrow> 0 | c # cs \<Rightarrow> of_char c mod 256)"

lemma wide_sha_shape: "sum_shape wide_sha"
  by (simp add: sum_shape_def wide_sha_def split: list.splits)

definition demo_node :: "string \<Rightarrow> string \<Rightarrow> Node" where
  "demo_node ident ip = zero_node\<lparr>nodeID := ident, nodeNetworkID := ''net'', nodeName := ident, nodeIP := ip,
     nodeRole := ''member'', nodeStatus := ''active'', nodeEnrolledAt := Some 50, nodeCertificateGeneration := 1,
     nodeCertificateFingerprint := ''fp-'' @ ident, nodeCertificateAuthoritySHA256 := ConfigDigest demo_sha ''ca-one''\<rparr>"

definition demo_gateway :: Node where
  "demo_gateway = (demo_node ''gateway'' ''10.9.8.10'')\<lparr>nodeRoutedSubnets := [''192.168.4.0/24'']\<rparr>"

definition demo_member :: Node where
  "demo_member = demo_node ''member'' ''10.9.8.11''"

definition demo_revoked :: Node where
  "demo_revoked = (demo_node ''lost'' ''10.9.8.12'')\<lparr>nodeStatus := ''revoked'', nodeRevokedAt := Some 60\<rparr>"

definition demo_network :: Network where
  "demo_network = zero_network\<lparr>netID := ''net'', netName := ''demo'', netCIDR := ''10.9.8.0/24'',
     netRelaySettings := \<lparr>relayEnabled = False, relayNodeIDs = Some []\<rparr>,
     netDNSSettings := \<lparr>dnsEnabled = False, dnsListenPort = 53, dnsNativeResolver = False, dnsSearchDomain = []\<rparr>,
     netListenPort := 4242, netCACertificate := ''ca-one'', netConfigRevision := 7, netConfigUpdatedAt := 70\<rparr>"

definition demo_state :: State where
  "demo_state = empty_state\<lparr>Version := 13, Networks := [demo_network],
     Nodes := [demo_gateway, demo_member, demo_revoked]\<rparr>"

lemmas demo_defs = demo_state_def demo_network_def demo_gateway_def demo_member_def demo_revoked_def demo_node_def
  zero_network_def zero_node_def empty_state_def

lemma demo_state_simps [simp]:
  "Networks demo_state = [demo_network]" "Nodes demo_state = [demo_gateway, demo_member, demo_revoked]"
  "Version demo_state = 13" "Revocations demo_state = []" "Audit demo_state = []"
  by (simp_all add: demo_state_def empty_state_def)

lemma demo_ids [simp]:
  "netID demo_network = ''net''" "nodeID demo_gateway = ''gateway''" "nodeID demo_member = ''member''"
  "nodeID demo_revoked = ''lost''" "nodeNetworkID demo_gateway = ''net''" "nodeNetworkID demo_member = ''net''"
  "nodeNetworkID demo_revoked = ''net''" "nodeStatus demo_gateway = ''active''" "nodeStatus demo_member = ''active''"
  "nodeStatus demo_revoked = ''revoked''" "netConfigRevision demo_network = 7"
  by (simp_all add: demo_gateway_def demo_member_def demo_revoked_def demo_node_def demo_network_def zero_node_def zero_network_def)

end
