(* ===== verification/Mesh_RouteRecords.thy ===== *)
theory Mesh_RouteRecords
  imports Mesh_Sample
begin

text \<open>
  The two state machines that change which prefixes an active node may route, as data:
  \<^verbatim>\<open>internal/control/route_transfer.go\<close> moves prefixes between two gateways and
  \<^verbatim>\<open>route_profile_edit.go\<close> replaces the prefix set of one.  This theory holds their predicates, the
  set operations on canonical prefix lists, the validation of the persisted records against the state,
  and the prefixes a certificate of a node is signed for in each phase.  The persisted snapshots are
  lists: the code tells a nil from an empty snapshot only in the two zero tests, where the request
  identifier and the phase, empty only in the zero record, decide.
\<close>

section \<open>Route transfers\<close>

abbreviation RouteTransferPhasePreparingTarget :: string where
  "RouteTransferPhasePreparingTarget \<equiv> ''preparing_target''"
abbreviation RouteTransferPhaseCleaningSource :: string where
  "RouteTransferPhaseCleaningSource \<equiv> ''cleaning_source''"
abbreviation RouteTransferPhaseCleaningTarget :: string where
  "RouteTransferPhaseCleaningTarget \<equiv> ''cleaning_target''"
abbreviation RouteTransferPhaseCompleted :: string where
  "RouteTransferPhaseCompleted \<equiv> ''completed''"
abbreviation RouteTransferPhaseCancelled :: string where
  "RouteTransferPhaseCancelled \<equiv> ''cancelled''"

definition zeroNetworkRouteTransfer :: "NetworkRouteTransfer \<Rightarrow> bool" where
  "zeroNetworkRouteTransfer v =
     (rtRequestID v = [] \<and> rtPhase v = [] \<and> rtSourceNodeID v = [] \<and> rtTargetNodeID v = [] \<and>
      rtRoutedSubnets v = [] \<and> rtSourceOriginalSubnets v = [] \<and> rtTargetOriginalSubnets v = [] \<and>
      rtTargetCertificateGeneration v = 0 \<and> rtSourceCertificateGeneration v = 0 \<and>
      rtStartedAt v = 0 \<and> rtPromotedAt v = 0 \<and> rtFinishedAt v = 0)"

definition routeTransferTerminal :: "NetworkRouteTransfer \<Rightarrow> bool" where
  "routeTransferTerminal v =
     (zeroNetworkRouteTransfer v \<or> rtPhase v = RouteTransferPhaseCompleted \<or>
      rtPhase v = RouteTransferPhaseCancelled)"

definition routeTransferActive :: "NetworkRouteTransfer \<Rightarrow> bool" where
  "routeTransferActive v =
     (rtPhase v = RouteTransferPhasePreparingTarget \<or> rtPhase v = RouteTransferPhaseCleaningSource \<or>
      rtPhase v = RouteTransferPhaseCleaningTarget)"

definition routeTransferIncludesNode :: "NetworkRouteTransfer \<Rightarrow> string \<Rightarrow> bool" where
  "routeTransferIncludesNode v ident =
     (routeTransferActive v \<and> (rtSourceNodeID v = ident \<or> rtTargetNodeID v = ident))"

definition validRouteTransferRequestID :: "string \<Rightarrow> bool" where
  "validRouteTransferRequestID v =
     (let t = TrimSpace v in
      16 \<le> length t \<and> length t \<le> 128 \<and>
      \<not> list_ex (\<lambda>c. c \<in> set [CHR 0x0D, CHR 0x0A, CHR 0x09, CHR 0x20]) t)"

definition subnetSetContainsAll :: "string list \<Rightarrow> string list \<Rightarrow> bool" where
  "subnetSetContainsAll owner requested = list_all (\<lambda>route. route \<in> set owner) requested"

text \<open>The error of the normalisation is dropped and the nil slice it comes with is the result.\<close>

definition mergeSubnets :: "string list \<Rightarrow> string list \<Rightarrow> string list" where
  "mergeSubnets left right =
     (case normalizeRoutedSubnets (left @ right) of Inl e \<Rightarrow> [] | Inr result \<Rightarrow> result)"

definition subtractSubnets :: "string list \<Rightarrow> string list \<Rightarrow> string list" where
  "subtractSubnets owner removed = filter (\<lambda>route. route \<notin> set removed) owner"

section \<open>Route profile edits\<close>

abbreviation RouteProfileEditPhasePreparingOwner :: string where
  "RouteProfileEditPhasePreparingOwner \<equiv> ''preparing_owner''"
abbreviation RouteProfileEditPhaseCleaningOwner :: string where
  "RouteProfileEditPhaseCleaningOwner \<equiv> ''cleaning_owner''"
abbreviation RouteProfileEditPhaseCleaningCancelledOwner :: string where
  "RouteProfileEditPhaseCleaningCancelledOwner \<equiv> ''cleaning_cancelled_owner''"
abbreviation RouteProfileEditPhaseCompleted :: string where
  "RouteProfileEditPhaseCompleted \<equiv> ''completed''"
abbreviation RouteProfileEditPhaseCancelled :: string where
  "RouteProfileEditPhaseCancelled \<equiv> ''cancelled''"

definition zeroNetworkRouteProfileEdit :: "NetworkRouteProfileEdit \<Rightarrow> bool" where
  "zeroNetworkRouteProfileEdit v =
     (peRequestID v = [] \<and> pePhase v = [] \<and> peNodeID v = [] \<and>
      peOriginalSubnets v = [] \<and> peDesiredSubnets v = [] \<and>
      pePreparedCertificateGeneration v = 0 \<and> peCleanupCertificateGeneration v = 0 \<and>
      peStartedAt v = 0 \<and> pePromotedAt v = 0 \<and> peFinishedAt v = 0)"

definition routeProfileEditTerminal :: "NetworkRouteProfileEdit \<Rightarrow> bool" where
  "routeProfileEditTerminal v =
     (zeroNetworkRouteProfileEdit v \<or> pePhase v = RouteProfileEditPhaseCompleted \<or>
      pePhase v = RouteProfileEditPhaseCancelled)"

definition routeProfileEditActive :: "NetworkRouteProfileEdit \<Rightarrow> bool" where
  "routeProfileEditActive v =
     (pePhase v = RouteProfileEditPhasePreparingOwner \<or> pePhase v = RouteProfileEditPhaseCleaningOwner \<or>
      pePhase v = RouteProfileEditPhaseCleaningCancelledOwner)"

definition routeProfileEditIncludesNode :: "NetworkRouteProfileEdit \<Rightarrow> string \<Rightarrow> bool" where
  "routeProfileEditIncludesNode v ident = (routeProfileEditActive v \<and> peNodeID v = ident)"

definition subnetDifference :: "string list \<Rightarrow> string list \<Rightarrow> string list" where
  "subnetDifference left right = filter (\<lambda>route. route \<notin> set right) left"

definition routeProfileEditAdditions :: "NetworkRouteProfileEdit \<Rightarrow> string list" where
  "routeProfileEditAdditions v = subnetDifference (peDesiredSubnets v) (peOriginalSubnets v)"

definition routeProfileEditRemovals :: "NetworkRouteProfileEdit \<Rightarrow> string list" where
  "routeProfileEditRemovals v = subnetDifference (peOriginalSubnets v) (peDesiredSubnets v)"

fun transition_against :: "prefix \<Rightarrow> string list \<Rightarrow> unit result" where
  "transition_against added [] = Inr ()"
| "transition_against added (existing # rest) =
     (case ParsePrefix existing of
        None \<Rightarrow> Inl ErrConflict
      | Some q \<Rightarrow> if prefixesOverlap added q then Inl ErrInvalid else transition_against added rest)"

fun transition_additions :: "string list \<Rightarrow> string list \<Rightarrow> unit result" where
  "transition_additions original [] = Inr ()"
| "transition_additions original (added # rest) =
     (case ParsePrefix added of
        None \<Rightarrow> Inl ErrInvalid
      | Some p \<Rightarrow>
          (case transition_against p original of
             Inl e \<Rightarrow> Inl e
           | Inr _ \<Rightarrow> transition_additions original rest))"

definition validateRouteProfileTransition :: "string list \<Rightarrow> string list \<Rightarrow> unit result" where
  "validateRouteProfileTransition original desired =
     (let additions = subnetDifference desired original in
      case transition_additions original additions of
        Inl e \<Rightarrow> Inl e
      | Inr _ \<Rightarrow>
          if length original + length additions > maxRoutedSubnetsPerNode then Inl ErrInvalid else Inr ())"

definition routeProfileEditDesiredGeneration :: "NetworkRouteProfileEdit \<Rightarrow> int" where
  "routeProfileEditDesiredGeneration v =
     (if pePhase v = RouteProfileEditPhasePreparingOwner then pePreparedCertificateGeneration v
      else if pePhase v = RouteProfileEditPhaseCleaningOwner \<or>
              pePhase v = RouteProfileEditPhaseCleaningCancelledOwner then peCleanupCertificateGeneration v
      else 0)"

section \<open>Validation of the persisted records\<close>

definition route_transfer_phase_metadata :: "NetworkRouteTransfer \<Rightarrow> bool" where
  "route_transfer_phase_metadata t =
     ((rtPhase t = RouteTransferPhasePreparingTarget \<longrightarrow>
         rtPromotedAt t = 0 \<and> rtFinishedAt t = 0 \<and> rtSourceCertificateGeneration t = 0) \<and>
      (rtPhase t = RouteTransferPhaseCleaningTarget \<longrightarrow>
         rtPromotedAt t = 0 \<and> rtFinishedAt t = 0 \<and> rtSourceCertificateGeneration t = 0) \<and>
      (rtPhase t = RouteTransferPhaseCleaningSource \<longrightarrow>
         rtPromotedAt t \<noteq> 0 \<and> rtFinishedAt t = 0 \<and> 1 \<le> rtSourceCertificateGeneration t) \<and>
      (rtPhase t = RouteTransferPhaseCompleted \<longrightarrow>
         rtPromotedAt t \<noteq> 0 \<and> rtFinishedAt t \<noteq> 0 \<and> 1 \<le> rtSourceCertificateGeneration t) \<and>
      (rtPhase t = RouteTransferPhaseCancelled \<longrightarrow>
         rtPromotedAt t = 0 \<and> rtFinishedAt t \<noteq> 0 \<and> rtSourceCertificateGeneration t = 0))"

definition route_transfer_participants :: "State \<Rightarrow> Network \<Rightarrow> bool" where
  "route_transfer_participants state network =
     (let t = netRouteTransfer network in
      case (findNode state (rtSourceNodeID t), findNode state (rtTargetNodeID t)) of
        (Some source, Some target) \<Rightarrow>
          nodeNetworkID source = netID network \<and> nodeNetworkID target = netID network \<and>
          nodeStatus source = ''active'' \<and> nodeStatus target = ''active'' \<and>
          (if rtPhase t = RouteTransferPhaseCleaningSource
           then nodeRoutedSubnets source = subtractSubnets (rtSourceOriginalSubnets t) (rtRoutedSubnets t) \<and>
                nodeRoutedSubnets target = mergeSubnets (rtTargetOriginalSubnets t) (rtRoutedSubnets t)
           else nodeRoutedSubnets source = rtSourceOriginalSubnets t \<and>
                nodeRoutedSubnets target = rtTargetOriginalSubnets t)
      | _ \<Rightarrow> False)"

definition validateNetworkRouteTransfer :: "State \<Rightarrow> Network \<Rightarrow> unit result" where
  "validateNetworkRouteTransfer state network =
     (let t = netRouteTransfer network in
      if zeroNetworkRouteTransfer t then Inr ()
      else if \<not> validRouteTransferRequestID (rtRequestID t) \<or> \<not> validPersistedID (rtSourceNodeID t) \<or>
              \<not> validPersistedID (rtTargetNodeID t) \<or> rtSourceNodeID t = rtTargetNodeID t \<or> rtStartedAt t = 0
        then Inl ErrInternal
      else if \<not> (routeTransferActive t \<or> rtPhase t = RouteTransferPhaseCompleted \<or>
                  rtPhase t = RouteTransferPhaseCancelled) then Inl ErrInternal
      else if \<not> is_ok (validateCanonicalRoutedSubnets (rtRoutedSubnets t)) \<or> rtRoutedSubnets t = []
        then Inl ErrInternal
      else if \<not> is_ok (validateCanonicalRoutedSubnets (rtSourceOriginalSubnets t)) \<or> rtSourceOriginalSubnets t = []
        then Inl ErrInternal
      else if \<not> is_ok (validateCanonicalRoutedSubnets (rtTargetOriginalSubnets t)) then Inl ErrInternal
      else if \<not> subnetSetContainsAll (rtSourceOriginalSubnets t) (rtRoutedSubnets t) \<or>
              rtTargetCertificateGeneration t < 1 then Inl ErrInternal
      else if \<not> route_transfer_phase_metadata t then Inl ErrInternal
      else if routeTransferActive t \<and> \<not> route_transfer_participants state network then Inl ErrInternal
      else Inr ())"

definition route_profile_phase_metadata :: "NetworkRouteProfileEdit \<Rightarrow> bool" where
  "route_profile_phase_metadata e =
     (let additions = routeProfileEditAdditions e; removals = routeProfileEditRemovals e in
      if pePhase e = RouteProfileEditPhasePreparingOwner
      then additions \<noteq> [] \<and> peCleanupCertificateGeneration e = 0 \<and> pePromotedAt e = 0 \<and> peFinishedAt e = 0
      else if pePhase e = RouteProfileEditPhaseCleaningOwner
      then removals \<noteq> [] \<and> 1 \<le> peCleanupCertificateGeneration e \<and> pePromotedAt e \<noteq> 0 \<and> peFinishedAt e = 0
      else if pePhase e = RouteProfileEditPhaseCleaningCancelledOwner
      then additions \<noteq> [] \<and> 1 \<le> peCleanupCertificateGeneration e \<and> pePromotedAt e = 0 \<and> peFinishedAt e = 0
      else if pePhase e = RouteProfileEditPhaseCompleted
      then pePromotedAt e \<noteq> 0 \<and> peFinishedAt e \<noteq> 0 \<and>
           (removals \<noteq> [] \<longrightarrow> 1 \<le> peCleanupCertificateGeneration e) \<and>
           (removals = [] \<longrightarrow> peCleanupCertificateGeneration e = 0)
      else pePromotedAt e = 0 \<and> peFinishedAt e \<noteq> 0)"

definition route_profile_owner :: "State \<Rightarrow> Network \<Rightarrow> bool" where
  "route_profile_owner state network =
     (let e = netRouteProfileEdit network in
      \<not> routeTransferActive (netRouteTransfer network) \<and>
      (case findNode state (peNodeID e) of
         None \<Rightarrow> False
       | Some owner \<Rightarrow>
           nodeNetworkID owner = netID network \<and> nodeStatus owner = ''active'' \<and> nodeEnrolledAt owner \<noteq> None \<and>
           (routeProfileEditDesiredGeneration e = nodeCertificateGeneration owner \<or>
            nodeCertificateGeneration owner \<noteq> MaxInt64 \<and>
            routeProfileEditDesiredGeneration e = nodeCertificateGeneration owner + 1) \<and>
           nodeRoutedSubnets owner =
             (if pePhase e = RouteProfileEditPhaseCleaningOwner then peDesiredSubnets e else peOriginalSubnets e)))"

definition validateNetworkRouteProfileEdit :: "State \<Rightarrow> Network \<Rightarrow> unit result" where
  "validateNetworkRouteProfileEdit state network =
     (let e = netRouteProfileEdit network;
          additions = routeProfileEditAdditions e; removals = routeProfileEditRemovals e in
      if zeroNetworkRouteProfileEdit e then Inr ()
      else if \<not> validRouteTransferRequestID (peRequestID e) \<or> \<not> validPersistedID (peNodeID e) \<or> peStartedAt e = 0
        then Inl ErrInternal
      else if \<not> (routeProfileEditActive e \<or> pePhase e = RouteProfileEditPhaseCompleted \<or>
                  pePhase e = RouteProfileEditPhaseCancelled) then Inl ErrInternal
      else if \<not> is_ok (validateCanonicalRoutedSubnets (peOriginalSubnets e)) then Inl ErrInternal
      else if \<not> is_ok (validateCanonicalRoutedSubnets (peDesiredSubnets e)) then Inl ErrInternal
      else if additions = [] \<and> removals = [] then Inl ErrInternal
      else if additions = [] \<and> pePreparedCertificateGeneration e \<noteq> 0 \<or>
              additions \<noteq> [] \<and> pePreparedCertificateGeneration e < 1 then Inl ErrInternal
      else if \<not> route_profile_phase_metadata e then Inl ErrInternal
      else if routeProfileEditActive e \<and> \<not> route_profile_owner state network then Inl ErrInternal
      else Inr ())"

section \<open>What a certificate is signed for\<close>

definition routeProfileCertificateRoutedSubnets :: "Network \<Rightarrow> Node \<Rightarrow> string list option" where
  "routeProfileCertificateRoutedSubnets network node =
     (let e = netRouteProfileEdit network in
      if nodeID node \<noteq> peNodeID e then None
      else if pePhase e = RouteProfileEditPhasePreparingOwner
        then Some (mergeSubnets (peOriginalSubnets e) (peDesiredSubnets e))
      else if pePhase e = RouteProfileEditPhaseCleaningOwner then Some (peDesiredSubnets e)
      else if pePhase e = RouteProfileEditPhaseCleaningCancelledOwner then Some (peOriginalSubnets e)
      else None)"

definition certificateRoutedSubnets :: "Network \<Rightarrow> Node \<Rightarrow> string list" where
  "certificateRoutedSubnets network node =
     (let t = netRouteTransfer network in
      if rtPhase t = RouteTransferPhasePreparingTarget \<and> nodeID node = rtTargetNodeID t
        then mergeSubnets (rtTargetOriginalSubnets t) (rtRoutedSubnets t)
      else if rtPhase t = RouteTransferPhaseCleaningTarget \<and> nodeID node = rtTargetNodeID t
        then rtTargetOriginalSubnets t
      else case routeProfileCertificateRoutedSubnets network node of
        Some subnets \<Rightarrow> subnets
      | None \<Rightarrow> nodeRoutedSubnets node)"

definition routeProfileCertificateRenewalRequired :: "Network \<Rightarrow> Node \<Rightarrow> bool" where
  "routeProfileCertificateRenewalRequired network node =
     (if nodeID node \<noteq> peNodeID (netRouteProfileEdit network) then False
      else let desired = routeProfileEditDesiredGeneration (netRouteProfileEdit network) in
           0 < desired \<and> nodeCertificateGeneration node < desired)"

definition networkCertificateProfileRenewalRequired :: "Network \<Rightarrow> Node \<Rightarrow> bool" where
  "networkCertificateProfileRenewalRequired network node =
     (let t = netRouteTransfer network in
      if rtPhase t = RouteTransferPhasePreparingTarget \<or> rtPhase t = RouteTransferPhaseCleaningTarget
        then nodeID node = rtTargetNodeID t \<and> nodeCertificateGeneration node < rtTargetCertificateGeneration t
      else if rtPhase t = RouteTransferPhaseCleaningSource
        then nodeID node = rtSourceNodeID t \<and> nodeCertificateGeneration node < rtSourceCertificateGeneration t
      else routeProfileCertificateRenewalRequired network node)"

definition routeProfileEditStartAvailable :: "Network \<Rightarrow> Node \<Rightarrow> bool" where
  "routeProfileEditStartAvailable network node =
     (routeProfileEditTerminal (netRouteProfileEdit network) \<and> routeTransferTerminal (netRouteTransfer network) \<and>
      caPhase (netCARotation network) = [] \<and> roPhase (netFirewallRollout network) = [] \<and>
      nodeStatus node = ''active'' \<and> nodeEnrolledAt node \<noteq> None \<and>
      0 < nodeCertificateGeneration node \<and> nodeCertificateGeneration node < MaxInt64)"

definition terminalRouteTransitionReplayRevision :: "int \<Rightarrow> int \<Rightarrow> bool" where
  "terminalRouteTransitionReplayRevision expected current =
     (expected = current \<or> 1 < current \<and> expected = current - 1)"

section \<open>Lemmas: canonical prefix lists\<close>

abbreviation canonical_subnets :: "string list \<Rightarrow> bool" where
  "canonical_subnets xs \<equiv> normalizeRoutedSubnets xs = Inr xs"

lemma validate_canonical_ok [simp]:
  "is_ok (validateCanonicalRoutedSubnets xs) \<longleftrightarrow> canonical_subnets xs"
  using validateCanonicalRoutedSubnets_iff [of xs] by (auto simp: is_ok_iff)

lemma normalize_set:
  "normalizeRoutedSubnets xs = Inr ys \<Longrightarrow> set ys = TrimSpace ` set xs"
  by (auto simp: normalizeRoutedSubnets_iff) (metis imageI image_set list.set_map)+

lemma canonical_trim: "canonical_subnets xs \<Longrightarrow> map TrimSpace xs = xs"
  by (auto simp: canonical_subnets_iff o_def)

lemma merge_set:
  assumes "canonical_subnets l" "canonical_subnets r" "mergeSubnets l r \<noteq> []"
  shows "set (mergeSubnets l r) = set l \<union> set r" "canonical_subnets (mergeSubnets l r)"
proof -
  from assms(3) obtain m where m: "normalizeRoutedSubnets (l @ r) = Inr m" "mergeSubnets l r = m"
    by (auto simp: mergeSubnets_def split: sum.splits)
  have "map TrimSpace (l @ r) = l @ r" using assms(1,2) by (simp add: canonical_trim)
  then have "TrimSpace ` set (l @ r) = set (l @ r)" by (metis list.set_map)
  with normalize_set [OF m(1)] m(2) show "set (mergeSubnets l r) = set l \<union> set r" by simp
  from normalizeRoutedSubnets_idem [OF m(1)] m(2) show "canonical_subnets (mergeSubnets l r)" by simp
qed

lemma disjoint_prefixes_append:
  "disjoint_prefixes (ps @ qs) \<longleftrightarrow>
     disjoint_prefixes ps \<and> disjoint_prefixes qs \<and> (\<forall>p\<in>set ps. \<forall>q\<in>set qs. \<not> prefixesOverlap p q)"
  by (auto simp: disjoint_prefixes_def sorted_wrt_append)

lemma map_prefix_str_eq: "map prefix_str ps = map prefix_str qs \<longleftrightarrow> ps = qs"
  by (rule inj_map_eq_map) (rule inj_prefix_str)

text \<open>When the union of two canonical lists is again a valid profile, and what it then is.\<close>

lemma merge_canonical:
  assumes "l = map prefix_str ps" "r = map prefix_str qs"
    and "canonical_subnets l" "canonical_subnets r"
  shows "mergeSubnets l r =
    (if length l + length r \<le> 8 \<and> (\<forall>p\<in>set ps. \<forall>q\<in>set qs. \<not> prefixesOverlap p q)
     then map prefix_str (sort (ps @ qs)) else [])"
proof -
  have can: "list_all canonical_routed ps" "disjoint_prefixes ps"
    "list_all canonical_routed qs" "disjoint_prefixes qs"
    using assms by (auto simp: canonical_subnets_iff map_prefix_str_eq)
  have "map TrimSpace (l @ r) = map prefix_str (ps @ qs)" using assms(1,2) by simp
  then have iff: "normalizeRoutedSubnets (l @ r) = Inr m \<longleftrightarrow>
      length l + length r \<le> 8 \<and> (\<forall>p\<in>set ps. \<forall>q\<in>set qs. \<not> prefixesOverlap p q) \<and>
      m = map prefix_str (sort (ps @ qs))" for m
    unfolding normalizeRoutedSubnets_iff
    using can by (auto simp: map_prefix_str_eq [of "ps @ qs"] disjoint_prefixes_append simp flip: map_append)
  then show ?thesis
    by (cases "normalizeRoutedSubnets (l @ r)") (auto simp: mergeSubnets_def)
qed

lemma merge_common_empty:
  assumes "canonical_subnets l" "canonical_subnets r" "x \<in> set l" "x \<in> set r"
  shows "mergeSubnets l r = []"
proof -
  obtain ps qs where ps: "l = map prefix_str ps" and qs: "r = map prefix_str qs"
    using assms(1,2) by (auto simp: canonical_subnets_iff)
  with assms(3,4) obtain p where "p \<in> set ps" "p \<in> set qs" by (auto dest!: prefix_str_inj)
  then have "\<not> (\<forall>p\<in>set ps. \<forall>q\<in>set qs. \<not> prefixesOverlap p q)"
    using prefixesOverlap_refl by blast
  with merge_canonical [OF ps qs assms(1,2)] show ?thesis by argo
qed

lemma subtract_canonical:
  assumes "canonical_subnets xs"
  shows "canonical_subnets (subtractSubnets xs ys)"
proof -
  obtain ps where ps: "xs = map prefix_str ps" "list_all canonical_routed ps" "disjoint_prefixes ps"
    "sorted ps" "length xs \<le> 8"
    using assms by (auto simp: canonical_subnets_iff)
  let ?qs = "filter (\<lambda>p. prefix_str p \<notin> set ys) ps"
  have "subtractSubnets xs ys = map prefix_str ?qs"
    by (simp add: subtractSubnets_def ps(1) filter_map o_def)
  moreover have "list_all canonical_routed ?qs" "sorted ?qs" "disjoint_prefixes ?qs" "length ?qs \<le> 8"
    using ps le_trans [OF length_filter_le [of "\<lambda>p. prefix_str p \<notin> set ys" ps]]
    by (auto simp: list_all_iff disjoint_prefixes_def sorted_wrt_filter_imp)
  ultimately show ?thesis unfolding canonical_subnets_iff by auto
qed

lemma subtract_set [simp]: "set (subtractSubnets xs ys) = set xs - set ys"
  by (auto simp: subtractSubnets_def)

lemma difference_set [simp]: "set (subnetDifference xs ys) = set xs - set ys"
  by (auto simp: subnetDifference_def)

lemma difference_Nil [simp]: "subnetDifference xs ys = [] \<longleftrightarrow> set xs \<subseteq> set ys"
  by (auto simp: subnetDifference_def filter_empty_conv)

section \<open>Lemmas: profile transitions\<close>

lemma transition_against_ok:
  "transition_against p xs = Inr () \<longleftrightarrow>
     (\<forall>x\<in>set xs. \<exists>q. ParsePrefix x = Some q \<and> \<not> prefixesOverlap p q)"
  by (induction xs) (auto split: option.splits)

lemma transition_additions_ok:
  "transition_additions original xs = Inr () \<longleftrightarrow>
     (\<forall>x\<in>set xs. \<exists>p. ParsePrefix x = Some p \<and> transition_against p original = Inr ())"
  by (induction xs) (auto split: option.splits sum.splits)

lemma validateRouteProfileTransition_ok:
  "validateRouteProfileTransition original desired = Inr () \<longleftrightarrow>
     transition_additions original (subnetDifference desired original) = Inr () \<and>
     length original + length (subnetDifference desired original) \<le> 8"
  by (auto simp: validateRouteProfileTransition_def Let_def split: sum.splits)

lemma staged_union:
  assumes can: "canonical_subnets original" "canonical_subnets desired"
    and ok: "validateRouteProfileTransition original desired = Inr ()"
    and disj: "set original \<inter> set desired = {}"
  shows "set (mergeSubnets original desired) = set original \<union> set desired"
proof -
  obtain ps qs where ps: "original = map prefix_str ps" "list_all canonical_routed ps"
    and qs: "desired = map prefix_str qs" "list_all canonical_routed qs"
    using can by (auto simp: canonical_subnets_iff)
  have diff: "subnetDifference desired original = desired"
    using disj by (auto simp: subnetDifference_def filter_id_conv)
  have "\<not> prefixesOverlap p q" if "p \<in> set ps" "q \<in> set qs" for p q
  proof -
    have "prefix_str q \<in> set desired" "prefix_str p \<in> set original" using that ps qs by auto
    then obtain q' p' where "ParsePrefix (prefix_str q) = Some q'" "ParsePrefix (prefix_str p) = Some p'"
      "\<not> prefixesOverlap q' p'"
      using ok diff
      by (fastforce simp: validateRouteProfileTransition_ok transition_additions_ok transition_against_ok)
    then show ?thesis
      using that ps qs by (auto simp: list_all_iff canonical_routed_def ParsePrefix_str prefixesOverlap_commute)
  qed
  moreover have "length original + length desired \<le> 8"
    using ok diff by (simp add: validateRouteProfileTransition_ok)
  ultimately have "mergeSubnets original desired = map prefix_str (sort (ps @ qs))"
    using merge_canonical [OF ps(1) qs(1) can] by simp
  then show ?thesis using ps qs by (simp add: image_Un)
qed

lemma validateNetworkRouteProfileEdit_canonical:
  assumes "validateNetworkRouteProfileEdit state network = Inr ()" "pePhase (netRouteProfileEdit network) \<noteq> []"
  shows "canonical_subnets (peOriginalSubnets (netRouteProfileEdit network))"
    "canonical_subnets (peDesiredSubnets (netRouteProfileEdit network))"
  using assms
  by (auto simp: validateNetworkRouteProfileEdit_def Let_def zeroNetworkRouteProfileEdit_def split: if_splits)

section \<open>Properties\<close>

text \<open>C40. While an accepted route-profile edit prepares its owner, the certificate profile of the owner
  is the union of the original and the desired prefixes when the two have no prefix in common, and is
  empty as soon as they share one: the union is built by the normalisation that refuses duplicates, and
  its error is dropped.  An edit that keeps one prefix and adds another therefore stages a certificate
  with no routed prefix at all.\<close>

theorem staged_profile_drops_shared_prefixes:
  assumes valid: "validateNetworkRouteProfileEdit state network = Inr ()"
    and phase: "pePhase (netRouteProfileEdit network) = RouteProfileEditPhasePreparingOwner"
    and owner: "nodeID node = peNodeID (netRouteProfileEdit network)"
    and accepted: "validateRouteProfileTransition (peOriginalSubnets (netRouteProfileEdit network))
      (peDesiredSubnets (netRouteProfileEdit network)) = Inr ()"
  shows "set (certificateRoutedSubnets network node) =
    (if set (peOriginalSubnets (netRouteProfileEdit network)) \<inter> set (peDesiredSubnets (netRouteProfileEdit network)) = {}
     then set (peOriginalSubnets (netRouteProfileEdit network)) \<union> set (peDesiredSubnets (netRouteProfileEdit network))
     else {})"
proof -
  let ?e = "netRouteProfileEdit network"
  have can: "canonical_subnets (peOriginalSubnets ?e)" "canonical_subnets (peDesiredSubnets ?e)"
    using validateNetworkRouteProfileEdit_canonical [OF valid] phase by auto
  have "route_profile_owner state network"
    using valid phase
    by (auto simp: validateNetworkRouteProfileEdit_def Let_def zeroNetworkRouteProfileEdit_def routeProfileEditActive_def
        split: if_splits)
  then have "\<not> routeTransferActive (netRouteTransfer network)" by (simp add: route_profile_owner_def Let_def)
  then have c: "certificateRoutedSubnets network node = mergeSubnets (peOriginalSubnets ?e) (peDesiredSubnets ?e)"
    using phase owner
    by (auto simp: certificateRoutedSubnets_def routeProfileCertificateRoutedSubnets_def routeTransferActive_def Let_def)
  show ?thesis
  proof (cases "set (peOriginalSubnets ?e) \<inter> set (peDesiredSubnets ?e) = {}")
    case True
    then show ?thesis using staged_union [OF can accepted] c by simp
  next
    case False
    then obtain x where "x \<in> set (peOriginalSubnets ?e)" "x \<in> set (peDesiredSubnets ?e)" by blast
    from merge_common_empty [OF can this] c False show ?thesis by simp
  qed
qed

definition growing_edit :: NetworkRouteProfileEdit where
  "growing_edit = zero_route_profile_edit\<lparr>peRequestID := ''request-0123456789'', pePhase := ''preparing_owner'',
     peNodeID := ''gateway'', peOriginalSubnets := [''192.168.4.0/24''],
     peDesiredSubnets := [''192.168.4.0/24'', ''192.168.5.0/24''], pePreparedCertificateGeneration := 2, peStartedAt := 80\<rparr>"

theorem staged_profile_drops_shared_prefixes_witness:
  "validateNetworkRouteProfileEdit demo_state (demo_network\<lparr>netRouteProfileEdit := growing_edit\<rparr>) = Inr () \<and>
   certificateRoutedSubnets (demo_network\<lparr>netRouteProfileEdit := growing_edit\<rparr>) demo_gateway = []"
proof -
  let ?n = "demo_network\<lparr>netRouteProfileEdit := growing_edit\<rparr>"
  have v: "validateNetworkRouteProfileEdit demo_state ?n = Inr ()" by code_simp
  have "validateRouteProfileTransition (peOriginalSubnets growing_edit) (peDesiredSubnets growing_edit) = Inr ()" by code_simp
  then have "set (certificateRoutedSubnets ?n demo_gateway) = {}"
    using staged_profile_drops_shared_prefixes [OF v, of demo_gateway] by (simp add: growing_edit_def)
  with v show ?thesis by simp
qed

end
