(* ===== verification/Mesh_Firewall.thy ===== *)
theory Mesh_Firewall
  imports Mesh_RouteRecords
begin

text \<open>
  Firewall policies (\<^verbatim>\<open>internal/control/firewall.go\<close>): normalisation of the rules an operator
  submits, validation of persisted policies, rendering, the upgrade of the renderer version, and the
  compilation of node-scoped rules for one node.  \<open>quote\<close> is Go's \<^verbatim>\<open>%q\<close> on the texts the
  package quotes, which contain no character that it escapes.
\<close>

section \<open>Ports, hosts and rules\<close>

abbreviation FirewallPolicyModeLegacyDefault :: string where
  "FirewallPolicyModeLegacyDefault \<equiv> ''legacy-default''"
abbreviation FirewallPolicyModeManaged :: string where
  "FirewallPolicyModeManaged \<equiv> ''managed''"
abbreviation (input) FirewallRendererVersionV1 :: int where "FirewallRendererVersionV1 \<equiv> 1"
abbreviation (input) FirewallRendererVersionV2 :: int where "FirewallRendererVersionV2 \<equiv> 2"
abbreviation (input) currentFirewallRendererVersion :: int where "currentFirewallRendererVersion \<equiv> 2"
abbreviation (input) maxFirewallRulesPerDirection :: nat where "maxFirewallRulesPerDirection \<equiv> 128"
abbreviation (input) maxFirewallExpandedPortSlots :: int where "maxFirewallExpandedPortSlots \<equiv> 16384"

abbreviation nul :: string where "nul \<equiv> [CHR 0x00]"
abbreviation nl :: string where "nl \<equiv> [CHR 0x0A]"

definition quote :: "string \<Rightarrow> string" where
  "quote s = [CHR 0x22] @ s @ [CHR 0x22]"

record parsedFirewallPort =
  portStart :: int
  portEnd :: int
  portAny :: bool

definition parseCanonicalPortNumber :: "string \<Rightarrow> int result" where
  "parseCanonicalPortNumber v =
     (if \<not> canonical_dec v then Inl ErrInternal
      else let port = dec_int v in if port < 1 \<or> port > 65535 then Inl ErrInternal else Inr port)"

definition parseCanonicalFirewallPort :: "string \<Rightarrow> parsedFirewallPort result" where
  "parseCanonicalFirewallPort v =
     (if v = ''any'' then Inr \<lparr>portStart = 0, portEnd = 0, portAny = True\<rparr>
      else if TrimSpace v \<noteq> v \<or> v = [] \<or> length (filter ((=) (CHR ''-'')) v) > 1 then Inl ErrInternal
      else case split_at (CHR ''-'') v of
        [a, b] \<Rightarrow>
          (case parseCanonicalPortNumber a of
             Inl e \<Rightarrow> Inl e
           | Inr start \<Rightarrow>
               (case parseCanonicalPortNumber b of
                  Inl e \<Rightarrow> Inl e
                | Inr endp \<Rightarrow>
                    if start \<ge> endp then Inl ErrInternal
                    else Inr \<lparr>portStart = start, portEnd = endp, portAny = False\<rparr>))
      | _ \<Rightarrow>
          (case parseCanonicalPortNumber v of
             Inl e \<Rightarrow> Inl e
           | Inr port \<Rightarrow> Inr \<lparr>portStart = port, portEnd = port, portAny = False\<rparr>))"

definition normalizeFirewallHost :: "string \<Rightarrow> prefix \<Rightarrow> (string \<times> string) result" where
  "normalizeFirewallHost v network =
     (if TrimSpace v \<noteq> v \<or> v = [] then Inl ErrInternal
      else if v = ''any'' then Inr (v, ''host'' @ nul @ ''any'')
      else case ParseAddr v of
        Some address \<Rightarrow>
          if addr_str address \<noteq> v \<or> \<not> Contains network address then Inl ErrInternal
          else Inr (addr_str address, ''cidr'' @ nul @ prefix_str (Prefix address 32))
      | None \<Rightarrow>
          (case ParsePrefix v of
             None \<Rightarrow> Inl ErrInternal
           | Some p \<Rightarrow>
               if Masked p \<noteq> p \<or> prefix_str p \<noteq> v \<or> Bits p < Bits network \<or> \<not> Contains network (Addr p)
                 then Inl ErrInternal
               else if Bits p = 32 then Inr (addr_str (Addr p), ''cidr'' @ nul @ prefix_str p)
               else Inr (prefix_str p, ''cidr'' @ nul @ prefix_str p)))"

definition firewall_target_key :: "FirewallRule \<Rightarrow> string" where
  "firewall_target_key rule =
     (if ruleTargetGroup rule \<noteq> [] then ''target_group'' @ nul @ ruleTargetGroup rule
      else if ruleTargetNodeID rule \<noteq> [] then ''target_node'' @ nul @ ruleTargetNodeID rule
      else ''target'' @ nul @ ''all'')"

definition check_rule_shape :: "FirewallRule \<Rightarrow> parsedFirewallPort result" where
  "check_rule_shape rule =
     (if TrimSpace (ruleProto rule) \<noteq> ruleProto rule then Inl ErrInternal
      else if ruleProto rule \<notin> {''any'', ''tcp'', ''udp'', ''icmp''} then Inl ErrInternal
      else case parseCanonicalFirewallPort (rulePort rule) of
        Inl e \<Rightarrow> Inl e
      | Inr port \<Rightarrow>
          if ruleProto rule = ''icmp'' \<and> \<not> portAny port then Inl ErrInternal
          else if length (filter (\<lambda>s. s \<noteq> []) [ruleGroup rule, ruleHost rule, rulePeerNodeID rule]) \<noteq> 1
            then Inl ErrInternal
          else if ruleTargetGroup rule \<noteq> [] \<and> ruleTargetNodeID rule \<noteq> [] then Inl ErrInternal
          else if ruleTargetGroup rule \<noteq> [] \<and>
                  (TrimSpace (ruleTargetGroup rule) \<noteq> ruleTargetGroup rule \<or>
                   \<not> groupPattern (ruleTargetGroup rule) \<or> ruleTargetGroup rule = ''all'') then Inl ErrInternal
          else if ruleTargetNodeID rule \<noteq> [] \<and> \<not> validPersistedID (ruleTargetNodeID rule) then Inl ErrInternal
          else Inr port)"

definition normalizeFirewallRule ::
  "FirewallRule \<Rightarrow> prefix \<Rightarrow> (FirewallRule \<times> parsedFirewallPort \<times> string) result" where
  "normalizeFirewallRule rule network =
     (case check_rule_shape rule of
        Inl e \<Rightarrow> Inl e
      | Inr port \<Rightarrow>
          (let targetKey = nul @ firewall_target_key rule in
            if ruleGroup rule \<noteq> [] then
              if TrimSpace (ruleGroup rule) \<noteq> ruleGroup rule \<or> \<not> groupPattern (ruleGroup rule) \<or>
                 ruleGroup rule = ''any'' then Inl ErrInternal
              else Inr (rule, port, ''group'' @ nul @ ruleGroup rule @ targetKey)
            else if rulePeerNodeID rule \<noteq> [] then
              if \<not> validPersistedID (rulePeerNodeID rule) then Inl ErrInternal
              else Inr (rule, port, ''peer_node'' @ nul @ rulePeerNodeID rule @ targetKey)
            else case normalizeFirewallHost (ruleHost rule) network of
              Inl e \<Rightarrow> Inl e
            | Inr (host, selectorKey) \<Rightarrow> Inr (rule\<lparr>ruleHost := host\<rparr>, port, selectorKey @ targetKey)))"

definition pad5 :: "int \<Rightarrow> string" where
  "pad5 n = (let s = FormatInt n in replicate (5 - length s) (CHR ''0'') @ s)"

definition proto_rank :: "string \<Rightarrow> string" where
  "proto_rank p =
     (if p = ''any'' then ''0'' else if p = ''icmp'' then ''1'' else if p = ''tcp'' then ''2''
      else if p = ''udp'' then ''3'' else [])"

text \<open>A port that does not parse is the zero value, which is not \<^verbatim>\<open>any\<close>.\<close>

definition firewallRuleSortKey :: "FirewallRule \<Rightarrow> string" where
  "firewallRuleSortKey rule =
     (let port = (case parseCanonicalFirewallPort (rulePort rule) of
                    Inl e \<Rightarrow> \<lparr>portStart = 0, portEnd = 0, portAny = False\<rparr> | Inr p \<Rightarrow> p);
          portKey = (if portAny port then ''0'' else ''1'' @ pad5 (portStart port) @ pad5 (portEnd port));
          selectorKey = (if ruleHost rule \<noteq> [] then ''host'' @ nul @ ruleHost rule
                         else if rulePeerNodeID rule \<noteq> [] then ''peer_node'' @ nul @ rulePeerNodeID rule
                         else ''group'' @ nul @ ruleGroup rule)
      in firewall_target_key rule @ nul @ proto_rank (ruleProto rule) @ nul @ portKey @ nul @ selectorKey)"

section \<open>Normalisation of policies\<close>

definition rule_key :: "FirewallRule \<Rightarrow> string \<Rightarrow> string" where
  "rule_key rule selectorKey = ruleProto rule @ nul @ rulePort rule @ nul @ selectorKey"

fun normalize_rules_scan ::
  "prefix \<Rightarrow> int \<Rightarrow> string list \<Rightarrow> FirewallRule list \<Rightarrow> (FirewallRule list \<times> int) result" where
  "normalize_rules_scan network slots seen [] = Inr ([], slots)"
| "normalize_rules_scan network slots seen (candidate # rest) =
     (case normalizeFirewallRule candidate network of
        Inl e \<Rightarrow> Inl ErrInvalid
      | Inr (rule, port, selectorKey) \<Rightarrow>
          (let slots' = slots + (portEnd port - portStart port + 1) in
           if slots' > maxFirewallExpandedPortSlots then Inl ErrInvalid
           else if rule_key rule selectorKey \<in> set seen then Inl ErrInvalid
           else case normalize_rules_scan network slots' (rule_key rule selectorKey # seen) rest of
             Inl e \<Rightarrow> Inl e
           | Inr (rules, slotTotal) \<Rightarrow> Inr (rule # rules, slotTotal)))"

definition normalizeFirewallRules ::
  "FirewallRule list \<Rightarrow> prefix \<Rightarrow> int \<Rightarrow> (FirewallRule list \<times> int) result" where
  "normalizeFirewallRules rules network slots =
     (case normalize_rules_scan network slots [] rules of
        Inl e \<Rightarrow> Inl e
      | Inr (normalized, slotTotal) \<Rightarrow> Inr (sort_key firewallRuleSortKey normalized, slotTotal))"

record FirewallPolicyInput =
  inInbound :: "FirewallRule slice"
  inOutbound :: "FirewallRule slice"

definition normalizeFirewallPolicy :: "FirewallPolicyInput \<Rightarrow> string \<Rightarrow> FirewallPolicy result" where
  "normalizeFirewallPolicy input networkCIDR =
     (case (inInbound input, inOutbound input) of
        (Some inbound, Some outbound) \<Rightarrow>
          if length inbound > maxFirewallRulesPerDirection then Inl ErrInvalid
          else if length outbound > maxFirewallRulesPerDirection then Inl ErrInvalid
          else (case ParsePrefix networkCIDR of
             None \<Rightarrow> Inl ErrInternal
           | Some network \<Rightarrow>
               if Masked network \<noteq> network then Inl ErrInternal
               else case normalizeFirewallRules inbound network 0 of
                 Inl e \<Rightarrow> Inl e
               | Inr (ins, slots) \<Rightarrow>
                   (case normalizeFirewallRules outbound network slots of
                      Inl e \<Rightarrow> Inl e
                    | Inr (outs, slotTotal) \<Rightarrow>
                        if slotTotal > maxFirewallExpandedPortSlots then Inl ErrInvalid
                        else Inr \<lparr>fwMode = FirewallPolicyModeManaged,
                                  fwRendererVersion = currentFirewallRendererVersion,
                                  fwInbound = Some ins, fwOutbound = Some outs\<rparr>))
      | _ \<Rightarrow> Inl ErrInvalid)"

definition any_rule :: FirewallRule where
  "any_rule = \<lparr>ruleProto = ''any'', rulePort = ''any'', ruleGroup = [], ruleHost = [], rulePeerNodeID = [],
     ruleTargetGroup = [], ruleTargetNodeID = []\<rparr>"

definition legacyDefaultFirewallPolicy :: FirewallPolicy where
  "legacyDefaultFirewallPolicy =
     \<lparr>fwMode = FirewallPolicyModeLegacyDefault, fwRendererVersion = FirewallRendererVersionV1,
      fwInbound = Some [any_rule\<lparr>ruleGroup := ''all''\<rparr>], fwOutbound = Some [any_rule\<lparr>ruleHost := ''any''\<rparr>]\<rparr>"

definition defaultManagedFirewallPolicy :: FirewallPolicy where
  "defaultManagedFirewallPolicy =
     legacyDefaultFirewallPolicy\<lparr>fwMode := FirewallPolicyModeManaged,
       fwRendererVersion := currentFirewallRendererVersion\<rparr>"

definition firewallPolicyInput :: "FirewallPolicy \<Rightarrow> FirewallPolicyInput" where
  "firewallPolicyInput policy = \<lparr>inInbound = fwInbound policy, inOutbound = fwOutbound policy\<rparr>"

definition sameEffectiveFirewallPolicy :: "FirewallPolicy \<Rightarrow> FirewallPolicy \<Rightarrow> bool" where
  "sameEffectiveFirewallPolicy left right =
     (elems (fwInbound left) = elems (fwInbound right) \<and> elems (fwOutbound left) = elems (fwOutbound right))"

definition validateStoredFirewallPolicy :: "FirewallPolicy \<Rightarrow> string \<Rightarrow> unit result" where
  "validateStoredFirewallPolicy policy networkCIDR =
     (if fwMode policy \<noteq> FirewallPolicyModeLegacyDefault \<and> fwMode policy \<noteq> FirewallPolicyModeManaged
        then Inl ErrInternal
      else if fwRendererVersion policy \<noteq> FirewallRendererVersionV1 \<and>
              fwRendererVersion policy \<noteq> FirewallRendererVersionV2 then Inl ErrInternal
      else if fwMode policy = FirewallPolicyModeLegacyDefault \<and>
              fwRendererVersion policy \<noteq> FirewallRendererVersionV1 then Inl ErrInternal
      else case normalizeFirewallPolicy (firewallPolicyInput policy) networkCIDR of
        Inl e \<Rightarrow> Inl e
      | Inr normalized \<Rightarrow>
          if fwInbound policy = None \<or> fwOutbound policy = None \<or>
             \<not> sameEffectiveFirewallPolicy policy normalized then Inl ErrInternal
          else if fwMode policy = FirewallPolicyModeLegacyDefault \<and>
                  \<not> sameEffectiveFirewallPolicy policy legacyDefaultFirewallPolicy then Inl ErrInternal
          else Inr ())"

section \<open>References to nodes\<close>

definition policy_rules :: "FirewallPolicy \<Rightarrow> FirewallRule list" where
  "policy_rules policy = elems (fwInbound policy) @ elems (fwOutbound policy)"

definition firewallPolicyUsesNodeScopes :: "FirewallPolicy \<Rightarrow> bool" where
  "firewallPolicyUsesNodeScopes policy =
     list_ex (\<lambda>r. rulePeerNodeID r \<noteq> [] \<or> ruleTargetGroup r \<noteq> [] \<or> ruleTargetNodeID r \<noteq> []) (policy_rules policy)"

definition firewallPolicyReferencesNode :: "FirewallPolicy \<Rightarrow> string \<Rightarrow> bool" where
  "firewallPolicyReferencesNode policy ident =
     list_ex (\<lambda>r. rulePeerNodeID r = ident \<or> ruleTargetNodeID r = ident) (policy_rules policy)"

definition replace_rule_reference :: "string \<Rightarrow> string \<Rightarrow> FirewallRule \<Rightarrow> FirewallRule" where
  "replace_rule_reference old new r =
     r\<lparr>rulePeerNodeID := (if rulePeerNodeID r = old then new else rulePeerNodeID r),
       ruleTargetNodeID := (if ruleTargetNodeID r = old then new else ruleTargetNodeID r)\<rparr>"

definition reference_count :: "string \<Rightarrow> FirewallRule \<Rightarrow> nat" where
  "reference_count old r =
     (if rulePeerNodeID r = old then 1 else 0) + (if ruleTargetNodeID r = old then 1 else 0)"

text \<open>The rules keep their positions.\<close>

definition replaceFirewallPolicyNodeReferences ::
  "FirewallPolicy \<Rightarrow> string \<Rightarrow> string \<Rightarrow> FirewallPolicy \<times> nat" where
  "replaceFirewallPolicyNodeReferences policy old new =
     (policy\<lparr>fwInbound := map_option (map (replace_rule_reference old new)) (fwInbound policy),
             fwOutbound := map_option (map (replace_rule_reference old new)) (fwOutbound policy)\<rparr>,
      sum_list (map (reference_count old) (policy_rules policy)))"

definition reference_ok :: "State \<Rightarrow> Network \<Rightarrow> string \<Rightarrow> bool" where
  "reference_ok state network ident =
     (ident = [] \<or> (case findNode state ident of None \<Rightarrow> False | Some n \<Rightarrow> nodeNetworkID n = netID network))"

definition validateFirewallPolicyReferences :: "State \<Rightarrow> Network \<Rightarrow> FirewallPolicy \<Rightarrow> unit result" where
  "validateFirewallPolicyReferences state network policy =
     (if list_all (\<lambda>r. reference_ok state network (rulePeerNodeID r) \<and>
                       reference_ok state network (ruleTargetNodeID r)) (policy_rules policy)
      then Inr () else Inl ErrInvalid)"

section \<open>Compilation for one node\<close>

definition firewallRuleTargetsNode :: "FirewallRule \<Rightarrow> Node \<Rightarrow> bool" where
  "firewallRuleTargetsNode rule node =
     (if ruleTargetNodeID rule \<noteq> [] then ruleTargetNodeID rule = nodeID node
      else if ruleTargetGroup rule \<noteq> [] then ruleTargetGroup rule \<in> set (nodeGroups node)
      else True)"

fun compileFirewallRulesForNode :: "State \<Rightarrow> Node \<Rightarrow> FirewallRule list \<Rightarrow> FirewallRule list" where
  "compileFirewallRulesForNode state node [] = []"
| "compileFirewallRulesForNode state node (source # rest) =
     (if \<not> firewallRuleTargetsNode source node then compileFirewallRulesForNode state node rest
      else let rule = source\<lparr>ruleTargetGroup := [], ruleTargetNodeID := []\<rparr> in
        if rulePeerNodeID rule \<noteq> [] then
          (case findNode state (rulePeerNodeID rule) of
             None \<Rightarrow> compileFirewallRulesForNode state node rest
           | Some peer \<Rightarrow>
               if nodeNetworkID peer \<noteq> nodeNetworkID node then compileFirewallRulesForNode state node rest
               else rule\<lparr>rulePeerNodeID := [], ruleHost := nodeIP peer\<rparr> #
                    compileFirewallRulesForNode state node rest)
        else rule # compileFirewallRulesForNode state node rest)"

definition effectiveFirewallPolicyForNode :: "State \<Rightarrow> Node \<Rightarrow> FirewallPolicy \<Rightarrow> FirewallPolicy" where
  "effectiveFirewallPolicyForNode state node policy =
     policy\<lparr>fwInbound := Some (compileFirewallRulesForNode state node (elems (fwInbound policy))),
            fwOutbound := Some (compileFirewallRulesForNode state node (elems (fwOutbound policy)))\<rparr>"

section \<open>Rendering\<close>

definition renderFirewallRule :: "FirewallRule \<Rightarrow> int \<Rightarrow> string \<Rightarrow> string" where
  "renderFirewallRule rule rendererVersion localCIDR =
     ''    - port: '' @ rulePort rule @ nl @ ''      proto: '' @ ruleProto rule @ nl @
     (if ruleGroup rule \<noteq> [] then
        if rendererVersion \<ge> FirewallRendererVersionV2 then ''      group: '' @ quote (ruleGroup rule) @ nl
        else ''      group: '' @ ruleGroup rule @ nl
      else if ruleHost rule = ''any'' then ''      host: any'' @ nl
      else if rulePeerNodeID rule \<noteq> [] then ''      cidr: 0.0.0.0/32'' @ nl
      else if CHR ''/'' \<in> set (ruleHost rule) then ''      cidr: '' @ ruleHost rule @ nl
      else ''      cidr: '' @ ruleHost rule @ ''/32'' @ nl) @
     (if localCIDR \<noteq> [] then ''      local_cidr: '' @ localCIDR @ nl else [])"

definition renderFirewallDirection :: "string \<Rightarrow> FirewallRule list \<Rightarrow> int \<Rightarrow> string list \<Rightarrow> string" where
  "renderFirewallDirection direction rules rendererVersion routedSubnets =
     (if rules = [] then ''  '' @ direction @ '': []'' @ nl
      else ''  '' @ direction @ '':'' @ nl @
        concat (map (\<lambda>rule. renderFirewallRule rule rendererVersion [] @
          concat (map (renderFirewallRule rule rendererVersion) routedSubnets)) rules))"

definition renderFirewallPolicyForNode :: "FirewallPolicy \<Rightarrow> string list \<Rightarrow> string" where
  "renderFirewallPolicyForNode policy routedSubnets =
     ''firewall:'' @ nl @
     renderFirewallDirection ''outbound'' (elems (fwOutbound policy)) (fwRendererVersion policy) [] @
     renderFirewallDirection ''inbound'' (elems (fwInbound policy)) (fwRendererVersion policy) routedSubnets"

definition renderFirewallPolicy :: "FirewallPolicy \<Rightarrow> string" where
  "renderFirewallPolicy policy = renderFirewallPolicyForNode policy []"

definition upgradeFirewallRenderer :: "FirewallPolicy \<Rightarrow> (FirewallPolicy \<times> bool) result" where
  "upgradeFirewallRenderer policy =
     (if fwMode policy = FirewallPolicyModeLegacyDefault then
        if fwRendererVersion policy \<noteq> FirewallRendererVersionV1 then Inl ErrInternal else Inr (policy, False)
      else if fwMode policy \<noteq> FirewallPolicyModeManaged then Inl ErrInternal
      else if fwRendererVersion policy = currentFirewallRendererVersion then Inr (policy, False)
      else if fwRendererVersion policy \<noteq> FirewallRendererVersionV1 then Inl ErrInternal
      else let upgraded = policy\<lparr>fwRendererVersion := currentFirewallRendererVersion\<rparr> in
           Inr (upgraded, renderFirewallPolicy policy \<noteq> renderFirewallPolicy upgraded))"

definition json_field :: "string \<Rightarrow> string \<Rightarrow> string" where
  "json_field name v = quote name @ '':'' @ quote v"

definition json_rule :: "FirewallRule \<Rightarrow> string" where
  "json_rule r = ''{'' @ join_with '','' ([json_field ''proto'' (ruleProto r), json_field ''port'' (rulePort r)] @
     map (\<lambda>(n, v). json_field n v) (filter (\<lambda>(n, v). v \<noteq> [])
       [(''group'', ruleGroup r), (''host'', ruleHost r), (''peer_node_id'', rulePeerNodeID r),
        (''target_group'', ruleTargetGroup r), (''target_node_id'', ruleTargetNodeID r)])) @ ''}''"

definition json_rules :: "FirewallRule slice \<Rightarrow> string" where
  "json_rules rs = (case rs of None \<Rightarrow> ''null'' | Some xs \<Rightarrow> ''['' @ join_with '','' (map json_rule xs) @ '']'')"

definition json_policy :: "FirewallPolicy \<Rightarrow> string" where
  "json_policy p = ''{'' @ json_field ''mode'' (fwMode p) @ '','' @ quote ''renderer_version'' @ '':'' @
     FormatInt (fwRendererVersion p) @ '','' @ quote ''inbound'' @ '':'' @ json_rules (fwInbound p) @ '','' @
     quote ''outbound'' @ '':'' @ json_rules (fwOutbound p) @ ''}''"

definition firewallPolicySHA256 :: "sha256 \<Rightarrow> FirewallPolicy \<Rightarrow> string" where
  "firewallPolicySHA256 sha policy =
     (if \<not> firewallPolicyUsesNodeScopes policy then ConfigDigest sha (renderFirewallPolicy policy)
      else ConfigDigest sha (''mesh-firewall-policy-v1'' @ nl @ json_policy policy))"

section \<open>Lemmas: rules in normal form\<close>

lemma port_width: "parseCanonicalFirewallPort v = Inr p \<Longrightarrow> portStart p \<le> portEnd p"
  by (auto simp: parseCanonicalFirewallPort_def split: if_splits list.splits sum.splits)

lemma addr_str_graphic: "list_all graphic (addr_str w)"
proof -
  have "graphic (CHR ''.'')" by (simp add: graphic_def)
  then show ?thesis using addr_str_chars [of _ w] by (auto simp: list_all_iff intro: digit_graphic)
qed

lemma addr_str_not_any [simp]: "addr_str w \<noteq> ''any''" "addr_str w \<noteq> []"
proof -
  show "addr_str w \<noteq> ''any''"
  proof
    assume "addr_str w = ''any''"
    then have "CHR ''a'' \<in> set (addr_str w)" by simp
    from addr_str_chars [OF this] show False by (auto simp: is_digit_def)
  qed
  show "addr_str w \<noteq> []" using ParseAddr_str [of w] by (auto simp: ParseAddr_def parse_octet_def parse_dec_def canonical_dec_def)
qed

lemma ParseAddr_prefix_str [simp]: "ParseAddr (prefix_str p) = None"
proof (cases "ParseAddr (prefix_str p)")
  case (Some w)
  from ParseAddr_SomeD [OF this] have "CHR ''/'' \<in> set (addr_str w)"
    by (metis append_Cons in_set_conv_decomp prefix_str_def)
  then show ?thesis by simp
qed

lemma prefix_str_not_any [simp]: "prefix_str p \<noteq> ''any''"
proof
  assume e: "prefix_str p = ''any''"
  have "CHR ''/'' \<in> set (prefix_str p)" by (simp add: prefix_str_def)
  then show False unfolding e by simp
qed

lemma normalizeFirewallHost_idem:
  assumes "normalizeFirewallHost v network = Inr (h, k)"
  shows "normalizeFirewallHost h network = Inr (h, k) \<and> h \<noteq> []"
proof (cases "v = ''any'' \<or> ParseAddr v \<noteq> None")
  case True
  then have "h = v" using assms
    by (auto simp: normalizeFirewallHost_def split: if_splits option.splits)
  with assms show ?thesis by (auto simp: normalizeFirewallHost_def split: if_splits)
next
  case False
  then obtain p where p: "Masked p = p" "v = prefix_str p" "Bits p \<le> 32" "\<not> Bits p < Bits network"
    "Contains network (Addr p)" "k = ''cidr'' @ nul @ prefix_str p"
    "h = (if Bits p = 32 then addr_str (Addr p) else prefix_str p)"
    using assms by (auto simp: normalizeFirewallHost_def split: if_splits option.splits dest: ParsePrefix_SomeD)
  show ?thesis
  proof (cases "Bits p = 32")
    case True
    then have "Prefix (Addr p) 32 = p" by (cases p) simp
    with True p show ?thesis
      by (simp add: normalizeFirewallHost_def TrimSpace_graphic [OF addr_str_graphic])
  next
    case False
    with p show ?thesis by (simp add: normalizeFirewallHost_def ParsePrefix_str)
  qed
qed

lemma check_rule_shape_host:
  assumes "ruleHost r \<noteq> []" "h \<noteq> []"
  shows "check_rule_shape (r\<lparr>ruleHost := h\<rparr>) = check_rule_shape r"
proof -
  have "length (filter (\<lambda>s. s \<noteq> []) [a, h, b]) = length (filter (\<lambda>s. s \<noteq> []) [a, ruleHost r, b])" for a b
    using assms by simp
  then show ?thesis 
    by (cases "parseCanonicalFirewallPort (rulePort r)") (simp_all add: check_rule_shape_def del: filter.simps)
qed

lemma normalizeFirewallRule_idem:
  assumes "normalizeFirewallRule r network = Inr (r', p, k)"
  shows "normalizeFirewallRule r' network = Inr (r', p, k)"
proof (cases "ruleGroup r = [] \<and> rulePeerNodeID r = []")
  case False
  then have "r' = r" using assms
    by (auto simp: normalizeFirewallRule_def Let_def split: if_splits sum.splits)
  with assms show ?thesis by simp
next
  case True
  then obtain h sel where h: "check_rule_shape r = Inr p"
    "normalizeFirewallHost (ruleHost r) network = Inr (h, sel)" "r' = r\<lparr>ruleHost := h\<rparr>"
    "k = sel @ nul @ firewall_target_key r"
    using assms by (auto simp: normalizeFirewallRule_def Let_def split: sum.splits)
  have "firewall_target_key (r\<lparr>ruleHost := h\<rparr>) = firewall_target_key r"
    by (simp add: firewall_target_key_def)
  moreover have "ruleHost r \<noteq> []" using h(2) by (auto simp: normalizeFirewallHost_def)
  ultimately show ?thesis
    using True h normalizeFirewallHost_idem [OF h(2)]
    by (simp add: normalizeFirewallRule_def Let_def check_rule_shape_host)
qed

text \<open>The scan, as a statement about the list of normalised rules.\<close>

definition rule_slots :: "FirewallRule \<times> parsedFirewallPort \<times> string \<Rightarrow> int" where
  "rule_slots t = (case t of (r, p, k) \<Rightarrow> portEnd p - portStart p + 1)"

definition rule_identity :: "FirewallRule \<times> parsedFirewallPort \<times> string \<Rightarrow> string" where
  "rule_identity t = (case t of (r, p, k) \<Rightarrow> rule_key r k)"

lemma check_rule_shape_width: "check_rule_shape r = Inr p \<Longrightarrow> portStart p \<le> portEnd p"
  by (auto simp: check_rule_shape_def dest: port_width split: if_splits sum.splits)

lemma rule_slots_pos: "normalizeFirewallRule r network = Inr t \<Longrightarrow> 1 \<le> rule_slots t"
  by (auto simp: normalizeFirewallRule_def Let_def rule_slots_def dest: check_rule_shape_width split: if_splits sum.splits)

lemma sum_slots_nonneg:
  "list_all2 (\<lambda>r t. normalizeFirewallRule r network = Inr t) rs ts \<Longrightarrow> 0 \<le> sum_list (map rule_slots ts)"
  by (induction rs ts rule: list_all2_induct) (auto dest: rule_slots_pos)

lemma normalize_rules_scan_iff:
  assumes "slots \<le> 16384"
  shows "normalize_rules_scan network slots seen rs = Inr (out, tot) \<longleftrightarrow>
    (\<exists>ts. list_all2 (\<lambda>r t. normalizeFirewallRule r network = Inr t) rs ts \<and> out = map fst ts \<and>
          tot = slots + sum_list (map rule_slots ts) \<and> tot \<le> 16384 \<and>
          distinct (map rule_identity ts) \<and> set (map rule_identity ts) \<inter> set seen = {})"
  using assms
proof (induction rs arbitrary: slots seen out)
  case Nil
  then show ?case by auto
next
  case (Cons c rs)
  show ?case
  proof (cases "normalizeFirewallRule c network")
    case (Inl e)
    then show ?thesis by (auto simp: list_all2_Cons1)
  next
    case (Inr t)
    obtain r p k where t: "t = (r, p, k)" by (cases t)
    let ?s = "slots + rule_slots t"
    have step: "normalize_rules_scan network slots seen (c # rs) = Inr (out, tot) \<longleftrightarrow>
        ?s \<le> 16384 \<and> rule_identity t \<notin> set seen \<and>
        (\<exists>os. normalize_rules_scan network ?s (rule_identity t # seen) rs = Inr (os, tot) \<and> out = r # os)"
      using Inr t by (auto simp: Let_def rule_slots_def rule_identity_def split: sum.splits)
    show ?thesis
    proof
      assume "normalize_rules_scan network slots seen (c # rs) = Inr (out, tot)"
      with step obtain os where s: "?s \<le> 16384" "rule_identity t \<notin> set seen"
        "normalize_rules_scan network ?s (rule_identity t # seen) rs = Inr (os, tot)" "out = r # os" by blast
      with Cons.IH [OF s(1), of "rule_identity t # seen" os] obtain ts where
        "list_all2 (\<lambda>r t. normalizeFirewallRule r network = Inr t) rs ts" "os = map fst ts"
        "tot = ?s + sum_list (map rule_slots ts)" "tot \<le> 16384" "distinct (map rule_identity ts)"
        "set (map rule_identity ts) \<inter> set (rule_identity t # seen) = {}" by blast
      with s Inr t show "\<exists>ts. list_all2 (\<lambda>r t. normalizeFirewallRule r network = Inr t) (c # rs) ts \<and>
          out = map fst ts \<and> tot = slots + sum_list (map rule_slots ts) \<and> tot \<le> 16384 \<and>
          distinct (map rule_identity ts) \<and> set (map rule_identity ts) \<inter> set seen = {}"
        by (intro exI [of _ "t # ts"]) auto
    next
      assume "\<exists>ts. list_all2 (\<lambda>r t. normalizeFirewallRule r network = Inr t) (c # rs) ts \<and>
          out = map fst ts \<and> tot = slots + sum_list (map rule_slots ts) \<and> tot \<le> 16384 \<and>
          distinct (map rule_identity ts) \<and> set (map rule_identity ts) \<inter> set seen = {}"
      then obtain ts where l: "list_all2 (\<lambda>r t. normalizeFirewallRule r network = Inr t) rs ts"
        "out = r # map fst ts" "tot = ?s + sum_list (map rule_slots ts)" "tot \<le> 16384"
        "distinct (map rule_identity ts)" "rule_identity t \<notin> set (map rule_identity ts)"
        "rule_identity t \<notin> set seen" "set (map rule_identity ts) \<inter> set seen = {}"
        using Inr t by (auto simp: list_all2_Cons1)
      then have "?s \<le> 16384" using sum_slots_nonneg [OF l(1)] by simp
      then show "normalize_rules_scan network slots seen (c # rs) = Inr (out, tot)"
        unfolding step using l Cons.IH [of ?s "rule_identity t # seen" "map fst ts"] by auto
    qed
  qed
qed

lemma normalizeFirewallRules_idem:
  assumes "normalizeFirewallRules rules network slots = Inr (out, tot)" "slots \<le> 16384"
  shows "normalizeFirewallRules out network slots = Inr (out, tot)" "tot \<le> 16384"
    "length out = length rules"
proof -
  from assms(1) obtain ns where ns: "normalize_rules_scan network slots [] rules = Inr (ns, tot)"
    "out = sort_key firewallRuleSortKey ns"
    by (auto simp: normalizeFirewallRules_def split: sum.splits)
  then obtain ts where ts: "list_all2 (\<lambda>r t. normalizeFirewallRule r network = Inr t) rules ts"
    "ns = map fst ts" "tot = slots + sum_list (map rule_slots ts)" "tot \<le> 16384" "distinct (map rule_identity ts)"
    using normalize_rules_scan_iff [OF assms(2)] by blast
  let ?ss = "sort_key (firewallRuleSortKey \<circ> fst) ts"
  have out: "out = map fst ?ss" using ns ts by (simp add: map_sort_key)
  have each: "normalizeFirewallRule (fst t) network = Inr t" if "t \<in> set ts" for t
  proof -
    obtain r where "normalizeFirewallRule r network = Inr t"
      using ts(1) \<open>t \<in> set ts\<close> by (auto simp: list_all2_conv_all_nth in_set_conv_nth)
    then show ?thesis by (cases t) (auto dest: normalizeFirewallRule_idem)
  qed
  have "list_all2 (\<lambda>r t. normalizeFirewallRule r network = Inr t) out ?ss"
    unfolding out by (auto simp: list_all2_map1 list_all2_same each)
  moreover have "sum_list (map rule_slots ?ss) = sum_list (map rule_slots ts)"
    by (metis mset_map mset_sort sum_mset_sum_list)
  moreover have "distinct (map rule_identity ?ss)"
    using ts(5) by (simp add: distinct_map)
  ultimately have "normalize_rules_scan network slots [] out = Inr (out, tot)"
    unfolding normalize_rules_scan_iff [OF assms(2)] using ts out by auto
  then show "normalizeFirewallRules out network slots = Inr (out, tot)"
    using ns(2) by (simp add: normalizeFirewallRules_def)
  show "tot \<le> 16384" by (rule ts(4))
  show "length out = length rules" using out ts(1) by (simp add: list_all2_lengthD)
qed

lemma normalizeFirewallPolicy_idem:
  assumes "normalizeFirewallPolicy input cidr = Inr policy"
  shows "normalizeFirewallPolicy (firewallPolicyInput policy) cidr = Inr policy"
proof -
  from assms obtain inb outb network ins slots outs tot where
    i: "inInbound input = Some inb" "inOutbound input = Some outb" "length inb \<le> 128" "length outb \<le> 128"
      "ParsePrefix cidr = Some network" "Masked network = network"
    and n: "normalizeFirewallRules inb network 0 = Inr (ins, slots)"
      "normalizeFirewallRules outb network slots = Inr (outs, tot)" "tot \<le> 16384"
    and p: "policy = \<lparr>fwMode = FirewallPolicyModeManaged, fwRendererVersion = 2,
        fwInbound = Some ins, fwOutbound = Some outs\<rparr>"
    by (auto simp: normalizeFirewallPolicy_def split: option.splits if_splits sum.splits)
  note a = normalizeFirewallRules_idem [OF n(1)] and b = normalizeFirewallRules_idem [OF n(2)]
  show ?thesis
    using i n(3) a b p by (simp add: normalizeFirewallPolicy_def firewallPolicyInput_def)
qed

section \<open>Lemmas: compilation\<close>

definition resolve_rule :: "State \<Rightarrow> FirewallRule \<Rightarrow> FirewallRule" where
  "resolve_rule state r =
     (let r' = r\<lparr>ruleTargetGroup := [], ruleTargetNodeID := []\<rparr> in
      if rulePeerNodeID r = [] then r'
      else case findNode state (rulePeerNodeID r) of
        None \<Rightarrow> r'
      | Some peer \<Rightarrow> r'\<lparr>rulePeerNodeID := [], ruleHost := nodeIP peer\<rparr>)"

lemma compile_no_scopes:
  "r \<in> set (compileFirewallRulesForNode state node rules) \<Longrightarrow>
     rulePeerNodeID r = [] \<and> ruleTargetGroup r = [] \<and> ruleTargetNodeID r = []"
  by (induction rules) (auto simp: Let_def split: if_splits option.splits)

lemma compile_resolved:
  assumes "\<forall>r\<in>set rules. reference_ok state network (rulePeerNodeID r)" "nodeNetworkID node = netID network"
  shows "compileFirewallRulesForNode state node rules =
    map (resolve_rule state) (filter (\<lambda>r. firewallRuleTargetsNode r node) rules)"
  using assms
  by (induction rules) (auto simp: Let_def resolve_rule_def reference_ok_def split: option.splits)

lemma effective_no_scopes: "\<not> firewallPolicyUsesNodeScopes (effectiveFirewallPolicyForNode state node policy)"
  using compile_no_scopes
  by (auto simp: firewallPolicyUsesNodeScopes_def effectiveFirewallPolicyForNode_def policy_rules_def list_ex_iff)

section \<open>Properties\<close>

text \<open>C28. A policy that normalisation returns is one the store accepts: it is managed, has at most 128 rules
  per direction, and normalising its own rules gives the same policy back (sorted, deduplicated, hosts
  canonical), for every input and network.\<close>

theorem normalizeFirewallPolicy_canonical:
  assumes "normalizeFirewallPolicy input cidr = Inr policy"
  shows "validateStoredFirewallPolicy policy cidr = Inr () \<and>
    normalizeFirewallPolicy (firewallPolicyInput policy) cidr = Inr policy \<and>
    length (elems (fwInbound policy)) = length (elems (inInbound input)) \<and>
    length (elems (fwOutbound policy)) = length (elems (inOutbound input)) \<and>
    length (elems (fwInbound policy)) \<le> 128 \<and> length (elems (fwOutbound policy)) \<le> 128"
proof -
  note idem = normalizeFirewallPolicy_idem [OF assms]
  from assms obtain inb outb network ins slots outs tot where
    i: "inInbound input = Some inb" "inOutbound input = Some outb" "length inb \<le> 128" "length outb \<le> 128"
    and n: "normalizeFirewallRules inb network 0 = Inr (ins, slots)"
      "normalizeFirewallRules outb network slots = Inr (outs, tot)"
    and p: "policy = \<lparr>fwMode = FirewallPolicyModeManaged, fwRendererVersion = 2,
        fwInbound = Some ins, fwOutbound = Some outs\<rparr>"
    by (auto simp: normalizeFirewallPolicy_def split: option.splits if_splits sum.splits)
  have "length ins = length inb" "slots \<le> 16384"
    using normalizeFirewallRules_idem [OF n(1)] by simp_all
  moreover from this have "length outs = length outb"
    using normalizeFirewallRules_idem [OF n(2)] by simp
  moreover have "validateStoredFirewallPolicy policy cidr = Inr ()"
    using idem p by (simp add: validateStoredFirewallPolicy_def sameEffectiveFirewallPolicy_def)
  ultimately show ?thesis using idem i p by simp
qed

definition scoped_rule :: "string \<Rightarrow> FirewallRule" where
  "scoped_rule ident = any_rule\<lparr>ruleGroup := ''all'', ruleTargetNodeID := ident\<rparr>"

definition scoped_input :: FirewallPolicyInput where
  "scoped_input = \<lparr>inInbound = Some [scoped_rule ''node-b'', any_rule\<lparr>ruleHost := ''10.0.0.7/32''\<rparr>, scoped_rule ''node-a''],
     inOutbound = Some [any_rule\<lparr>ruleHost := ''any''\<rparr>]\<rparr>"

definition scoped_policy :: FirewallPolicy where
  "scoped_policy = \<lparr>fwMode = FirewallPolicyModeManaged, fwRendererVersion = 2,
     fwInbound = Some [any_rule\<lparr>ruleHost := ''10.0.0.7''\<rparr>, scoped_rule ''node-a'', scoped_rule ''node-b''],
     fwOutbound = Some [any_rule\<lparr>ruleHost := ''any''\<rparr>]\<rparr>"

lemma scoped_policy_normalized: "normalizeFirewallPolicy scoped_input ''10.0.0.0/24'' = Inr scoped_policy"
  by code_simp

theorem normalizeFirewallPolicy_canonical_witness:
  "normalizeFirewallPolicy scoped_input ''10.0.0.0/24'' = Inr scoped_policy \<and>
   validateStoredFirewallPolicy scoped_policy ''10.0.0.0/24'' = Inr ()"
  by (rule conjI [OF scoped_policy_normalized
        conjunct1 [OF normalizeFirewallPolicy_canonical [OF scoped_policy_normalized]]])

text \<open>C21. When every node reference of a policy is valid for the network, compiling it for one of its nodes
  loses no rule: the node gets exactly the rules that target it, in order, with each peer reference
  replaced by the overlay address of that peer, and no node-scoped selector is left for the renderer.\<close>

theorem effective_policy_complete:
  assumes "validateFirewallPolicyReferences state network policy = Inr ()" "nodeNetworkID node = netID network"
  shows "fwInbound (effectiveFirewallPolicyForNode state node policy) =
      Some (map (resolve_rule state) (filter (\<lambda>r. firewallRuleTargetsNode r node) (elems (fwInbound policy)))) \<and>
    fwOutbound (effectiveFirewallPolicyForNode state node policy) =
      Some (map (resolve_rule state) (filter (\<lambda>r. firewallRuleTargetsNode r node) (elems (fwOutbound policy)))) \<and>
    \<not> firewallPolicyUsesNodeScopes (effectiveFirewallPolicyForNode state node policy)"
proof -
  have "\<forall>r\<in>set (policy_rules policy). reference_ok state network (rulePeerNodeID r)"
    using assms(1) by (auto simp: validateFirewallPolicyReferences_def list_all_iff split: if_splits)
  then show ?thesis
    using compile_resolved [OF _ assms(2)]
    by (intro conjI effective_no_scopes) (simp_all add: effectiveFirewallPolicyForNode_def policy_rules_def)
qed

definition scoped_state :: State where
  "scoped_state = empty_state\<lparr>Nodes :=
     [zero_node\<lparr>nodeID := ''node-a'', nodeNetworkID := ''net'', nodeIP := ''10.0.0.10''\<rparr>,
      zero_node\<lparr>nodeID := ''node-b'', nodeNetworkID := ''net'', nodeIP := ''10.0.0.11''\<rparr>]\<rparr>"

theorem effective_policy_complete_witness:
  "elems (fwInbound (effectiveFirewallPolicyForNode scoped_state (zero_node\<lparr>nodeID := ''node-a'', nodeNetworkID := ''net''\<rparr>)
     scoped_policy)) = [any_rule\<lparr>ruleHost := ''10.0.0.7''\<rparr>, any_rule\<lparr>ruleGroup := ''all''\<rparr>]"
proof -
  let ?n = "zero_node\<lparr>nodeID := ''node-a'', nodeNetworkID := ''net''\<rparr>"
  have "validateFirewallPolicyReferences scoped_state (zero_network\<lparr>netID := ''net''\<rparr>) scoped_policy = Inr ()"
    by code_simp
  from conjunct1 [OF effective_policy_complete [OF this, of ?n]]
  have "fwInbound (effectiveFirewallPolicyForNode scoped_state ?n scoped_policy) =
      Some (map (resolve_rule scoped_state) (filter (\<lambda>r. firewallRuleTargetsNode r ?n) (elems (fwInbound scoped_policy))))"
    by simp
  also have "map (resolve_rule scoped_state) (filter (\<lambda>r. firewallRuleTargetsNode r ?n) (elems (fwInbound scoped_policy))) =
      [any_rule\<lparr>ruleHost := ''10.0.0.7''\<rparr>, any_rule\<lparr>ruleGroup := ''all''\<rparr>]"
    by code_simp
  finally show ?thesis by simp
qed

text \<open>Replacing a node in a stored policy keeps the rules where they are, although the canonical order
  depends on the node identifiers: there are an accepted policy and a fresh identifier for which the
  rewritten policy is no longer accepted by the store, although its rules are valid and only their
  order has to be restored.\<close>

theorem replace_references_breaks_order:
  "validateStoredFirewallPolicy scoped_policy ''10.0.0.0/24'' = Inr () \<and>
   \<not> firewallPolicyReferencesNode scoped_policy ''node-z'' \<and>
   snd (replaceFirewallPolicyNodeReferences scoped_policy ''node-a'' ''node-z'') = 1 \<and>
   validateStoredFirewallPolicy (fst (replaceFirewallPolicyNodeReferences scoped_policy ''node-a'' ''node-z''))
     ''10.0.0.0/24'' = Inl ErrInternal \<and>
   is_ok (normalizeFirewallPolicy
     (firewallPolicyInput (fst (replaceFirewallPolicyNodeReferences scoped_policy ''node-a'' ''node-z''))) ''10.0.0.0/24'')"
  by code_simp

end
