(* ===== verification/Mesh_DNS.thy ===== *)
theory Mesh_DNS
  imports Mesh_Firewall
begin

text \<open>
  Network DNS (\<^verbatim>\<open>internal/control/dns.go\<close>): the settings of the lighthouse responder and their
  invariant with the firewall, the update handler, and the native resolver policy that is embedded in the
  signed configuration and validated again by the node agent before it is used.
\<close>

section \<open>Settings\<close>

abbreviation (input) DefaultNetworkDNSPort :: int where "DefaultNetworkDNSPort \<equiv> 53"
abbreviation (input) maxNativeDNSResolvers :: nat where "maxNativeDNSResolvers \<equiv> 8"
abbreviation NativeDNSPolicySchema :: string where "NativeDNSPolicySchema \<equiv> ''mesh-native-dns-v1''"

definition zero_dns :: NetworkDNSSettings where
  "zero_dns = \<lparr>dnsEnabled = False, dnsListenPort = 0, dnsNativeResolver = False, dnsSearchDomain = []\<rparr>"

definition defaultNetworkDNSSettings :: NetworkDNSSettings where
  "defaultNetworkDNSSettings = zero_dns\<lparr>dnsListenPort := DefaultNetworkDNSPort\<rparr>"

definition effectiveNetworkDNSSettings :: "NetworkDNSSettings \<Rightarrow> NetworkDNSSettings" where
  "effectiveNetworkDNSSettings settings = (if settings = zero_dns then defaultNetworkDNSSettings else settings)"

definition nativeDNSDomainLabelPattern :: "string \<Rightarrow> bool" where
  "nativeDNSDomainLabelPattern s =
     (let ok = (\<lambda>c. is_lower c \<or> is_digit c) in
      s \<noteq> [] \<and> length s \<le> 63 \<and> ok (hd s) \<and> ok (last s) \<and> list_all (\<lambda>c. ok c \<or> c = CHR ''-'') s)"

definition validateNativeDNSDomain :: "string \<Rightarrow> unit result" where
  "validateNativeDNSDomain v =
     (if v = [] \<or> length v > 253 \<or> suffix ''.'' v \<or> v \<noteq> ToLower v then Inl ErrInvalid
      else if \<not> list_all nativeDNSDomainLabelPattern (split_at (CHR ''.'') v) then Inl ErrInvalid
      else if v = ''local'' \<or> suffix ''.local'' v then Inl ErrInvalid
      else Inr ())"

definition validateNetworkDNSSettings :: "NetworkDNSSettings \<Rightarrow> int \<Rightarrow> unit result" where
  "validateNetworkDNSSettings s nebulaListenPort =
     (if dnsListenPort s < 1 \<or> dnsListenPort s > 65535 then Inl ErrInvalid
      else if \<not> dnsEnabled s \<and> dnsListenPort s \<noteq> DefaultNetworkDNSPort then Inl ErrInvalid
      else if dnsEnabled s \<and> dnsListenPort s = nebulaListenPort then Inl ErrInvalid
      else if \<not> dnsEnabled s \<and> (dnsNativeResolver s \<or> dnsSearchDomain s \<noteq> []) then Inl ErrInvalid
      else if dnsNativeResolver s then validateNativeDNSDomain (dnsSearchDomain s)
      else if dnsSearchDomain s \<noteq> [] then Inl ErrInvalid
      else Inr ())"

definition normalizeNetworkDNSSettings ::
  "bool \<Rightarrow> int \<Rightarrow> bool \<Rightarrow> string \<Rightarrow> int \<Rightarrow> NetworkDNSSettings result" where
  "normalizeNetworkDNSSettings enabled listenPort nativeResolver searchDomain nebulaListenPort =
     (let s = \<lparr>dnsEnabled = enabled, dnsListenPort = listenPort, dnsNativeResolver = nativeResolver,
               dnsSearchDomain = searchDomain\<rparr> in
      case validateNetworkDNSSettings s nebulaListenPort of Inl e \<Rightarrow> Inl e | Inr _ \<Rightarrow> Inr s)"

section \<open>DNS and the firewall\<close>

definition rule_allows_dns :: "prefix \<Rightarrow> int \<Rightarrow> FirewallRule \<Rightarrow> bool" where
  "rule_allows_dns network port rule =
     (ruleTargetGroup rule = [] \<and> ruleTargetNodeID rule = [] \<and>
      (ruleProto rule = ''any'' \<or> ruleProto rule = ''udp'') \<and>
      (case parseCanonicalFirewallPort (rulePort rule) of
         Inl e \<Rightarrow> False
       | Inr p \<Rightarrow> portAny p \<or> portStart p \<le> port \<and> port \<le> portEnd p) \<and>
      (ruleGroup rule = ''all'' \<or> ruleHost rule = ''any'' \<or> ruleHost rule = prefix_str network))"

definition firewallAllowsNetworkDNS :: "FirewallPolicy \<Rightarrow> string \<Rightarrow> int \<Rightarrow> bool" where
  "firewallAllowsNetworkDNS policy networkCIDR port =
     (case ParsePrefix networkCIDR of
        None \<Rightarrow> False
      | Some network \<Rightarrow> list_ex (rule_allows_dns network port) (elems (fwInbound policy)))"

definition validateNetworkDNSInvariant :: "Network \<Rightarrow> unit result" where
  "validateNetworkDNSInvariant network =
     (case validateNetworkDNSSettings (netDNSSettings network) (netListenPort network) of
        Inl e \<Rightarrow> Inl e
      | Inr _ \<Rightarrow>
          if dnsEnabled (netDNSSettings network) \<and>
             \<not> firewallAllowsNetworkDNS (netFirewallPolicy network) (netCIDR network) (dnsListenPort (netDNSSettings network))
          then Inl ErrInternal else Inr ())"

section \<open>The update\<close>

record NetworkDNSResolver =
  resNodeID :: string
  resName :: string
  resIP :: string

record NetworkDNSDocument =
  dndNetworkID :: string
  dndNetworkCIDR :: string
  dndEnabled :: bool
  dndListenPort :: int
  dndNativeResolver :: bool
  dndSearchDomain :: string
  dndFirewallReady :: bool
  dndResolvers :: "NetworkDNSResolver list"
  dndConfigRevision :: int
  dndConfigUpdatedAt :: time

definition active_lighthouses :: "State \<Rightarrow> Network \<Rightarrow> Node list" where
  "active_lighthouses state network =
     filter (\<lambda>n. nodeNetworkID n = netID network \<and> nodeRole n = ''lighthouse'' \<and> nodeStatus n = ''active'') (Nodes state)"

definition networkDNSDocument :: "State \<Rightarrow> Network \<Rightarrow> NetworkDNSDocument" where
  "networkDNSDocument state network =
     (let s = effectiveNetworkDNSSettings (netDNSSettings network) in
      \<lparr>dndNetworkID = netID network, dndNetworkCIDR = netCIDR network, dndEnabled = dnsEnabled s,
       dndListenPort = dnsListenPort s, dndNativeResolver = dnsNativeResolver s, dndSearchDomain = dnsSearchDomain s,
       dndFirewallReady = firewallAllowsNetworkDNS (netFirewallPolicy network) (netCIDR network) (dnsListenPort s),
       dndResolvers = sort_key (\<lambda>r. (resName r, resNodeID r))
         (if dnsEnabled s
          then map (\<lambda>n. \<lparr>resNodeID = nodeID n, resName = nodeName n, resIP = nodeIP n\<rparr>) (active_lighthouses state network)
          else []),
       dndConfigRevision = netConfigRevision network, dndConfigUpdatedAt = netConfigUpdatedAt network\<rparr>)"

record UpdateNetworkDNSInput =
  undExpectedConfigRevision :: int
  undEnabled :: bool
  undListenPort :: int
  undNativeResolver :: bool
  undSearchDomain :: string

definition updateNetworkDNS ::
  "string \<Rightarrow> time \<Rightarrow> Actor option \<Rightarrow> string \<Rightarrow> UpdateNetworkDNSInput \<Rightarrow> State \<Rightarrow> (NetworkDNSDocument \<times> State) result" where
  "updateNetworkDNS eid now actor ident input state =
     (if \<not> validPersistedID ident then Inl ErrInvalid
      else if undExpectedConfigRevision input < 1 then Inl ErrInvalid
      else if Version state < ControlStateVersionNetworkRelays \<or> Version state > ControlStateVersionFirewallScopes
        then Inl ErrConflict
      else case find_network_idx state ident of
        None \<Rightarrow> Inl ErrNotFound
      | Some i \<Rightarrow>
          (let network = Networks state ! i; old = netDNSSettings network in
           case normalizeNetworkDNSSettings (undEnabled input) (undListenPort input) (undNativeResolver input)
                  (undSearchDomain input) (netListenPort network) of
             Inl e \<Rightarrow> Inl e
           | Inr desired \<Rightarrow>
               if desired = old then Inr (networkDNSDocument state network, state)
               else if roPhase (netFirewallRollout network) \<noteq> [] then Inl ErrConflict
               else if undExpectedConfigRevision input \<noteq> netConfigRevision network then Inl ErrConflict
               else if dnsEnabled desired \<and>
                       \<not> firewallAllowsNetworkDNS (netFirewallPolicy network) (netCIDR network) (dnsListenPort desired)
                 then Inl ErrConflict
               else if now = 0 then Inl ErrInternal
               else (case nextConfigRevision (netConfigRevision network) True of
                 Inl e \<Rightarrow> Inl e
               | Inr nextRevision \<Rightarrow>
                   (case newOptionalAttributedAudit eid now ''network.dns_settings_updated'' ''network'' (netID network)
                      (Some [(''old_enabled'', DBool (dnsEnabled old)), (''enabled'', DBool (dnsEnabled desired)),
                             (''old_listen_port'', DInt (dnsListenPort old)), (''listen_port'', DInt (dnsListenPort desired)),
                             (''old_native_resolver'', DBool (dnsNativeResolver old)),
                             (''native_resolver'', DBool (dnsNativeResolver desired)),
                             (''old_search_domain'', DStr (dnsSearchDomain old)),
                             (''search_domain'', DStr (dnsSearchDomain desired)),
                             (''config_revision'', DInt nextRevision)]) actor of
                      Inl e \<Rightarrow> Inl e
                    | Inr event \<Rightarrow>
                        (let network' = network\<lparr>netDNSSettings := desired, netConfigRevision := nextRevision,
                                               netConfigUpdatedAt := now\<rparr>;
                             state' = add_audit (set_network state i network') event
                         in Inr (networkDNSDocument state' network', state'))))))"

section \<open>The native resolver policy\<close>

record NativeDNSResolver =
  ndrIP :: string
  ndrPort :: int

record NativeDNSPolicy =
  ndpSchema :: string
  ndpLocalIP :: string
  ndpNetworkCIDR :: string
  ndpSearchDomain :: string
  ndpResolvers :: "NativeDNSResolver list"

definition nativeDNSPolicy :: "State \<Rightarrow> Network \<Rightarrow> Node \<Rightarrow> NativeDNSPolicy option" where
  "nativeDNSPolicy state network node =
     (let s = effectiveNetworkDNSSettings (netDNSSettings network) in
      if \<not> dnsEnabled s \<or> \<not> dnsNativeResolver s then None
      else Some \<lparr>ndpSchema = NativeDNSPolicySchema, ndpLocalIP = nodeIP node, ndpNetworkCIDR = netCIDR network,
                 ndpSearchDomain = dnsSearchDomain s,
                 ndpResolvers = take maxNativeDNSResolvers (sort_key ndrIP
                   (map (\<lambda>n. \<lparr>ndrIP = nodeIP n, ndrPort = dnsListenPort s\<rparr>) (active_lighthouses state network)))\<rparr>)"

definition json_native_dns :: "NativeDNSPolicy \<Rightarrow> string" where
  "json_native_dns p =
     ''{'' @ json_field ''schema'' (ndpSchema p) @ '','' @ json_field ''local_ip'' (ndpLocalIP p) @ '','' @
     json_field ''network_cidr'' (ndpNetworkCIDR p) @ '','' @ json_field ''search_domain'' (ndpSearchDomain p) @ '','' @
     quote ''resolvers'' @ '':['' @
     join_with '','' (map (\<lambda>r. ''{'' @ json_field ''ip'' (ndrIP r) @ '','' @ quote ''port'' @ '':'' @
       FormatInt (ndrPort r) @ ''}'') (ndpResolvers p)) @ '']}''"

definition renderNativeDNSPolicy :: "State \<Rightarrow> Network \<Rightarrow> Node \<Rightarrow> string" where
  "renderNativeDNSPolicy state network node =
     (case nativeDNSPolicy state network node of
        None \<Rightarrow> []
      | Some p \<Rightarrow> ''# mesh-native-dns-v1 '' @ EncodeToString (map of_char (json_native_dns p)) @ nl)"

fun resolvers_ordered :: "prefix \<Rightarrow> string \<Rightarrow> NativeDNSResolver list \<Rightarrow> bool" where
  "resolvers_ordered network previous [] = True"
| "resolvers_ordered network previous (r # rs) =
     ((case ParseAddr (ndrIP r) of
         None \<Rightarrow> False
       | Some a \<Rightarrow> addr_str a = ndrIP r \<and> Contains network a) \<and>
      1 \<le> ndrPort r \<and> ndrPort r \<le> 65535 \<and> \<not> (previous \<noteq> [] \<and> previous \<ge> ndrIP r) \<and>
      resolvers_ordered network (ndrIP r) rs)"

definition validateNativeDNSPolicy :: "NativeDNSPolicy \<Rightarrow> unit result" where
  "validateNativeDNSPolicy p =
     (if ndpSchema p \<noteq> NativeDNSPolicySchema then Inl ErrInternal
      else case ParseAddr (ndpLocalIP p) of
        None \<Rightarrow> Inl ErrInternal
      | Some local \<Rightarrow>
          if addr_str local \<noteq> ndpLocalIP p then Inl ErrInternal
          else (case ParsePrefix (ndpNetworkCIDR p) of
            None \<Rightarrow> Inl ErrInternal
          | Some network \<Rightarrow>
              if Masked network \<noteq> network \<or> prefix_str network \<noteq> ndpNetworkCIDR p \<or> \<not> Contains network local
                then Inl ErrInternal
              else if \<not> is_ok (validateNativeDNSDomain (ndpSearchDomain p)) then Inl ErrInternal
              else if ndpResolvers p = [] \<or> length (ndpResolvers p) > maxNativeDNSResolvers then Inl ErrInternal
              else if resolvers_ordered network [] (ndpResolvers p) then Inr () else Inl ErrInternal))"

section \<open>The update as a revisioned handler\<close>

interpretation dns: revisioned_handler
  "\<lambda>ident input now s. updateNetworkDNS eid now actor ident input s" "\<lambda>ident. ident" undExpectedConfigRevision
  for eid actor
proof
  fix ident input now s d s'
  assume "updateNetworkDNS eid now actor ident input s = Inr (d, s')"
  then show "s' = s \<or> network_step ident (undExpectedConfigRevision input) now s s'"
    by (auto simp: updateNetworkDNS_def Let_def split: if_splits sum.splits option.splits intro!: network_step_commitI)
qed

end
