(* ===== verification/Mesh_Relays.thy ===== *)
theory Mesh_Relays
  imports Mesh_Handler
begin

text \<open>
  Relay settings of a network (\<^verbatim>\<open>internal/control/relays.go\<close>): which managed nodes accept relay
  requests.  A handler is the callback it hands to the store, a function from the state to an error or to
  the result document with the new state; \<open>now\<close> and the identifier \<open>eid\<close> of the audit event are arguments.
\<close>

section \<open>Settings\<close>

abbreviation (input) MaxNetworkRelayNodes :: nat where "MaxNetworkRelayNodes \<equiv> 8"

definition defaultNetworkRelaySettings :: NetworkRelaySettings where
  "defaultNetworkRelaySettings = \<lparr>relayEnabled = False, relayNodeIDs = Some []\<rparr>"

definition effectiveNetworkRelaySettings :: "NetworkRelaySettings \<Rightarrow> NetworkRelaySettings" where
  "effectiveNetworkRelaySettings settings =
     (if relayNodeIDs settings = None \<and> \<not> relayEnabled settings then defaultNetworkRelaySettings else settings)"

definition normalizeNetworkRelaySettings :: "bool \<Rightarrow> string slice \<Rightarrow> NetworkRelaySettings result" where
  "normalizeNetworkRelaySettings enabled ids =
     (case ids of
        None \<Rightarrow> Inl ErrInvalid
      | Some xs \<Rightarrow>
          if \<not> enabled then if xs \<noteq> [] then Inl ErrInvalid else Inr defaultNetworkRelaySettings
          else if xs = [] \<or> length xs > MaxNetworkRelayNodes then Inl ErrInvalid
          else if \<not> list_all validPersistedID xs then Inl ErrInvalid
          else let normalized = sort xs in
            if \<not> adjacent_all (\<lambda>a b. b \<noteq> a) normalized then Inl ErrInvalid
            else Inr \<lparr>relayEnabled = True, relayNodeIDs = Some normalized\<rparr>)"

definition relay_member :: "State \<Rightarrow> Network \<Rightarrow> string \<Rightarrow> bool" where
  "relay_member state network ident =
     (case findNode state ident of
        None \<Rightarrow> False
      | Some n \<Rightarrow> nodeNetworkID n = netID network \<and> nodeStatus n \<noteq> ''revoked'')"

definition validateNetworkRelaySettings :: "State \<Rightarrow> Network \<Rightarrow> unit result" where
  "validateNetworkRelaySettings state network =
     (let settings = netRelaySettings network in
      if relayNodeIDs settings = None then Inl ErrInternal
      else case normalizeNetworkRelaySettings (relayEnabled settings) (relayNodeIDs settings) of
        Inl e \<Rightarrow> Inl e
      | Inr normalized \<Rightarrow>
          if relayEnabled settings \<noteq> relayEnabled normalized \<or>
             elems (relayNodeIDs settings) \<noteq> elems (relayNodeIDs normalized) then Inl ErrInternal
          else if list_all (relay_member state network) (elems (relayNodeIDs settings)) then Inr ()
          else Inl ErrInternal)"

record NetworkRelay =
  nrNodeID :: string
  nrName :: string
  nrIP :: string
  nrRole :: string

definition activeNetworkRelays :: "State \<Rightarrow> Network \<Rightarrow> NetworkRelay list" where
  "activeNetworkRelays state network =
     (let settings = effectiveNetworkRelaySettings (netRelaySettings network) in
      if \<not> relayEnabled settings then []
      else sort_key (\<lambda>r. (nrName r, nrNodeID r))
        (map (\<lambda>n. \<lparr>nrNodeID = nodeID n, nrName = nodeName n, nrIP = nodeIP n, nrRole = nodeRole n\<rparr>)
          (filter (\<lambda>n. nodeNetworkID n = netID network \<and> nodeStatus n = ''active'' \<and>
                       nodeID n \<in> set (elems (relayNodeIDs settings))) (Nodes state))))"

section \<open>The update\<close>

record NetworkRelaysDocument =
  nrdNetworkID :: string
  nrdNetworkCIDR :: string
  nrdEnabled :: bool
  nrdRelayNodeIDs :: "string slice"
  nrdActiveRelays :: "NetworkRelay list"
  nrdConfigRevision :: int
  nrdConfigUpdatedAt :: time

definition networkRelaysDocument :: "State \<Rightarrow> Network \<Rightarrow> NetworkRelaysDocument" where
  "networkRelaysDocument state network =
     (let settings = effectiveNetworkRelaySettings (netRelaySettings network) in
      \<lparr>nrdNetworkID = netID network, nrdNetworkCIDR = netCIDR network, nrdEnabled = relayEnabled settings,
       nrdRelayNodeIDs = relayNodeIDs settings, nrdActiveRelays = activeNetworkRelays state network,
       nrdConfigRevision = netConfigRevision network, nrdConfigUpdatedAt = netConfigUpdatedAt network\<rparr>)"

definition validateRelaySelection :: "State \<Rightarrow> string \<Rightarrow> NetworkRelaySettings \<Rightarrow> unit result" where
  "validateRelaySelection state ident settings =
     (case findNetwork state ident of
        None \<Rightarrow> Inl ErrNotFound
      | Some network \<Rightarrow>
          (case validateNetworkRelaySettings state (network\<lparr>netRelaySettings := settings\<rparr>) of
             Inl e \<Rightarrow> Inl ErrInvalid
           | Inr _ \<Rightarrow> Inr ()))"

definition relaySettingsDigest :: "sha256 \<Rightarrow> NetworkRelaySettings \<Rightarrow> string" where
  "relaySettingsDigest sha settings =
     ConfigDigest sha (''enabled='' @ (if relayEnabled settings then ''true'' else ''false'') @ [CHR 0x0A] @
       join_with [CHR 0x0A] (elems (relayNodeIDs settings)))"

record UpdateNetworkRelaysInput =
  unrExpectedConfigRevision :: int
  unrEnabled :: bool
  unrRelayNodeIDs :: "string slice"

definition updateNetworkRelays ::
  "sha256 \<Rightarrow> string \<Rightarrow> time \<Rightarrow> Actor option \<Rightarrow> string \<Rightarrow> UpdateNetworkRelaysInput \<Rightarrow> State \<Rightarrow>
    (NetworkRelaysDocument \<times> State) result" where
  "updateNetworkRelays sha eid now actor ident input state =
     (if \<not> validPersistedID ident then Inl ErrInvalid
      else if unrExpectedConfigRevision input < 1 then Inl ErrInvalid
      else case normalizeNetworkRelaySettings (unrEnabled input) (unrRelayNodeIDs input) of
        Inl e \<Rightarrow> Inl e
      | Inr desired \<Rightarrow>
          if Version state < ControlStateVersionNetworkRelays \<or> Version state > ControlStateVersionFirewallScopes
            then Inl ErrConflict
          else (case find_network_idx state ident of
            None \<Rightarrow> Inl ErrNotFound
          | Some i \<Rightarrow>
              (let network = Networks state ! i in
               case validateRelaySelection state ident desired of
                 Inl e \<Rightarrow> Inl e
               | Inr _ \<Rightarrow>
                   if relayEnabled desired = relayEnabled (netRelaySettings network) \<and>
                      elems (relayNodeIDs desired) = elems (relayNodeIDs (netRelaySettings network))
                     then Inr (networkRelaysDocument state network, state)
                   else if roPhase (netFirewallRollout network) \<noteq> [] then Inl ErrConflict
                   else if unrExpectedConfigRevision input \<noteq> netConfigRevision network then Inl ErrConflict
                   else if now = 0 then Inl ErrInternal
                   else (case nextConfigRevision (netConfigRevision network) True of
                     Inl e \<Rightarrow> Inl e
                   | Inr nextRevision \<Rightarrow>
                       (case newOptionalAttributedAudit eid now ''network.relay_settings_updated'' ''network'' (netID network)
                          (Some [(''old_sha256'', DStr (relaySettingsDigest sha (netRelaySettings network))),
                                 (''new_sha256'', DStr (relaySettingsDigest sha desired)),
                                 (''old_relay_nodes'', DInt (int (length (elems (relayNodeIDs (netRelaySettings network)))))),
                                 (''relay_nodes'', DInt (int (length (elems (relayNodeIDs desired))))),
                                 (''enabled'', DBool (relayEnabled desired)),
                                 (''config_revision'', DInt nextRevision)]) actor of
                          Inl e \<Rightarrow> Inl e
                        | Inr event \<Rightarrow>
                            (let network' = network\<lparr>netRelaySettings := desired, netConfigRevision := nextRevision,
                                                   netConfigUpdatedAt := now\<rparr>;
                                 state' = add_audit (set_network state i network') event
                             in Inr (networkRelaysDocument state' network', state')))))))"

section \<open>Lemmas\<close>

lemma strict_adjacent:
  fixes xs :: "'a::linorder list"
  assumes "sorted xs"
  shows "adjacent_all (\<lambda>a b. b \<noteq> a) xs \<longleftrightarrow> distinct xs"
proof
  assume a: "adjacent_all (\<lambda>a b. b \<noteq> a) xs"
  have "sorted_wrt (<) xs" using assms a
  proof (induction xs rule: induct_list012)
    case (3 x y zs)
    then have "x < y" "sorted_wrt (<) (y # zs)" by auto
    then show ?case by auto
  qed auto
  then show "distinct xs" by (simp add: strict_sorted_iff)
next
  assume "distinct xs"
  then show "adjacent_all (\<lambda>a b. b \<noteq> a) xs"
    by (auto simp: adjacent_all_conv nth_eq_iff_index_eq)
qed

lemma normalizeNetworkRelaySettings_iff:
  "normalizeNetworkRelaySettings enabled ids = Inr settings \<longleftrightarrow>
     (\<exists>xs. ids = Some xs \<and>
       (if enabled then xs \<noteq> [] \<and> length xs \<le> 8 \<and> list_all validPersistedID xs \<and> distinct xs \<and>
                        settings = \<lparr>relayEnabled = True, relayNodeIDs = Some (sort xs)\<rparr>
        else xs = [] \<and> settings = \<lparr>relayEnabled = False, relayNodeIDs = Some []\<rparr>))"
  by (auto simp: normalizeNetworkRelaySettings_def defaultNetworkRelaySettings_def Let_def strict_adjacent
      split: option.splits)

lemma normalizeNetworkRelaySettings_idem:
  "normalizeNetworkRelaySettings enabled ids = Inr s \<Longrightarrow>
     normalizeNetworkRelaySettings (relayEnabled s) (relayNodeIDs s) = Inr s"
  by (cases enabled) (auto simp: normalizeNetworkRelaySettings_iff list_all_iff)

section \<open>The update as a revisioned handler\<close>

interpretation relays: revisioned_handler
  "\<lambda>ident input now s. updateNetworkRelays sha eid now actor ident input s" "\<lambda>ident. ident" unrExpectedConfigRevision
  for sha eid actor
proof
  fix ident input now s d s'
  assume "updateNetworkRelays sha eid now actor ident input s = Inr (d, s')"
  then show "s' = s \<or> network_step ident (unrExpectedConfigRevision input) now s s'"
    by (auto simp: updateNetworkRelays_def Let_def split: if_splits sum.splits option.splits intro!: network_step_commitI)
qed

end
