(* ===== verification/Mesh_Routes.thy ===== *)
theory Mesh_Routes
  imports Mesh_RouteRecords
begin

text \<open>
  The address space that is spoken for: \<^verbatim>\<open>internal/control/routes.go\<close> collects the managed network
  CIDRs, the routed prefixes of the nodes that are not revoked and the additions of running profile
  edits, and refuses a state in which two of them overlap, unless they are the same prefix routed by
  gateways of one network.
\<close>

section \<open>Reservations\<close>

record reservedIPv4Prefix =
  rsPrefix :: prefix
  rsOwner :: string
  rsNetworkID :: string
  rsKind :: string

abbreviation managed_kind :: string where "managed_kind \<equiv> ''managed network''"
abbreviation routed_kind :: string where "routed_kind \<equiv> ''routed subnet''"

definition reserve :: "string \<Rightarrow> string \<Rightarrow> string \<Rightarrow> string \<Rightarrow> reservedIPv4Prefix result" where
  "reserve kind owner network value =
     (case ParsePrefix value of
        None \<Rightarrow> Inl ErrInternal
      | Some p \<Rightarrow> Inr \<lparr>rsPrefix = p, rsOwner = owner, rsNetworkID = network, rsKind = kind\<rparr>)"

definition network_reservations :: "Network list \<Rightarrow> reservedIPv4Prefix list result" where
  "network_reservations ns = map_result (\<lambda>n. reserve managed_kind (netID n) (netID n) (netCIDR n)) ns"

definition node_reservations :: "Node list \<Rightarrow> reservedIPv4Prefix list result" where
  "node_reservations ns =
     map_result (\<lambda>(n, v). reserve routed_kind (nodeID n) (nodeNetworkID n) v)
       (concat (map (\<lambda>n. map (Pair n) (nodeRoutedSubnets n)) (filter (\<lambda>n. nodeStatus n \<noteq> ''revoked'') ns)))"

fun edit_reservations :: "State \<Rightarrow> Network list \<Rightarrow> reservedIPv4Prefix list result" where
  "edit_reservations state [] = Inr []"
| "edit_reservations state (n # ns) =
     (let e = netRouteProfileEdit n in
      if \<not> routeProfileEditActive e then edit_reservations state ns
      else case findNode state (peNodeID e) of
        None \<Rightarrow> Inl ErrInternal
      | Some owner \<Rightarrow>
          (case map_result (reserve routed_kind (nodeID owner) (nodeNetworkID owner))
                  (filter (\<lambda>v. v \<notin> set (nodeRoutedSubnets owner)) (routeProfileEditAdditions e)) of
             Inl err \<Rightarrow> Inl err
           | Inr rs \<Rightarrow>
               (case edit_reservations state ns of Inl err \<Rightarrow> Inl err | Inr rest \<Rightarrow> Inr (rs @ rest))))"

definition activeReservedIPv4Prefixes :: "State \<Rightarrow> reservedIPv4Prefix list result" where
  "activeReservedIPv4Prefixes state =
     (case network_reservations (Networks state) of Inl e \<Rightarrow> Inl e | Inr a \<Rightarrow>
      (case node_reservations (Nodes state) of Inl e \<Rightarrow> Inl e | Inr b \<Rightarrow>
       (case edit_reservations state (Networks state) of Inl e \<Rightarrow> Inl e | Inr c \<Rightarrow> Inr (a @ b @ c))))"

section \<open>The prefix graph\<close>

abbreviation (input) maxRoutePolicyGateways :: nat where "maxRoutePolicyGateways \<equiv> 8"

definition same_route :: "reservedIPv4Prefix \<Rightarrow> reservedIPv4Prefix \<Rightarrow> bool" where
  "same_route r s =
     (rsKind r = routed_kind \<and> rsKind s = routed_kind \<and> rsNetworkID r = rsNetworkID s \<and> rsPrefix r = rsPrefix s)"

fun graph_scan :: "reservedIPv4Prefix \<Rightarrow> reservedIPv4Prefix list \<Rightarrow> unit result" where
  "graph_scan previous [] = Inr ()"
| "graph_scan previous (current # rest) =
     (if prefixesOverlap (rsPrefix previous) (rsPrefix current) then
        if same_route previous current then
          if 1 + length (takeWhile (same_route current) (current # rest)) > maxRoutePolicyGateways
          then Inl ErrInternal
          else graph_scan current rest
        else Inl ErrInternal
      else graph_scan current rest)"

definition reservation_key :: "reservedIPv4Prefix \<Rightarrow> prefix \<times> string \<times> string" where
  "reservation_key r = (rsPrefix r, rsKind r, rsOwner r)"

definition validateReservedIPv4PrefixGraph :: "State \<Rightarrow> unit result" where
  "validateReservedIPv4PrefixGraph state =
     (case activeReservedIPv4Prefixes state of
        Inl e \<Rightarrow> Inl e
      | Inr reservations \<Rightarrow>
          (case sort_key reservation_key reservations of
             [] \<Rightarrow> Inr ()
           | r # rs \<Rightarrow> graph_scan r rs))"

section \<open>Admission of new prefixes\<close>

text \<open>A value that does not parse is the zero prefix, which overlaps nothing.\<close>

fun first_conflict ::
  "(prefix \<Rightarrow> reservedIPv4Prefix \<Rightarrow> bool) \<Rightarrow> reservedIPv4Prefix list \<Rightarrow> string list \<Rightarrow> unit result" where
  "first_conflict excused reservations [] = Inr ()"
| "first_conflict excused reservations (v # vs) =
     (case ParsePrefix v of
        None \<Rightarrow> first_conflict excused reservations vs
      | Some p \<Rightarrow>
          if list_ex (\<lambda>r. \<not> excused p r \<and> prefixesOverlap p (rsPrefix r)) reservations
          then Inl ErrConflict else first_conflict excused reservations vs)"

definition validateNewRoutedSubnets :: "State \<Rightarrow> string list \<Rightarrow> unit result" where
  "validateNewRoutedSubnets state subnets =
     (if subnets = [] then Inr ()
      else case activeReservedIPv4Prefixes state of
        Inl e \<Rightarrow> Inl e
      | Inr reservations \<Rightarrow> first_conflict (\<lambda>p r. False) reservations subnets)"

definition validateRoutedSubnetsForNode :: "State \<Rightarrow> string \<Rightarrow> string list \<Rightarrow> unit result" where
  "validateRoutedSubnetsForNode state ident subnets =
     (case findNode state ident of
        None \<Rightarrow> Inl ErrNotFound
      | Some node \<Rightarrow>
          (case activeReservedIPv4Prefixes state of
             Inl e \<Rightarrow> Inl e
           | Inr reservations \<Rightarrow>
               first_conflict
                 (\<lambda>p r. rsKind r = routed_kind \<and> rsOwner r = ident \<or>
                        rsKind r = routed_kind \<and> rsNetworkID r = nodeNetworkID node \<and> p = rsPrefix r \<and>
                        (case findNode state (rsOwner r) of
                           None \<Rightarrow> False
                         | Some owner \<Rightarrow> nodeStatus owner = ''active'' \<and> nodeEnrolledAt owner \<noteq> None))
                 reservations subnets))"

definition overlapping_value :: "prefix \<Rightarrow> string \<Rightarrow> bool" where
  "overlapping_value p v = (case ParsePrefix v of None \<Rightarrow> False | Some q \<Rightarrow> prefixesOverlap p q)"

definition managedCIDROverlapsRoutedSubnet :: "State \<Rightarrow> string \<Rightarrow> string option" where
  "managedCIDROverlapsRoutedSubnet state cidr =
     (case ParsePrefix cidr of
        None \<Rightarrow> None
      | Some p \<Rightarrow>
          List.find (overlapping_value p)
            (concat (map nodeRoutedSubnets (filter (\<lambda>n. nodeStatus n \<noteq> ''revoked'') (Nodes state))) @
             concat (map (\<lambda>n. routeProfileEditAdditions (netRouteProfileEdit n))
                       (filter (\<lambda>n. routeProfileEditActive (netRouteProfileEdit n)) (Networks state)))))"

section \<open>Lemmas: the prefix graph\<close>

text \<open>Two reservations may stand side by side.\<close>

definition compatible :: "reservedIPv4Prefix \<Rightarrow> reservedIPv4Prefix \<Rightarrow> bool" where
  "compatible r s \<longleftrightarrow> \<not> prefixesOverlap (rsPrefix r) (rsPrefix s) \<or> same_route r s"

lemma symp_compatible: "symp compatible"
  by (auto intro!: sympI simp: compatible_def same_route_def prefixesOverlap_commute)

lemma same_route_trans: "same_route r s \<Longrightarrow> same_route s t \<Longrightarrow> same_route r t"
  and same_route_sym: "same_route r s \<Longrightarrow> same_route s r"
  by (auto simp: same_route_def)

lemma adjacent_compatible:
  assumes sorted: "sorted (map rsPrefix rs)" and adj: "adjacent_all compatible rs"
    and ij: "i < j" "j < length rs"
  shows "compatible (rs ! i) (rs ! j)"
  using ij
proof (induction "j - i" arbitrary: i j rule: less_induct)
  case less
  let ?p = "\<lambda>k. rsPrefix (rs ! k)"
  have le: "?p k \<le> ?p l" if "k \<le> l" "l < length rs" for k l
    using sorted_nth_mono [OF sorted, of k l] that by simp
  have near: "compatible (rs ! k) (rs ! Suc k)" if "Suc k < length rs" for k
    using adj that by (simp add: adjacent_all_conv)
  show ?case
  proof (cases "j = Suc i \<or> \<not> prefixesOverlap (?p i) (?p j)")
    case True
    then show ?thesis using near less.prems by (auto simp: compatible_def)
  next
    case False
    then obtain m where m: "j = Suc m" "i < m" and ov: "prefixesOverlap (?p i) (?p j)"
      using less.prems by (cases j) auto
    show ?thesis
    proof (cases "Bits (?p i) \<le> Bits (?p j)")
      case True
      have "prefixesOverlap (?p i) (?p (Suc i))"
        using overlap_between_first [OF le le ov True, of "Suc i"] less.prems m by simp
      then have s: "same_route (rs ! i) (rs ! Suc i)"
        using near [of i] less.prems by (auto simp: compatible_def)
      then have "compatible (rs ! Suc i) (rs ! j)" "?p (Suc i) = ?p i"
        using less.hyps [of j "Suc i"] less.prems m by (auto simp: same_route_def)
      with ov s show ?thesis by (auto simp: compatible_def intro: same_route_trans)
    next
      case short: False
      have "prefixesOverlap (?p m) (?p j)"
        using overlap_between_last [OF le le ov, of m] short less.prems m by simp
      then have s: "same_route (rs ! m) (rs ! j)"
        using near [of m] less.prems m by (auto simp: compatible_def)
      then have "compatible (rs ! i) (rs ! m)" "?p m = ?p j"
        using less.hyps [of m i] less.prems m by (auto simp: same_route_def)
      with ov s show ?thesis by (auto simp: compatible_def intro: same_route_trans)
    qed
  qed
qed

lemma pairwise_compatible:
  "sorted (map rsPrefix rs) \<Longrightarrow> adjacent_all compatible rs \<longleftrightarrow> sorted_wrt compatible rs"
  by (auto simp: sorted_wrt_iff_nth_less adjacent_compatible intro: adjacent_all_sorted_wrt)

definition gateway_count :: "prefix \<Rightarrow> string \<Rightarrow> reservedIPv4Prefix list \<Rightarrow> nat" where
  "gateway_count p n rs =
     length (filter (\<lambda>r. rsKind r = routed_kind \<and> rsNetworkID r = n \<and> rsPrefix r = p) rs)"

lemma gateway_count_mset: "mset rs = mset ss \<Longrightarrow> gateway_count p n rs = gateway_count p n ss"
  by (simp add: gateway_count_def flip: size_mset)

lemma graph_scan_step:
  "graph_scan r (s # rs) = Inr () \<longleftrightarrow>
     compatible r s \<and> (prefixesOverlap (rsPrefix r) (rsPrefix s) \<longrightarrow>
        Suc (length (takeWhile (same_route s) (s # rs))) \<le> 8) \<and> graph_scan s rs = Inr ()"
  by (auto simp: compatible_def)

text \<open>In the order of the scan the gateways of one prefix are consecutive.\<close>

lemma route_group_takeWhile:
  assumes "sorted (map reservation_key (r # rs))" "sorted_wrt compatible (r # rs)" "rsKind r = routed_kind"
  shows "filter (same_route r) rs = takeWhile (same_route r) rs"
  using assms
proof (induction rs)
  case (Cons s rs)
  show ?case
  proof (cases "same_route r s")
    case True
    with Cons show ?thesis by simp
  next
    case False
    have "\<not> same_route r t" if "t \<in> set rs" for t
    proof
      assume t: "same_route r t"
      have "reservation_key r \<le> reservation_key s" "reservation_key s \<le> reservation_key t"
        using Cons.prems(1) that by auto
      with t have "rsPrefix s = rsPrefix r" "rsKind s = routed_kind"
        by (auto simp: reservation_key_def same_route_def less_eq_prod_def)
      moreover have "compatible r s" using Cons.prems(2) by simp
      ultimately show False using False by (auto simp: compatible_def)
    qed
    with False show ?thesis by (auto simp: filter_empty_conv)
  qed
qed simp

lemma gateway_count_head:
  assumes "sorted (map reservation_key (r # rs))" "sorted_wrt compatible (r # rs)" "rsKind r = routed_kind"
  shows "gateway_count (rsPrefix r) (rsNetworkID r) (r # rs) = Suc (length (takeWhile (same_route r) rs))"
proof -
  have "(\<lambda>t. rsKind t = routed_kind \<and> rsNetworkID t = rsNetworkID r \<and> rsPrefix t = rsPrefix r) = same_route r"
    using assms(3) by (auto simp: same_route_def fun_eq_iff)
  then have "gateway_count (rsPrefix r) (rsNetworkID r) (r # rs) = Suc (length (filter (same_route r) rs))"
    using assms(3) by (simp add: gateway_count_def) (simp add: same_route_def)
  with route_group_takeWhile [OF assms] show ?thesis by simp
qed

lemma gateway_count_Cons:
  "gateway_count p n (r # rs) =
     (if rsKind r = routed_kind \<and> rsNetworkID r = n \<and> rsPrefix r = p then Suc (gateway_count p n rs)
      else gateway_count p n rs)"
  by (simp add: gateway_count_def)

lemma gateway_bound_Cons:
  "(\<forall>p n. gateway_count p n (r # rs) \<le> k) \<longleftrightarrow>
     (rsKind r = routed_kind \<longrightarrow> gateway_count (rsPrefix r) (rsNetworkID r) (r # rs) \<le> k) \<and>
     (\<forall>p n. gateway_count p n rs \<le> k)" (is "?l \<longleftrightarrow> ?r")
proof
  assume l: ?l
  have "gateway_count p n rs \<le> gateway_count p n (r # rs)" for p n by (simp add: gateway_count_Cons)
  with l show ?r using le_trans by blast
next
  assume ?r
  then show ?l by (auto simp: gateway_count_Cons)
qed

lemma sorted_key_prefix: "sorted (map reservation_key rs) \<Longrightarrow> sorted (map rsPrefix rs)"
  by (induction rs) (auto simp: reservation_key_def less_eq_prod_def)

lemma takeWhile_same_route:
  "same_route r s \<Longrightarrow> takeWhile (same_route r) xs = takeWhile (same_route s) xs"
  by (rule takeWhile_cong) (auto simp: same_route_def)

lemma graph_scan_ok_iff:
  assumes "sorted (map reservation_key (r # rs))"
  shows "graph_scan r rs = Inr () \<longleftrightarrow>
    sorted_wrt compatible (r # rs) \<and> (\<forall>p n. gateway_count p n (r # rs) \<le> 8)"
  using assms
proof (induction rs arbitrary: r)
  case Nil
  then show ?case by (simp add: gateway_count_def)
next
  case (Cons s rs)
  have IH: "graph_scan s rs = Inr () \<longleftrightarrow>
      sorted_wrt compatible (s # rs) \<and> (\<forall>p n. gateway_count p n (s # rs) \<le> 8)"
    using Cons by simp
  have pw: "sorted_wrt compatible (r # s # rs) \<longleftrightarrow> compatible r s \<and> sorted_wrt compatible (s # rs)"
  proof -
    have "sorted (map reservation_key (s # rs))" using Cons.prems by simp
    from pairwise_compatible [OF sorted_key_prefix [OF this]]
      pairwise_compatible [OF sorted_key_prefix [OF Cons.prems]]
    show ?thesis unfolding adjacent_all.simps by argo
  qed
  have own: "(\<forall>p n. gateway_count p n (r # s # rs) \<le> 8) \<longleftrightarrow>
      (prefixesOverlap (rsPrefix r) (rsPrefix s) \<longrightarrow> Suc (length (takeWhile (same_route s) (s # rs))) \<le> 8) \<and>
      (\<forall>p n. gateway_count p n (s # rs) \<le> 8)" if w: "sorted_wrt compatible (r # s # rs)"
  proof (cases "same_route r s")
    case True
    then have k: "rsKind r = routed_kind" and ov: "prefixesOverlap (rsPrefix r) (rsPrefix s)"
      by (auto simp: same_route_def)
    have "gateway_count (rsPrefix r) (rsNetworkID r) (r # s # rs) =
        Suc (length (takeWhile (same_route s) (s # rs)))"
      using gateway_count_head [OF Cons.prems w k] unfolding takeWhile_same_route [OF True] .
    then show ?thesis using ov k unfolding gateway_bound_Cons [of r "s # rs"] by simp
  next
    case False
    then have "\<not> prefixesOverlap (rsPrefix r) (rsPrefix s)" using w by (auto simp: compatible_def)
    moreover have "gateway_count (rsPrefix r) (rsNetworkID r) (r # s # rs) \<le> 8" if "rsKind r = routed_kind"
      using gateway_count_head [OF Cons.prems w that] False by simp
    ultimately show ?thesis unfolding gateway_bound_Cons [of r "s # rs"] by simp
  qed
  show ?case using graph_scan_step [of r s rs] IH pw own by blast
qed

lemma sorted_wrt_compatible_sort:
  "sorted_wrt compatible (sort_key f rs) \<longleftrightarrow> sorted_wrt compatible rs"
  by (rule sorted_wrt_symp_perm [OF symp_compatible]) simp

lemma validateReservedIPv4PrefixGraph_iff:
  "validateReservedIPv4PrefixGraph state = Inr () \<longleftrightarrow>
     (\<exists>rs. activeReservedIPv4Prefixes state = Inr rs \<and> sorted_wrt compatible rs \<and>
           (\<forall>p n. gateway_count p n rs \<le> 8))"
proof (cases "activeReservedIPv4Prefixes state")
  case (Inl e)
  then show ?thesis by (simp add: validateReservedIPv4PrefixGraph_def)
next
  case (Inr rs)
  let ?s = "sort_key reservation_key rs"
  have m: "gateway_count p n ?s = gateway_count p n rs" for p n
    by (rule gateway_count_mset) simp
  show ?thesis
  proof (cases ?s)
    case Nil
    then have "rs = []" by (metis mset_sort mset_zero_iff)
    with Inr show ?thesis by (simp add: validateReservedIPv4PrefixGraph_def gateway_count_def)
  next
    case (Cons r ss)
    then have "sorted (map reservation_key (r # ss))" by (metis sorted_sort_key)
    from graph_scan_ok_iff [OF this]
    have "graph_scan r ss = Inr () \<longleftrightarrow> sorted_wrt compatible rs \<and> (\<forall>p n. gateway_count p n rs \<le> 8)"
      using m sorted_wrt_compatible_sort [of reservation_key rs] unfolding Cons by (simp only:)
    with Inr Cons show ?thesis by (simp add: validateReservedIPv4PrefixGraph_def)
  qed
qed

section \<open>Properties\<close>

text \<open>C26. The check of the reserved prefix graph, which compares only neighbours after sorting, accepts a
  state exactly when the reservations can be collected, every two of them (managed networks, routed
  prefixes of nodes that are not revoked, staged additions) either have no address in common or are
  one prefix routed inside one network, and no prefix has more than eight gateways.\<close>

theorem reserved_prefix_graph_exact:
  "validateReservedIPv4PrefixGraph state = Inr () \<longleftrightarrow>
     (\<exists>rs. activeReservedIPv4Prefixes state = Inr rs \<and>
        sorted_wrt (\<lambda>r s. {a. Contains (rsPrefix r) a \<and> Contains (rsPrefix s) a} = {} \<or>
          rsKind r = ''routed subnet'' \<and> rsKind s = ''routed subnet'' \<and>
          rsNetworkID r = rsNetworkID s \<and> rsPrefix r = rsPrefix s) rs \<and>
        (\<forall>p n. length (filter (\<lambda>r. rsKind r = ''routed subnet'' \<and> rsNetworkID r = n \<and> rsPrefix r = p) rs) \<le> 8))"
proof -
  have "compatible = (\<lambda>r s. {a. Contains (rsPrefix r) a \<and> Contains (rsPrefix s) a} = {} \<or>
          rsKind r = ''routed subnet'' \<and> rsKind s = ''routed subnet'' \<and>
          rsNetworkID r = rsNetworkID s \<and> rsPrefix r = rsPrefix s)"
    by (simp add: fun_eq_iff compatible_def same_route_def overlap_common)
  then show ?thesis
    unfolding validateReservedIPv4PrefixGraph_iff gateway_count_def by simp
qed

end
