(* ===== verification/Mesh_RoutePolicy.thy ===== *)
theory Mesh_RoutePolicy
  imports Mesh_Routes
begin

text \<open>
  Route policies (\<^verbatim>\<open>internal/control/route_policies.go\<close>): the weights, MTU and metric an operator sets
  for a live routed prefix.  The stored policies are a list ordered by prefix, searched by
  \<^verbatim>\<open>slices.BinarySearchFunc\<close>; the gateways of a policy are always the active owners of the prefix.
\<close>

section \<open>Gateways and controls\<close>

fun scan_gateways :: "string list \<Rightarrow> NetworkRoutePolicyGateway list \<Rightarrow> NetworkRoutePolicyGateway list result" where
  "scan_gateways seen [] = Inr []"
| "scan_gateways seen (g # gs) =
     (let g' = g\<lparr>gwNodeID := TrimSpace (gwNodeID g)\<rparr> in
      if \<not> validPersistedID (gwNodeID g') then Inl ErrInternal
      else if gwWeight g' < 1 \<or> gwWeight g' > 1000 then Inl ErrInternal
      else if gwNodeID g' \<in> set seen then Inl ErrInternal
      else case scan_gateways (gwNodeID g' # seen) gs of Inl e \<Rightarrow> Inl e | Inr rest \<Rightarrow> Inr (g' # rest))"

definition normalizeRoutePolicyGatewayInput ::
  "NetworkRoutePolicyGateway list \<Rightarrow> NetworkRoutePolicyGateway list result" where
  "normalizeRoutePolicyGatewayInput values =
     (if length values < 1 \<or> length values > maxRoutePolicyGateways then Inl ErrInternal
      else case scan_gateways [] values of Inl e \<Rightarrow> Inl e | Inr gs \<Rightarrow> Inr (sort_key gwNodeID gs))"

definition validateRoutePolicyControls :: "int \<Rightarrow> int \<Rightarrow> unit result" where
  "validateRoutePolicyControls mtu metric =
     (if mtu \<noteq> 0 \<and> (mtu < 500 \<or> mtu > 65535) then Inl ErrInternal
      else if metric < 0 \<or> metric > 2147483647 then Inl ErrInternal else Inr ())"

definition activeRouteOwners :: "State \<Rightarrow> string \<Rightarrow> string \<Rightarrow> Node list" where
  "activeRouteOwners state ident route =
     sort_key nodeID (filter (\<lambda>n. nodeNetworkID n = ident \<and> nodeStatus n = ''active'' \<and> nodeEnrolledAt n \<noteq> None \<and>
        route \<in> set (nodeRoutedSubnets n)) (Nodes state))"

section \<open>Stored policies\<close>

text \<open>The loop of \<^verbatim>\<open>slices.BinarySearchFunc\<close>; \<open>lt h\<close> says that element \<open>h\<close> is below the target.\<close>

function bsearch :: "(nat \<Rightarrow> bool) \<Rightarrow> nat \<Rightarrow> nat \<Rightarrow> nat" where
  "bsearch lt i j =
     (if i < j then let h = (i + j) div 2 in if lt h then bsearch lt (h + 1) j else bsearch lt i h else i)"
  by pat_completeness auto
termination by (relation "measure (\<lambda>(lt, i, j). j - i)") auto

declare bsearch.simps [simp del]

definition search_policies :: "NetworkRoutePolicy list \<Rightarrow> string \<Rightarrow> nat \<times> bool" where
  "search_policies ps target =
     (let i = bsearch (\<lambda>h. rpPrefix (ps ! h) < target) 0 (length ps) in
      (i, i < length ps \<and> rpPrefix (ps ! i) = target))"

definition storedRoutePolicy :: "Network \<Rightarrow> string \<Rightarrow> NetworkRoutePolicy option" where
  "storedRoutePolicy network route =
     (case search_policies (netRoutePolicies network) route of
        (i, found) \<Rightarrow> if found then Some (netRoutePolicies network ! i) else None)"

definition gateway_weight :: "NetworkRoutePolicyGateway list \<Rightarrow> string \<Rightarrow> int" where
  "gateway_weight gs ident =
     (case map_of (rev (map (\<lambda>g. (gwNodeID g, gwWeight g)) gs)) ident of None \<Rightarrow> 0 | Some w \<Rightarrow> w)"

definition owner_gateways :: "NetworkRoutePolicyGateway list \<Rightarrow> Node list \<Rightarrow> NetworkRoutePolicyGateway list" where
  "owner_gateways gs owners =
     map (\<lambda>n. let w = gateway_weight gs (nodeID n) in \<lparr>gwNodeID = nodeID n, gwWeight = (if w = 0 then 1 else w)\<rparr>) owners"

definition effectiveRoutePolicy :: "State \<Rightarrow> Network \<Rightarrow> string \<Rightarrow> NetworkRoutePolicy" where
  "effectiveRoutePolicy state network route =
     (let owners = activeRouteOwners state (netID network) route;
          policy = (case storedRoutePolicy network route of
                      Some p \<Rightarrow> p
                    | None \<Rightarrow> \<lparr>rpPrefix = route, rpGateways = [], rpMTU = 0, rpMetric = 0, rpRequestID = [],
                               rpConfigRevision = 0, rpUpdatedAt = 0\<rparr>)
      in policy\<lparr>rpGateways := owner_gateways (rpGateways policy) owners\<rparr>)"

definition routePolicyOwnersMatch :: "NetworkRoutePolicyGateway list \<Rightarrow> Node list \<Rightarrow> bool" where
  "routePolicyOwnersMatch gs owners = (map gwNodeID gs = map nodeID owners)"

definition routePolicySettingsEqual ::
  "NetworkRoutePolicy \<Rightarrow> NetworkRoutePolicyGateway list \<Rightarrow> int \<Rightarrow> int \<Rightarrow> bool" where
  "routePolicySettingsEqual policy gs mtu metric =
     (rpMTU policy = mtu \<and> rpMetric policy = metric \<and> rpGateways policy = gs)"

definition networkRoutePolicyUpdateAvailable :: "Network \<Rightarrow> bool" where
  "networkRoutePolicyUpdateAvailable network =
     (caPhase (netCARotation network) = [] \<and> roPhase (netFirewallRollout network) = [] \<and>
      routeTransferTerminal (netRouteTransfer network) \<and> routeProfileEditTerminal (netRouteProfileEdit network))"

section \<open>The document\<close>

definition liveRoutedPrefixes :: "State \<Rightarrow> string \<Rightarrow> string list" where
  "liveRoutedPrefixes state ident =
     sort_key (\<lambda>v. case ParsePrefix v of None \<Rightarrow> Prefix 0 0 | Some p \<Rightarrow> p)
       (remdups (concat (map nodeRoutedSubnets
          (filter (\<lambda>n. \<not> (nodeNetworkID n \<noteq> ident \<or> nodeStatus n \<noteq> ''active'' \<or> nodeEnrolledAt n = None)) (Nodes state)))))"

record NetworkRoutePolicyGatewayDocument =
  gdNodeID :: string
  gdName :: string
  gdIP :: string
  gdWeight :: int

record NetworkRoutePolicyDocument =
  pdPrefix :: string
  pdGateways :: "NetworkRoutePolicyGatewayDocument list"
  pdMTU :: int
  pdMetric :: int
  pdInstall :: bool
  pdLastRequestID :: string
  pdPolicyRevision :: int
  pdUpdatedAt :: "time option"
  pdAvailableActions :: "string list"

record NetworkRoutePoliciesDocument =
  rpdNetworkID :: string
  rpdConfigRevision :: int
  rpdPolicies :: "NetworkRoutePolicyDocument list"
  rpdAvailableActions :: "string list"

definition gateway_document :: "State \<Rightarrow> NetworkRoutePolicyGateway \<Rightarrow> NetworkRoutePolicyGatewayDocument option" where
  "gateway_document state g =
     map_option (\<lambda>n. \<lparr>gdNodeID = nodeID n, gdName = nodeName n, gdIP = nodeIP n, gdWeight = gwWeight g\<rparr>)
       (findNode state (gwNodeID g))"

definition networkRoutePoliciesDocument :: "State \<Rightarrow> Network \<Rightarrow> NetworkRoutePoliciesDocument" where
  "networkRoutePoliciesDocument state network =
     (let actions = (if networkRoutePolicyUpdateAvailable network then [''update''] else []) in
      \<lparr>rpdNetworkID = netID network, rpdConfigRevision = netConfigRevision network,
       rpdPolicies = map (\<lambda>v. let policy = effectiveRoutePolicy state network v in
         \<lparr>pdPrefix = v, pdGateways = List.map_filter (gateway_document state) (rpGateways policy),
          pdMTU = rpMTU policy, pdMetric = rpMetric policy, pdInstall = True,
          pdLastRequestID = (if rpRequestID policy \<noteq> [] then rpRequestID policy else []),
          pdPolicyRevision = (if rpRequestID policy \<noteq> [] then rpConfigRevision policy else 0),
          pdUpdatedAt = (if rpRequestID policy \<noteq> [] then Some (rpUpdatedAt policy) else None),
          pdAvailableActions = actions\<rparr>) (liveRoutedPrefixes state (netID network)),
       rpdAvailableActions = actions\<rparr>)"

definition route_policy_schema :: "State \<Rightarrow> bool" where
  "route_policy_schema state =
     (\<not> (Version state \<noteq> ControlStateVersionRoutePolicies \<and> Version state \<noteq> ControlStateVersionNativeDNS \<and>
          Version state \<noteq> ControlStateVersionFirewallScopes))"

definition NetworkRoutePolicies :: "string \<Rightarrow> State \<Rightarrow> NetworkRoutePoliciesDocument result" where
  "NetworkRoutePolicies ident state =
     (let ident = TrimSpace ident in
      if \<not> validPersistedID ident then Inl ErrInvalid
      else if \<not> route_policy_schema state then Inl ErrConflict
      else case findNetwork state ident of
        None \<Rightarrow> Inl ErrNotFound
      | Some network \<Rightarrow> Inr (networkRoutePoliciesDocument state network))"

section \<open>The update\<close>

record UpdateNetworkRoutePolicyInput =
  urpPrefix :: string
  urpGateways :: "NetworkRoutePolicyGateway list"
  urpMTU :: int
  urpMetric :: int
  urpExpectedConfigRevision :: int
  urpRequestID :: string

definition put_policy :: "NetworkRoutePolicy list \<Rightarrow> NetworkRoutePolicy \<Rightarrow> NetworkRoutePolicy list" where
  "put_policy ps policy =
     (case search_policies ps (rpPrefix policy) of
        (i, found) \<Rightarrow> if found then ps[i := policy] else take i ps @ [policy] @ drop i ps)"

definition updateNetworkRoutePolicy ::
  "string \<Rightarrow> time \<Rightarrow> Actor option \<Rightarrow> string \<Rightarrow> UpdateNetworkRoutePolicyInput \<Rightarrow> State \<Rightarrow>
    (NetworkRoutePoliciesDocument \<times> State) result" where
  "updateNetworkRoutePolicy eid now actor ident input state =
     (let ident = TrimSpace ident; requestID = TrimSpace (urpRequestID input) in
      case (parseCanonicalRoutedSubnet (TrimSpace (urpPrefix input)), normalizeRoutePolicyGatewayInput (urpGateways input)) of
        (Inr p, Inr gateways) \<Rightarrow>
          (let route = prefix_str p in
           if \<not> validPersistedID ident \<or> \<not> is_ok (validateRoutePolicyControls (urpMTU input) (urpMetric input)) \<or>
              urpExpectedConfigRevision input < 1 \<or> \<not> validRouteTransferRequestID requestID then Inl ErrInvalid
           else if now = 0 then Inl ErrInternal
           else if \<not> route_policy_schema state then Inl ErrConflict
           else case find_network_idx state ident of
             None \<Rightarrow> Inl ErrNotFound
           | Some i \<Rightarrow>
               (let network = Networks state ! i; owners = activeRouteOwners state (netID network) route in
                if owners = [] then Inl ErrNotFound
                else if \<not> routePolicyOwnersMatch gateways owners then Inl ErrConflict
                else case (case storedRoutePolicy network route of
                             Some existing \<Rightarrow> if rpRequestID existing = requestID then Some existing else None
                           | None \<Rightarrow> None) of
                  Some existing \<Rightarrow>
                    if routePolicySettingsEqual existing gateways (urpMTU input) (urpMetric input)
                    then Inr (networkRoutePoliciesDocument state network, state) else Inl ErrConflict
                | None \<Rightarrow>
                    if \<not> networkRoutePolicyUpdateAvailable network \<or>
                       netConfigRevision network \<noteq> urpExpectedConfigRevision input then Inl ErrConflict
                    else (case nextConfigRevision (netConfigRevision network) True of
                      Inl e \<Rightarrow> Inl e
                    | Inr nextRevision \<Rightarrow>
                        (case newOptionalAttributedAudit eid now ''network.route_policy_updated'' ''network'' (netID network)
                           (Some [(''request_id'', DStr requestID), (''prefix'', DStr route),
                                  (''gateway_count'', DInt (int (length gateways))), (''mtu'', DInt (urpMTU input)),
                                  (''metric'', DInt (urpMetric input)),
                                  (''previous_config_revision'', DInt (urpExpectedConfigRevision input)),
                                  (''config_revision'', DInt nextRevision)]) actor of
                           Inl e \<Rightarrow> Inl e
                         | Inr event \<Rightarrow>
                             (let policy = \<lparr>rpPrefix = route, rpGateways = gateways, rpMTU = urpMTU input,
                                            rpMetric = urpMetric input, rpRequestID = requestID,
                                            rpConfigRevision = nextRevision, rpUpdatedAt = now\<rparr>;
                                  network' = network\<lparr>netRoutePolicies := put_policy (netRoutePolicies network) policy,
                                                     netConfigRevision := nextRevision, netConfigUpdatedAt := now\<rparr>;
                                  state' = add_audit (set_network state i network') event
                              in Inr (networkRoutePoliciesDocument state' network', state'))))))
      | _ \<Rightarrow> Inl ErrInvalid)"

section \<open>Reconciliation and validation\<close>

definition reconcileNetworkRoutePolicies :: "State \<Rightarrow> Network \<Rightarrow> Network" where
  "reconcileNetworkRoutePolicies state network =
     (if netRoutePolicies network = [] then network
      else network\<lparr>netRoutePolicies :=
        map (\<lambda>p. p\<lparr>rpGateways := owner_gateways (rpGateways p) (activeRouteOwners state (netID network) (rpPrefix p))\<rparr>)
          (filter (\<lambda>p. activeRouteOwners state (netID network) (rpPrefix p) \<noteq> []) (netRoutePolicies network))\<rparr>)"

definition route_policy_ok :: "State \<Rightarrow> Network \<Rightarrow> NetworkRoutePolicy \<Rightarrow> bool" where
  "route_policy_ok state network policy =
     (is_ok (validateRoutePolicyControls (rpMTU policy) (rpMetric policy)) \<and>
      normalizeRoutePolicyGatewayInput (rpGateways policy) = Inr (rpGateways policy) \<and>
      routePolicyOwnersMatch (rpGateways policy) (activeRouteOwners state (netID network) (rpPrefix policy)) \<and>
      validRouteTransferRequestID (rpRequestID policy) \<and> 1 \<le> rpConfigRevision policy \<and>
      rpConfigRevision policy \<le> netConfigRevision network \<and> rpUpdatedAt policy \<noteq> 0)"

fun policies_ordered :: "string \<Rightarrow> NetworkRoutePolicy list \<Rightarrow> bool" where
  "policies_ordered previous [] = True"
| "policies_ordered previous (p # ps) =
     ((case parseCanonicalRoutedSubnet (rpPrefix p) of Inl e \<Rightarrow> False | Inr q \<Rightarrow> prefix_str q = rpPrefix p) \<and>
      \<not> (previous \<noteq> [] \<and> previous \<ge> rpPrefix p) \<and> policies_ordered (rpPrefix p) ps)"

definition validateNetworkRoutePolicies :: "State \<Rightarrow> Network \<Rightarrow> unit result" where
  "validateNetworkRoutePolicies state network =
     (if policies_ordered [] (netRoutePolicies network) \<and>
         list_all (route_policy_ok state network) (netRoutePolicies network)
      then Inr () else Inl ErrInternal)"

section \<open>Lemmas: binary search\<close>

lemma bsearch_step:
  "bsearch lt i j = (if i < j then if lt ((i + j) div 2) then bsearch lt ((i + j) div 2 + 1) j else bsearch lt i ((i + j) div 2) else i)"
  by (subst bsearch.simps) (simp add: Let_def)

lemma bsearch_correct:
  assumes "i \<le> j" "\<And>h k. h \<le> k \<Longrightarrow> k < n \<Longrightarrow> lt k \<Longrightarrow> lt h" "j \<le> n"
    "\<And>h. h < i \<Longrightarrow> lt h" "\<And>h. j \<le> h \<Longrightarrow> h < n \<Longrightarrow> \<not> lt h"
  shows "bsearch lt i j \<le> n \<and> (\<forall>h < bsearch lt i j. lt h) \<and> (\<forall>h. bsearch lt i j \<le> h \<longrightarrow> h < n \<longrightarrow> \<not> lt h)"
  using assms
proof (induction "j - i" arbitrary: i j rule: less_induct)
  case less
  let ?h = "(i + j) div 2"
  consider "\<not> i < j" | "i < j" "lt ?h" | "i < j" "\<not> lt ?h" by blast
  then show ?case
  proof cases
    case 1
    then have "bsearch lt i j = i" "i = j" using less.prems(1) by (simp_all add: bsearch_step)
    then show ?thesis using less.prems by simp
  next
    case 2
    have "lt k" if "k < ?h + 1" for k
    proof (rule less.prems(2) [of k ?h])
      show "k \<le> ?h" "?h < n" "lt ?h" using that 2 less.prems(3) by simp_all
    qed
    then have "bsearch lt (?h + 1) j \<le> n \<and> (\<forall>h < bsearch lt (?h + 1) j. lt h) \<and>
        (\<forall>h. bsearch lt (?h + 1) j \<le> h \<longrightarrow> h < n \<longrightarrow> \<not> lt h)"
      using 2 by (intro less.hyps [OF _ _ less.prems(2,3) _ less.prems(5)]) simp_all
    moreover have "bsearch lt i j = bsearch lt (?h + 1) j" using 2 by (simp add: bsearch_step [of lt i j])
    ultimately show ?thesis by simp
  next
    case 3
    have "\<not> lt k" if "?h \<le> k" "k < n" for k using less.prems(2) [of ?h k] that 3 by blast
    then have "bsearch lt i ?h \<le> n \<and> (\<forall>h < bsearch lt i ?h. lt h) \<and>
        (\<forall>h. bsearch lt i ?h \<le> h \<longrightarrow> h < n \<longrightarrow> \<not> lt h)"
      using 3 less.prems(3) by (intro less.hyps [OF _ _ less.prems(2) _ less.prems(4)]) simp_all
    moreover have "bsearch lt i j = bsearch lt i ?h" using 3 by (simp add: bsearch_step [of lt i j])
    ultimately show ?thesis by simp
  qed
qed

abbreviation ordered_policies :: "NetworkRoutePolicy list \<Rightarrow> bool" where
  "ordered_policies ps \<equiv> sorted_wrt (<) (map rpPrefix ps)"

lemma ordered_nth_less:
  "ordered_policies ps \<Longrightarrow> h < k \<Longrightarrow> k < length ps \<Longrightarrow> rpPrefix (ps ! h) < rpPrefix (ps ! k)"
  using sorted_wrt_nth_less [of "(<)" "map rpPrefix ps" h k] by simp

lemma search_index:
  assumes "ordered_policies ps"
    and i_def: "i = bsearch (\<lambda>h. rpPrefix (ps ! h) < t) 0 (length ps)"
  shows "i \<le> length ps \<and> (\<forall>h < i. rpPrefix (ps ! h) < t) \<and> (\<forall>h. i \<le> h \<longrightarrow> h < length ps \<longrightarrow> \<not> rpPrefix (ps ! h) < t)"
  unfolding i_def
proof (rule bsearch_correct)
  show "rpPrefix (ps ! h) < t" if "h \<le> k" "k < length ps" "rpPrefix (ps ! k) < t" for h k
    using ordered_nth_less [OF assms(1), of h k] that by (cases "h = k") (auto intro: less_trans)
qed simp_all

lemma search_policies_spec:
  assumes "ordered_policies ps"
  shows "search_policies ps t = (length (takeWhile (\<lambda>p. rpPrefix p < t) ps), t \<in> rpPrefix ` set ps)"
proof -
  define i where "i = bsearch (\<lambda>h. rpPrefix (ps ! h) < t) 0 (length ps)"
  note i = search_index [OF assms i_def]
  have "takeWhile (\<lambda>p. rpPrefix p < t) ps = take i ps"
    using i by (intro takeWhile_eq_take_P_nth) auto
  then have len: "length (takeWhile (\<lambda>p. rpPrefix p < t) ps) = i" using i by simp
  have "i < length ps \<and> rpPrefix (ps ! i) = t" if "t \<in> rpPrefix ` set ps"
  proof -
    from that obtain k where k: "k < length ps" "rpPrefix (ps ! k) = t" by (auto simp: in_set_conv_nth)
    have "\<not> k < i" using i k by auto
    moreover have "\<not> i < k" using i ordered_nth_less [OF assms, of i k] k by auto
    ultimately show ?thesis using k by simp
  qed
  then have "t \<in> rpPrefix ` set ps \<longleftrightarrow> i < length ps \<and> rpPrefix (ps ! i) = t" by auto
  with len show ?thesis by (simp add: search_policies_def i_def Let_def)
qed

lemma nth_takeWhile_find:
  assumes "ordered_policies ps" "t \<in> rpPrefix ` set ps"
  shows "List.find (\<lambda>p. rpPrefix p = t) ps = Some (ps ! length (takeWhile (\<lambda>p. rpPrefix p < t) ps))"
  using assms by (induction ps) auto

lemma storedRoutePolicy_find:
  assumes "ordered_policies (netRoutePolicies network)"
  shows "storedRoutePolicy network t = List.find (\<lambda>p. rpPrefix p = t) (netRoutePolicies network)"
proof (cases "t \<in> rpPrefix ` set (netRoutePolicies network)")
  case True
  then show ?thesis
    by (simp add: storedRoutePolicy_def search_policies_spec [OF assms] nth_takeWhile_find [OF assms])
next
  case False
  then have "List.find (\<lambda>p. rpPrefix p = t) (netRoutePolicies network) = None" by (auto simp: find_None_iff)
  with False show ?thesis by (simp add: storedRoutePolicy_def search_policies_spec [OF assms])
qed

lemma put_policy_set:
  assumes "ordered_policies ps"
  shows "put_policy ps p = filter (\<lambda>q. rpPrefix q < rpPrefix p) ps @ [p] @ filter (\<lambda>q. rpPrefix p < rpPrefix q) ps"
  using assms
proof (simp add: put_policy_def search_policies_spec, induction ps)
  case (Cons q ps)
  then consider "rpPrefix q < rpPrefix p" | "rpPrefix q = rpPrefix p" | "rpPrefix p < rpPrefix q" by fastforce
  then show ?case
  proof cases
    case 1
    with Cons show ?thesis by auto
  next
    case 2
    with Cons.prems have "filter (\<lambda>q. rpPrefix q < rpPrefix p) ps = []" "filter (\<lambda>q. rpPrefix p < rpPrefix q) ps = ps"
      by (auto simp: filter_empty_conv intro!: filter_True)
    with 2 show ?thesis by simp
  next
    case 3
    with Cons.prems have "\<forall>r \<in> set ps. rpPrefix p < rpPrefix r" by auto
    then have "filter (\<lambda>q. rpPrefix q < rpPrefix p) ps = []" "filter (\<lambda>q. rpPrefix p < rpPrefix q) ps = ps"
      "rpPrefix p \<notin> rpPrefix ` set ps"
      by (auto simp: filter_empty_conv intro!: filter_True)
    with 3 show ?thesis by auto
  qed
qed simp

lemma put_policy_ordered:
  assumes "ordered_policies ps"
  shows "ordered_policies (put_policy ps p)"
  using assms by (auto simp: put_policy_set sorted_wrt_append sorted_wrt_map sorted_wrt_filter intro: less_trans)

lemma option_eqI: "(\<And>x. a = Some x \<longleftrightarrow> b = Some x) \<Longrightarrow> a = b"
  by (cases a; cases b) auto

lemma ordered_distinct: "ordered_policies ps \<Longrightarrow> distinct (map rpPrefix ps)"
  by (simp add: strict_sorted_iff)

lemma find_policy_iff:
  "distinct (map rpPrefix ps) \<Longrightarrow> List.find (\<lambda>q. rpPrefix q = t) ps = Some p \<longleftrightarrow> p \<in> set ps \<and> rpPrefix p = t"
  by (induction ps) auto

lemma find_put_policy:
  assumes "ordered_policies ps"
  shows "List.find (\<lambda>q. rpPrefix q = t) (put_policy ps p) =
    (if t = rpPrefix p then Some p else List.find (\<lambda>q. rpPrefix q = t) ps)"
proof -
  have d: "distinct (map rpPrefix (put_policy ps p))" "distinct (map rpPrefix ps)"
    using assms put_policy_ordered ordered_distinct by blast+
  have m: "q \<in> set (put_policy ps p) \<longleftrightarrow> q = p \<or> q \<in> set ps \<and> rpPrefix q \<noteq> rpPrefix p" for q
    by (auto simp: put_policy_set [OF assms])
  show ?thesis
    by (rule option_eqI) (simp add: find_policy_iff [OF d(1)] find_policy_iff [OF d(2)] m, blast)
qed

lemma storedRoutePolicy_put:
  assumes "ordered_policies (netRoutePolicies network)"
  shows "storedRoutePolicy (network\<lparr>netRoutePolicies := put_policy (netRoutePolicies network) p\<rparr>) t =
    (if t = rpPrefix p then Some p else storedRoutePolicy network t)"
  using assms by (simp add: storedRoutePolicy_find put_policy_ordered find_put_policy)

section \<open>The update as a revisioned handler\<close>

interpretation route_policies: revisioned_handler
  "\<lambda>ident input now s. updateNetworkRoutePolicy eid now actor ident input s" TrimSpace urpExpectedConfigRevision
  for eid actor
proof
  fix ident input now s d s'
  assume "updateNetworkRoutePolicy eid now actor ident input s = Inr (d, s')"
  then show "s' = s \<or> network_step (TrimSpace ident) (urpExpectedConfigRevision input) now s s'"
    by (auto simp: updateNetworkRoutePolicy_def Let_def split: if_splits sum.splits option.splits intro!: network_step_commitI)
qed

section \<open>Lemmas: gateways\<close>

lemma storedRoutePolicy_cong:
  "netRoutePolicies n = netRoutePolicies m \<Longrightarrow> storedRoutePolicy n t = storedRoutePolicy m t"
  unfolding storedRoutePolicy_def by (simp only:)

lemma owner_gateways_ids [simp]: "map gwNodeID (owner_gateways gs owners) = map nodeID owners"
  by (simp add: owner_gateways_def Let_def o_def)

lemma policies_ordered_iff:
  "policies_ordered previous ps \<Longrightarrow> ordered_policies ps \<and> (previous \<noteq> [] \<longrightarrow> (\<forall>p \<in> set ps. previous < rpPrefix p))"
proof (induction ps arbitrary: previous)
  case (Cons p ps)
  have ne: "rpPrefix p \<noteq> []"
    using Cons.prems by (auto simp: parseCanonicalRoutedSubnet_def split: sum.splits if_splits)
  with Cons.IH [of "rpPrefix p"] Cons.prems show ?case by (auto intro: less_trans)
qed simp

lemma gateway_weight_kept:
  assumes "distinct (map gwNodeID gs)" "gw \<in> set gs" "gwWeight gw \<noteq> 0" "n \<in> set owners" "nodeID n = gwNodeID gw"
  shows "gw \<in> set (owner_gateways gs owners)"
proof -
  have "map_of (rev (map (\<lambda>g. (gwNodeID g, gwWeight g)) gs)) (gwNodeID gw) = Some (gwWeight gw)"
    by (rule map_of_is_SomeI) (use assms(1,2) in \<open>auto simp: rev_map [symmetric] o_def\<close>)
  then have "gateway_weight gs (nodeID n) = gwWeight gw" using assms(5) by (simp add: gateway_weight_def)
  then have "\<lparr>gwNodeID = nodeID n, gwWeight = gwWeight gw\<rparr> \<in> set (owner_gateways gs owners)"
    using assms(3,4) by (auto simp: owner_gateways_def Let_def intro!: image_eqI [of _ _ n])
  moreover have "gw = \<lparr>gwNodeID = nodeID n, gwWeight = gwWeight gw\<rparr>" using assms(5) by (cases gw) simp
  ultimately show ?thesis by simp
qed

section \<open>Properties\<close>

text \<open>A route-policy update that changes the state stores exactly the requested policy for the
  requested prefix, leaves the policy of every other prefix of the network as it was, and keeps the
  stored policies in the order the binary search needs; the stored gateways are the active owners of the
  prefix.\<close>

theorem updateNetworkRoutePolicy_stores:
  assumes run: "updateNetworkRoutePolicy eid now actor ident input state = Inr (doc, state')"
    and idx: "find_network_idx state (TrimSpace ident) = Some i"
    and ord: "sorted_wrt (<) (map rpPrefix (netRoutePolicies (Networks state ! i)))"
    and change: "state' \<noteq> state"
  shows "(\<exists>p. storedRoutePolicy (Networks state' ! i) (TrimSpace (urpPrefix input)) = Some p \<and>
            rpMTU p = urpMTU input \<and> rpMetric p = urpMetric input \<and> rpRequestID p = TrimSpace (urpRequestID input) \<and>
            Inr (rpGateways p) = normalizeRoutePolicyGatewayInput (urpGateways input) \<and>
            map gwNodeID (rpGateways p) =
              map nodeID (activeRouteOwners state (netID (Networks state ! i)) (TrimSpace (urpPrefix input))) \<and>
            rpConfigRevision p = netConfigRevision (Networks state ! i) + 1) \<and>
         (\<forall>t. t \<noteq> TrimSpace (urpPrefix input) \<longrightarrow>
            storedRoutePolicy (Networks state' ! i) t = storedRoutePolicy (Networks state ! i) t) \<and>
         sorted_wrt (<) (map rpPrefix (netRoutePolicies (Networks state' ! i)))"
proof -
  from run idx change obtain q gs rev ev where
    q: "parseCanonicalRoutedSubnet (TrimSpace (urpPrefix input)) = Inr q" and
    gs: "normalizeRoutePolicyGatewayInput (urpGateways input) = Inr gs" and
    owners: "routePolicyOwnersMatch gs (activeRouteOwners state (netID (Networks state ! i)) (prefix_str q))" and
    rev: "nextConfigRevision (netConfigRevision (Networks state ! i)) True = Inr rev" and
    s': "state' = add_audit (set_network state i
      ((Networks state ! i)\<lparr>netRoutePolicies := put_policy (netRoutePolicies (Networks state ! i))
          \<lparr>rpPrefix = prefix_str q, rpGateways = gs, rpMTU = urpMTU input, rpMetric = urpMetric input,
           rpRequestID = TrimSpace (urpRequestID input), rpConfigRevision = rev, rpUpdatedAt = now\<rparr>,
        netConfigRevision := rev, netConfigUpdatedAt := now\<rparr>)) ev"
    by (auto simp: updateNetworkRoutePolicy_def Let_def split: if_splits sum.splits option.splits)
  let ?p = "\<lparr>rpPrefix = prefix_str q, rpGateways = gs, rpMTU = urpMTU input, rpMetric = urpMetric input,
           rpRequestID = TrimSpace (urpRequestID input), rpConfigRevision = rev, rpUpdatedAt = now\<rparr>"
  let ?n = "Networks state ! i"
  have route: "prefix_str q = TrimSpace (urpPrefix input)" using q by (auto simp: parseCanonicalRoutedSubnet_iff)
  have "rev = netConfigRevision ?n + 1" using rev by (auto simp: nextConfigRevision_def split: if_splits)
  have n': "Networks state' ! i = ?n\<lparr>netRoutePolicies := put_policy (netRoutePolicies ?n) ?p,
        netConfigRevision := rev, netConfigUpdatedAt := now\<rparr>"
    using s' find_network_idx_lt [OF idx] by simp
  have st: "storedRoutePolicy (Networks state' ! i) t =
      storedRoutePolicy (?n\<lparr>netRoutePolicies := put_policy (netRoutePolicies ?n) ?p\<rparr>) t" for t
    by (rule storedRoutePolicy_cong) (simp add: n')
  note stored = storedRoutePolicy_put [OF ord, of ?p]
  have "sorted_wrt (<) (map rpPrefix (netRoutePolicies (Networks state' ! i)))"
    using put_policy_ordered [OF ord, of ?p] by (simp add: n')
  then show ?thesis
    using owners gs \<open>rev = _\<close> unfolding st stored by (simp add: route routePolicyOwnersMatch_def)
qed

definition weight_input :: UpdateNetworkRoutePolicyInput where
  "weight_input = \<lparr>urpPrefix = '' 192.168.4.0/24'', urpGateways = [\<lparr>gwNodeID = ''gateway'', gwWeight = 5\<rparr>],
     urpMTU = 1300, urpMetric = 9, urpExpectedConfigRevision = 7, urpRequestID = ''request-0123456789''\<rparr>"

definition weight_state :: State where
  "weight_state = (case updateNetworkRoutePolicy ''event'' 90 None ''net'' weight_input demo_state of
     Inl e \<Rightarrow> demo_state | Inr (doc, s) \<Rightarrow> s)"

theorem updateNetworkRoutePolicy_stores_witness:
  "\<exists>p. storedRoutePolicy (Networks weight_state ! 0) ''192.168.4.0/24'' = Some p \<and> rpMTU p = 1300 \<and> rpConfigRevision p = 8"
proof -
  have "is_ok (updateNetworkRoutePolicy ''event'' 90 None ''net'' weight_input demo_state)" by code_simp
  then obtain doc s where run: "updateNetworkRoutePolicy ''event'' 90 None ''net'' weight_input demo_state = Inr (doc, s)"
    by (auto simp: is_ok_iff)
  then have s: "s = weight_state" by (simp add: weight_state_def)
  have "length (Audit weight_state) = 1" by code_simp
  then have change: "weight_state \<noteq> demo_state" by auto
  have idx: "find_network_idx demo_state (TrimSpace ''net'') = Some 0" by code_simp
  have "netRoutePolicies (Networks demo_state ! 0) = []" by (simp add: demo_network_def zero_network_def)
  moreover have "TrimSpace (urpPrefix weight_input) = ''192.168.4.0/24''" "urpMTU weight_input = 1300" by code_simp+
  ultimately show ?thesis
    using updateNetworkRoutePolicy_stores [OF run [unfolded s] idx _ change] by auto
qed

text \<open>C27. Reconciling the stored policies after a change of ownership keeps their order and their
  controls, drops exactly the policies whose prefix no active node routes any more, makes the gateways of
  each remaining policy the active owners of its prefix, and takes the weight of each owner from the
  policy it had, one where it had none.\<close>

theorem reconcile_matches_owners:
  assumes ord: "policies_ordered [] (netRoutePolicies network)"
  shows "sorted_wrt (<) (map rpPrefix (netRoutePolicies (reconcileNetworkRoutePolicies state network))) \<and>
    (\<forall>t. storedRoutePolicy (reconcileNetworkRoutePolicies state network) t =
       (case storedRoutePolicy network t of
          None \<Rightarrow> None
        | Some p \<Rightarrow> if activeRouteOwners state (netID network) t = [] then None
            else Some (p\<lparr>rpGateways := owner_gateways (rpGateways p) (activeRouteOwners state (netID network) t)\<rparr>))) \<and>
    (\<forall>p \<in> set (netRoutePolicies (reconcileNetworkRoutePolicies state network)).
       routePolicyOwnersMatch (rpGateways p) (activeRouteOwners state (netID network) (rpPrefix p)))"
proof -
  let ?live = "\<lambda>p. activeRouteOwners state (netID network) (rpPrefix p) \<noteq> []"
  let ?f = "\<lambda>p. p\<lparr>rpGateways := owner_gateways (rpGateways p) (activeRouteOwners state (netID network) (rpPrefix p))\<rparr>"
  let ?ps = "netRoutePolicies network"
  have o: "ordered_policies ?ps" using policies_ordered_iff [OF ord] by simp
  have new: "netRoutePolicies (reconcileNetworkRoutePolicies state network) = map ?f (filter ?live ?ps)"
    by (simp add: reconcileNetworkRoutePolicies_def)
  have o': "ordered_policies (map ?f (filter ?live ?ps))"
    using o by (simp add: o_def sorted_wrt_map sorted_wrt_filter)
  have find: "List.find (\<lambda>p. rpPrefix p = t) (map ?f (filter ?live qs)) =
      (case List.find (\<lambda>p. rpPrefix p = t) qs of None \<Rightarrow> None
       | Some p \<Rightarrow> if activeRouteOwners state (netID network) t = [] then None
           else Some (p\<lparr>rpGateways := owner_gateways (rpGateways p) (activeRouteOwners state (netID network) t)\<rparr>))"
    if "distinct (map rpPrefix qs)" for t qs
    using that by (induction qs) (auto simp: find_None_iff split: option.splits)
  have "storedRoutePolicy (reconcileNetworkRoutePolicies state network) t =
       (case storedRoutePolicy network t of
          None \<Rightarrow> None
        | Some p \<Rightarrow> if activeRouteOwners state (netID network) t = [] then None
            else Some (p\<lparr>rpGateways := owner_gateways (rpGateways p) (activeRouteOwners state (netID network) t)\<rparr>))" for t
    using storedRoutePolicy_find [of "reconcileNetworkRoutePolicies state network" t] storedRoutePolicy_find [OF o, of t]
      find [OF ordered_distinct [OF o], of t] o' unfolding new by simp
  with o' show ?thesis unfolding new by (simp add: routePolicyOwnersMatch_def)
qed

theorem reconcile_matches_owners_witness:
  "storedRoutePolicy (reconcileNetworkRoutePolicies (demo_state\<lparr>Nodes := [demo_member]\<rparr>) (Networks weight_state ! 0))
     ''192.168.4.0/24'' = None"
proof -
  have "policies_ordered [] (netRoutePolicies (Networks weight_state ! 0))" by code_simp
  note r = reconcile_matches_owners [OF this, of "demo_state\<lparr>Nodes := [demo_member]\<rparr>"]
  have "activeRouteOwners (demo_state\<lparr>Nodes := [demo_member]\<rparr>) (netID (Networks weight_state ! 0)) ''192.168.4.0/24'' = []"
    by code_simp
  with r show ?thesis by (simp split: option.splits)
qed

end
