(* ===== verification/Mesh_Render.thy ===== *)
theory Mesh_Render
  imports Mesh_DNS Mesh_Relays Mesh_RoutePolicy
begin

text \<open>
  The configuration a node receives (\<^verbatim>\<open>renderConfig\<close> of \<^verbatim>\<open>internal/control/service.go\<close> and
  \<^verbatim>\<open>firewallPolicyForNode\<close> of \<^verbatim>\<open>firewall_rollout.go\<close>).  The data that goes into the text (blocklist,
  lighthouses, unsafe routes) is computed by its own definitions, in the order the function computes
  it; the text is their concatenation.
\<close>

section \<open>The parts\<close>

definition firewallPolicyForNode :: "Network \<Rightarrow> Node \<Rightarrow> FirewallPolicy" where
  "firewallPolicyForNode network node =
     (if roPhase (netFirewallRollout network) = ''canary'' \<and>
         nodeID node \<in> set (elems (roCanaryNodeIDs (netFirewallRollout network)))
      then roTargetPolicy (netFirewallRollout network) else netFirewallPolicy network)"

definition config_lighthouses :: "State \<Rightarrow> Network \<Rightarrow> Node list" where
  "config_lighthouses state network =
     sort_key nodeIP (filter (\<lambda>n. nodeNetworkID n = netID network \<and> nodeRole n = ''lighthouse'' \<and>
        nodeStatus n = ''active'' \<and> nodePublicEndpoint n \<noteq> []) (Nodes state))"

definition revocation_network :: "State \<Rightarrow> CertificateRevocation \<Rightarrow> string" where
  "revocation_network state r =
     (if rvNetworkID r = [] then (case findNode state (rvNodeID r) of None \<Rightarrow> [] | Some n \<Rightarrow> nodeNetworkID n)
      else rvNetworkID r)"

definition config_blocklist :: "State \<Rightarrow> Network \<Rightarrow> string list" where
  "config_blocklist state network =
     sort (remdups
       (map nodeCertificateFingerprint (filter (\<lambda>n. nodeNetworkID n = netID network \<and> nodeStatus n = ''revoked'' \<and>
          nodeCertificateFingerprint n \<noteq> []) (Nodes state)) @
        map rvFingerprint (filter (\<lambda>r. revocation_network state r = netID network) (Revocations state))))"

record routedConfigEntry =
  ceRoute :: string
  ceGateways :: "(string \<times> int) list"
  ceMTU :: int
  ceMetric :: int

definition owned_routes :: "State \<Rightarrow> Network \<Rightarrow> string list" where
  "owned_routes state network =
     remdups (concat (map nodeRoutedSubnets
       (filter (\<lambda>n. nodeNetworkID n = netID network \<and> nodeStatus n = ''active'') (Nodes state))))"

definition routed_entry :: "State \<Rightarrow> Network \<Rightarrow> string \<Rightarrow> routedConfigEntry" where
  "routed_entry state network route =
     (let policy = effectiveRoutePolicy state network route in
      \<lparr>ceRoute = route,
       ceGateways = List.map_filter (\<lambda>gw. map_option (\<lambda>n. (nodeIP n, gwWeight gw)) (findNode state (gwNodeID gw)))
         (rpGateways policy),
       ceMTU = rpMTU policy, ceMetric = rpMetric policy\<rparr>)"

definition routed_entries :: "State \<Rightarrow> Network \<Rightarrow> Node \<Rightarrow> routedConfigEntry list" where
  "routed_entries state network node =
     sort_key ceRoute (filter (\<lambda>e. ceGateways e \<noteq> [])
       (map (routed_entry state network)
         (filter (\<lambda>route. route \<notin> set (certificateRoutedSubnets network node)) (owned_routes state network))))"

section \<open>The text\<close>

definition lines :: "string list \<Rightarrow> string" where
  "lines ls = concat (map (\<lambda>l. l @ nl) ls)"

definition render_pki :: "State \<Rightarrow> Network \<Rightarrow> string" where
  "render_pki state network =
     lines [''pki:'', ''  ca: /etc/nebula/ca.crt'', ''  cert: /etc/nebula/host.crt'', ''  key: /etc/nebula/host.key''] @
     (let blocklist = config_blocklist state network in
      if blocklist \<noteq> [] then lines (''  blocklist:'' # map (\<lambda>fp. ''    - '' @ quote fp) blocklist) else []) @
     lines [''  disconnect_invalid: true'']"

definition render_lighthouse :: "State \<Rightarrow> Network \<Rightarrow> Node \<Rightarrow> string" where
  "render_lighthouse state network node =
     (let lighthouses = config_lighthouses state network;
          remote = filter (\<lambda>lh. nodeID lh \<noteq> nodeID node) lighthouses
      in lines (''static_host_map:'' #
           map (\<lambda>lh. ''  '' @ quote (nodeIP lh) @ '': ['' @ quote (nodePublicEndpoint lh) @ '']'') lighthouses) @
         lines [''lighthouse:'', ''  am_lighthouse: '' @ (if nodeRole node = ''lighthouse'' then ''true'' else ''false'')] @
         (if nodeRole node = ''lighthouse'' \<and> dnsEnabled (netDNSSettings network)
          then lines [''  serve_dns: true'', ''  dns:'', ''    host: '' @ quote (nodeIP node),
                      ''    port: '' @ FormatInt (dnsListenPort (netDNSSettings network))] else []) @
         lines [''  interval: 60''] @
         (if remote = [] then lines [''  hosts: []'']
          else lines (''  hosts:'' # map (\<lambda>lh. ''    - '' @ quote (nodeIP lh)) remote)) @
         lines [''listen:'', ''  host: 0.0.0.0'', ''  port: '' @ FormatInt (netListenPort network), ''punchy:'', ''  punch: true''])"

definition render_relay :: "State \<Rightarrow> Network \<Rightarrow> Node \<Rightarrow> string" where
  "render_relay state network node =
     (let settings = effectiveNetworkRelaySettings (netRelaySettings network) in
      if \<not> relayEnabled settings then []
      else lines [''relay:''] @
        (if nodeID node \<in> set (elems (relayNodeIDs settings)) then lines [''  am_relay: true'', ''  use_relays: false'']
         else (let relays = activeNetworkRelays state network in
               if relays = [] then lines [''  relays: []'']
               else lines (''  relays:'' # map (\<lambda>r. ''    - '' @ quote (nrIP r)) relays)) @
              lines [''  am_relay: false'', ''  use_relays: true'']))"

definition render_entry :: "routedConfigEntry \<Rightarrow> string" where
  "render_entry e =
     lines [''    - route: '' @ quote (ceRoute e)] @
     (case ceGateways e of
        [(ip, weight)] \<Rightarrow> lines [''      via: '' @ quote ip]
      | gateways \<Rightarrow> lines (''      via:'' # concat (map (\<lambda>(ip, weight).
          [''        - gateway: '' @ quote ip, ''          weight: '' @ FormatInt weight]) gateways))) @
     (if ceMTU e \<noteq> 0 then lines [''      mtu: '' @ FormatInt (ceMTU e)] else []) @
     (if ceMetric e \<noteq> 0 then lines [''      metric: '' @ FormatInt (ceMetric e)] else [])"

definition render_routes :: "State \<Rightarrow> Network \<Rightarrow> Node \<Rightarrow> string" where
  "render_routes state network node =
     (let entries = routed_entries state network node in
      if entries = [] then [] else lines [''tun:'', ''  unsafe_routes:''] @ concat (map render_entry entries))"

definition renderConfig :: "State \<Rightarrow> Network \<Rightarrow> Node \<Rightarrow> string" where
  "renderConfig state network node =
     renderNativeDNSPolicy state network node @ render_pki state network @ render_lighthouse state network node @
     render_relay state network node @ render_routes state network node @
     renderFirewallPolicyForNode (effectiveFirewallPolicyForNode state node (firewallPolicyForNode network node))
       (certificateRoutedSubnets network node) @
     lines [''logging:'', ''  level: info'', ''  format: json'']"

section \<open>Lemmas\<close>

lemma lines_simps [simp]:
  "lines [] = []" "lines (l # ls) = l @ nl @ lines ls" "lines (xs @ ys) = lines xs @ lines ys"
  by (simp_all add: lines_def)

lemma plain_digest:
  assumes "netDNSSettings n = netDNSSettings demo_network"
  shows "ConfigDigest wide_sha (renderConfig s n node) = hex_string (replicate 32 112)"
  using assms
  by (simp add: ConfigDigest_def renderConfig_def renderNativeDNSPolicy_def effectiveNetworkDNSSettings_def demo_network_def render_pki_def
      nativeDNSPolicy_def defaultNetworkDNSSettings_def zero_dns_def wide_sha_def lines_def)

lemma config_blocklist_set:
  "set (config_blocklist state network) =
     {nodeCertificateFingerprint n | n. n \<in> set (Nodes state) \<and> nodeNetworkID n = netID network \<and>
        nodeStatus n = ''revoked'' \<and> nodeCertificateFingerprint n \<noteq> []} \<union>
     {rvFingerprint r | r. r \<in> set (Revocations state) \<and> revocation_network state r = netID network}"
  by (auto simp: config_blocklist_def)

lemma findNode_member:
  "distinct (map nodeID (Nodes state)) \<Longrightarrow> n \<in> set (Nodes state) \<Longrightarrow> findNode state (nodeID n) = Some n"
proof -
  have "List.find (\<lambda>v. nodeID v = nodeID n) ns = Some n" if "distinct (map nodeID ns)" "n \<in> set ns" for ns
    using that by (induction ns) auto
  then show "distinct (map nodeID (Nodes state)) \<Longrightarrow> n \<in> set (Nodes state) \<Longrightarrow> findNode state (nodeID n) = Some n"
    by (simp add: findNode_def)
qed

lemma map_filter_all_Some:
  "(\<And>x. x \<in> set xs \<Longrightarrow> f x = Some (h x)) \<Longrightarrow> List.map_filter f xs = map h xs"
  by (induction xs) (auto simp: List.map_filter_simps)

lemma activeRouteOwners_set:
  "set (activeRouteOwners state ident route) =
     {n \<in> set (Nodes state). nodeNetworkID n = ident \<and> nodeStatus n = ''active'' \<and> nodeEnrolledAt n \<noteq> None \<and>
        route \<in> set (nodeRoutedSubnets n)}"
  by (auto simp: activeRouteOwners_def)

lemma owner_gateways_form:
  "\<exists>w. owner_gateways gs owners = map (\<lambda>n. \<lparr>gwNodeID = nodeID n, gwWeight = w n\<rparr>) owners"
  by (rule exI [of _ "\<lambda>n. if gateway_weight gs (nodeID n) = 0 then 1 else gateway_weight gs (nodeID n)"])
     (simp add: owner_gateways_def Let_def)

lemma effective_gateways:
  "\<exists>w. rpGateways (effectiveRoutePolicy state network route) =
     map (\<lambda>n. \<lparr>gwNodeID = nodeID n, gwWeight = w n\<rparr>) (activeRouteOwners state (netID network) route)"
  unfolding effectiveRoutePolicy_def Let_def by (simp add: owner_gateways_form)

lemma routed_entry_gateways:
  assumes "distinct (map nodeID (Nodes state))"
  shows "map fst (ceGateways (routed_entry state network route)) =
    map nodeIP (activeRouteOwners state (netID network) route)"
proof -
  obtain w where w: "rpGateways (effectiveRoutePolicy state network route) =
     map (\<lambda>n. \<lparr>gwNodeID = nodeID n, gwWeight = w n\<rparr>) (activeRouteOwners state (netID network) route)"
    using effective_gateways by blast
  have "findNode state (nodeID n) = Some n" if "n \<in> set (activeRouteOwners state (netID network) route)" for n
    using that findNode_member [OF assms] by (simp add: activeRouteOwners_set)
  then have "List.map_filter (\<lambda>gw. map_option (\<lambda>n. (nodeIP n, gwWeight gw)) (findNode state (gwNodeID gw)))
      (map (\<lambda>n. \<lparr>gwNodeID = nodeID n, gwWeight = w n\<rparr>) (activeRouteOwners state (netID network) route)) =
      map (\<lambda>n. (nodeIP n, w n)) (activeRouteOwners state (netID network) route)"
    by (simp add: List.map_filter_map_filter o_def List.map_filter_def filter_True map_idI)
  then show ?thesis by (simp add: routed_entry_def Let_def w o_def)
qed

section \<open>Properties\<close>

text \<open>C19. Every certificate that must not be trusted is on the blocklist of every configuration of the network.  As
  soon as there is one, the section \<^verbatim>\<open>pki\<close> of the rendered text has a key \<^verbatim>\<open>blocklist\<close> whose items are, in
  order and without repetition, exactly the fingerprints of the revoked nodes of the network and of the
  revocations recorded for it; a revocation without a network belongs to the network of its node.\<close>

theorem revoked_fingerprints_rendered:
  assumes net: "netID network \<noteq> []"
    and some: "fp \<in> {nodeCertificateFingerprint n | n. n \<in> set (Nodes state) \<and> nodeNetworkID n = netID network \<and>
          nodeStatus n = ''revoked'' \<and> nodeCertificateFingerprint n \<noteq> []} \<union>
        {rvFingerprint r | r. r \<in> set (Revocations state) \<and> (rvNetworkID r = netID network \<or>
          rvNetworkID r = [] \<and> (\<exists>n. findNode state (rvNodeID r) = Some n \<and> nodeNetworkID n = netID network))}"
  shows "\<exists>fps rest. renderConfig state network node = renderNativeDNSPolicy state network node @
      lines ([''pki:'', ''  ca: /etc/nebula/ca.crt'', ''  cert: /etc/nebula/host.crt'', ''  key: /etc/nebula/host.key'', ''  blocklist:''] @
        map (\<lambda>x. ''    - '' @ quote x) fps @ [''  disconnect_invalid: true'']) @ rest \<and>
    fp \<in> set fps \<and> sorted fps \<and> distinct fps \<and>
    set fps = {nodeCertificateFingerprint n | n. n \<in> set (Nodes state) \<and> nodeNetworkID n = netID network \<and>
          nodeStatus n = ''revoked'' \<and> nodeCertificateFingerprint n \<noteq> []} \<union>
        {rvFingerprint r | r. r \<in> set (Revocations state) \<and> (rvNetworkID r = netID network \<or>
          rvNetworkID r = [] \<and> (\<exists>n. findNode state (rvNodeID r) = Some n \<and> nodeNetworkID n = netID network))}"
proof -
  let ?fps = "config_blocklist state network"
  have of_network: "revocation_network state r = netID network \<longleftrightarrow> rvNetworkID r = netID network \<or>
      rvNetworkID r = [] \<and> (\<exists>n. findNode state (rvNodeID r) = Some n \<and> nodeNetworkID n = netID network)" for r
    using net by (auto simp: revocation_network_def split: option.splits)
  have set: "fp \<in> set ?fps" using some unfolding config_blocklist_set of_network .
  then have "?fps \<noteq> []" by auto
  then have pki: "render_pki state network = lines ([''pki:'', ''  ca: /etc/nebula/ca.crt'', ''  cert: /etc/nebula/host.crt'',
      ''  key: /etc/nebula/host.key'', ''  blocklist:''] @ map (\<lambda>x. ''    - '' @ quote x) ?fps @ [''  disconnect_invalid: true''])"
    by (simp add: render_pki_def Let_def)
  have "sorted ?fps" "distinct ?fps" by (simp_all add: config_blocklist_def)
  with set show ?thesis
    unfolding renderConfig_def pki config_blocklist_set of_network [symmetric] by (intro exI [of _ ?fps] exI conjI) (auto simp: config_blocklist_set)
qed

theorem revoked_fingerprints_rendered_witness:
  "\<exists>rest. renderConfig demo_state demo_network demo_member = renderNativeDNSPolicy demo_state demo_network demo_member @
     lines [''pki:'', ''  ca: /etc/nebula/ca.crt'', ''  cert: /etc/nebula/host.crt'', ''  key: /etc/nebula/host.key'', ''  blocklist:'',
       ''    - '' @ quote ''fp-lost'', ''  disconnect_invalid: true''] @ rest"
proof -
  have lost: "nodeCertificateFingerprint demo_revoked = ''fp-lost''" by (simp add: demo_revoked_def demo_node_def)
  have all: "{nodeCertificateFingerprint n | n. n \<in> set (Nodes demo_state) \<and> nodeNetworkID n = netID demo_network \<and>
        nodeStatus n = ''revoked'' \<and> nodeCertificateFingerprint n \<noteq> []} \<union>
      {rvFingerprint r | r. r \<in> set (Revocations demo_state) \<and> (rvNetworkID r = netID demo_network \<or>
        rvNetworkID r = [] \<and> (\<exists>n. findNode demo_state (rvNodeID r) = Some n \<and> nodeNetworkID n = netID demo_network))} = {''fp-lost''}"
    using lost by (auto intro!: exI [of _ demo_revoked])
  obtain fps rest where r: "renderConfig demo_state demo_network demo_member = renderNativeDNSPolicy demo_state demo_network demo_member @
      lines ([''pki:'', ''  ca: /etc/nebula/ca.crt'', ''  cert: /etc/nebula/host.crt'', ''  key: /etc/nebula/host.key'', ''  blocklist:''] @
        map (\<lambda>x. ''    - '' @ quote x) fps @ [''  disconnect_invalid: true'']) @ rest" and fps: "distinct fps" "set fps = {''fp-lost''}"
    using revoked_fingerprints_rendered [of demo_network "''fp-lost''" demo_state demo_member] unfolding all by (auto simp: demo_network_def)
  have "fps = [''fp-lost'']" using fps by (cases fps; cases "tl fps") auto
  with r show ?thesis by auto
qed

text \<open>C20. The unsafe routes of a node are exactly the prefixes that an active enrolled node of the
  network routes and the node's own certificate does not carry; the gateways of each are exactly the
  overlay addresses of its active enrolled owners.\<close>

theorem unsafe_routes_exact:
  assumes "distinct (map nodeID (Nodes state))"
  shows "ceRoute ` set (routed_entries state network node) =
      {route. activeRouteOwners state (netID network) route \<noteq> [] \<and> route \<notin> set (certificateRoutedSubnets network node)} \<and>
    (\<forall>e \<in> set (routed_entries state network node).
      map fst (ceGateways e) = map nodeIP (activeRouteOwners state (netID network) (ceRoute e)))"
proof -
  have r: "ceRoute (routed_entry state network route) = route" for route
    by (simp add: routed_entry_def Let_def)
  note g = routed_entry_gateways [OF assms]
  have empty: "ceGateways (routed_entry state network route) = [] \<longleftrightarrow> activeRouteOwners state (netID network) route = []" for route
    using g [of network route] by (metis map_is_Nil_conv)
  have own: "route \<in> set (owned_routes state network)" if "activeRouteOwners state (netID network) route \<noteq> []" for route
  proof -
    from that obtain n where "n \<in> set (activeRouteOwners state (netID network) route)" by (meson list.set_sel(1))
    then show ?thesis by (auto simp: activeRouteOwners_set owned_routes_def)
  qed
  have "set (routed_entries state network node) =
      routed_entry state network ` {route. activeRouteOwners state (netID network) route \<noteq> [] \<and>
        route \<notin> set (certificateRoutedSubnets network node)}"
    using own empty by (auto simp: routed_entries_def)
  then show ?thesis using g r by (auto simp: image_image)
qed

theorem unsafe_routes_exact_witness:
  "ceRoute ` set (routed_entries demo_state demo_network demo_member) =
     {route. activeRouteOwners demo_state ''net'' route \<noteq> [] \<and> route \<notin> set (certificateRoutedSubnets demo_network demo_member)} \<and>
   activeRouteOwners demo_state ''net'' ''192.168.4.0/24'' = [demo_gateway]"
proof
  have d: "distinct (map nodeID (Nodes demo_state))" by simp
  show "ceRoute ` set (routed_entries demo_state demo_network demo_member) =
     {route. activeRouteOwners demo_state ''net'' route \<noteq> [] \<and> route \<notin> set (certificateRoutedSubnets demo_network demo_member)}"
    using conjunct1 [OF unsafe_routes_exact [OF d, of demo_network demo_member]] by simp
  show "activeRouteOwners demo_state ''net'' ''192.168.4.0/24'' = [demo_gateway]" by code_simp
qed

end
