(* ===== verification/Mesh_CARotation.thy ===== *)
theory Mesh_CARotation
  imports Mesh_RouteRecords
begin

text \<open>
  Replacement of a network's certificate authority (\<^verbatim>\<open>internal/control/ca_rotation.go\<close>).  The
  rotation is a state machine in the network record (stable, prepared, rotating, finalizing, aborting)
  that one handler moves; the trust bundle and the signing authority of the network follow from its
  phase.  What \<^verbatim>\<open>prepare\<close> obtains from outside the package (a new authority from the issuer, its check,
  its key sealed by the secret box) is the argument \<open>generate\<close>; the state its first transaction reads
  is the argument \<open>viewed\<close>, because other handlers may commit before the second one runs.
\<close>

section \<open>Phases\<close>

abbreviation CARotationPhasePrepared :: string where "CARotationPhasePrepared \<equiv> ''prepared''"
abbreviation CARotationPhaseRotating :: string where "CARotationPhaseRotating \<equiv> ''rotating''"
abbreviation CARotationPhaseFinalizing :: string where "CARotationPhaseFinalizing \<equiv> ''finalizing''"
abbreviation CARotationPhaseAborting :: string where "CARotationPhaseAborting \<equiv> ''aborting''"

definition stableCARotationPhase :: "string \<Rightarrow> string" where
  "stableCARotationPhase phase = (if phase = [] then ''stable'' else phase)"

definition concatenateCAs :: "string \<Rightarrow> string \<Rightarrow> string" where
  "concatenateCAs a b =
     (if b = [] then a
      else if a \<noteq> [] \<and> last a = CHR 0x0A then a @ b
      else a @ [CHR 0x0A] @ b)"

definition networkTrustBundle :: "Network \<Rightarrow> string" where
  "networkTrustBundle network =
     (if caPhase (netCARotation network) = CARotationPhasePrepared \<or> caPhase (netCARotation network) = CARotationPhaseRotating
      then concatenateCAs (netCACertificate network) (caNextCACertificate (netCARotation network))
      else netCACertificate network)"

definition networkSigningAuthority :: "Network \<Rightarrow> string \<times> string" where
  "networkSigningAuthority network =
     (if caPhase (netCARotation network) = CARotationPhaseRotating
      then (caNextCACertificate (netCARotation network), caEncryptedNextCAKey (netCARotation network))
      else (netCACertificate network, netEncryptedCAKey network))"

definition networkCARotationRequired :: "Network \<Rightarrow> Node \<Rightarrow> bool" where
  "networkCARotationRequired network node =
     (caPhase (netCARotation network) = CARotationPhaseRotating \<and>
      nodeCertificateAuthoritySHA256 node \<noteq> caTargetCACertificateSHA256 (netCARotation network))"

definition caRotationNodeConverged :: "Network \<Rightarrow> Node \<Rightarrow> bool" where
  "caRotationNodeConverged network node =
     (let r = netCARotation network in
      if nodeStatus node \<noteq> ''active'' then True
      else if caPhase r = CARotationPhasePrepared then nodeAppliedConfigRevision node \<ge> caStageConfigRevision r
      else if caPhase r = CARotationPhaseRotating then
        nodeCertificateAuthoritySHA256 node = caTargetCACertificateSHA256 r \<and>
        nodeAppliedCertificateGeneration node \<ge> nodeCertificateGeneration node \<and>
        nodeReportedCertificateFingerprint node = nodeCertificateFingerprint node \<and>
        nodeAppliedConfigRevision node \<ge> caStageConfigRevision r
      else if caPhase r = CARotationPhaseFinalizing \<or> caPhase r = CARotationPhaseAborting then
        nodeAppliedConfigRevision node \<ge> caStageConfigRevision r
      else True)"

section \<open>Recovery replays\<close>

definition replay_network :: "AgentRecoveryToken \<Rightarrow> string option" where
  "replay_network r = map_option (\<lambda>(bundle, receipt). ebNetworkID bundle) (recResult r)"

definition networkRecoveryReplayCount :: "State \<Rightarrow> string \<Rightarrow> time \<Rightarrow> nat" where
  "networkRecoveryReplayCount state ident at =
     length (filter (\<lambda>r. at < recExpiresAt r \<and> replay_network r = Some ident) (AgentRecoveries state))"

definition pruneExpiredNetworkRecoveryReplays :: "State \<Rightarrow> string \<Rightarrow> time \<Rightarrow> State result" where
  "pruneExpiredNetworkRecoveryReplays state ident at =
     (if list_ex (\<lambda>r. replay_network r = Some ident \<and> at < recExpiresAt r) (AgentRecoveries state) then Inl ErrConflict
      else Inr (state\<lparr>AgentRecoveries := filter (\<lambda>r. replay_network r \<noteq> Some ident) (AgentRecoveries state)\<rparr>))"

section \<open>The document\<close>

definition optionalTime :: "time \<Rightarrow> time option" where
  "optionalTime v = (if v = 0 then None else Some v)"

record CARotationNodeStatus =
  csNodeID :: string
  csName :: string
  csStatus :: string
  csCertificateAuthoritySHA256 :: string
  csCertificateGeneration :: int
  csAppliedCertificateGeneration :: int
  csAppliedConfigRevision :: int
  csConverged :: bool

record NetworkCARotationDocument =
  cdNetworkID :: string
  cdPhase :: string
  cdCurrentTrustBundleSHA256 :: string
  cdPreviousTrustBundleSHA256 :: string
  cdActiveCACertificateSHA256 :: string
  cdTargetCACertificateSHA256 :: string
  cdStageConfigRevision :: int
  cdConfigRevision :: int
  cdConfigUpdatedAt :: time
  cdStartedAt :: "time option"
  cdStageStartedAt :: "time option"
  cdActiveNodes :: nat
  cdConvergedNodes :: nat
  cdPendingRecoveryReplays :: nat
  cdAvailableActions :: "string list"
  cdNodes :: "CARotationNodeStatus list"

definition network_active_nodes :: "State \<Rightarrow> Network \<Rightarrow> Node list" where
  "network_active_nodes state network =
     filter (\<lambda>n. nodeNetworkID n = netID network \<and> nodeStatus n = ''active'') (Nodes state)"

definition all_converged :: "State \<Rightarrow> Network \<Rightarrow> bool" where
  "all_converged state network = list_all (caRotationNodeConverged network) (network_active_nodes state network)"

definition ca_rotation_actions :: "State \<Rightarrow> Network \<Rightarrow> time \<Rightarrow> string list" where
  "ca_rotation_actions state network at =
     (let phase = caPhase (netCARotation network); pending = networkRecoveryReplayCount state (netID network) at in
      if phase = [] then
        if roPhase (netFirewallRollout network) = [] \<and> routeTransferTerminal (netRouteTransfer network) \<and>
           routeProfileEditTerminal (netRouteProfileEdit network) then [''prepare''] else []
      else if phase = CARotationPhasePrepared then
        (if all_converged state network then [''activate''] else []) @ (if pending = 0 then [''abort''] else [])
      else if phase = CARotationPhaseRotating then
        if all_converged state network \<and> pending = 0 then [''finalize''] else []
      else if phase = CARotationPhaseFinalizing \<or> phase = CARotationPhaseAborting then
        if all_converged state network then [''complete''] else []
      else [])"

definition networkCARotationDocument :: "sha256 \<Rightarrow> State \<Rightarrow> Network \<Rightarrow> time \<Rightarrow> NetworkCARotationDocument" where
  "networkCARotationDocument sha state network at =
     (let r = netCARotation network; active = network_active_nodes state network in
      \<lparr>cdNetworkID = netID network, cdPhase = stableCARotationPhase (caPhase r),
       cdCurrentTrustBundleSHA256 = ConfigDigest sha (networkTrustBundle network),
       cdPreviousTrustBundleSHA256 = caPreviousTrustBundleSHA256 r,
       cdActiveCACertificateSHA256 = ConfigDigest sha (netCACertificate network),
       cdTargetCACertificateSHA256 = caTargetCACertificateSHA256 r, cdStageConfigRevision = caStageConfigRevision r,
       cdConfigRevision = netConfigRevision network, cdConfigUpdatedAt = netConfigUpdatedAt network,
       cdStartedAt = optionalTime (caStartedAt r), cdStageStartedAt = optionalTime (caStageStartedAt r),
       cdActiveNodes = length active, cdConvergedNodes = length (filter (caRotationNodeConverged network) active),
       cdPendingRecoveryReplays = networkRecoveryReplayCount state (netID network) at,
       cdAvailableActions = ca_rotation_actions state network at,
       cdNodes = map (\<lambda>n. \<lparr>csNodeID = nodeID n, csName = nodeName n, csStatus = nodeStatus n,
         csCertificateAuthoritySHA256 = nodeCertificateAuthoritySHA256 n, csCertificateGeneration = nodeCertificateGeneration n,
         csAppliedCertificateGeneration = nodeAppliedCertificateGeneration n,
         csAppliedConfigRevision = nodeAppliedConfigRevision n, csConverged = caRotationNodeConverged network n\<rparr>) active\<rparr>)"

section \<open>The transitions\<close>

record UpdateNetworkCARotationInput =
  ucaAction :: string
  ucaExpectedConfigRevision :: int

text \<open>The switch of the handler: the changed network, the audit action and the extra audit details.\<close>

definition ca_rotation_switch ::
  "sha256 \<Rightarrow> time \<Rightarrow> string \<Rightarrow> string \<times> string \<Rightarrow> int \<Rightarrow> bool \<Rightarrow> Network \<Rightarrow>
    (Network \<times> string \<times> (string \<times> Detail) list) result" where
  "ca_rotation_switch sha now action generated nextRevision converged network =
     (let r = netCARotation network; phase = caPhase r in
      if action = ''prepare'' then
        if phase \<noteq> [] \<or> roPhase (netFirewallRollout network) \<noteq> [] \<or> fst generated = [] \<or> snd generated = [] then Inl ErrConflict
        else Inr (network\<lparr>netCARotation := \<lparr>caPhase = CARotationPhasePrepared, caNextCACertificate = fst generated,
               caEncryptedNextCAKey = snd generated, caPreviousTrustBundleSHA256 = ConfigDigest sha (netCACertificate network),
               caTargetCACertificateSHA256 = ConfigDigest sha (fst generated), caStartedAt = now, caStageStartedAt = now,
               caStageConfigRevision = nextRevision\<rparr>\<rparr>,
             ''network.ca_rotation_prepared'', [(''target_ca_sha256'', DStr (ConfigDigest sha (fst generated)))])
      else if action = ''activate'' then
        if phase \<noteq> CARotationPhasePrepared \<or> \<not> converged then Inl ErrConflict
        else Inr (network\<lparr>netCARotation := r\<lparr>caPhase := CARotationPhaseRotating, caStageStartedAt := now,
                                              caStageConfigRevision := nextRevision\<rparr>\<rparr>,
             ''network.ca_rotation_activated'', [])
      else if action = ''finalize'' then
        if phase \<noteq> CARotationPhaseRotating \<or> \<not> converged then Inl ErrConflict
        else Inr (network\<lparr>netCACertificate := caNextCACertificate r, netEncryptedCAKey := caEncryptedNextCAKey r,
               netCARotation := r\<lparr>caPhase := CARotationPhaseFinalizing, caNextCACertificate := [], caEncryptedNextCAKey := [],
                 caPreviousTrustBundleSHA256 := ConfigDigest sha (networkTrustBundle network), caStageStartedAt := now,
                 caStageConfigRevision := nextRevision\<rparr>\<rparr>,
             ''network.ca_rotation_finalized'', [])
      else if action = ''abort'' then
        if phase \<noteq> CARotationPhasePrepared then Inl ErrConflict
        else Inr (network\<lparr>netCARotation := zero_ca_rotation\<lparr>caPhase := CARotationPhaseAborting,
               caPreviousTrustBundleSHA256 := ConfigDigest sha (networkTrustBundle network),
               caTargetCACertificateSHA256 := caTargetCACertificateSHA256 r, caStartedAt := caStartedAt r,
               caStageStartedAt := now, caStageConfigRevision := nextRevision\<rparr>\<rparr>,
             ''network.ca_rotation_aborted'', [])
      else
        if phase \<noteq> CARotationPhaseFinalizing \<and> phase \<noteq> CARotationPhaseAborting \<or> \<not> converged then Inl ErrConflict
        else Inr (network\<lparr>netCARotation := zero_ca_rotation\<rparr>, ''network.ca_rotation_completed'',
             [(''outcome'', DStr (if phase = CARotationPhaseFinalizing then ''finalized'' else ''aborted''))]))"

definition changes_trust :: "string \<Rightarrow> bool" where
  "changes_trust action = (action = ''prepare'' \<or> action = ''finalize'' \<or> action = ''abort'')"

definition ca_rotation_schema :: "State \<Rightarrow> bool" where
  "ca_rotation_schema state =
     (ControlStateVersionCARotation \<le> Version state \<and> Version state \<le> ControlStateVersionFirewallScopes)"

text \<open>The first transaction of \<^verbatim>\<open>prepare\<close> and the generation of the replacement authority.\<close>

definition ca_rotation_generate ::
  "(Network \<Rightarrow> (string \<times> string) result) \<Rightarrow> string \<Rightarrow> UpdateNetworkCARotationInput \<Rightarrow> State \<Rightarrow> (string \<times> string) result" where
  "ca_rotation_generate generate ident input viewed =
     (if ucaAction input \<noteq> ''prepare'' then Inr ([], [])
      else case findNetwork viewed ident of
        None \<Rightarrow> Inl ErrNotFound
      | Some network \<Rightarrow>
          guard_result (ca_rotation_schema viewed \<and> caPhase (netCARotation network) = [] \<and>
              roPhase (netFirewallRollout network) = [] \<and> routeTransferTerminal (netRouteTransfer network) \<and>
              routeProfileEditTerminal (netRouteProfileEdit network) \<and>
              netConfigRevision network = ucaExpectedConfigRevision input) ErrConflict
            (generate network))"

definition updateNetworkCARotation ::
  "sha256 \<Rightarrow> (Network \<Rightarrow> (string \<times> string) result) \<Rightarrow> State \<Rightarrow> string \<Rightarrow> time \<Rightarrow> Actor option \<Rightarrow> string \<Rightarrow>
    UpdateNetworkCARotationInput \<Rightarrow> State \<Rightarrow> (NetworkCARotationDocument \<times> State) result" where
  "updateNetworkCARotation sha generate viewed eid now actor ident input state =
     guard_result (validPersistedID ident \<and> 1 \<le> ucaExpectedConfigRevision input) ErrInvalid
    (guard_result (ucaAction input \<in> {''prepare'', ''activate'', ''finalize'', ''abort'', ''complete''}) ErrInvalid
    (bind_result (ca_rotation_generate generate ident input viewed) (\<lambda>generated.
     guard_result (now \<noteq> 0) ErrInternal
    (guard_result (ca_rotation_schema state) ErrConflict
    (case find_network_idx state ident of
       None \<Rightarrow> Inl ErrNotFound
     | Some i \<Rightarrow>
         (let network = Networks state ! i in
          guard_result (netConfigRevision network = ucaExpectedConfigRevision input) ErrConflict
         (bind_result (nextConfigRevision (netConfigRevision network) True) (\<lambda>nextRevision.
          bind_result (ca_rotation_switch sha now (ucaAction input) generated nextRevision (all_converged state network) network)
            (\<lambda>(network1, action, extra).
          bind_result (if changes_trust (ucaAction input) then pruneExpiredNetworkRecoveryReplays state (netID network) now
                       else Inr state) (\<lambda>state1.
          bind_result (newOptionalAttributedAudit eid now action ''network'' (netID network)
              (Some ([(''previous_config_revision'', DInt (netConfigRevision network)),
                      (''config_revision'', DInt nextRevision)] @ extra)) actor) (\<lambda>event.
          let network' = network1\<lparr>netConfigRevision := nextRevision, netConfigUpdatedAt := now\<rparr>;
              state' = add_audit (set_network state1 i network') event
          in Inr (networkCARotationDocument sha state' network' now, state'))))))))))))"

section \<open>The handler as a revisioned handler\<close>

lemma prune_ok:
  "pruneExpiredNetworkRecoveryReplays s ident at = Inr s' \<longleftrightarrow>
     (\<forall>r \<in> set (AgentRecoveries s). replay_network r = Some ident \<longrightarrow> recExpiresAt r \<le> at) \<and>
     s' = s\<lparr>AgentRecoveries := filter (\<lambda>r. replay_network r \<noteq> Some ident) (AgentRecoveries s)\<rparr>"
  by (auto simp: pruneExpiredNetworkRecoveryReplays_def list_ex_iff not_less)

lemma state_recoveries_id [simp]: "s\<lparr>AgentRecoveries := AgentRecoveries s\<rparr> = s"
  by simp

text \<open>Everything a successful call did, in one place.\<close>

lemma updateNetworkCARotation_ok:
  assumes "updateNetworkCARotation sha generate viewed eid now actor ident input s = Inr (d, s')"
  obtains i generated nr net1 act extra recs ev where
    "find_network_idx s ident = Some i" "netConfigRevision (Networks s ! i) = ucaExpectedConfigRevision input"
    "nextConfigRevision (netConfigRevision (Networks s ! i)) True = Inr nr"
    "ca_rotation_switch sha now (ucaAction input) generated nr (all_converged s (Networks s ! i)) (Networks s ! i) =
       Inr (net1, act, extra)"
    "set recs \<subseteq> set (AgentRecoveries s)"
    "s' = add_audit (set_network (s\<lparr>AgentRecoveries := recs\<rparr>) i (net1\<lparr>netConfigRevision := nr, netConfigUpdatedAt := now\<rparr>)) ev"
proof -
  from assms obtain i generated nr net1 act extra s1 ev where
    *: "find_network_idx s ident = Some i" "netConfigRevision (Networks s ! i) = ucaExpectedConfigRevision input"
    "nextConfigRevision (netConfigRevision (Networks s ! i)) True = Inr nr"
    "ca_rotation_switch sha now (ucaAction input) generated nr (all_converged s (Networks s ! i)) (Networks s ! i) =
       Inr (net1, act, extra)"
    and s1: "(if changes_trust (ucaAction input) then pruneExpiredNetworkRecoveryReplays s (netID (Networks s ! i)) now
       else Inr s) = Inr s1"
    and s': "s' = add_audit (set_network s1 i (net1\<lparr>netConfigRevision := nr, netConfigUpdatedAt := now\<rparr>)) ev"
    by (auto simp: updateNetworkCARotation_def Let_def split: option.splits)
  from s1 obtain recs where "s1 = s\<lparr>AgentRecoveries := recs\<rparr>" "set recs \<subseteq> set (AgentRecoveries s)"
    by (auto simp: prune_ok split: if_splits) (metis state_recoveries_id subset_refl)
  with * s' show thesis using that by blast
qed

lemma ca_rotation_switch_ID:
  "ca_rotation_switch sha now action generated nr conv n = Inr (n', act, extra) \<Longrightarrow> netID n' = netID n"
  by (auto simp: ca_rotation_switch_def Let_def split: if_splits)

interpretation ca_rotation: revisioned_handler
  "\<lambda>ident input now s. updateNetworkCARotation sha generate viewed eid now actor ident input s" "\<lambda>ident. ident"
  ucaExpectedConfigRevision
  for sha generate viewed eid actor
proof
  fix ident input now s d s'
  assume "updateNetworkCARotation sha generate viewed eid now actor ident input s = Inr (d, s')"
  then show "s' = s \<or> network_step ident (ucaExpectedConfigRevision input) now s s'"
    by (rule updateNetworkCARotation_ok)
       (auto intro!: network_step_commitI(2) dest: ca_rotation_switch_ID)
qed

section \<open>The trust invariant\<close>

text \<open>
  The certificate of every active node was signed by the network's authority or, while the rotation is
  in its rotating phase, by the replacement authority; and the replacement is there and the recorded target
  digest is its digest.
\<close>

definition rotation_ok :: "sha256 \<Rightarrow> Network \<Rightarrow> bool" where
  "rotation_ok sha network =
     (caPhase (netCARotation network) = CARotationPhasePrepared \<or> caPhase (netCARotation network) = CARotationPhaseRotating \<longrightarrow>
      caTargetCACertificateSHA256 (netCARotation network) = ConfigDigest sha (caNextCACertificate (netCARotation network)) \<and>
      caNextCACertificate (netCARotation network) \<noteq> [])"

definition authority_ok :: "sha256 \<Rightarrow> Network \<Rightarrow> Node \<Rightarrow> bool" where
  "authority_ok sha network node =
     (nodeStatus node = ''active'' \<and> nodeNetworkID node = netID network \<longrightarrow>
      nodeCertificateAuthoritySHA256 node = ConfigDigest sha (netCACertificate network) \<or>
      caPhase (netCARotation network) = CARotationPhaseRotating \<and>
      nodeCertificateAuthoritySHA256 node = ConfigDigest sha (caNextCACertificate (netCARotation network)))"

definition trust_inv :: "sha256 \<Rightarrow> State \<Rightarrow> bool" where
  "trust_inv sha s =
     (\<forall>network \<in> set (Networks s). rotation_ok sha network \<and> (\<forall>node \<in> set (Nodes s). authority_ok sha network node))"

text \<open>The authorities a node of the network trusts.\<close>

definition trusted_authorities :: "Network \<Rightarrow> string set" where
  "trusted_authorities network =
     (if caPhase (netCARotation network) = CARotationPhasePrepared \<or> caPhase (netCARotation network) = CARotationPhaseRotating
      then {netCACertificate network, caNextCACertificate (netCARotation network)} else {netCACertificate network})"

text \<open>A certificate is in a bundle when the bundle has it as a run of whole lines.\<close>

definition in_bundle :: "string \<Rightarrow> string \<Rightarrow> bool" where
  "in_bundle c bundle \<longleftrightarrow>
     (\<exists>before after. bundle = before @ c @ after \<and> (before = [] \<or> last before = CHR 0x0A) \<and>
        (after = [] \<or> hd after = CHR 0x0A \<or> c \<noteq> [] \<and> last c = CHR 0x0A))"

lemma in_bundle_self: "in_bundle c c"
  unfolding in_bundle_def by (intro exI [of _ "[]"]) simp

lemma in_concatenated:
  "in_bundle a (concatenateCAs a b)" "b \<noteq> [] \<Longrightarrow> in_bundle b (concatenateCAs a b)"
proof -
  show "in_bundle a (concatenateCAs a b)"
    unfolding in_bundle_def concatenateCAs_def by (rule exI [of _ "[]"]) auto
  show "in_bundle b (concatenateCAs a b)" if "b \<noteq> []"
    unfolding in_bundle_def concatenateCAs_def using that
    by (intro exI [of _ "if a \<noteq> [] \<and> last a = CHR 0x0A then a else a @ [CHR 0x0A]"] exI [of _ "[]"]) auto
qed

text \<open>The bundle a node receives holds every authority it has to trust.\<close>

lemma trusted_in_bundle:
  "rotation_ok sha network \<Longrightarrow> c \<in> trusted_authorities network \<Longrightarrow> in_bundle c (networkTrustBundle network)"
  by (auto simp: rotation_ok_def trusted_authorities_def networkTrustBundle_def in_concatenated in_bundle_self split: if_splits)

lemma trust_inv_trusted:
  assumes "trust_inv sha s" "network \<in> set (Networks s)" "node \<in> set (Nodes s)"
    and "nodeStatus node = ''active''" "nodeNetworkID node = netID network"
  shows "\<exists>c. nodeCertificateAuthoritySHA256 node = ConfigDigest sha c \<and> in_bundle c (networkTrustBundle network)"
proof -
  have "\<exists>c \<in> trusted_authorities network. nodeCertificateAuthoritySHA256 node = ConfigDigest sha c"
    using assms by (fastforce simp: trust_inv_def authority_ok_def trusted_authorities_def)
  moreover have "rotation_ok sha network" using assms(1,2) by (simp add: trust_inv_def)
  ultimately show ?thesis using trusted_in_bundle by blast
qed

lemma switch_trust:
  assumes "ca_rotation_switch sha now action generated nr (all_converged s n) n = Inr (n', act, extra)"
    and "rotation_ok sha n" "\<forall>node \<in> set (Nodes s). authority_ok sha n node"
  shows "rotation_ok sha n' \<and> (\<forall>node \<in> set (Nodes s). authority_ok sha n' node)"
proof -
  have conv: "nodeCertificateAuthoritySHA256 node = caTargetCACertificateSHA256 (netCARotation n)"
    if "all_converged s n" "caPhase (netCARotation n) = CARotationPhaseRotating" "node \<in> set (Nodes s)"
      "nodeStatus node = ''active''" "nodeNetworkID node = netID n" for node
    using that by (auto simp: all_converged_def network_active_nodes_def list_all_iff caRotationNodeConverged_def Let_def)
  show ?thesis
    using assms conv
    by (auto simp: ca_rotation_switch_def Let_def rotation_ok_def authority_ok_def zero_ca_rotation_def split: if_splits)
qed

lemma rotation_ok_revision [simp]:
  "rotation_ok sha (n\<lparr>netConfigRevision := r, netConfigUpdatedAt := t\<rparr>) = rotation_ok sha n"
  "authority_ok sha (n\<lparr>netConfigRevision := r, netConfigUpdatedAt := t\<rparr>) node = authority_ok sha n node"
  by (simp_all add: rotation_ok_def authority_ok_def)

lemma trust_inv_update:
  assumes "trust_inv sha s" "rotation_ok sha n" "\<forall>node \<in> set (Nodes s). authority_ok sha n node"
    and "Networks s' = (Networks s)[i := n]" "Nodes s' = Nodes s"
  shows "trust_inv sha s'"
  using assms unfolding trust_inv_def by (auto dest!: set_update_subset_insert [THEN subsetD])

lemma updateNetworkCARotation_trust:
  assumes "updateNetworkCARotation sha generate viewed eid now actor ident input s = Inr (d, s')" "trust_inv sha s"
  shows "trust_inv sha s'"
  using assms(1)
proof (rule updateNetworkCARotation_ok)
  fix i generated nr net1 act extra recs ev
  assume i: "find_network_idx s ident = Some i"
    and sw: "ca_rotation_switch sha now (ucaAction input) generated nr (all_converged s (Networks s ! i)) (Networks s ! i) =
       Inr (net1, act, extra)"
    and s': "s' = add_audit (set_network (s\<lparr>AgentRecoveries := recs\<rparr>) i
       (net1\<lparr>netConfigRevision := nr, netConfigUpdatedAt := now\<rparr>)) ev"
  have "Networks s ! i \<in> set (Networks s)" using find_network_idx_lt [OF i] by simp
  then have "rotation_ok sha net1 \<and> (\<forall>node \<in> set (Nodes s). authority_ok sha net1 node)"
    using assms(2) switch_trust [OF sw] by (simp add: trust_inv_def)
  then show ?thesis
    using trust_inv_update [OF assms(2), of "net1\<lparr>netConfigRevision := nr, netConfigUpdatedAt := now\<rparr>" s' i] s' by simp
qed

section \<open>The abstract machine\<close>

text \<open>
  What the rotation promises, without records and revisions: which authorities the network trusts and
  which one signs.
\<close>

datatype rotation_phase = Stable | Prepared | Rotating | Finalizing | Aborting

record rotation_view =
  vPhase :: rotation_phase
  vTrusted :: "string set"
  vSigner :: string

inductive rotation_step :: "rotation_view \<Rightarrow> rotation_view \<Rightarrow> bool" where
  prepare: "rotation_step \<lparr>vPhase = Stable, vTrusted = {c}, vSigner = c\<rparr> \<lparr>vPhase = Prepared, vTrusted = {c, n}, vSigner = c\<rparr>"
| activate: "rotation_step \<lparr>vPhase = Prepared, vTrusted = {c, n}, vSigner = c\<rparr> \<lparr>vPhase = Rotating, vTrusted = {c, n}, vSigner = n\<rparr>"
| finalize: "rotation_step \<lparr>vPhase = Rotating, vTrusted = {c, n}, vSigner = n\<rparr> \<lparr>vPhase = Finalizing, vTrusted = {n}, vSigner = n\<rparr>"
| abort: "rotation_step \<lparr>vPhase = Prepared, vTrusted = {c, n}, vSigner = c\<rparr> \<lparr>vPhase = Aborting, vTrusted = {c}, vSigner = c\<rparr>"
| complete_finalized: "rotation_step \<lparr>vPhase = Finalizing, vTrusted = {c}, vSigner = c\<rparr> \<lparr>vPhase = Stable, vTrusted = {c}, vSigner = c\<rparr>"
| complete_aborted: "rotation_step \<lparr>vPhase = Aborting, vTrusted = {c}, vSigner = c\<rparr> \<lparr>vPhase = Stable, vTrusted = {c}, vSigner = c\<rparr>"

inductive_cases rotation_step_from_rotating: "rotation_step \<lparr>vPhase = Rotating, vTrusted = T, vSigner = c\<rparr> v"

definition phase_of :: "string \<Rightarrow> rotation_phase" where
  "phase_of p = (if p = CARotationPhasePrepared then Prepared else if p = CARotationPhaseRotating then Rotating
     else if p = CARotationPhaseFinalizing then Finalizing else if p = CARotationPhaseAborting then Aborting else Stable)"

definition rotation_abs :: "Network \<Rightarrow> rotation_view" where
  "rotation_abs network = \<lparr>vPhase = phase_of (caPhase (netCARotation network)), vTrusted = trusted_authorities network,
     vSigner = fst (networkSigningAuthority network)\<rparr>"

text \<open>An authority signs only after it has been trusted, and a signer stays trusted.\<close>

lemma rotation_step_safe:
  assumes "rotation_step v v'" "vSigner v \<in> vTrusted v"
  shows "vSigner v' \<in> vTrusted v'" "vSigner v' \<in> vTrusted v" "vSigner v \<in> vTrusted v' \<or> vPhase v = Rotating"
  using assms by (auto elim!: rotation_step.cases)

lemma rotation_step_shared:
  "rotation_step v v' \<Longrightarrow> vTrusted v \<inter> vTrusted v' \<noteq> {}"
  by (auto elim!: rotation_step.cases)

lemma switch_refines:
  assumes "ca_rotation_switch sha now action generated nr conv n = Inr (n', act, extra)"
  shows "rotation_step (rotation_abs n) (rotation_abs (n'\<lparr>netConfigRevision := r, netConfigUpdatedAt := t\<rparr>))"
proof -
  note defs = ca_rotation_switch_def Let_def rotation_abs_def phase_of_def trusted_authorities_def
    networkSigningAuthority_def zero_ca_rotation_def
  consider "action = ''prepare''" | "action = ''activate''" | "action = ''finalize''" | "action = ''abort''"
    | "action \<noteq> ''prepare'' \<and> action \<noteq> ''activate'' \<and> action \<noteq> ''finalize'' \<and> action \<noteq> ''abort''"
    by blast
  then show ?thesis
  proof cases
    case 1
    with assms show ?thesis by (auto simp: defs split: if_splits intro: rotation_step.prepare)
  next
    case 2
    with assms show ?thesis by (auto simp: defs split: if_splits intro: rotation_step.activate)
  next
    case 3
    with assms show ?thesis by (auto simp: defs split: if_splits intro: rotation_step.finalize)
  next
    case 4
    with assms show ?thesis by (auto simp: defs split: if_splits intro: rotation_step.abort)
  next
    case 5
    with assms show ?thesis
      by (auto simp: defs split: if_splits intro: rotation_step.complete_finalized rotation_step.complete_aborted)
  qed
qed

definition demo_generate :: "Network \<Rightarrow> (string \<times> string) result" where
  "demo_generate network = Inr (''ca-two'', ''sealed-key'')"

definition demo_prepare :: "(NetworkCARotationDocument \<times> State) result" where
  "demo_prepare = updateNetworkCARotation demo_sha demo_generate demo_state ''event'' 90 None ''net''
     \<lparr>ucaAction = ''prepare'', ucaExpectedConfigRevision = 7\<rparr> demo_state"

lemma demo_prepare_ok: "is_ok demo_prepare"
  by code_simp

lemma demo_trust: "trust_inv demo_sha demo_state"
  by code_simp

section \<open>Properties\<close>

text \<open>C7. Every successful call of the rotation handler is a step of the abstract rotation machine on the
  network it names: the authority that signs afterwards was trusted before the call and is trusted after
  it, and the trust bundles before and after the call have an authority in common.\<close>

theorem ca_rotation_refines:
  assumes run: "updateNetworkCARotation sha generate viewed eid now actor ident input s = Inr (d, s')"
    and idx: "find_network_idx s ident = Some i"
  shows "rotation_step (rotation_abs (Networks s ! i)) (rotation_abs (Networks s' ! i)) \<and>
    fst (networkSigningAuthority (Networks s' ! i)) \<in>
      trusted_authorities (Networks s ! i) \<inter> trusted_authorities (Networks s' ! i)"
  using run
proof (rule updateNetworkCARotation_ok)
  fix j generated nr net1 act extra recs ev
  assume j: "find_network_idx s ident = Some j"
    and sw: "ca_rotation_switch sha now (ucaAction input) generated nr (all_converged s (Networks s ! j)) (Networks s ! j) =
       Inr (net1, act, extra)"
    and s': "s' = add_audit (set_network (s\<lparr>AgentRecoveries := recs\<rparr>) j
       (net1\<lparr>netConfigRevision := nr, netConfigUpdatedAt := now\<rparr>)) ev"
  have ij: "j = i" using j idx by simp
  have n': "Networks s' ! i = net1\<lparr>netConfigRevision := nr, netConfigUpdatedAt := now\<rparr>"
    using s' ij find_network_idx_lt [OF idx] by simp
  have step: "rotation_step (rotation_abs (Networks s ! i)) (rotation_abs (Networks s' ! i))"
    unfolding n' using switch_refines [OF sw] ij by simp
  have "vSigner (rotation_abs (Networks s ! i)) \<in> vTrusted (rotation_abs (Networks s ! i))"
    by (simp add: rotation_abs_def networkSigningAuthority_def trusted_authorities_def)
  from rotation_step_safe [OF step this] step show ?thesis by (simp add: rotation_abs_def)
qed

theorem ca_rotation_refines_witness:
  "\<exists>d s'. demo_prepare = Inr (d, s') \<and> rotation_step (rotation_abs demo_network) (rotation_abs (Networks s' ! 0))"
proof -
  obtain d s' where run: "demo_prepare = Inr (d, s')" using demo_prepare_ok by (auto simp: is_ok_iff)
  have "find_network_idx demo_state ''net'' = Some 0" by code_simp
  from ca_rotation_refines [OF run [unfolded demo_prepare_def] this] run show ?thesis by auto
qed

text \<open>C8. A rotation never strands a node.  If the certificate of every active node is signed by the authority of its
  network (or, in the rotating phase, by the replacement), the same holds after every successful call of the
  handler, whichever action it performs; and then the bundle \<^verbatim>\<open>networkTrustBundle\<close> that is handed to the nodes of a
  network contains, as a run of whole lines, the authority that signed the certificate of each of them, and
  the one that signs the next certificates.\<close>

theorem ca_rotation_keeps_trust:
  assumes "updateNetworkCARotation sha generate viewed eid now actor ident input s = Inr (d, s')" "trust_inv sha s"
  shows "trust_inv sha s' \<and>
    (\<forall>network \<in> set (Networks s'). in_bundle (fst (networkSigningAuthority network)) (networkTrustBundle network) \<and>
      (\<forall>node \<in> set (Nodes s'). nodeStatus node = ''active'' \<and> nodeNetworkID node = netID network \<longrightarrow>
        (\<exists>c. nodeCertificateAuthoritySHA256 node = ConfigDigest sha c \<and> in_bundle c (networkTrustBundle network))))"
proof -
  have inv: "trust_inv sha s'" by (rule updateNetworkCARotation_trust [OF assms])
  have "fst (networkSigningAuthority network) \<in> trusted_authorities network" for network
    by (simp add: networkSigningAuthority_def trusted_authorities_def)
  moreover have "rotation_ok sha network" if "network \<in> set (Networks s')" for network using inv that by (simp add: trust_inv_def)
  ultimately show ?thesis using inv trust_inv_trusted trusted_in_bundle by blast
qed

theorem ca_rotation_keeps_trust_witness:
  "\<exists>d s'. demo_prepare = Inr (d, s') \<and> trust_inv demo_sha demo_state \<and> trust_inv demo_sha s' \<and>
     (\<forall>network \<in> set (Networks s'). in_bundle (fst (networkSigningAuthority network)) (networkTrustBundle network))"
proof -
  obtain d s' where run: "demo_prepare = Inr (d, s')" using demo_prepare_ok by (auto simp: is_ok_iff)
  from ca_rotation_keeps_trust [OF run [unfolded demo_prepare_def] demo_trust] run demo_trust show ?thesis by blast
qed

end
