(* ===== verification/Mesh_Credential.thy ===== *)
theory Mesh_Credential
  imports Mesh_Sample
begin

text \<open>
  Agent credentials (\<^verbatim>\<open>internal/control/service.go\<close>): a node authenticates with the current bearer
  token or, for an hour after a rotation, with the previous one; only hashes are stored.  The theory holds
  the matching of a presented hash, the lookup of the agent it names, the tests that keep a hash from being
  used twice, the bounded retry that draws fresh bearers, and the rotation of a credential.
\<close>

section \<open>Matching\<close>

definition live_slot :: "time option \<Rightarrow> string \<Rightarrow> string \<Rightarrow> time \<Rightarrow> bool" where
  "live_slot expires stored hash now =
     ((case expires of None \<Rightarrow> False | Some t \<Rightarrow> now < t) \<and> TokenHashEqual stored hash)"

text \<open>The pair is (matched, current).\<close>

definition agentCredentialMatch :: "Node \<Rightarrow> string \<Rightarrow> time \<Rightarrow> bool \<times> bool" where
  "agentCredentialMatch node hash now =
     (if live_slot (nodeAgentCredentialExpiresAt node) (nodeAgentTokenHash node) hash now then (True, True)
      else if live_slot (nodePreviousAgentTokenExpiresAt node) (nodePreviousAgentTokenHash node) hash now then (True, False)
      else (False, False))"

definition agent_matches :: "string \<Rightarrow> time \<Rightarrow> Node \<Rightarrow> bool" where
  "agent_matches hash now node = (nodeStatus node = ''active'' \<and> fst (agentCredentialMatch node hash now))"

text \<open>Two matches are an error, not a choice.\<close>

definition findAgent :: "State \<Rightarrow> string \<Rightarrow> time \<Rightarrow> Node option" where
  "findAgent state hash now =
     (case filter (agent_matches hash now) (Nodes state) of [node] \<Rightarrow> Some node | _ \<Rightarrow> None)"

definition preflightAgentCredential :: "string \<Rightarrow> time \<Rightarrow> State \<Rightarrow> Node result" where
  "preflightAgentCredential hash at state =
     (case findAgent state hash at of None \<Rightarrow> Inl ErrUnauthorized | Some node \<Rightarrow> Inr node)"

section \<open>Hashes in use\<close>

definition strictCredentialHashInUse :: "State \<Rightarrow> string \<Rightarrow> bool" where
  "strictCredentialHashInUse state hash =
     (list_ex (\<lambda>n. TokenHashEqual (nodeAgentTokenHash n) hash \<or> TokenHashEqual (nodePreviousAgentTokenHash n) hash) (Nodes state) \<or>
      list_ex (\<lambda>e. TokenHashEqual (enrTokenHash e) hash) (Enrollments state) \<or>
      list_ex (\<lambda>r. TokenHashEqual (recTokenHash r) hash \<or>
        (case recResult r of None \<Rightarrow> False | Some (bundle, receipt) \<Rightarrow> TokenHashEqual (rrNewAgentTokenHash receipt) hash))
        (AgentRecoveries state))"

definition credentialHashInUse :: "State \<Rightarrow> string \<Rightarrow> string \<Rightarrow> string \<Rightarrow> time \<Rightarrow> bool" where
  "credentialHashInUse state hash allowedNodeID allowedSlot now =
     list_ex (\<lambda>n. nodeStatus n = ''active'' \<and>
       (live_slot (nodeAgentCredentialExpiresAt n) (nodeAgentTokenHash n) hash now \<and>
          (nodeID n \<noteq> allowedNodeID \<or> allowedSlot \<noteq> ''current'') \<or>
        live_slot (nodePreviousAgentTokenExpiresAt n) (nodePreviousAgentTokenHash n) hash now)) (Nodes state)"

definition enrollmentHashInUse :: "State \<Rightarrow> string \<Rightarrow> time \<Rightarrow> bool" where
  "enrollmentHashInUse state hash now =
     list_ex (\<lambda>e. now < enrExpiresAt e \<and> TokenHashEqual (enrTokenHash e) hash) (Enrollments state)"

definition bearerHashInUse :: "State \<Rightarrow> string \<Rightarrow> time \<Rightarrow> bool" where
  "bearerHashInUse state hash now =
     (credentialHashInUse state hash [] [] now \<or> enrollmentHashInUse state hash now \<or>
      list_ex (\<lambda>r. now < recExpiresAt r \<and> TokenHashEqual (recTokenHash r) hash) (AgentRecoveries state))"

text \<open>The loop of \<^verbatim>\<open>uniqueBearer\<close> and its two siblings: \<open>draws\<close> is what the generator returns, in order.\<close>

fun unique_bearer :: "sha256 \<Rightarrow> State \<Rightarrow> nat \<Rightarrow> string result list \<Rightarrow> string result" where
  "unique_bearer sha state 0 draws = Inl ErrInternal"
| "unique_bearer sha state (Suc k) [] = Inl ErrInternal"
| "unique_bearer sha state (Suc k) (draw # draws) =
     (case draw of
        Inl e \<Rightarrow> Inl e
      | Inr token \<Rightarrow>
          if \<not> ValidBearerToken token then Inl ErrInternal
          else if strictCredentialHashInUse state (HashToken sha token) then unique_bearer sha state k draws
          else Inr token)"

definition uniqueBearer :: "sha256 \<Rightarrow> State \<Rightarrow> string result list \<Rightarrow> string result" where
  "uniqueBearer sha state draws = unique_bearer sha state 16 draws"

fun unique_record_id :: "State \<Rightarrow> nat \<Rightarrow> string result list \<Rightarrow> string result" where
  "unique_record_id state 0 draws = Inl ErrInternal"
| "unique_record_id state (Suc k) [] = Inl ErrInternal"
| "unique_record_id state (Suc k) (draw # draws) =
     (case draw of
        Inl e \<Rightarrow> Inl e
      | Inr ident \<Rightarrow>
          if ident \<in> enrID ` set (Enrollments state) \<or> ident \<in> recID ` set (AgentRecoveries state)
          then unique_record_id state k draws else Inr ident)"

definition uniqueEnrollmentID :: "State \<Rightarrow> string result list \<Rightarrow> string result" where
  "uniqueEnrollmentID state draws = unique_record_id state 16 draws"

definition uniqueAgentRecoveryID :: "State \<Rightarrow> string result list \<Rightarrow> string result" where
  "uniqueAgentRecoveryID state draws = unique_record_id state 16 draws"

section \<open>Rotation of a credential\<close>

record CredentialRotation =
  crGeneration :: int
  crExpiresAt :: time

definition valueOrZero :: "time option \<Rightarrow> time" where
  "valueOrZero v = (case v of None \<Rightarrow> 0 | Some t \<Rightarrow> t)"

definition live_credential :: "Node \<Rightarrow> time \<Rightarrow> bool" where
  "live_credential node now =
     (1 \<le> nodeAgentCredentialGeneration node \<and>
      (case nodeAgentCredentialExpiresAt node of None \<Rightarrow> False | Some t \<Rightarrow> now < t))"

definition current_rotation :: "Node \<Rightarrow> CredentialRotation" where
  "current_rotation node =
     \<lparr>crGeneration = nodeAgentCredentialGeneration node, crExpiresAt = valueOrZero (nodeAgentCredentialExpiresAt node)\<rparr>"

definition rotate_credential :: "string \<Rightarrow> time \<Rightarrow> Node \<Rightarrow> Node" where
  "rotate_credential newHash now node =
     node\<lparr>nodePreviousAgentTokenHash := nodeAgentTokenHash node, nodePreviousAgentTokenExpiresAt := Some (now + hour),
          nodeAgentTokenHash := newHash, nodeAgentCredentialExpiresAt := Some (now + 90 * 24 * hour),
          nodeAgentCredentialGeneration := nodeAgentCredentialGeneration node + 1,
          nodeAgentCredentialLastUsedAt := Some now\<rparr>"

definition RotateAgentCredential ::
  "sha256 \<Rightarrow> State \<Rightarrow> string \<Rightarrow> time \<Rightarrow> string \<Rightarrow> string \<Rightarrow> State \<Rightarrow> (CredentialRotation \<times> State) result" where
  "RotateAgentCredential sha viewed eid now token newTokenHash state =
     (let token = TrimSpace token; newHash = TrimSpace newTokenHash; tokenHash = HashToken sha token in
      guard_result (ValidBearerToken token \<and> ValidTokenHash newHash) ErrUnauthorized
     (bind_result (preflightAgentCredential tokenHash now viewed) (\<lambda>_.
      case find_idx (agent_matches tokenHash now) (Nodes state) of
        None \<Rightarrow> Inl ErrUnauthorized
      | Some i \<Rightarrow>
          (let node = Nodes state ! i in
           if \<not> snd (agentCredentialMatch node tokenHash now) then
             if nodeAgentTokenHash node = newHash then
               guard_result (live_credential node now) ErrInternal (Inr (current_rotation node, state))
             else Inl ErrUnauthorized
           else if nodeAgentTokenHash node = newHash then
             guard_result (live_credential node now) ErrInternal (Inr (current_rotation node, state))
           else if strictCredentialHashInUse state newHash then Inl ErrConflict
           else if nodeAgentCredentialGeneration node < 1 \<or> nodeAgentCredentialGeneration node = MaxInt64 then Inl ErrConflict
           else (let node' = rotate_credential newHash now node in
             Inr (\<lparr>crGeneration = nodeAgentCredentialGeneration node', crExpiresAt = now + 90 * 24 * hour\<rparr>,
                  add_audit (set_node state i node')
                    (newAudit eid now ''node.credential_rotated'' ''node'' (nodeID node)
                      (Some [(''generation'', DInt (nodeAgentCredentialGeneration node'))]))))))))"

section \<open>The hash invariant\<close>

text \<open>
  Every stored hash is well formed and no hash is stored in two places: what the validation of the state
  graph requires of every state the store accepts.
\<close>

definition node_hashes :: "Node \<Rightarrow> string list" where
  "node_hashes n = filter (\<lambda>h. h \<noteq> []) [nodeAgentTokenHash n, nodePreviousAgentTokenHash n]"

definition credential_hashes :: "State \<Rightarrow> string list" where
  "credential_hashes s = concat (map node_hashes (Nodes s)) @ map enrTokenHash (Enrollments s) @ map recTokenHash (AgentRecoveries s)"

definition credential_inv :: "State \<Rightarrow> bool" where
  "credential_inv s = (distinct (credential_hashes s) \<and> list_all ValidTokenHash (credential_hashes s))"

lemma DecodeString_Nil [simp]: "DecodeString [] = Some []"
  by (simp add: DecodeString_def)

lemma TokenHashEqual_Nil [simp]: "\<not> TokenHashEqual [] h"
  by (simp add: TokenHashEqual_def split: option.splits)

lemma TokenHashEqual_refl: "ValidTokenHash h \<Longrightarrow> TokenHashEqual h h"
  by (simp add: TokenHashEqual_valid)

lemma TokenHashEqual_same:
  assumes "ValidTokenHash a" "ValidTokenHash b" "TokenHashEqual a h" "TokenHashEqual b h"
  shows "a = b"
proof -
  have "TokenHashEqual a b"
    using assms(3,4) by (auto simp: TokenHashEqual_def split: option.splits)
  with assms(1,2) show ?thesis by (simp add: TokenHashEqual_valid)
qed

lemma node_hashes_set: "set (node_hashes n) = {nodeAgentTokenHash n, nodePreviousAgentTokenHash n} - {[]}"
  by (auto simp: node_hashes_def)

lemma credential_hashes_set:
  "set (credential_hashes s) =
     \<Union> (set ` node_hashes ` set (Nodes s)) \<union> enrTokenHash ` set (Enrollments s) \<union> recTokenHash ` set (AgentRecoveries s)"
  by (simp add: credential_hashes_def image_image Un_assoc)

lemma agent_matches_iff:
  "agent_matches h now n \<longleftrightarrow> nodeStatus n = ''active'' \<and>
     (live_slot (nodeAgentCredentialExpiresAt n) (nodeAgentTokenHash n) h now \<or>
      live_slot (nodePreviousAgentTokenExpiresAt n) (nodePreviousAgentTokenHash n) h now)"
  by (simp add: agent_matches_def agentCredentialMatch_def)

lemma agent_matches_hash:
  assumes "agent_matches h now n"
  obtains a where "a \<in> set (node_hashes n)" "TokenHashEqual a h"
proof -
  from assms have "TokenHashEqual (nodeAgentTokenHash n) h \<or> TokenHashEqual (nodePreviousAgentTokenHash n) h"
    by (auto simp: agent_matches_iff live_slot_def)
  then show thesis
  proof
    assume "TokenHashEqual (nodeAgentTokenHash n) h"
    then show thesis by (intro that [of "nodeAgentTokenHash n"]) (auto simp: node_hashes_set)
  next
    assume "TokenHashEqual (nodePreviousAgentTokenHash n) h"
    then show thesis by (intro that [of "nodePreviousAgentTokenHash n"]) (auto simp: node_hashes_set)
  qed
qed

lemma credential_inv_valid:
  assumes "credential_inv s" "n \<in> set (Nodes s)" "a \<in> set (node_hashes n)"
  shows "ValidTokenHash a"
proof -
  have "a \<in> set (credential_hashes s)" using assms(2,3) by (auto simp: credential_hashes_set)
  with assms(1) show ?thesis by (simp add: credential_inv_def list_all_iff)
qed

text \<open>The place of one node's hashes among all of them.\<close>

lemma credential_hashes_split:
  assumes "i < length (Nodes s)"
  obtains A B where "credential_hashes s = A @ node_hashes (Nodes s ! i) @ B"
    and "\<And>m. credential_hashes (set_node s i m) = A @ node_hashes m @ B"
proof
  let ?A = "concat (map node_hashes (take i (Nodes s)))"
  let ?B = "concat (map node_hashes (drop (Suc i) (Nodes s))) @ map enrTokenHash (Enrollments s) @ map recTokenHash (AgentRecoveries s)"
  have "concat (map node_hashes (Nodes s)) = concat (map node_hashes (take i (Nodes s) @ Nodes s ! i # drop (Suc i) (Nodes s)))"
    using assms by (simp add: id_take_nth_drop [symmetric])
  then show "credential_hashes s = ?A @ node_hashes (Nodes s ! i) @ ?B"
    by (simp add: credential_hashes_def)
  show "credential_hashes (set_node s i m) = ?A @ node_hashes m @ ?B" for m
    using assms by (simp add: credential_hashes_def upd_conv_take_nth_drop)
qed

lemma credential_inv_nodes:
  assumes "credential_inv s" "i < length (Nodes s)" "j < length (Nodes s)"
    and "a \<in> set (node_hashes (Nodes s ! i))" "a \<in> set (node_hashes (Nodes s ! j))"
  shows "i = j"
proof (rule ccontr)
  assume "i \<noteq> j"
  from assms(1) have d: "distinct (concat (map node_hashes (Nodes s)))"
    by (simp add: credential_inv_def credential_hashes_def)
  have "\<And>i j. i < j \<Longrightarrow> j < length (Nodes s) \<Longrightarrow> a \<in> set (node_hashes (Nodes s ! i)) \<Longrightarrow> a \<notin> set (node_hashes (Nodes s ! j))"
  proof -
    fix i j assume ij: "i < j" "j < length (Nodes s)" and a: "a \<in> set (node_hashes (Nodes s ! i))"
    have "Nodes s = take j (Nodes s) @ Nodes s ! j # drop (Suc j) (Nodes s)" using ij(2) by (rule id_take_nth_drop)
    with d have "distinct (concat (map node_hashes (take j (Nodes s) @ Nodes s ! j # drop (Suc j) (Nodes s))))" by simp
    moreover have "a \<in> set (concat (map node_hashes (take j (Nodes s))))"
      using a ij in_set_conv_nth [of "Nodes s ! i" "take j (Nodes s)"]
      by (auto intro!: bexI [of _ "Nodes s ! i"] exI [of _ i])
    ultimately show "a \<notin> set (node_hashes (Nodes s ! j))" by auto
  qed
  with assms(2-5) \<open>i \<noteq> j\<close> show False by (metis linorder_neqE_nat)
qed

lemma matching_agent_unique:
  assumes inv: "credential_inv s" and ij: "i < length (Nodes s)" "j < length (Nodes s)"
    and mi: "agent_matches h now (Nodes s ! i)" and mj: "agent_matches h now' (Nodes s ! j)"
  shows "i = j"
proof -
  obtain a where a: "a \<in> set (node_hashes (Nodes s ! i))" "TokenHashEqual a h" using mi by (rule agent_matches_hash)
  obtain b where b: "b \<in> set (node_hashes (Nodes s ! j))" "TokenHashEqual b h" using mj by (rule agent_matches_hash)
  have "ValidTokenHash a" "ValidTokenHash b"
    using credential_inv_valid [OF inv nth_mem] a(1) b(1) ij by blast+
  with a b have "a = b" using TokenHashEqual_same by blast
  with a(1) b(1) credential_inv_nodes [OF inv ij] show ?thesis by blast
qed

lemma filter_unique_idx:
  assumes "i < length xs" "P (xs ! i)" "\<And>j. j < length xs \<Longrightarrow> P (xs ! j) \<Longrightarrow> j = i"
  shows "filter P xs = [xs ! i]"
proof -
  have other: "\<not> P (xs ! j)" if "j < length xs" "j \<noteq> i" for j using assms(3) that by blast
  have "filter P xs = filter P (take i xs @ xs ! i # drop (Suc i) xs)"
    using id_take_nth_drop [OF assms(1)] by simp
  moreover have "filter P (take i xs) = []"
    using assms(1) other by (simp add: filter_empty_conv all_set_conv_all_nth)
  moreover have "filter P (drop (Suc i) xs) = []"
    using assms(1) other by (simp add: filter_empty_conv all_set_conv_all_nth)
  ultimately show ?thesis using assms(2) by simp
qed

lemma findAgent_idx:
  assumes "credential_inv s" "i < length (Nodes s)" "agent_matches h now (Nodes s ! i)"
  shows "findAgent s h now = Some (Nodes s ! i)"
    and "find_idx (agent_matches h now) (Nodes s) = Some i"
proof -
  have u: "\<And>j. j < length (Nodes s) \<Longrightarrow> agent_matches h now (Nodes s ! j) \<Longrightarrow> j = i"
    using matching_agent_unique [OF assms(1)] assms(2,3) by blast
  then have "filter (agent_matches h now) (Nodes s) = [Nodes s ! i]"
    using filter_unique_idx [of i "Nodes s"] assms(2,3) by blast
  then show "findAgent s h now = Some (Nodes s ! i)" by (simp add: findAgent_def)
  have "find_idx (agent_matches h now) (Nodes s) \<noteq> None" using assms(2,3) by (auto simp: find_idx_None)
  then obtain k where "find_idx (agent_matches h now) (Nodes s) = Some k" by blast
  then show "find_idx (agent_matches h now) (Nodes s) = Some i" using u find_idx_lt find_idx_P by metis
qed

lemma findAgent_None_iff:
  "credential_inv s \<Longrightarrow> findAgent s h now = None \<longleftrightarrow> (\<forall>n\<in>set (Nodes s). \<not> agent_matches h now n)"
proof
  assume inv: "credential_inv s" and none: "findAgent s h now = None"
  then show "\<forall>n\<in>set (Nodes s). \<not> agent_matches h now n"
    using findAgent_idx(1) [OF inv] by (fastforce simp: in_set_conv_nth)
next
  assume "\<forall>n\<in>set (Nodes s). \<not> agent_matches h now n"
  then show "findAgent s h now = None" by (simp add: findAgent_def filter_False)
qed

lemma findAgent_Some:
  assumes "findAgent s h now = Some n"
  shows "n \<in> set (Nodes s) \<and> agent_matches h now n"
proof -
  from assms have "filter (agent_matches h now) (Nodes s) = [n]"
    by (auto simp: findAgent_def split: list.splits)
  then have "n \<in> set (filter (agent_matches h now) (Nodes s))" by simp
  then show ?thesis by simp
qed

text \<open>The same without reference to the comparison of encoded hashes.\<close>

definition credential_holder :: "string \<Rightarrow> time \<Rightarrow> Node \<Rightarrow> bool" where
  "credential_holder h now n \<longleftrightarrow> nodeStatus n = ''active'' \<and>
     (nodeAgentTokenHash n = h \<and> (\<exists>t. nodeAgentCredentialExpiresAt n = Some t \<and> now < t) \<or>
      nodePreviousAgentTokenHash n = h \<and> (\<exists>t. nodePreviousAgentTokenExpiresAt n = Some t \<and> now < t))"

lemma holder_matches: "ValidTokenHash h \<Longrightarrow> credential_holder h now n \<Longrightarrow> agent_matches h now n"
  by (auto simp: credential_holder_def agent_matches_iff live_slot_def TokenHashEqual_refl)

lemma matches_holder:
  assumes "credential_inv s" "n \<in> set (Nodes s)" "ValidTokenHash h" "agent_matches h now n"
  shows "credential_holder h now n"
proof -
  have "a = h" if "TokenHashEqual a h" "a \<in> {nodeAgentTokenHash n, nodePreviousAgentTokenHash n}" for a
  proof -
    have "a \<noteq> []" using that(1) by (cases a) simp_all
    then have "a \<in> set (node_hashes n)" using that(2) by (simp add: node_hashes_set)
    from TokenHashEqual_valid [OF credential_inv_valid [OF assms(1,2) this] assms(3)] that(1) show ?thesis by simp
  qed
  with assms(4) show ?thesis
    by (auto simp: agent_matches_iff live_slot_def credential_holder_def split: option.splits)
qed

lemma findAgent_holder:
  assumes "credential_inv s" "ValidTokenHash h"
  shows "findAgent s h now = Some n \<longleftrightarrow> n \<in> set (Nodes s) \<and> credential_holder h now n"
  using findAgent_Some findAgent_idx(1) [OF assms(1)] holder_matches [OF assms(2)] matches_holder [OF assms(1) _ assms(2)]
  by (metis in_set_conv_nth)

lemma findAgent_ambiguous:
  assumes ij: "i < j" "j < length (Nodes s)" and m: "agent_matches h now (Nodes s ! i)" "agent_matches h now (Nodes s ! j)"
  shows "findAgent s h now = None"
proof (rule ccontr)
  assume "findAgent s h now \<noteq> None"
  then obtain n where "filter (agent_matches h now) (Nodes s) = [n]" by (auto simp: findAgent_def split: list.splits)
  then have "card {k. k < length (Nodes s) \<and> agent_matches h now (Nodes s ! k)} = 1"
    using length_filter_conv_card [of "agent_matches h now" "Nodes s"] by simp
  then obtain k where "{k. k < length (Nodes s) \<and> agent_matches h now (Nodes s ! k)} = {k}" by (rule card_1_singletonE)
  moreover have "i \<in> {k. k < length (Nodes s) \<and> agent_matches h now (Nodes s ! k)}" "j \<in> {k. k < length (Nodes s) \<and> agent_matches h now (Nodes s ! k)}"
    using ij m by simp_all
  ultimately have "i = k" "j = k" by blast+
  with ij(1) show False by simp
qed

section \<open>Rotation\<close>

lemma unused_hash:
  assumes "credential_inv s" "ValidTokenHash h" "\<not> strictCredentialHashInUse s h"
  shows "h \<notin> set (credential_hashes s)"
proof
  assume "h \<in> set (credential_hashes s)"
  moreover have "TokenHashEqual h h" using assms(2) by (rule TokenHashEqual_refl)
  ultimately show False
    using assms(3) by (auto simp: credential_hashes_set node_hashes_set strictCredentialHashInUse_def list_ex_iff)
qed

text \<open>A change of the two hashes of one node, where the new current hash is fresh.\<close>

lemma credential_inv_update:
  assumes inv: "credential_inv s" and i: "i < length (Nodes s)"
    and new: "ValidTokenHash h" "h \<notin> set (credential_hashes s)"
    and sub: "node_hashes m = h # ps" "set ps \<subseteq> set (node_hashes (Nodes s ! i))" "distinct ps"
  shows "credential_inv (set_node s i m)"
proof -
  obtain A B where old: "credential_hashes s = A @ node_hashes (Nodes s ! i) @ B"
    and upd: "credential_hashes (set_node s i m) = A @ node_hashes m @ B"
    using credential_hashes_split [OF i] by metis
  from inv have "distinct (A @ node_hashes (Nodes s ! i) @ B)" "list_all ValidTokenHash (A @ node_hashes (Nodes s ! i) @ B)"
    unfolding credential_inv_def old by simp_all
  with new sub old show ?thesis
    unfolding credential_inv_def upd by (auto simp: list_all_iff)
qed

lemma credential_inv_audit [simp]: "credential_inv (add_audit s ev) = credential_inv s"
  by (simp add: credential_inv_def credential_hashes_def)

lemma credential_inv_cong:
  "map node_hashes (Nodes s') = map node_hashes (Nodes s) \<Longrightarrow> Enrollments s' = Enrollments s \<Longrightarrow>
   AgentRecoveries s' = AgentRecoveries s \<Longrightarrow> credential_inv s' = credential_inv s"
  by (simp add: credential_inv_def credential_hashes_def)

lemma RotateAgentCredential_cases:
  assumes "RotateAgentCredential sha viewed eid now token new s = Inr (r, s')"
  obtains (replay) i where "s' = s" "find_idx (agent_matches (HashToken sha (TrimSpace token)) now) (Nodes s) = Some i"
      "nodeAgentTokenHash (Nodes s ! i) = TrimSpace new" "live_credential (Nodes s ! i) now" "r = current_rotation (Nodes s ! i)"
      "ValidTokenHash (TrimSpace new)"
  | (rotated) i ev where "find_idx (agent_matches (HashToken sha (TrimSpace token)) now) (Nodes s) = Some i"
      "snd (agentCredentialMatch (Nodes s ! i) (HashToken sha (TrimSpace token)) now)"
      "\<not> strictCredentialHashInUse s (TrimSpace new)" "ValidTokenHash (TrimSpace new)"
      "1 \<le> nodeAgentCredentialGeneration (Nodes s ! i)"
      "s' = add_audit (set_node s i (rotate_credential (TrimSpace new) now (Nodes s ! i))) ev"
      "r = current_rotation (rotate_credential (TrimSpace new) now (Nodes s ! i))"
proof -
  let ?h = "HashToken sha (TrimSpace token)" and ?new = "TrimSpace new"
  from assms obtain i where i: "find_idx (agent_matches ?h now) (Nodes s) = Some i" and new: "ValidTokenHash ?new"
    by (auto simp: RotateAgentCredential_def Let_def split: option.splits)
  let ?n = "Nodes s ! i"
  note run = assms [unfolded RotateAgentCredential_def Let_def, simplified i, simplified]
  show thesis
  proof (cases "nodeAgentTokenHash ?n = ?new")
    case True
    with run have "s' = s" "live_credential ?n now" "r = current_rotation ?n" by (auto split: if_splits)
    then show thesis by (intro replay [OF _ i True _ _ new])
  next
    case False
    with run obtain ev where "snd (agentCredentialMatch ?n ?h now)" "\<not> strictCredentialHashInUse s ?new"
      "1 \<le> nodeAgentCredentialGeneration ?n" "s' = add_audit (set_node s i (rotate_credential ?new now ?n)) ev"
      "r = \<lparr>crGeneration = nodeAgentCredentialGeneration (rotate_credential ?new now ?n), crExpiresAt = now + 90 * 24 * hour\<rparr>"
      by (auto split: if_splits)
    then show thesis
      by (intro rotated [OF i]) (simp_all add: new current_rotation_def rotate_credential_def valueOrZero_def)
  qed
qed

lemma rotate_credential_simps [simp]:
  "nodeStatus (rotate_credential h now n) = nodeStatus n" "nodeID (rotate_credential h now n) = nodeID n"
  "nodeAgentTokenHash (rotate_credential h now n) = h"
  "nodePreviousAgentTokenHash (rotate_credential h now n) = nodeAgentTokenHash n"
  "nodeAgentCredentialExpiresAt (rotate_credential h now n) = Some (now + 90 * 24 * hour)"
  "nodePreviousAgentTokenExpiresAt (rotate_credential h now n) = Some (now + hour)"
  "nodeAgentCredentialGeneration (rotate_credential h now n) = nodeAgentCredentialGeneration n + 1"
  by (simp_all add: rotate_credential_def)

lemma current_matchD:
  assumes "snd (agentCredentialMatch n h now)"
  shows "TokenHashEqual (nodeAgentTokenHash n) h" "nodeAgentTokenHash n \<noteq> []"
  using assms TokenHashEqual_Nil by (auto simp: agentCredentialMatch_def live_slot_def split: if_splits)

lemma rotation_keeps_inv:
  assumes inv: "credential_inv s" and run: "RotateAgentCredential sha viewed eid now token new s = Inr (r, s')"
  shows "credential_inv s'"
  using run
proof (cases rule: RotateAgentCredential_cases)
  case replay
  with inv show ?thesis by simp
next
  case (rotated i ev)
  have i: "i < length (Nodes s)" using rotated(1) by (rule find_idx_lt)
  have "nodeAgentTokenHash (Nodes s ! i) \<noteq> []" using rotated(2) by (rule current_matchD)
  with rotated(4) have "node_hashes (rotate_credential (TrimSpace new) now (Nodes s ! i)) = [TrimSpace new, nodeAgentTokenHash (Nodes s ! i)]"
    by (simp add: node_hashes_def ValidTokenHash_nonempty)
  then have "credential_inv (set_node s i (rotate_credential (TrimSpace new) now (Nodes s ! i)))"
    using credential_inv_update [OF inv i rotated(4) unused_hash [OF inv rotated(4,3)]] \<open>nodeAgentTokenHash (Nodes s ! i) \<noteq> []\<close>
    by (simp add: node_hashes_set)
  with rotated(6) show ?thesis by simp
qed

text \<open>Who a hash names after a change of one node, when that node carries it and no other does.\<close>

lemma findAgent_slot:
  assumes inv: "credential_inv s" and i: "i < length (Nodes s)" and a: "a \<in> set (node_hashes (Nodes s ! i))" "TokenHashEqual a h"
  shows "findAgent s h t = (if agent_matches h t (Nodes s ! i) then Some (Nodes s ! i) else None)"
proof (cases "agent_matches h t (Nodes s ! i)")
  case True
  with findAgent_idx(1) [OF inv i] show ?thesis by simp
next
  case False
  have "\<not> agent_matches h t (Nodes s ! j)" if j: "j < length (Nodes s)" for j
  proof
    assume m: "agent_matches h t (Nodes s ! j)"
    then obtain b where b: "b \<in> set (node_hashes (Nodes s ! j))" "TokenHashEqual b h" by (rule agent_matches_hash)
    with a have "a = b"
      using TokenHashEqual_same credential_inv_valid [OF inv nth_mem] i j by metis
    with credential_inv_nodes [OF inv i j] a(1) b(1) m False show False by blast
  qed
  with False show ?thesis using findAgent_None_iff [OF inv] by (simp add: in_set_conv_nth) (metis in_set_conv_nth)
qed

lemma rotated_slots:
  assumes "nodeStatus n = ''active''" "TokenHashEqual (nodeAgentTokenHash n) h" "\<not> TokenHashEqual new h"
    and "ValidTokenHash new" "\<not> TokenHashEqual (nodeAgentTokenHash n) new"
  shows "agent_matches new t (rotate_credential new now n) \<longleftrightarrow> t < now + 90 * 24 * hour"
    and "agent_matches h t (rotate_credential new now n) \<longleftrightarrow> t < now + hour"
  using assms by (auto simp: agent_matches_iff live_slot_def TokenHashEqual_refl)

section \<open>A sample with credentials\<close>

text \<open>Bearers of one repeated byte.\<close>

definition bearer :: "nat \<Rightarrow> string" where
  "bearer b = EncodeToString (replicate 32 b)"

lemma DecodeString_bearer: "b < 256 \<Longrightarrow> DecodeString (bearer b) = Some (replicate 32 b)"
  by (simp add: bearer_def DecodeString_EncodeToString)

lemma bearer_valid [simp]: "b < 256 \<Longrightarrow> ValidTokenHash (bearer b)" "b < 256 \<Longrightarrow> ValidBearerToken (bearer b)"
  by (simp_all add: ValidTokenHash_def ValidBearerToken_def DecodeString_bearer) (simp_all add: bearer_def)

lemma bearer_equal [simp]: "a < 256 \<Longrightarrow> b < 256 \<Longrightarrow> TokenHashEqual (bearer a) (bearer b) \<longleftrightarrow> a = b"
  by (simp add: TokenHashEqual_def DecodeString_bearer)

lemma bearer_inject [simp]: "a < 256 \<Longrightarrow> b < 256 \<Longrightarrow> bearer a = bearer b \<longleftrightarrow> a = b"
  by (metis TokenHashEqual_refl bearer_equal bearer_valid(1))

lemma bearer_not_Nil [simp]: "b < 256 \<Longrightarrow> bearer b \<noteq> []"
  by (rule ValidTokenHash_nonempty) simp

lemma bearer_samples: "TrimSpace (bearer 0) = bearer 0" "TrimSpace (bearer 200) = bearer 200"
  "HashToken wide_sha (bearer 0) = bearer 65" "HashToken wide_sha (bearer 200) = bearer 121"
  by code_simp+

definition agent_state :: State where
  "agent_state = demo_state\<lparr>Nodes := [demo_gateway,
     demo_member\<lparr>nodeAgentTokenHash := bearer 65, nodeAgentCredentialExpiresAt := Some (hour * 100),
       nodeAgentCredentialGeneration := 3\<rparr>, demo_revoked]\<rparr>"

lemma agent_state_inv: "credential_inv agent_state"
  by (simp add: agent_state_def credential_inv_def credential_hashes_def node_hashes_def demo_defs)

definition agent_rotation :: "(CredentialRotation \<times> State) result" where
  "agent_rotation = RotateAgentCredential wide_sha agent_state ''ev'' hour (bearer 0) (bearer 200) agent_state"

lemma agent_rotation_eval: "\<exists>s'. agent_rotation = Inr (\<lparr>crGeneration = 4, crExpiresAt = hour + 90 * 24 * hour\<rparr>, s') \<and> s' \<noteq> agent_state"
  by (simp add: agent_rotation_def RotateAgentCredential_def Let_def bearer_samples guard_result_def preflightAgentCredential_def
      findAgent_def agent_matches_def agentCredentialMatch_def live_slot_def agent_state_def
      strictCredentialHashInUse_def rotate_credential_def set_node_def add_audit_def demo_defs)

section \<open>Properties\<close>

text \<open>C24. Who a bearer is.  In a state whose stored hashes are well formed and pairwise distinct, the hash of a
  bearer names a node exactly if the node is active and has that very hash either as its current credential or
  as the previous one, in a slot that has not expired.  In any state at all, a hash that two nodes hold in
  this way names nobody.\<close>
theorem findAgent_exact:
  assumes h: "ValidTokenHash h"
  shows "(credential_inv s \<longrightarrow>
      (findAgent s h now = Some n \<longleftrightarrow> n \<in> set (Nodes s) \<and> nodeStatus n = ''active'' \<and>
         (nodeAgentTokenHash n = h \<and> (\<exists>t. nodeAgentCredentialExpiresAt n = Some t \<and> now < t) \<or>
          nodePreviousAgentTokenHash n = h \<and> (\<exists>t. nodePreviousAgentTokenExpiresAt n = Some t \<and> now < t)))) \<and>
    (\<forall>i j. i < j \<and> j < length (Nodes s) \<and>
       (\<forall>m \<in> {Nodes s ! i, Nodes s ! j}. nodeStatus m = ''active'' \<and>
         (nodeAgentTokenHash m = h \<and> (\<exists>t. nodeAgentCredentialExpiresAt m = Some t \<and> now < t) \<or>
          nodePreviousAgentTokenHash m = h \<and> (\<exists>t. nodePreviousAgentTokenExpiresAt m = Some t \<and> now < t))) \<longrightarrow>
       findAgent s h now = None)"
  using findAgent_holder [OF _ h, of s now n] findAgent_ambiguous [OF _ _ holder_matches [OF h] holder_matches [OF h], of _ _ s now]
  by (auto simp: credential_holder_def)

theorem findAgent_exact_witness:
  "credential_inv agent_state \<and> findAgent agent_state (bearer 65) hour = Some (Nodes agent_state ! 1) \<and>
   findAgent agent_state (bearer 65) (hour * 100) = None"
proof (intro conjI)
  show "credential_inv agent_state" by (rule agent_state_inv)
  have m: "Nodes agent_state ! 1 \<in> set (Nodes agent_state)" "nodeStatus (Nodes agent_state ! 1) = ''active''"
    "nodeAgentTokenHash (Nodes agent_state ! 1) = bearer 65" "nodeAgentCredentialExpiresAt (Nodes agent_state ! 1) = Some (hour * 100)"
    by (simp_all add: agent_state_def demo_defs)
  note exact = findAgent_exact [of "bearer 65" agent_state, THEN conjunct1, rule_format, OF _ agent_state_inv]
  show "findAgent agent_state (bearer 65) hour = Some (Nodes agent_state ! 1)" using exact [of hour] m by simp
  have "findAgent agent_state (bearer 65) (hour * 100) \<noteq> Some n" for n
    using exact [of "hour * 100" n] by (auto simp: agent_state_def demo_defs)
  then show "findAgent agent_state (bearer 65) (hour * 100) = None" by (cases "findAgent agent_state (bearer 65) (hour * 100)") simp_all
qed

text \<open>C14. A rotation that changes the state keeps the stored hashes well formed and pairwise distinct and
  hands the identity of one node over: the new credential names that node for ninety days, the
  old one names it for one more hour and no agent afterwards, its generation advances by one, and
  every other node is as it was.\<close>
theorem rotation_hands_over:
  assumes inv: "credential_inv s" and run: "RotateAgentCredential sha viewed eid now token new s = Inr (r, s')"
    and changed: "s' \<noteq> s"
  shows "credential_inv s' \<and> (\<exists>i<length (Nodes s). \<exists>n'. findAgent s (HashToken sha (TrimSpace token)) now = Some (Nodes s ! i) \<and>
    Nodes s' = (Nodes s)[i := n'] \<and> nodeID n' = nodeID (Nodes s ! i) \<and>
    nodeAgentCredentialGeneration n' = nodeAgentCredentialGeneration (Nodes s ! i) + 1 \<and> crGeneration r = nodeAgentCredentialGeneration n' \<and>
    (\<forall>t. findAgent s' (TrimSpace new) t = (if t < now + 90 * 24 * hour then Some n' else None) \<and>
         findAgent s' (HashToken sha (TrimSpace token)) t = (if t < now + hour then Some n' else None)))"
  using run
proof (cases rule: RotateAgentCredential_cases)
  case replay
  with changed show ?thesis by simp
next
  case (rotated i ev)
  let ?h = "HashToken sha (TrimSpace token)" and ?new = "TrimSpace new" and ?n = "Nodes s ! i"
  let ?n' = "rotate_credential ?new now ?n"
  have i: "i < length (Nodes s)" and m: "agent_matches ?h now ?n" using rotated(1) by (rule find_idx_lt, rule find_idx_P)
  note old = current_matchD [OF rotated(2)]
  have inv': "credential_inv s'" using inv run by (rule rotation_keeps_inv)
  have i': "i < length (Nodes s')" and n': "Nodes s' ! i = ?n'" using i rotated(6) by simp_all
  have slots: "?new \<in> set (node_hashes (Nodes s' ! i))" "nodeAgentTokenHash ?n \<in> set (node_hashes (Nodes s' ! i))"
    unfolding n' using old rotated(4) by (auto simp: node_hashes_set ValidTokenHash_nonempty)
  have valid: "ValidTokenHash (nodeAgentTokenHash ?n)"
    using old by (intro credential_inv_valid [OF inv nth_mem [OF i]]) (simp add: node_hashes_set)
  have "\<not> TokenHashEqual (nodeAgentTokenHash ?n) ?new"
    using rotated(3) i by (auto simp: strictCredentialHashInUse_def list_ex_iff)
  moreover from this have "\<not> TokenHashEqual ?new ?h"
    using old valid rotated(4) TokenHashEqual_same TokenHashEqual_refl by metis
  ultimately have agents: "agent_matches ?new t ?n' \<longleftrightarrow> t < now + 90 * 24 * hour" "agent_matches ?h t ?n' \<longleftrightarrow> t < now + hour" for t
    using rotated_slots [of ?n ?h ?new] m old rotated(4) by (simp_all add: agent_matches_iff)
  have "findAgent s' ?new t = (if t < now + 90 * 24 * hour then Some ?n' else None)"
      "findAgent s' ?h t = (if t < now + hour then Some ?n' else None)" for t
    using findAgent_slot [OF inv' i' slots(1) TokenHashEqual_refl [OF rotated(4)]] findAgent_slot [OF inv' i' slots(2) old(1)]
    by (simp_all add: n' agents)
  then show ?thesis
    using inv' i findAgent_idx(1) [OF inv i m] rotated(6,7)
    by (intro conjI exI [of _ i] exI [of _ ?n']) (simp_all add: current_rotation_def)
qed

theorem rotation_hands_over_witness:
  "\<exists>r s'. agent_rotation = Inr (r, s') \<and> credential_inv s' \<and> (\<exists>i<length (Nodes agent_state). \<exists>n'.
    findAgent s' (bearer 200) (2 * hour) = Some n' \<and> findAgent s' (bearer 65) (2 * hour) = None \<and>
    nodeID n' = nodeID (Nodes agent_state ! i))"
proof -
  obtain s' where run: "agent_rotation = Inr (\<lparr>crGeneration = 4, crExpiresAt = hour + 90 * 24 * hour\<rparr>, s')" and s': "s' \<noteq> agent_state"
    using agent_rotation_eval by blast
  from rotation_hands_over [OF agent_state_inv run [unfolded agent_rotation_def] s'] bearer_samples
  obtain i n' where inv: "credential_inv s'" and "i < length (Nodes agent_state)" "nodeID n' = nodeID (Nodes agent_state ! i)"
    and "\<forall>t. findAgent s' (bearer 200) t = (if t < hour + 90 * 24 * hour then Some n' else None) \<and>
        findAgent s' (bearer 65) t = (if t < hour + hour then Some n' else None)" by auto
  moreover from this have "findAgent s' (bearer 200) (2 * hour) = Some n' \<and> findAgent s' (bearer 65) (2 * hour) = None" by simp
  ultimately show ?thesis using run by blast
qed

text \<open>C33. A rotation whose response was lost can be repeated: while the old credential is still in its hour
  of grace, the same call returns the same generation and expiry and changes nothing.\<close>
theorem rotation_replay:
  assumes inv: "credential_inv s" and run: "RotateAgentCredential sha viewed eid now token new s = Inr (r, s')"
    and changed: "s' \<noteq> s" and later: "now \<le> now'" "now' < now + hour"
  shows "RotateAgentCredential sha s' eid' now' token new s' = Inr (r, s')"
  using run
proof (cases rule: RotateAgentCredential_cases)
  case replay
  with changed show ?thesis by simp
next
  case (rotated i ev)
  let ?h = "HashToken sha (TrimSpace token)" and ?new = "TrimSpace new" and ?n = "Nodes s ! i"
  have i: "i < length (Nodes s')" "Nodes s' ! i = rotate_credential ?new now ?n"
    using find_idx_lt [OF rotated(1)] rotated(6) by simp_all
  have "agent_matches ?h now' (Nodes s' ! i)"
    using later current_matchD(1) [OF rotated(2)] find_idx_P [OF rotated(1)] i(2) by (simp add: agent_matches_iff live_slot_def)
  note agent = findAgent_idx [OF rotation_keeps_inv [OF inv run] i(1) this]
  have "live_credential (rotate_credential ?new now ?n) now'"
    using later rotated(5) by (simp add: live_credential_def)
  moreover have "ValidBearerToken (TrimSpace token)"
    using run by (auto simp: RotateAgentCredential_def Let_def)
  ultimately show ?thesis
    using agent rotated(4,7) i(2)
    by (simp add: RotateAgentCredential_def Let_def preflightAgentCredential_def guard_result_def)
qed

theorem rotation_replay_witness:
  "\<exists>r s'. agent_rotation = Inr (r, s') \<and> s' \<noteq> agent_state \<and>
    RotateAgentCredential wide_sha s' ''ev2'' (hour + 5) (bearer 0) (bearer 200) s' = Inr (r, s')"
proof -
  obtain r s' where run: "agent_rotation = Inr (r, s')" and s': "s' \<noteq> agent_state"
    using agent_rotation_eval by blast
  from rotation_replay [OF agent_state_inv run [unfolded agent_rotation_def] s', of "hour + 5" "''ev2''"]
  have "RotateAgentCredential wide_sha s' ''ev2'' (hour + 5) (bearer 0) (bearer 200) s' = Inr (r, s')" by simp
  with run s' show ?thesis by blast
qed

end
