(* ===== verification/Mesh_FirewallRollout.thy ===== *)
theory Mesh_FirewallRollout
  imports Mesh_Render Mesh_CARotation Mesh_Credential
begin

text \<open>
  Changes of a network's firewall policy: the direct update of \<^verbatim>\<open>service.go\<close> and the canary rollout of
  \<^verbatim>\<open>firewall_rollout.go\<close>, in which a target policy is served to selected nodes only, and every other node
  keeps the active policy until all canaries have proved that they run the exact rendered configuration.
  An operator promotes, pauses, resumes or rolls back; a canary that cannot activate its configuration
  rolls the network back itself.
\<close>

section \<open>Policy documents\<close>

record EffectiveFirewallPolicyDocument =
  efNodeID :: string
  efName :: string
  efIP :: string
  efGroups :: "string list"
  efInbound :: "FirewallRule slice"
  efOutbound :: "FirewallRule slice"
  efRenderedFirewall :: string
  efSHA256 :: string

record FirewallPolicyDocument =
  fpdNetworkID :: string
  fpdMode :: string
  fpdRendererVersion :: int
  fpdInbound :: "FirewallRule slice"
  fpdOutbound :: "FirewallRule slice"
  fpdConfigRevision :: int
  fpdConfigUpdatedAt :: time
  fpdRenderedFirewall :: string
  fpdPolicySHA256 :: string
  fpdEffectiveNodes :: "EffectiveFirewallPolicyDocument list"

definition effective_document :: "sha256 \<Rightarrow> State \<Rightarrow> Network \<Rightarrow> FirewallPolicy \<Rightarrow> Node \<Rightarrow> EffectiveFirewallPolicyDocument" where
  "effective_document sha state network policy node =
     (let effective = effectiveFirewallPolicyForNode state node policy;
          rendered = renderFirewallPolicyForNode effective (certificateRoutedSubnets network node) in
      \<lparr>efNodeID = nodeID node, efName = nodeName node, efIP = nodeIP node, efGroups = nodeGroups node,
       efInbound = fwInbound effective, efOutbound = fwOutbound effective, efRenderedFirewall = rendered,
       efSHA256 = ConfigDigest sha rendered\<rparr>)"

definition effectiveFirewallPolicyDocuments ::
  "sha256 \<Rightarrow> State \<Rightarrow> Network \<Rightarrow> FirewallPolicy \<Rightarrow> EffectiveFirewallPolicyDocument list" where
  "effectiveFirewallPolicyDocuments sha state network policy =
     sort_key (\<lambda>d. (efName d, efNodeID d)) (map (effective_document sha state network policy) (network_active_nodes state network))"

definition policy_rendering :: "FirewallPolicy \<Rightarrow> string" where
  "policy_rendering policy = (if firewallPolicyUsesNodeScopes policy then [] else renderFirewallPolicy policy)"

definition firewallPolicyDocument :: "sha256 \<Rightarrow> State \<Rightarrow> Network \<Rightarrow> FirewallPolicy \<Rightarrow> FirewallPolicyDocument" where
  "firewallPolicyDocument sha state network policy =
     \<lparr>fpdNetworkID = netID network, fpdMode = fwMode policy, fpdRendererVersion = fwRendererVersion policy,
      fpdInbound = fwInbound policy, fpdOutbound = fwOutbound policy, fpdConfigRevision = netConfigRevision network,
      fpdConfigUpdatedAt = netConfigUpdatedAt network, fpdRenderedFirewall = policy_rendering policy,
      fpdPolicySHA256 = firewallPolicySHA256 sha policy,
      fpdEffectiveNodes = effectiveFirewallPolicyDocuments sha state network policy\<rparr>"

definition GetFirewallPolicy :: "sha256 \<Rightarrow> string \<Rightarrow> State \<Rightarrow> FirewallPolicyDocument result" where
  "GetFirewallPolicy sha ident state =
     (case findNetwork state ident of
        None \<Rightarrow> Inl ErrNotFound
      | Some network \<Rightarrow> Inr (firewallPolicyDocument sha state network (netFirewallPolicy network)))"

section \<open>The direct update\<close>

definition dns_stays_open :: "Network \<Rightarrow> FirewallPolicy \<Rightarrow> bool" where
  "dns_stays_open network policy =
     (\<not> dnsEnabled (netDNSSettings network) \<or>
      firewallAllowsNetworkDNS policy (netCIDR network) (dnsListenPort (netDNSSettings network)))"

record FirewallPolicyPreview =
  fppDocument :: FirewallPolicyDocument
  fppWouldChange :: bool
  fppProposedConfigRevision :: int

definition PreviewFirewallPolicy :: "sha256 \<Rightarrow> string \<Rightarrow> FirewallPolicyInput \<Rightarrow> State \<Rightarrow> FirewallPolicyPreview result" where
  "PreviewFirewallPolicy sha ident input state =
     (case findNetwork state ident of
        None \<Rightarrow> Inl ErrNotFound
      | Some network \<Rightarrow>
          bind_result (normalizeFirewallPolicy input (netCIDR network)) (\<lambda>desired.
          bind_result (validateFirewallPolicyReferences state network desired) (\<lambda>_.
          guard_result (dns_stays_open network desired) ErrConflict
         (let changed = (\<not> sameEffectiveFirewallPolicy (netFirewallPolicy network) desired) in
          bind_result (nextConfigRevision (netConfigRevision network) changed) (\<lambda>proposedRevision.
          Inr \<lparr>fppDocument = firewallPolicyDocument sha state network (if changed then desired else netFirewallPolicy network),
               fppWouldChange = changed, fppProposedConfigRevision = proposedRevision\<rparr>)))))"

record UpdateFirewallPolicyInput =
  ufpExpectedConfigRevision :: int
  ufpInbound :: "FirewallRule slice"
  ufpOutbound :: "FirewallRule slice"

definition updateFirewallPolicy ::
  "sha256 \<Rightarrow> string \<Rightarrow> time \<Rightarrow> Actor option \<Rightarrow> string \<Rightarrow> UpdateFirewallPolicyInput \<Rightarrow> State \<Rightarrow>
    (FirewallPolicyDocument \<times> State) result" where
  "updateFirewallPolicy sha eid now actor ident input state =
     guard_result (1 \<le> ufpExpectedConfigRevision input) ErrInvalid
    (case find_network_idx state ident of
       None \<Rightarrow> Inl ErrNotFound
     | Some i \<Rightarrow>
         (let network = Networks state ! i in
          bind_result (normalizeFirewallPolicy \<lparr>inInbound = ufpInbound input, inOutbound = ufpOutbound input\<rparr> (netCIDR network)) (\<lambda>desired.
          bind_result (validateFirewallPolicyReferences state network desired) (\<lambda>_.
          guard_result (\<not> (firewallPolicyUsesNodeScopes desired \<and> Version state < ControlStateVersionFirewallScopes)) ErrConflict
         (guard_result (dns_stays_open network desired) ErrConflict
         (if sameEffectiveFirewallPolicy (netFirewallPolicy network) desired
          then Inr (firewallPolicyDocument sha state network (netFirewallPolicy network), state)
          else
          guard_result (roPhase (netFirewallRollout network) = []) ErrConflict
         (guard_result (\<not> routeTransferActive (netRouteTransfer network)) ErrConflict
         (guard_result (\<not> routeProfileEditActive (netRouteProfileEdit network)) ErrConflict
         (guard_result (ufpExpectedConfigRevision input = netConfigRevision network) ErrConflict
         (bind_result (nextConfigRevision (netConfigRevision network) True) (\<lambda>nextRevision.
          bind_result (newOptionalAttributedAudit eid now ''network.firewall_policy_updated'' ''network'' (netID network)
              (Some [(''old_sha256'', DStr (firewallPolicySHA256 sha (netFirewallPolicy network))),
                     (''new_sha256'', DStr (firewallPolicySHA256 sha desired)),
                     (''inbound_rules'', DInt (int (length (elems (fwInbound desired))))),
                     (''outbound_rules'', DInt (int (length (elems (fwOutbound desired))))),
                     (''config_revision'', DInt nextRevision)]) actor) (\<lambda>event.
          let network' = network\<lparr>netFirewallPolicy := desired, netConfigRevision := nextRevision, netConfigUpdatedAt := now\<rparr>;
              state' = add_audit (set_network state i network') event
          in Inr (firewallPolicyDocument sha state' network' desired, state')))))))))))))"

section \<open>The rollout record\<close>

abbreviation FirewallRolloutPhaseCanary :: string where "FirewallRolloutPhaseCanary \<equiv> ''canary''"
abbreviation FirewallRolloutPhasePaused :: string where "FirewallRolloutPhasePaused \<equiv> ''paused''"
abbreviation (input) maxFirewallRolloutCanaries :: nat where "maxFirewallRolloutCanaries \<equiv> 16"

definition stableFirewallRolloutPhase :: "string \<Rightarrow> string" where
  "stableFirewallRolloutPhase phase = (if phase = [] then ''stable'' else phase)"

definition zeroFirewallPolicy :: "FirewallPolicy \<Rightarrow> bool" where
  "zeroFirewallPolicy policy =
     (fwMode policy = [] \<and> fwRendererVersion policy = 0 \<and> fwInbound policy = None \<and> fwOutbound policy = None)"

definition zeroNetworkFirewallRollout :: "NetworkFirewallRollout \<Rightarrow> bool" where
  "zeroNetworkFirewallRollout rollout =
     (roPhase rollout = [] \<and> zeroFirewallPolicy (roTargetPolicy rollout) \<and> roCanaryNodeIDs rollout = None \<and>
      roStartedAt rollout = 0 \<and> roPausedAt rollout = 0 \<and> roStageConfigRevision rollout = 0)"

definition active_member :: "State \<Rightarrow> Network \<Rightarrow> string \<Rightarrow> bool" where
  "active_member state network ident =
     (case findNode state ident of
        None \<Rightarrow> False
      | Some node \<Rightarrow> nodeNetworkID node = netID network \<and> nodeStatus node = ''active'')"

definition canary_selection_ok :: "State \<Rightarrow> Network \<Rightarrow> string list \<Rightarrow> bool" where
  "canary_selection_ok state network ids =
     (1 \<le> length ids \<and> length ids \<le> maxFirewallRolloutCanaries \<and> sorted ids \<and> list_all validPersistedID ids \<and>
      adjacent_all (\<lambda>a b. a \<noteq> b) ids \<and> list_all (active_member state network) ids)"

definition validateNetworkFirewallRollout :: "State \<Rightarrow> Network \<Rightarrow> unit result" where
  "validateNetworkFirewallRollout state network =
     (let rollout = netFirewallRollout network in
      if roPhase rollout = [] then guard_result (zeroNetworkFirewallRollout rollout) ErrInternal (Inr ())
      else
      guard_result (\<not> (roPhase rollout \<noteq> FirewallRolloutPhaseCanary \<and>
          (Version state < ControlStateVersionFirewallPause \<or> roPhase rollout \<noteq> FirewallRolloutPhasePaused))) ErrInternal
     (guard_result (\<not> (Version state < ControlStateVersionFirewallPause \<and> roPausedAt rollout \<noteq> 0)) ErrInternal
     (guard_result (\<not> (roPhase rollout = FirewallRolloutPhaseCanary \<and> roPausedAt rollout \<noteq> 0 \<or>
                       roPhase rollout = FirewallRolloutPhasePaused \<and> roPausedAt rollout = 0)) ErrInternal
     (guard_result (caPhase (netCARotation network) = []) ErrInternal
     (guard_result (roStartedAt rollout \<noteq> 0 \<and> 1 \<le> roStageConfigRevision rollout \<and>
                    roStageConfigRevision rollout \<le> netConfigRevision network) ErrInternal
     (bind_result (validateStoredFirewallPolicy (roTargetPolicy rollout) (netCIDR network)) (\<lambda>_.
      bind_result (validateFirewallPolicyReferences state network (roTargetPolicy rollout)) (\<lambda>_.
      guard_result (\<not> sameEffectiveFirewallPolicy (netFirewallPolicy network) (roTargetPolicy rollout)) ErrInternal
     (guard_result (dns_stays_open network (roTargetPolicy rollout)) ErrInternal
     (guard_result (canary_selection_ok state network (elems (roCanaryNodeIDs rollout))) ErrInternal (Inr ())))))))))))"

definition firewallRolloutNodeConverged :: "sha256 \<Rightarrow> State \<Rightarrow> Network \<Rightarrow> Node \<Rightarrow> bool" where
  "firewallRolloutNodeConverged sha state network node =
     (if roPhase (netFirewallRollout network) \<noteq> FirewallRolloutPhaseCanary \<or> nodeStatus node \<noteq> ''active'' \<or>
         nodeID node \<notin> set (elems (roCanaryNodeIDs (netFirewallRollout network))) then False
      else nodeAppliedConfigRevision node = netConfigRevision network \<and>
           nodeAppliedConfigSHA256 node = ConfigDigest sha (renderConfig state network node) \<and>
           nodeAppliedCertificateGeneration node = nodeCertificateGeneration node \<and>
           nodeReportedCertificateFingerprint node = nodeCertificateFingerprint node \<and> nodeNebulaRunning node)"

section \<open>The rollout document\<close>

record FirewallRolloutPolicyDocument =
  rpdMode :: string
  rpdRendererVersion :: int
  rpdInbound :: "FirewallRule slice"
  rpdOutbound :: "FirewallRule slice"
  rpdRenderedFirewall :: string
  rpdPolicySHA256 :: string
  rpdEffectiveNodes :: "EffectiveFirewallPolicyDocument list"

definition firewallRolloutPolicyDocument :: "sha256 \<Rightarrow> State \<Rightarrow> Network \<Rightarrow> FirewallPolicy \<Rightarrow> FirewallRolloutPolicyDocument" where
  "firewallRolloutPolicyDocument sha state network policy =
     \<lparr>rpdMode = fwMode policy, rpdRendererVersion = fwRendererVersion policy, rpdInbound = fwInbound policy,
      rpdOutbound = fwOutbound policy, rpdRenderedFirewall = policy_rendering policy,
      rpdPolicySHA256 = firewallPolicySHA256 sha policy,
      rpdEffectiveNodes = effectiveFirewallPolicyDocuments sha state network policy\<rparr>"

record FirewallRolloutNodeStatus =
  rnsNodeID :: string
  rnsName :: string
  rnsIP :: string
  rnsRole :: string
  rnsCanary :: bool
  rnsAppliedConfigRevision :: int
  rnsAppliedConfigSHA256 :: string
  rnsDesiredConfigSHA256 :: string
  rnsCertificateGeneration :: int
  rnsAppliedCertificateGeneration :: int
  rnsNebulaRunning :: bool
  rnsAgentStatus :: string
  rnsConverged :: bool

record FirewallRolloutTransition =
  trAction :: string
  trAt :: time
  trReasonCode :: string
  trNodeID :: string

definition rollout_transition_action :: "string \<Rightarrow> string option" where
  "rollout_transition_action action = map_of
     [(''network.firewall_rollout_started'', ''started''), (''network.firewall_rollout_canary_removed'', ''canary_removed''),
      (''network.firewall_rollout_paused'', ''paused''), (''network.firewall_rollout_resumed'', ''resumed''),
      (''network.firewall_rollout_promoted'', ''promoted''), (''network.firewall_rollout_rolled_back'', ''rolled_back''),
      (''network.firewall_rollout_auto_rolled_back'', ''auto_rolled_back'')] action"

text \<open>\<^verbatim>\<open>value, _ := event.Details[key].(string)\<close>\<close>

definition detail_string :: "details \<Rightarrow> string \<Rightarrow> string" where
  "detail_string ds k = (case map_of (elems ds) k of Some (DStr s) \<Rightarrow> s | _ \<Rightarrow> [])"

definition firewallRolloutLastTransition :: "State \<Rightarrow> string \<Rightarrow> FirewallRolloutTransition option" where
  "firewallRolloutLastTransition state ident =
     (case List.find (\<lambda>ev. evResource ev = ''network'' \<and> evResourceID ev = ident \<and> rollout_transition_action (evAction ev) \<noteq> None)
             (rev (Audit state)) of
        None \<Rightarrow> None
      | Some ev \<Rightarrow> Some
          \<lparr>trAction = the (rollout_transition_action (evAction ev)), trAt = evAt ev,
           trReasonCode = detail_string (evDetails ev) ''reason_code'',
           trNodeID = (let failed = detail_string (evDetails ev) ''failed_node_id'' in
             if failed = [] then detail_string (evDetails ev) ''node_id'' else failed)\<rparr>)"

record NetworkFirewallRolloutDocument =
  frdSchema :: string
  frdNetworkID :: string
  frdPhase :: string
  frdConfigRevision :: int
  frdConfigUpdatedAt :: time
  frdStageConfigRevision :: int
  frdStartedAt :: "time option"
  frdPausedAt :: "time option"
  frdCurrentPolicySHA256 :: string
  frdTargetPolicySHA256 :: string
  frdTargetPolicy :: "FirewallRolloutPolicyDocument option"
  frdActiveNodes :: nat
  frdCanaryNodes :: nat
  frdConvergedCanaries :: nat
  frdAvailableActions :: "string list"
  frdNodes :: "FirewallRolloutNodeStatus list"
  frdLastTransition :: "FirewallRolloutTransition option"
  frdAutomaticRollbackGuards :: "string list"

definition is_canary :: "Network \<Rightarrow> Node \<Rightarrow> bool" where
  "is_canary network node =
     (roPhase (netFirewallRollout network) \<noteq> [] \<and> nodeID node \<in> set (elems (roCanaryNodeIDs (netFirewallRollout network))))"

definition rollout_node_status :: "sha256 \<Rightarrow> State \<Rightarrow> Network \<Rightarrow> Node \<Rightarrow> FirewallRolloutNodeStatus" where
  "rollout_node_status sha state network node =
     \<lparr>rnsNodeID = nodeID node, rnsName = nodeName node, rnsIP = nodeIP node, rnsRole = nodeRole node,
      rnsCanary = is_canary network node, rnsAppliedConfigRevision = nodeAppliedConfigRevision node,
      rnsAppliedConfigSHA256 = nodeAppliedConfigSHA256 node,
      rnsDesiredConfigSHA256 = ConfigDigest sha (renderConfig state network node),
      rnsCertificateGeneration = nodeCertificateGeneration node,
      rnsAppliedCertificateGeneration = nodeAppliedCertificateGeneration node,
      rnsNebulaRunning = nodeNebulaRunning node, rnsAgentStatus = nodeAgentStatus node,
      rnsConverged = (is_canary network node \<and> firewallRolloutNodeConverged sha state network node)\<rparr>"

definition rollout_actions :: "Network \<Rightarrow> nat \<Rightarrow> nat \<Rightarrow> nat \<Rightarrow> string list" where
  "rollout_actions network active canaries converged =
     (if roPhase (netFirewallRollout network) = FirewallRolloutPhaseCanary then
        (if canaries > 0 \<and> converged = canaries then [''promote''] else []) @ [''pause'', ''rollback'']
      else if roPhase (netFirewallRollout network) = FirewallRolloutPhasePaused then [''resume'', ''rollback'']
      else if caPhase (netCARotation network) = [] \<and> \<not> routeTransferActive (netRouteTransfer network) \<and>
              \<not> routeProfileEditActive (netRouteProfileEdit network) \<and> active > 0 then [''start'']
      else [])"

definition networkFirewallRolloutDocument :: "sha256 \<Rightarrow> State \<Rightarrow> Network \<Rightarrow> NetworkFirewallRolloutDocument" where
  "networkFirewallRolloutDocument sha state network =
     (let rollout = netFirewallRollout network;
          staged = (roPhase rollout = FirewallRolloutPhaseCanary \<or> roPhase rollout = FirewallRolloutPhasePaused);
          nodes = map (rollout_node_status sha state network) (network_active_nodes state network);
          canaries = length (filter rnsCanary nodes); converged = length (filter rnsConverged nodes) in
      \<lparr>frdSchema = ''mesh-network-firewall-rollout-v5'', frdNetworkID = netID network, frdPhase = stableFirewallRolloutPhase (roPhase rollout),
       frdConfigRevision = netConfigRevision network, frdConfigUpdatedAt = netConfigUpdatedAt network,
       frdStageConfigRevision = roStageConfigRevision rollout, frdStartedAt = optionalTime (roStartedAt rollout),
       frdPausedAt = optionalTime (roPausedAt rollout),
       frdCurrentPolicySHA256 = firewallPolicySHA256 sha (netFirewallPolicy network),
       frdTargetPolicySHA256 = (if staged then firewallPolicySHA256 sha (roTargetPolicy rollout) else []),
       frdTargetPolicy = (if staged then Some (firewallRolloutPolicyDocument sha state network (roTargetPolicy rollout)) else None),
       frdActiveNodes = length nodes, frdCanaryNodes = canaries, frdConvergedCanaries = converged,
       frdAvailableActions = rollout_actions network (length nodes) canaries converged,
       frdNodes = sort_key (\<lambda>d. (rnsName d, rnsNodeID d)) nodes,
       frdLastTransition = firewallRolloutLastTransition state (netID network),
       frdAutomaticRollbackGuards = [''activation_failed'', ''target_runtime_stopped'']\<rparr>)"

definition NetworkFirewallRollout_document :: "sha256 \<Rightarrow> string \<Rightarrow> State \<Rightarrow> NetworkFirewallRolloutDocument result" where
  "NetworkFirewallRollout_document sha ident state =
     guard_result (validPersistedID ident) ErrInvalid
    (case findNetwork state ident of
       None \<Rightarrow> Inl ErrNotFound
     | Some network \<Rightarrow> Inr (networkFirewallRolloutDocument sha state network))"

section \<open>Operator actions\<close>

record UpdateNetworkFirewallRolloutInput =
  ufrAction :: string
  ufrExpectedConfigRevision :: int
  ufrCanaryNodeIDs :: "string slice"
  ufrInbound :: "FirewallRule slice"
  ufrOutbound :: "FirewallRule slice"

definition canonicalCanaryNodeIDs :: "string slice \<Rightarrow> string list result" where
  "canonicalCanaryNodeIDs input =
     guard_result (1 \<le> length (elems input) \<and> length (elems input) \<le> maxFirewallRolloutCanaries) ErrInvalid
    (guard_result (list_all validPersistedID (elems input)) ErrInvalid
    (let ids = sort (elems input) in
     guard_result (adjacent_all (\<lambda>a b. a \<noteq> b) ids) ErrInvalid (Inr ids)))"

definition rollout_canaries :: "UpdateNetworkFirewallRolloutInput \<Rightarrow> string list result" where
  "rollout_canaries input =
     (if ufrAction input \<noteq> ''start'' then Inr []
      else bind_result (canonicalCanaryNodeIDs (ufrCanaryNodeIDs input)) (\<lambda>ids.
        guard_result (ufrInbound input \<noteq> None \<and> ufrOutbound input \<noteq> None) ErrInvalid (Inr ids)))"

definition rollout_schema :: "State \<Rightarrow> bool" where
  "rollout_schema state =
     (Version state \<in> {ControlStateVersionFirewallPause, ControlStateVersionRouteTransfer, ControlStateVersionRouteProfileEdit,
        ControlStateVersionRoutePolicies, ControlStateVersionNativeDNS, ControlStateVersionFirewallScopes})"

definition canaries_of :: "Network \<Rightarrow> string list" where
  "canaries_of network = elems (roCanaryNodeIDs (netFirewallRollout network))"

definition rollout_start ::
  "sha256 \<Rightarrow> time \<Rightarrow> State \<Rightarrow> Network \<Rightarrow> UpdateNetworkFirewallRolloutInput \<Rightarrow> string list \<Rightarrow> int \<Rightarrow>
    (Network \<times> string \<times> (string \<times> Detail) list) result" where
  "rollout_start sha now state network input ids nextRevision =
     guard_result (caPhase (netCARotation network) = [] \<and> roPhase (netFirewallRollout network) = [] \<and>
         \<not> routeTransferActive (netRouteTransfer network) \<and> \<not> routeProfileEditActive (netRouteProfileEdit network)) ErrConflict
    (bind_result (normalizeFirewallPolicy \<lparr>inInbound = ufrInbound input, inOutbound = ufrOutbound input\<rparr> (netCIDR network)) (\<lambda>target.
     bind_result (validateFirewallPolicyReferences state network target) (\<lambda>_.
     guard_result (\<not> (firewallPolicyUsesNodeScopes target \<and> Version state < ControlStateVersionFirewallScopes)) ErrConflict
    (guard_result (\<not> sameEffectiveFirewallPolicy (netFirewallPolicy network) target) ErrConflict
    (guard_result (dns_stays_open network target) ErrConflict
    (guard_result (list_all (active_member state network) ids) ErrConflict
    (Inr (network\<lparr>netFirewallRollout := \<lparr>roPhase = FirewallRolloutPhaseCanary, roTargetPolicy = target,
            roCanaryNodeIDs = Some ids, roStartedAt = now, roPausedAt = 0, roStageConfigRevision = nextRevision\<rparr>\<rparr>,
          ''network.firewall_rollout_started'',
          [(''old_sha256'', DStr (firewallPolicySHA256 sha (netFirewallPolicy network))),
           (''target_sha256'', DStr (firewallPolicySHA256 sha target)), (''canary_node_ids'', DList (map DStr ids)),
           (''canary_nodes'', DInt (int (length ids))), (''inbound_rules'', DInt (int (length (elems (fwInbound target))))),
           (''outbound_rules'', DInt (int (length (elems (fwOutbound target)))))]))))))))"

definition rollout_promote ::
  "sha256 \<Rightarrow> State \<Rightarrow> Network \<Rightarrow> (Network \<times> string \<times> (string \<times> Detail) list) result" where
  "rollout_promote sha state network =
     guard_result (roPhase (netFirewallRollout network) = FirewallRolloutPhaseCanary) ErrConflict
    (guard_result (list_all (\<lambda>ident. case findNode state ident of
          None \<Rightarrow> False
        | Some node \<Rightarrow> firewallRolloutNodeConverged sha state network node) (canaries_of network)) ErrConflict
    (let target = roTargetPolicy (netFirewallRollout network) in
     Inr (network\<lparr>netFirewallPolicy := target, netFirewallRollout := zero_rollout\<rparr>, ''network.firewall_rollout_promoted'',
       [(''old_sha256'', DStr (firewallPolicySHA256 sha (netFirewallPolicy network))),
        (''new_sha256'', DStr (firewallPolicySHA256 sha target)), (''canary_nodes'', DInt (int (length (canaries_of network))))])))"

definition rollout_pause :: "sha256 \<Rightarrow> time \<Rightarrow> Network \<Rightarrow> (Network \<times> string \<times> (string \<times> Detail) list) result" where
  "rollout_pause sha now network =
     guard_result (roPhase (netFirewallRollout network) = FirewallRolloutPhaseCanary) ErrConflict
    (Inr (network\<lparr>netFirewallRollout := (netFirewallRollout network)\<lparr>roPhase := FirewallRolloutPhasePaused, roPausedAt := now\<rparr>\<rparr>,
       ''network.firewall_rollout_paused'',
       [(''target_sha256'', DStr (firewallPolicySHA256 sha (roTargetPolicy (netFirewallRollout network)))),
        (''retained_sha256'', DStr (firewallPolicySHA256 sha (netFirewallPolicy network))),
        (''canary_nodes'', DInt (int (length (canaries_of network))))]))"

definition rollout_resume :: "sha256 \<Rightarrow> Network \<Rightarrow> int \<Rightarrow> (Network \<times> string \<times> (string \<times> Detail) list) result" where
  "rollout_resume sha network nextRevision =
     guard_result (roPhase (netFirewallRollout network) = FirewallRolloutPhasePaused) ErrConflict
    (Inr (network\<lparr>netFirewallRollout := (netFirewallRollout network)\<lparr>roPhase := FirewallRolloutPhaseCanary, roPausedAt := 0,
            roStageConfigRevision := nextRevision\<rparr>\<rparr>,
       ''network.firewall_rollout_resumed'',
       [(''target_sha256'', DStr (firewallPolicySHA256 sha (roTargetPolicy (netFirewallRollout network)))),
        (''canary_nodes'', DInt (int (length (canaries_of network))))]))"

definition rollout_rollback :: "sha256 \<Rightarrow> Network \<Rightarrow> (Network \<times> string \<times> (string \<times> Detail) list) result" where
  "rollout_rollback sha network =
     guard_result (roPhase (netFirewallRollout network) = FirewallRolloutPhaseCanary \<or>
                   roPhase (netFirewallRollout network) = FirewallRolloutPhasePaused) ErrConflict
    (Inr (network\<lparr>netFirewallRollout := zero_rollout\<rparr>, ''network.firewall_rollout_rolled_back'',
       [(''retained_sha256'', DStr (firewallPolicySHA256 sha (netFirewallPolicy network))),
        (''discarded_sha256'', DStr (firewallPolicySHA256 sha (roTargetPolicy (netFirewallRollout network)))),
        (''canary_nodes'', DInt (int (length (canaries_of network))))]))"

definition rollout_switch ::
  "sha256 \<Rightarrow> time \<Rightarrow> State \<Rightarrow> Network \<Rightarrow> UpdateNetworkFirewallRolloutInput \<Rightarrow> string list \<Rightarrow> int \<Rightarrow>
    (Network \<times> string \<times> (string \<times> Detail) list) result" where
  "rollout_switch sha now state network input ids nextRevision =
     (if ufrAction input = ''start'' then rollout_start sha now state network input ids nextRevision
      else if ufrAction input = ''promote'' then rollout_promote sha state network
      else if ufrAction input = ''pause'' then rollout_pause sha now network
      else if ufrAction input = ''resume'' then rollout_resume sha network nextRevision
      else rollout_rollback sha network)"

definition updateNetworkFirewallRollout ::
  "sha256 \<Rightarrow> string \<Rightarrow> time \<Rightarrow> Actor option \<Rightarrow> string \<Rightarrow> UpdateNetworkFirewallRolloutInput \<Rightarrow> State \<Rightarrow>
    (NetworkFirewallRolloutDocument \<times> State) result" where
  "updateNetworkFirewallRollout sha eid now actor ident input state =
     guard_result (validPersistedID ident \<and> 1 \<le> ufrExpectedConfigRevision input) ErrInvalid
    (guard_result (ufrAction input \<in> {''start'', ''promote'', ''pause'', ''resume'', ''rollback''}) ErrInvalid
    (guard_result (ufrAction input = ''start'' \<or>
        ufrCanaryNodeIDs input = None \<and> ufrInbound input = None \<and> ufrOutbound input = None) ErrInvalid
    (bind_result (rollout_canaries input) (\<lambda>ids.
     guard_result (now \<noteq> 0) ErrInternal
    (guard_result (rollout_schema state) ErrConflict
    (case find_network_idx state ident of
       None \<Rightarrow> Inl ErrNotFound
     | Some i \<Rightarrow>
         (let network = Networks state ! i in
          guard_result (netConfigRevision network = ufrExpectedConfigRevision input) ErrConflict
         (bind_result (nextConfigRevision (netConfigRevision network) True) (\<lambda>nextRevision.
          bind_result (rollout_switch sha now state network input ids nextRevision) (\<lambda>(network1, action, extra).
          bind_result (newOptionalAttributedAudit eid now action ''network'' (netID network)
              (Some ([(''previous_config_revision'', DInt (netConfigRevision network)),
                      (''config_revision'', DInt nextRevision)] @ extra)) actor) (\<lambda>event.
          let network' = network1\<lparr>netConfigRevision := nextRevision, netConfigUpdatedAt := now\<rparr>;
              state' = add_audit (set_network state i network') event
          in Inr (networkFirewallRolloutDocument sha state' network', state'))))))))))))"

section \<open>Rollback by a canary\<close>

text \<open>\<open>i\<close> is the index of the network the code holds a pointer to.\<close>

definition autoRollbackFirewallRollout ::
  "sha256 \<Rightarrow> string \<Rightarrow> State \<Rightarrow> nat \<Rightarrow> Node \<Rightarrow> time \<Rightarrow> string \<Rightarrow> (string \<times> Detail) list \<Rightarrow>
    (NetworkFirewallRolloutDocument \<times> State) result" where
  "autoRollbackFirewallRollout sha eid state i node now reasonCode evidence =
     (let network = Networks state ! i in
      guard_result (roPhase (netFirewallRollout network) = FirewallRolloutPhaseCanary \<and> nodeID node \<in> set (canaries_of network)) ErrConflict
     (bind_result (nextConfigRevision (netConfigRevision network) True) (\<lambda>nextRevision.
      bind_result (newAttributedAudit eid now ''network.firewall_rollout_auto_rolled_back'' ''network'' (netID network)
          (Some ([(''previous_config_revision'', DInt (netConfigRevision network)), (''config_revision'', DInt nextRevision),
             (''failed_node_id'', DStr (nodeID node)), (''reason_code'', DStr reasonCode),
             (''canary_nodes'', DInt (int (length (canaries_of network)))),
             (''retained_sha256'', DStr (firewallPolicySHA256 sha (netFirewallPolicy network))),
             (''discarded_sha256'', DStr (firewallPolicySHA256 sha (roTargetPolicy (netFirewallRollout network))))] @ evidence))
          \<lparr>actorID = nodeID node, actorKind = ''node_agent'', actorSessionID = []\<rparr>) (\<lambda>event.
      let network' = network\<lparr>netFirewallRollout := zero_rollout, netConfigRevision := nextRevision, netConfigUpdatedAt := now\<rparr>;
          state' = add_audit (set_network state i network') event
      in Inr (networkFirewallRolloutDocument sha state' network', state')))))"

record ConfigApplyFailureInput =
  cafAttemptedConfigRevision :: int
  cafAttemptedConfigSHA256 :: string
  cafFailureCode :: string

definition ReportConfigApplyFailure ::
  "sha256 \<Rightarrow> State \<Rightarrow> string \<Rightarrow> time \<Rightarrow> string \<Rightarrow> ConfigApplyFailureInput \<Rightarrow> State \<Rightarrow>
    (NetworkFirewallRolloutDocument \<times> State) result" where
  "ReportConfigApplyFailure sha viewed eid now token input state =
     (let token = TrimSpace token; digest = TrimSpace (cafAttemptedConfigSHA256 input); code = TrimSpace (cafFailureCode input);
          tokenHash = HashToken sha token in
      guard_result (ValidBearerToken token) ErrUnauthorized
     (guard_result (1 \<le> cafAttemptedConfigRevision input \<and> fingerprintPattern digest \<and> code = ''activation_failed'') ErrInvalid
     (guard_result (now \<noteq> 0) ErrInternal
     (bind_result (preflightAgentCredential tokenHash now viewed) (\<lambda>_.
      case find_idx (agent_matches tokenHash now) (Nodes state) of
        None \<Rightarrow> Inl ErrUnauthorized
      | Some k \<Rightarrow>
          (let node = Nodes state ! k in
           case find_network_idx state (nodeNetworkID node) of
             None \<Rightarrow> Inl ErrInternal
           | Some i \<Rightarrow>
               (let network = Networks state ! i in
                guard_result (cafAttemptedConfigRevision input = netConfigRevision network) ErrConflict
               (guard_result (digest = ConfigDigest sha (renderConfig state network node)) ErrConflict
               (autoRollbackFirewallRollout sha eid state i node now ''canary_config_activation_failed''
                  [(''failed_config_revision'', DInt (cafAttemptedConfigRevision input)), (''failed_config_sha256'', DStr digest),
                   (''failure_code'', DStr code)]))))))))) "

section \<open>The handlers as revisioned handlers\<close>

lemmas rollout_action_defs = rollout_start_def rollout_promote_def rollout_pause_def rollout_resume_def rollout_rollback_def

lemma rollout_switch_kept:
  assumes "rollout_switch sha now s n input ids nr = Inr (n', act, extra)"
  shows "netID n' = netID n" "netCIDR n' = netCIDR n" "netDNSSettings n' = netDNSSettings n" "netCARotation n' = netCARotation n"
    "netRouteTransfer n' = netRouteTransfer n" "netRouteProfileEdit n' = netRouteProfileEdit n"
  using assms by (auto simp: rollout_switch_def rollout_action_defs Let_def split: if_splits)

text \<open>Everything a successful call did, in one place.\<close>

lemma updateNetworkFirewallRollout_ok:
  assumes "updateNetworkFirewallRollout sha eid now actor ident input s = Inr (d, s')"
  obtains i ids nr net1 act extra ev where
    "find_network_idx s ident = Some i" "netConfigRevision (Networks s ! i) = ufrExpectedConfigRevision input"
    "nextConfigRevision (netConfigRevision (Networks s ! i)) True = Inr nr" "1 \<le> ufrExpectedConfigRevision input"
    "now \<noteq> 0" "rollout_schema s" "rollout_canaries input = Inr ids"
    "rollout_switch sha now s (Networks s ! i) input ids nr = Inr (net1, act, extra)"
    "s' = add_audit (set_network s i (net1\<lparr>netConfigRevision := nr, netConfigUpdatedAt := now\<rparr>)) ev"
  using assms by (auto simp: updateNetworkFirewallRollout_def Let_def split: option.splits)

interpretation firewall_rollout: revisioned_handler
  "\<lambda>ident input now s. updateNetworkFirewallRollout sha eid now actor ident input s" "\<lambda>ident. ident" ufrExpectedConfigRevision
  for sha eid actor
proof
  fix ident input now s d s'
  assume "updateNetworkFirewallRollout sha eid now actor ident input s = Inr (d, s')"
  then show "s' = s \<or> network_step ident (ufrExpectedConfigRevision input) now s s'"
    by (rule updateNetworkFirewallRollout_ok) (auto intro!: network_step_commitI(1) dest: rollout_switch_kept(1))
qed

interpretation firewall_policy: revisioned_handler
  "\<lambda>ident input now s. updateFirewallPolicy sha eid now actor ident input s" "\<lambda>ident. ident" ufpExpectedConfigRevision
  for sha eid actor
proof
  fix ident input now s d s'
  assume "updateFirewallPolicy sha eid now actor ident input s = Inr (d, s')"
  then show "s' = s \<or> network_step ident (ufpExpectedConfigRevision input) now s s'"
    by (auto simp: updateFirewallPolicy_def Let_def split: if_splits option.splits intro!: network_step_commitI(1))
qed

section \<open>The rollout as an abstract machine\<close>

datatype rollout_view = Settled FirewallPolicy | Trial FirewallPolicy FirewallPolicy "string set" bool

text \<open>\<open>Trial p q C live\<close>: \<open>q\<close> is tried on the nodes \<open>C\<close>, everything else has \<open>p\<close>; nothing has \<open>q\<close> while the trial is paused.\<close>

inductive rollout_step :: "(string \<Rightarrow> bool) \<Rightarrow> rollout_view \<Rightarrow> rollout_view \<Rightarrow> bool" for confirmed where
  start: "C \<noteq> {} \<Longrightarrow> \<not> sameEffectiveFirewallPolicy p q \<Longrightarrow> rollout_step confirmed (Settled p) (Trial p q C True)"
| promote: "\<forall>c\<in>C. confirmed c \<Longrightarrow> rollout_step confirmed (Trial p q C True) (Settled q)"
| pause: "rollout_step confirmed (Trial p q C True) (Trial p q C False)"
| resume: "rollout_step confirmed (Trial p q C False) (Trial p q C True)"
| rollback: "rollout_step confirmed (Trial p q C live) (Settled p)"

inductive_cases rollout_stepE: "rollout_step confirmed v v'"

fun served :: "rollout_view \<Rightarrow> string \<Rightarrow> FirewallPolicy" where
  "served (Settled p) ident = p"
| "served (Trial p q C live) ident = (if live \<and> ident \<in> C then q else p)"

definition rollout_abs :: "Network \<Rightarrow> rollout_view" where
  "rollout_abs n =
     (if roPhase (netFirewallRollout n) = [] then Settled (netFirewallPolicy n)
      else Trial (netFirewallPolicy n) (roTargetPolicy (netFirewallRollout n)) (set (canaries_of n))
             (roPhase (netFirewallRollout n) = FirewallRolloutPhaseCanary))"

lemma served_abs: "firewallPolicyForNode n node = served (rollout_abs n) (nodeID node)"
  by (simp add: firewallPolicyForNode_def rollout_abs_def canaries_of_def)

lemma rollout_abs_revision [simp]: "rollout_abs (n\<lparr>netConfigRevision := r, netConfigUpdatedAt := t\<rparr>) = rollout_abs n"
  by (simp add: rollout_abs_def canaries_of_def)

definition canary_confirmed :: "sha256 \<Rightarrow> State \<Rightarrow> Network \<Rightarrow> string \<Rightarrow> bool" where
  "canary_confirmed sha s n ident =
     (case findNode s ident of None \<Rightarrow> False | Some node \<Rightarrow> firewallRolloutNodeConverged sha s n node)"

lemma rollout_canaries_start:
  "rollout_canaries input = Inr ids \<Longrightarrow> ufrAction input = ''start'' \<Longrightarrow>
     ids \<noteq> [] \<and> length ids \<le> 16 \<and> sorted ids \<and> list_all validPersistedID ids \<and> adjacent_all (\<lambda>a b. a \<noteq> b) ids"
  by (auto simp: rollout_canaries_def canonicalCanaryNodeIDs_def Let_def list_all_iff)

lemma rollout_switch_refines:
  assumes "rollout_switch sha now s n input ids nr = Inr (n', act, extra)" "rollout_canaries input = Inr ids"
  shows "rollout_step (canary_confirmed sha s n) (rollout_abs n) (rollout_abs n')"
proof (cases "ufrAction input = ''start''")
  case True
  then have "ids \<noteq> []" using rollout_canaries_start [OF assms(2)] by simp
  with assms(1) True show ?thesis
    by (auto simp: rollout_switch_def rollout_start_def rollout_abs_def canaries_of_def intro!: rollout_step.start)
next
  case False
  with assms(1) show ?thesis
    by (auto simp: rollout_switch_def rollout_promote_def rollout_pause_def rollout_resume_def rollout_rollback_def
        rollout_abs_def canaries_of_def zero_rollout_def Let_def canary_confirmed_def list_all_iff split: if_splits
        intro!: rollout_step.promote rollout_step.pause rollout_step.resume rollout_step.rollback)
qed

section \<open>Validity of the rollout record\<close>

lemma normalizeFirewallPolicy_stored:
  assumes "normalizeFirewallPolicy input cidr = Inr policy"
  shows "validateStoredFirewallPolicy policy cidr = Inr ()"
proof -
  have "fwMode policy = FirewallPolicyModeManaged \<and> fwRendererVersion policy = 2 \<and> fwInbound policy \<noteq> None \<and> fwOutbound policy \<noteq> None"
    using assms by (auto simp: normalizeFirewallPolicy_def split: option.splits if_splits sum.splits)
  with normalizeFirewallPolicy_idem [OF assms] show ?thesis
    by (simp add: validateStoredFirewallPolicy_def sameEffectiveFirewallPolicy_def)
qed

lemma rollout_checks_cong:
  assumes "Nodes s' = Nodes s" "netID n' = netID n"
  shows "validateFirewallPolicyReferences s' n' p = validateFirewallPolicyReferences s n p"
    and "canary_selection_ok s' n' ids = canary_selection_ok s n ids"
proof -
  have "reference_ok s' n' = reference_ok s n" "active_member s' n' = active_member s n"
    using findNode_cong [OF assms(1)] assms(2) by (simp_all add: reference_ok_def active_member_def fun_eq_iff split: option.splits)
  then show "validateFirewallPolicyReferences s' n' p = validateFirewallPolicyReferences s n p"
    "canary_selection_ok s' n' ids = canary_selection_ok s n ids"
    by (simp_all add: validateFirewallPolicyReferences_def canary_selection_ok_def)
qed

lemma dns_stays_open_cong:
  "netDNSSettings n' = netDNSSettings n \<Longrightarrow> netCIDR n' = netCIDR n \<Longrightarrow> dns_stays_open n' p = dns_stays_open n p"
  by (simp add: dns_stays_open_def)

lemma validate_rollout_iff:
  "validateNetworkFirewallRollout s n = Inr () \<longleftrightarrow>
     (let ro = netFirewallRollout n in
      if roPhase ro = [] then zeroNetworkFirewallRollout ro
      else (roPhase ro = FirewallRolloutPhaseCanary \<and> roPausedAt ro = 0 \<or>
            8 \<le> Version s \<and> roPhase ro = FirewallRolloutPhasePaused \<and> roPausedAt ro \<noteq> 0) \<and>
        caPhase (netCARotation n) = [] \<and> roStartedAt ro \<noteq> 0 \<and> 1 \<le> roStageConfigRevision ro \<and>
        roStageConfigRevision ro \<le> netConfigRevision n \<and> validateStoredFirewallPolicy (roTargetPolicy ro) (netCIDR n) = Inr () \<and>
        validateFirewallPolicyReferences s n (roTargetPolicy ro) = Inr () \<and>
        \<not> sameEffectiveFirewallPolicy (netFirewallPolicy n) (roTargetPolicy ro) \<and> dns_stays_open n (roTargetPolicy ro) \<and>
        canary_selection_ok s n (elems (roCanaryNodeIDs ro)))"
  by (auto simp: validateNetworkFirewallRollout_def Let_def)

lemma zero_rollout_ok: "zeroNetworkFirewallRollout zero_rollout"
  by (simp add: zeroNetworkFirewallRollout_def zero_rollout_def zeroFirewallPolicy_def zero_firewall_policy_def)

lemma zero_rollout_phase [simp]: "roPhase zero_rollout = []"
  by (simp add: zero_rollout_def)

lemma rollout_switch_valid:
  assumes switch: "rollout_switch sha now s n input ids nr = Inr (n1, act, extra)" and ids: "rollout_canaries input = Inr ids"
    and ok: "validateNetworkFirewallRollout s n = Inr ()" and now: "now \<noteq> 0" "8 \<le> Version s"
    and rev: "nr = netConfigRevision n + 1" "1 \<le> netConfigRevision n"
    and nodes: "Nodes s' = Nodes s" "Version s' = Version s"
  shows "validateNetworkFirewallRollout s' (n1\<lparr>netConfigRevision := nr, netConfigUpdatedAt := now\<rparr>) = Inr ()"
proof -
  note kept = rollout_switch_kept [OF switch]
  let ?n = "n1\<lparr>netConfigRevision := nr, netConfigUpdatedAt := now\<rparr>"
  have id: "netID ?n = netID n" using kept by simp
  note cong = rollout_checks_cong [OF nodes(1) id] dns_stays_open_cong [of ?n n]
  consider (start) "ufrAction input = ''start''" | (closed) "netFirewallRollout n1 = zero_rollout"
    | (pause) "rollout_pause sha now n = Inr (n1, act, extra)" | (resume) "rollout_resume sha n nr = Inr (n1, act, extra)"
    using switch by (auto simp: rollout_switch_def rollout_promote_def rollout_rollback_def Let_def split: if_splits)
  then show ?thesis
  proof cases
    case start
    with switch have "rollout_start sha now s n input ids nr = Inr (n1, act, extra)" by (simp add: rollout_switch_def)
    then obtain target where t: "normalizeFirewallPolicy \<lparr>inInbound = ufrInbound input, inOutbound = ufrOutbound input\<rparr> (netCIDR n) = Inr target"
        "validateFirewallPolicyReferences s n target = Inr ()" "\<not> sameEffectiveFirewallPolicy (netFirewallPolicy n) target"
        "dns_stays_open n target" "list_all (active_member s n) ids" "caPhase (netCARotation n) = []"
        "n1 = n\<lparr>netFirewallRollout := \<lparr>roPhase = FirewallRolloutPhaseCanary, roTargetPolicy = target,
            roCanaryNodeIDs = Some ids, roStartedAt = now, roPausedAt = 0, roStageConfigRevision = nr\<rparr>\<rparr>"
      by (auto simp: rollout_start_def)
    moreover have "canary_selection_ok s n ids"
      using rollout_canaries_start [OF ids start] t(5) by (cases ids) (auto simp: canary_selection_ok_def)
    ultimately show ?thesis
      using cong kept now rev normalizeFirewallPolicy_stored [OF t(1)] by (simp add: validate_rollout_iff Let_def)
  next
    case closed
    then show ?thesis using zero_rollout_ok by (simp add: validate_rollout_iff Let_def)
  next
    case pause
    with ok cong kept now rev nodes show ?thesis by (auto simp: validate_rollout_iff Let_def rollout_pause_def)
  next
    case resume
    with ok cong kept now rev nodes show ?thesis by (auto simp: validate_rollout_iff Let_def rollout_resume_def)
  qed
qed

section \<open>Rollback by a canary\<close>

lemma newAttributedAudit_Inr:
  "newAttributedAudit eid at action resource ident ds actor = Inr ev \<Longrightarrow>
     evAction ev = action \<and> evResource ev = resource \<and> evResourceID ev = ident \<and> evAt ev = at"
  by (cases "validateActor actor") (auto simp: newAttributedAudit_def newAudit_def split: if_splits)

lemma autoRollback_ok:
  assumes "autoRollbackFirewallRollout sha eid s i node now reason evidence = Inr (d, s')"
  obtains nr ev where "roPhase (netFirewallRollout (Networks s ! i)) = FirewallRolloutPhaseCanary" "nodeID node \<in> set (canaries_of (Networks s ! i))"
    "nextConfigRevision (netConfigRevision (Networks s ! i)) True = Inr nr"
    "s' = add_audit (set_network s i ((Networks s ! i)\<lparr>netFirewallRollout := zero_rollout, netConfigRevision := nr, netConfigUpdatedAt := now\<rparr>)) ev"
    "evAction ev = ''network.firewall_rollout_auto_rolled_back''" "evResourceID ev = netID (Networks s ! i)"
  using assms by (auto simp: autoRollbackFirewallRollout_def Let_def dest: newAttributedAudit_Inr)

lemma policy_after_rollback:
  "firewallPolicyForNode (n\<lparr>netFirewallRollout := zero_rollout, netConfigRevision := r, netConfigUpdatedAt := t\<rparr>) node = netFirewallPolicy n"
  by (simp add: firewallPolicyForNode_def)

section \<open>Sample runs\<close>

definition trial_input :: UpdateNetworkFirewallRolloutInput where
  "trial_input = \<lparr>ufrAction = ''start'', ufrExpectedConfigRevision = 7, ufrCanaryNodeIDs = Some [''member''],
     ufrInbound = Some [any_rule\<lparr>ruleGroup := ''all''\<rparr>], ufrOutbound = Some [any_rule\<lparr>ruleHost := ''any''\<rparr>]\<rparr>"

definition trial_run :: "(NetworkFirewallRolloutDocument \<times> State) result" where
  "trial_run = updateNetworkFirewallRollout demo_sha ''ev'' 100 None ''net'' trial_input demo_state"

lemma trial_input_simps [simp]: "ufrAction trial_input = ''start''" "ufrExpectedConfigRevision trial_input = 7"
  by (simp_all add: trial_input_def)

lemma trial_steps: "rollout_canaries trial_input = Inr [''member'']" "validPersistedID ''net''"
  "is_ok (rollout_switch demo_sha 100 demo_state demo_network trial_input [''member''] 8)"
  by code_simp+

lemma trial_run_ok: "\<exists>d s'. trial_run = Inr (d, s')"
  using trial_steps
  by (auto simp: trial_run_def updateNetworkFirewallRollout_def is_ok_iff guard_result_def nextConfigRevision_def
   newOptionalAttributedAudit_def find_network_idx_def rollout_schema_def Let_def)

lemma trial_network_valid: "validateNetworkFirewallRollout demo_state (Networks demo_state ! 0) = Inr ()"
  using zero_rollout_ok by (simp add: validate_rollout_iff demo_network_def zero_network_def Let_def)

definition failing_network :: Network where
  "failing_network = demo_network\<lparr>netFirewallRollout := \<lparr>roPhase = ''canary'', roTargetPolicy = legacyDefaultFirewallPolicy,
     roCanaryNodeIDs = Some [''member''], roStartedAt = 5, roPausedAt = 0, roStageConfigRevision = 7\<rparr>\<rparr>"

definition failing_state :: State where
  "failing_state = agent_state\<lparr>Networks := [failing_network]\<rparr>"

definition failure_input :: ConfigApplyFailureInput where
  "failure_input = \<lparr>cafAttemptedConfigRevision = 7, cafAttemptedConfigSHA256 = hex_string (replicate 32 112),
     cafFailureCode = ''activation_failed''\<rparr>"

lemma failing_digest: "ConfigDigest wide_sha (renderConfig s failing_network node) = hex_string (replicate 32 112)"
  by (rule plain_digest) (simp add: failing_network_def)

lemma failure_strings: "TrimSpace (hex_string (replicate 32 112)) = hex_string (replicate 32 112)"
  "fingerprintPattern (hex_string (replicate 32 112))" "TrimSpace ''activation_failed'' = ''activation_failed''"
  "is_ok (validateActor \<lparr>actorID = ''member'', actorKind = ''node_agent'', actorSessionID = []\<rparr>)"
  by code_simp+

lemma failing_agent: "find_idx (agent_matches (bearer 65) hour) (Nodes failing_state) = Some 1"
  "findAgent failing_state (bearer 65) hour = Some (Nodes failing_state ! 1)"
  by (simp_all add: failing_state_def agent_state_def findAgent_def agent_matches_iff live_slot_def demo_gateway_def demo_node_def zero_node_def)

lemma failing_simps [simp]: "Networks failing_state = [failing_network]" "nodeNetworkID (Nodes failing_state ! Suc 0) = ''net''"
  "nodeID (Nodes failing_state ! Suc 0) = ''member''" "netID failing_network = ''net''" "netConfigRevision failing_network = 7"
  "roPhase (netFirewallRollout failing_network) = ''canary''" "canaries_of failing_network = [''member'']"
  by (simp_all add: failing_state_def agent_state_def failing_network_def canaries_of_def)

definition failure_run :: "(NetworkFirewallRolloutDocument \<times> State) result" where
  "failure_run = ReportConfigApplyFailure wide_sha failing_state ''ev'' hour (bearer 0) failure_input failing_state"

lemma failure_run_ok: "\<exists>d s'. failure_run = Inr (d, s')"
proof -
  have "validateActor \<lparr>actorID = ''member'', actorKind = ''node_agent'', actorSessionID = []\<rparr> = Inr ()"
    using failure_strings(4) by (auto simp: is_ok_iff)
  then show ?thesis
    using failing_agent failure_strings failing_digest
    by (simp add: failure_run_def ReportConfigApplyFailure_def Let_def bearer_samples guard_result_def preflightAgentCredential_def
      failure_input_def find_network_idx_def autoRollbackFirewallRollout_def nextConfigRevision_def newAttributedAudit_def actor_keys_def)
qed

section \<open>Policy documents\<close>

lemma compile_cong: "findNode s' = findNode s \<Longrightarrow> compileFirewallRulesForNode s' node rules = compileFirewallRulesForNode s node rules"
  by (induction rules) (simp_all add: Let_def split: option.splits)

lemma effective_documents_cong:
  assumes "Nodes s' = Nodes s" "netID n' = netID n" "netRouteTransfer n' = netRouteTransfer n" "netRouteProfileEdit n' = netRouteProfileEdit n"
  shows "effectiveFirewallPolicyDocuments sha s' n' p = effectiveFirewallPolicyDocuments sha s n p"
proof -
  have "certificateRoutedSubnets n' node = certificateRoutedSubnets n node" for node
    using assms(3,4) by (simp add: certificateRoutedSubnets_def routeProfileCertificateRoutedSubnets_def Let_def)
  then have "effective_document sha s' n' p = effective_document sha s n p"
    using compile_cong [OF findNode_cong [OF assms(1)]]
    by (simp add: effective_document_def effectiveFirewallPolicyForNode_def fun_eq_iff Let_def)
  moreover have "network_active_nodes s' n' = network_active_nodes s n"
    using assms(1,2) by (simp add: network_active_nodes_def)
  ultimately show ?thesis by (simp add: effectiveFirewallPolicyDocuments_def)
qed

lemma updateFirewallPolicy_ok:
  assumes "updateFirewallPolicy sha eid now actor ident input s = Inr (d, s')"
  obtains i desired where "find_network_idx s ident = Some i"
    "normalizeFirewallPolicy \<lparr>inInbound = ufpInbound input, inOutbound = ufpOutbound input\<rparr> (netCIDR (Networks s ! i)) = Inr desired"
    "if sameEffectiveFirewallPolicy (netFirewallPolicy (Networks s ! i)) desired
     then s' = s \<and> d = firewallPolicyDocument sha s (Networks s ! i) (netFirewallPolicy (Networks s ! i))
     else (\<exists>nr ev n'. nextConfigRevision (netConfigRevision (Networks s ! i)) True = Inr nr \<and>
       n' = (Networks s ! i)\<lparr>netFirewallPolicy := desired, netConfigRevision := nr, netConfigUpdatedAt := now\<rparr> \<and>
       s' = add_audit (set_network s i n') ev \<and> d = firewallPolicyDocument sha s' n' desired)"
proof -
  from assms obtain i desired where i: "find_network_idx s ident = Some i"
    and desired: "normalizeFirewallPolicy \<lparr>inInbound = ufpInbound input, inOutbound = ufpOutbound input\<rparr> (netCIDR (Networks s ! i)) = Inr desired"
    by (auto simp: updateFirewallPolicy_def Let_def split: option.splits)
  show thesis
  proof (cases "sameEffectiveFirewallPolicy (netFirewallPolicy (Networks s ! i)) desired")
    case True
    with assms i desired show thesis by (intro that [OF i desired]) (auto simp: updateFirewallPolicy_def Let_def)
  next
    case False
    with assms i desired show thesis by (intro that [OF i desired]) (auto simp: updateFirewallPolicy_def Let_def)
  qed
qed

lemma add_audit_neq: "add_audit (set_network s i n) ev \<noteq> s"
proof
  assume "add_audit (set_network s i n) ev = s"
  then have "Audit (add_audit (set_network s i n) ev) = Audit s" by simp
  then show False by simp
qed

definition policy_input :: UpdateFirewallPolicyInput where
  "policy_input = \<lparr>ufpExpectedConfigRevision = 7, ufpInbound = ufrInbound trial_input, ufpOutbound = ufrOutbound trial_input\<rparr>"

definition open_policy :: FirewallPolicy where
  "open_policy = \<lparr>fwMode = ''managed'', fwRendererVersion = 2, fwInbound = ufrInbound trial_input, fwOutbound = ufrOutbound trial_input\<rparr>"

lemma policy_checks:
  "normalizeFirewallPolicy \<lparr>inInbound = ufpInbound policy_input, inOutbound = ufpOutbound policy_input\<rparr> (netCIDR demo_network) = Inr open_policy"
  "validateFirewallPolicyReferences demo_state demo_network open_policy = Inr ()" "\<not> firewallPolicyUsesNodeScopes open_policy"
  "\<not> sameEffectiveFirewallPolicy (netFirewallPolicy demo_network) open_policy" "dns_stays_open demo_network open_policy"
  by code_simp+

lemma demo_idle:
  "roPhase (netFirewallRollout demo_network) = []" "\<not> routeTransferActive (netRouteTransfer demo_network)"
  "\<not> routeProfileEditActive (netRouteProfileEdit demo_network)"
  by code_simp+

lemma policy_runs_ok:
  "\<exists>pv d s'. PreviewFirewallPolicy demo_sha ''net'' \<lparr>inInbound = ufpInbound policy_input, inOutbound = ufpOutbound policy_input\<rparr> demo_state = Inr pv \<and>
     updateFirewallPolicy demo_sha ''ev'' 100 None ''net'' policy_input demo_state = Inr (d, s')"
proof -
  have idx: "find_network_idx demo_state ''net'' = Some 0" by (simp add: find_network_idx_def)
  have "ufpExpectedConfigRevision policy_input = 7" by (simp add: policy_input_def)
  with policy_checks demo_idle idx show ?thesis
    by (simp add: PreviewFirewallPolicy_def updateFirewallPolicy_def findNetwork_idx Let_def guard_result_def nextConfigRevision_def
        newOptionalAttributedAudit_def)
qed

section \<open>Properties\<close>

text \<open>C9. Every operator action that succeeds is a step of the abstract rollout machine on the network it
  names: a trial starts from the settled policy on a non-empty set of canaries, is promoted only when
  every canary has confirmed the exact rendered configuration, is paused and resumed, or returns to the
  policy it started from.\<close>
theorem firewall_rollout_refines:
  assumes "updateNetworkFirewallRollout sha eid now actor ident input s = Inr (d, s')"
  shows "\<exists>i. find_network_idx s ident = Some i \<and>
    rollout_step (canary_confirmed sha s (Networks s ! i)) (rollout_abs (Networks s ! i)) (rollout_abs (Networks s' ! i))"
  using assms
proof (rule updateNetworkFirewallRollout_ok)
  fix i ids nr net1 act extra ev
  assume *: "find_network_idx s ident = Some i" "rollout_canaries input = Inr ids"
    "rollout_switch sha now s (Networks s ! i) input ids nr = Inr (net1, act, extra)"
    "s' = add_audit (set_network s i (net1\<lparr>netConfigRevision := nr, netConfigUpdatedAt := now\<rparr>)) ev"
  then show ?thesis
    using rollout_switch_refines [OF *(3,2)] find_network_idx_lt [OF *(1)] by simp
qed

theorem firewall_rollout_refines_witness:
  "\<exists>d s'. trial_run = Inr (d, s') \<and>
    rollout_step (canary_confirmed demo_sha demo_state demo_network) (rollout_abs demo_network) (rollout_abs (Networks s' ! 0))"
proof -
  obtain d s' where run: "trial_run = Inr (d, s')" using trial_run_ok by blast
  from firewall_rollout_refines [OF run [unfolded trial_run_def]]
  have "rollout_step (canary_confirmed demo_sha demo_state demo_network) (rollout_abs demo_network) (rollout_abs (Networks s' ! 0))"
    by (simp add: find_network_idx_def)
  with run show ?thesis by blast
qed

text \<open>C31. The operator actions keep the rollout record of the network valid for the store: if the record
  satisfies the checks of the state validation before a successful call, it does so after it.\<close>
theorem rollout_keeps_valid:
  assumes "updateNetworkFirewallRollout sha eid now actor ident input s = Inr (d, s')" "find_network_idx s ident = Some i"
    and "validateNetworkFirewallRollout s (Networks s ! i) = Inr ()"
  shows "validateNetworkFirewallRollout s' (Networks s' ! i) = Inr ()"
  using assms(1)
proof (rule updateNetworkFirewallRollout_ok)
  fix i' ids nr net1 act extra ev
  assume *: "find_network_idx s ident = Some i'" "netConfigRevision (Networks s ! i') = ufrExpectedConfigRevision input"
    "nextConfigRevision (netConfigRevision (Networks s ! i')) True = Inr nr" "1 \<le> ufrExpectedConfigRevision input"
    "now \<noteq> 0" "rollout_schema s" "rollout_canaries input = Inr ids"
    "rollout_switch sha now s (Networks s ! i') input ids nr = Inr (net1, act, extra)"
    "s' = add_audit (set_network s i' (net1\<lparr>netConfigRevision := nr, netConfigUpdatedAt := now\<rparr>)) ev"
  have "8 \<le> Version s" using *(6) by (auto simp: rollout_schema_def)
  moreover have "nr = netConfigRevision (Networks s ! i') + 1" using *(3) by (simp add: nextConfigRevision_def split: if_splits)
  ultimately show ?thesis
    using rollout_switch_valid [OF *(8,7) _ *(5), of s'] assms(2,3) * find_network_idx_lt [OF *(1)] by simp
qed

theorem rollout_keeps_valid_witness:
  "\<exists>d s'. trial_run = Inr (d, s') \<and> validateNetworkFirewallRollout s' (Networks s' ! 0) = Inr ()"
proof -
  obtain d s' where run: "trial_run = Inr (d, s')" using trial_run_ok by blast
  have "find_network_idx demo_state ''net'' = Some 0" by (simp add: find_network_idx_def)
  from rollout_keeps_valid [OF run [unfolded trial_run_def] this trial_network_valid] run show ?thesis by blast
qed

text \<open>C23. A reported activation failure rolls back only on exact evidence: the bearer is the credential of a
  canary of a live trial, and the revision and digest it reports are those of the configuration rendered
  for it.  Then every node is served the policy that was active before, under the next revision, and
  nothing but that network and the audit log has changed.\<close>
theorem apply_failure_rolls_back:
  assumes "ReportConfigApplyFailure sha viewed eid now token input s = Inr (d, s')"
  shows "\<exists>node i. node \<in> set (Nodes s) \<and> agent_matches (HashToken sha (TrimSpace token)) now node \<and>
    find_network_idx s (nodeNetworkID node) = Some i \<and>
    roPhase (netFirewallRollout (Networks s ! i)) = FirewallRolloutPhaseCanary \<and> nodeID node \<in> set (canaries_of (Networks s ! i)) \<and>
    cafAttemptedConfigRevision input = netConfigRevision (Networks s ! i) \<and>
    TrimSpace (cafAttemptedConfigSHA256 input) = ConfigDigest sha (renderConfig s (Networks s ! i) node) \<and>
    (\<forall>m. firewallPolicyForNode (Networks s' ! i) m = netFirewallPolicy (Networks s ! i)) \<and>
    network_step (nodeNetworkID node) (cafAttemptedConfigRevision input) now s s'"
proof -
  from assms obtain k i where k: "find_idx (agent_matches (HashToken sha (TrimSpace token)) now) (Nodes s) = Some k"
    and i: "find_network_idx s (nodeNetworkID (Nodes s ! k)) = Some i"
    and ev: "cafAttemptedConfigRevision input = netConfigRevision (Networks s ! i)"
      "TrimSpace (cafAttemptedConfigSHA256 input) = ConfigDigest sha (renderConfig s (Networks s ! i) (Nodes s ! k))"
    and run: "autoRollbackFirewallRollout sha eid s i (Nodes s ! k) now ''canary_config_activation_failed''
        [(''failed_config_revision'', DInt (cafAttemptedConfigRevision input)),
         (''failed_config_sha256'', DStr (TrimSpace (cafAttemptedConfigSHA256 input))),
         (''failure_code'', DStr (TrimSpace (cafFailureCode input)))] = Inr (d, s')"
    by (auto simp: ReportConfigApplyFailure_def Let_def split: option.splits)
  from run obtain nr evt where r: "roPhase (netFirewallRollout (Networks s ! i)) = FirewallRolloutPhaseCanary"
      "nodeID (Nodes s ! k) \<in> set (canaries_of (Networks s ! i))"
      "nextConfigRevision (netConfigRevision (Networks s ! i)) True = Inr nr"
      "s' = add_audit (set_network s i ((Networks s ! i)\<lparr>netFirewallRollout := zero_rollout, netConfigRevision := nr, netConfigUpdatedAt := now\<rparr>)) evt"
    by (rule autoRollback_ok)
  have "network_step (nodeNetworkID (Nodes s ! k)) (cafAttemptedConfigRevision input) now s s'"
    unfolding r(4) by (rule network_step_commitI(1) [OF i]) (simp_all add: ev r(3))
  moreover have "\<forall>m. firewallPolicyForNode (Networks s' ! i) m = netFirewallPolicy (Networks s ! i)"
    using find_network_idx_lt [OF i] by (simp add: r(4) policy_after_rollback)
  ultimately show ?thesis using find_idx_mem [OF k] find_idx_P [OF k] i ev r(1,2) by blast
qed

theorem apply_failure_rolls_back_witness:
  "\<exists>d s' node i. failure_run = Inr (d, s') \<and> node \<in> set (Nodes failing_state) \<and> find_network_idx failing_state (nodeNetworkID node) = Some i \<and>
    (\<forall>m. firewallPolicyForNode (Networks s' ! i) m = netFirewallPolicy (Networks failing_state ! i))"
proof -
  obtain d s' where run: "failure_run = Inr (d, s')" using failure_run_ok by blast
  from apply_failure_rolls_back [OF run [unfolded failure_run_def]] run show ?thesis by blast
qed

text \<open>C35. The preview of a firewall policy tells what the update does: when both succeed on the same state,
  the preview announces a change exactly when the update commits one, and its revision, its digest, its
  rules and the compiled policy of every node are those the update returns.\<close>
theorem preview_agrees_with_update:
  assumes "PreviewFirewallPolicy sha ident \<lparr>inInbound = ufpInbound input, inOutbound = ufpOutbound input\<rparr> s = Inr pv"
    and "updateFirewallPolicy sha eid now actor ident input s = Inr (d, s')"
  shows "(fppWouldChange pv \<longleftrightarrow> s' \<noteq> s) \<and> fppProposedConfigRevision pv = fpdConfigRevision d \<and>
    fpdPolicySHA256 (fppDocument pv) = fpdPolicySHA256 d \<and> fpdInbound (fppDocument pv) = fpdInbound d \<and>
    fpdOutbound (fppDocument pv) = fpdOutbound d \<and> fpdEffectiveNodes (fppDocument pv) = fpdEffectiveNodes d"
  using assms(2)
proof (rule updateFirewallPolicy_ok)
  fix i desired
  let ?n = "Networks s ! i"
  assume i: "find_network_idx s ident = Some i"
    and desired: "normalizeFirewallPolicy \<lparr>inInbound = ufpInbound input, inOutbound = ufpOutbound input\<rparr> (netCIDR ?n) = Inr desired"
    and outcome: "if sameEffectiveFirewallPolicy (netFirewallPolicy ?n) desired
     then s' = s \<and> d = firewallPolicyDocument sha s ?n (netFirewallPolicy ?n)
     else (\<exists>nr ev n'. nextConfigRevision (netConfigRevision ?n) True = Inr nr \<and>
       n' = ?n\<lparr>netFirewallPolicy := desired, netConfigRevision := nr, netConfigUpdatedAt := now\<rparr> \<and>
       s' = add_audit (set_network s i n') ev \<and> d = firewallPolicyDocument sha s' n' desired)"
  from assms(1) i desired have pv: "\<exists>r. nextConfigRevision (netConfigRevision ?n) (\<not> sameEffectiveFirewallPolicy (netFirewallPolicy ?n) desired) = Inr r \<and>
      pv = \<lparr>fppDocument = firewallPolicyDocument sha s ?n
              (if sameEffectiveFirewallPolicy (netFirewallPolicy ?n) desired then netFirewallPolicy ?n else desired),
            fppWouldChange = (\<not> sameEffectiveFirewallPolicy (netFirewallPolicy ?n) desired), fppProposedConfigRevision = r\<rparr>"
    by (auto simp: PreviewFirewallPolicy_def findNetwork_idx Let_def)
  show ?thesis
  proof (cases "sameEffectiveFirewallPolicy (netFirewallPolicy ?n) desired")
    case True
    with pv outcome show ?thesis by (auto simp: nextConfigRevision_def firewallPolicyDocument_def)
  next
    case False
    with outcome obtain nr ev n' where c: "nextConfigRevision (netConfigRevision ?n) True = Inr nr"
       "n' = ?n\<lparr>netFirewallPolicy := desired, netConfigRevision := nr, netConfigUpdatedAt := now\<rparr>"
       "s' = add_audit (set_network s i n') ev" "d = firewallPolicyDocument sha s' n' desired" by auto
    have "effectiveFirewallPolicyDocuments sha s' n' desired = effectiveFirewallPolicyDocuments sha s ?n desired"
      by (rule effective_documents_cong) (simp_all add: c(2,3))
    with False pv c add_audit_neq show ?thesis by (auto simp: firewallPolicyDocument_def)
  qed
qed

theorem preview_agrees_with_update_witness:
  "\<exists>pv d s'. PreviewFirewallPolicy demo_sha ''net'' \<lparr>inInbound = ufpInbound policy_input, inOutbound = ufpOutbound policy_input\<rparr> demo_state = Inr pv \<and>
    updateFirewallPolicy demo_sha ''ev'' 100 None ''net'' policy_input demo_state = Inr (d, s') \<and>
    fppProposedConfigRevision pv = fpdConfigRevision d"
proof -
  obtain pv d s' where run: "PreviewFirewallPolicy demo_sha ''net'' \<lparr>inInbound = ufpInbound policy_input, inOutbound = ufpOutbound policy_input\<rparr> demo_state = Inr pv"
      "updateFirewallPolicy demo_sha ''ev'' 100 None ''net'' policy_input demo_state = Inr (d, s')"
    using policy_runs_ok by blast
  from preview_agrees_with_update [OF this] run show ?thesis by blast
qed

end
