(* ===== verification/Mesh_Encoding.thy ===== *)
theory Mesh_Encoding
  imports Mesh_Text
begin

text \<open>
  What the signed payloads use of \<^verbatim>\<open>unicode/utf8\<close> and \<^verbatim>\<open>time\<close>: the decoding of UTF-8, the UTC
  \<^verbatim>\<open>RFC3339Nano\<close> text of an instant, and the line format of the payloads.  The text of an instant
  determines the instant, and a list of lines without line feeds is determined by its concatenation.
\<close>

section \<open>UTF-8\<close>

text \<open>The decoder of Go: shortest forms only, no surrogates, nothing above 0x10FFFF.\<close>

definition cont :: "nat \<Rightarrow> bool" where
  "cont b = (0x80 \<le> b \<and> b \<le> 0xBF)"

definition rune2 :: "nat \<Rightarrow> nat \<Rightarrow> nat option" where
  "rune2 a b = (if 0xC2 \<le> a \<and> a \<le> 0xDF \<and> cont b then Some ((a - 0xC0) * 64 + (b - 0x80)) else None)"

definition rune3 :: "nat \<Rightarrow> nat \<Rightarrow> nat \<Rightarrow> nat option" where
  "rune3 a b c =
     (if 0xE0 \<le> a \<and> a \<le> 0xEF \<and> cont b \<and> cont c \<and> (a = 0xE0 \<longrightarrow> 0xA0 \<le> b) \<and> (a = 0xED \<longrightarrow> b \<le> 0x9F)
      then Some ((a - 0xE0) * 4096 + (b - 0x80) * 64 + (c - 0x80)) else None)"

definition rune4 :: "nat \<Rightarrow> nat \<Rightarrow> nat \<Rightarrow> nat \<Rightarrow> nat option" where
  "rune4 a b c d =
     (if 0xF0 \<le> a \<and> a \<le> 0xF4 \<and> cont b \<and> cont c \<and> cont d \<and> (a = 0xF0 \<longrightarrow> 0x90 \<le> b) \<and> (a = 0xF4 \<longrightarrow> b \<le> 0x8F)
      then Some ((a - 0xF0) * 262144 + (b - 0x80) * 4096 + (c - 0x80) * 64 + (d - 0x80)) else None)"

text \<open>The rune at the head of a byte sequence and how many bytes it takes.\<close>

definition decode_rune :: "nat list \<Rightarrow> (nat \<times> nat) option" where
  "decode_rune bs =
     (case bs of
        [] \<Rightarrow> None
      | a # _ \<Rightarrow>
          if a < 0x80 then Some (a, 1)
          else if 2 \<le> length bs \<and> rune2 a (bs ! 1) \<noteq> None then Some (the (rune2 a (bs ! 1)), 2)
          else if 3 \<le> length bs \<and> rune3 a (bs ! 1) (bs ! 2) \<noteq> None then Some (the (rune3 a (bs ! 1) (bs ! 2)), 3)
          else if 4 \<le> length bs \<and> rune4 a (bs ! 1) (bs ! 2) (bs ! 3) \<noteq> None then Some (the (rune4 a (bs ! 1) (bs ! 2) (bs ! 3)), 4)
          else None)"

lemma decode_rune_length: "decode_rune bs = Some (r, k) \<Longrightarrow> 0 < k \<and> bs \<noteq> []"
  by (auto simp: decode_rune_def split: list.splits if_splits)

function utf8_runes :: "nat list \<Rightarrow> nat list option" where
  "utf8_runes bs =
     (if bs = [] then Some []
      else case decode_rune bs of
        None \<Rightarrow> None
      | Some (r, k) \<Rightarrow> map_option ((#) r) (utf8_runes (drop k bs)))"
  by pat_completeness auto
termination
  by (relation "measure length") (auto dest: decode_rune_length)

declare utf8_runes.simps [simp del]

definition runes :: "string \<Rightarrow> nat list option" where
  "runes s = utf8_runes (map of_char s)"

definition ValidString :: "string \<Rightarrow> bool" where
  "ValidString s = (runes s \<noteq> None)"

lemma utf8_runes_ascii: "\<forall>b\<in>set bs. b < 0x80 \<Longrightarrow> utf8_runes bs = Some bs"
proof (induction bs)
  case Nil
  then show ?case by (simp add: utf8_runes.simps)
next
  case (Cons b bs)
  then show ?case by (subst utf8_runes.simps) (simp add: decode_rune_def)
qed

lemma ValidString_ascii: "\<forall>c\<in>set s. of_char c < (0x80::nat) \<Longrightarrow> ValidString s \<and> runes s = Some (map of_char s)"
  using utf8_runes_ascii [of "map of_char s"] by (simp add: ValidString_def runes_def)

section \<open>Calendar\<close>

definition civil_year_day :: "int \<Rightarrow> int \<times> int" where
  "civil_year_day d =
     (let n400 = d div 146097; d1 = d mod 146097; n100 = min 3 (d1 div 36524); d2 = d1 - 36524 * n100;
          n4 = d2 div 1461; d3 = d2 mod 1461; n = min 3 (d3 div 365)
      in (400 * n400 + 100 * n100 + 4 * n4 + n + 1, d3 - 365 * n))"

definition leap :: "int \<Rightarrow> bool" where
  "leap y = (y mod 4 = 0 \<and> (y mod 100 \<noteq> 0 \<or> y mod 400 = 0))"

definition month_lengths :: "bool \<Rightarrow> int list" where
  "month_lengths l = [31, if l then 29 else 28, 31, 30, 31, 30, 31, 31, 30, 31, 30, 31]"

fun split_month :: "int list \<Rightarrow> int \<Rightarrow> int \<Rightarrow> int \<times> int" where
  "split_month [] m d = (m, d)"
| "split_month (l # ls) m d = (if d < l then (m, d) else split_month ls (m + 1) (d - l))"

section \<open>The text of an instant\<close>

definition pad :: "nat \<Rightarrow> int \<Rightarrow> string" where
  "pad k n = (let s = FormatInt n in replicate (k - length s) (CHR ''0'') @ s)"

definition year_text :: "int \<Rightarrow> string" where
  "year_text y = (if y < 0 then CHR ''-'' # pad 4 (- y) else pad 4 y)"

fun drop_zeros :: "string \<Rightarrow> string" where
  "drop_zeros [] = []"
| "drop_zeros (c # cs) = (if c = CHR ''0'' then drop_zeros cs else c # cs)"

definition fraction_text :: "int \<Rightarrow> string" where
  "fraction_text ns = (if ns = 0 then [] else CHR ''.'' # rev (drop_zeros (rev (pad 9 ns))))"

definition RFC3339Nano :: "time \<Rightarrow> string" where
  "RFC3339Nano t =
     (let days = t div (24 * hour); r = t mod (24 * hour);
          (y, yday) = civil_year_day days; (mo, d) = split_month (month_lengths (leap y)) 1 yday
      in year_text y @ ''-'' @ pad 2 mo @ ''-'' @ pad 2 (d + 1) @ ''T'' @
         pad 2 (r div hour) @ '':'' @ pad 2 (r mod hour div minute) @ '':'' @ pad 2 (r mod minute div second) @
         fraction_text (r mod second) @ ''Z'')"

section \<open>Lines\<close>

definition line_free :: "string \<Rightarrow> bool" where
  "line_free s = (CHR 0x0A \<notin> set s)"

definition unlines :: "string list \<Rightarrow> string" where
  "unlines ls = concat (map (\<lambda>l. l @ [CHR 0x0A]) ls)"

lemma append_sep_inj:
  assumes "a @ c # b = a' @ c # b'" "c \<notin> set a" "c \<notin> set a'"
  shows "a = a' \<and> b = b'"
  using assms
proof (induction a arbitrary: a')
  case Nil
  then show ?case by (cases a') auto
next
  case (Cons x a)
  then show ?case by (cases a') auto
qed

lemma unlines_inj:
  assumes "unlines ls = unlines ls'" "list_all line_free ls" "list_all line_free ls'"
  shows "ls = ls'"
  using assms
proof (induction ls arbitrary: ls')
  case Nil
  then show ?case by (cases ls') (auto simp: unlines_def)
next
  case (Cons l ls)
  then obtain l' ks where ls': "ls' = l' # ks" by (cases ls') (auto simp: unlines_def)
  with Cons.prems(1) have "l @ CHR 0x0A # unlines ls = l' @ CHR 0x0A # unlines ks" by (simp add: unlines_def)
  with Cons.prems(2,3) ls' have "l = l' \<and> unlines ls = unlines ks" by (intro append_sep_inj) (auto simp: line_free_def)
  with Cons ls' show ?case by simp
qed

section \<open>Lemmas: the calendar\<close>

lemma split_month_ge: "m \<le> fst (split_month ls m d)"
  by (induction ls m d rule: split_month.induct) auto

lemma split_month_inj:
  "split_month ls m d = split_month ls m d' \<Longrightarrow> d = d'"
proof (induction ls m d arbitrary: d' rule: split_month.induct)
  case (2 l ls m d)
  show ?case
  proof (cases "d < l"; cases "d' < l")
    assume "d < l" "\<not> d' < l"
    with 2(2) have "split_month ls (m + 1) (d' - l) = (m, d)" by simp
    with split_month_ge [of "m + 1" ls "d' - l"] show ?thesis by simp
  next
    assume "\<not> d < l" "d' < l"
    with 2(2) have "split_month ls (m + 1) (d - l) = (m, d')" by simp
    with split_month_ge [of "m + 1" ls "d - l"] show ?thesis by simp
  next
    assume "\<not> d < l" "\<not> d' < l"
    with 2(2) 2(1) [of "d' - l"] show ?thesis by simp
  qed (use 2(2) in simp)
qed simp

lemma split_month_bounds:
  assumes "0 \<le> d" "d < sum_list ls" "\<forall>l\<in>set ls. l \<le> 31"
  shows "m \<le> fst (split_month ls m d) \<and> fst (split_month ls m d) < m + int (length ls) \<and>
    0 \<le> snd (split_month ls m d) \<and> snd (split_month ls m d) < 31"
  using assms by (induction ls m d rule: split_month.induct) auto

lemma civil_year_day_parts:
  obtains a b c e where "civil_year_day d = (400 * a + 100 * b + 4 * c + e + 1, d - (146097 * a + 36524 * b + 1461 * c + 365 * e))"
    "0 \<le> b" "b \<le> 3" "0 \<le> c" "c \<le> 24" "0 \<le> e" "e \<le> 3"
    "0 \<le> snd (civil_year_day d)" "snd (civil_year_day d) < 366"
proof -
  define a where "a = d div 146097"
  define d1 where "d1 = d mod 146097"
  define b where "b = min 3 (d1 div 36524)"
  define d2 where "d2 = d1 - 36524 * b"
  define c where "c = d2 div 1461"
  define d3 where "d3 = d2 mod 1461"
  define e where "e = min 3 (d3 div 365)"
  have d1: "0 \<le> d1" "d1 < 146097" "d = 146097 * a + d1" by (simp_all add: d1_def a_def)
  have b: "0 \<le> b" "b \<le> 3" "0 \<le> d2" "d2 \<le> 36524" using d1 by (auto simp: b_def d2_def min_def)
  have c: "0 \<le> c" "c \<le> 24" "0 \<le> d3" "d3 < 1461" "d2 = 1461 * c + d3" using b by (auto simp: c_def d3_def)
  have e: "0 \<le> e" "e \<le> 3" "0 \<le> d3 - 365 * e" "d3 - 365 * e < 366" using c by (auto simp: e_def min_def)
  have cyd: "civil_year_day d = (400 * a + 100 * b + 4 * c + e + 1, d3 - 365 * e)"
    unfolding civil_year_day_def Let_def e_def d3_def c_def d2_def b_def d1_def a_def by (rule refl)
  have "d3 - 365 * e = d - (146097 * a + 36524 * b + 1461 * c + 365 * e)" using d1(3) c(5) d2_def by simp
  with cyd that [of a b c e] b c e show thesis by simp
qed

lemma mixed_radix:
  fixes a b c e :: int
  assumes "400 * a + 100 * b + 4 * c + e = 400 * a' + 100 * b' + 4 * c' + e'"
    and "0 \<le> b" "b \<le> 3" "0 \<le> c" "c \<le> 24" "0 \<le> e" "e \<le> 3" "0 \<le> b'" "b' \<le> 3" "0 \<le> c'" "c' \<le> 24" "0 \<le> e'" "e' \<le> 3"
  shows "a = a' \<and> b = b' \<and> c = c' \<and> e = e'"
proof -
  have digit: "x = y \<and> r = r'" if "k * x + r = k * y + r'" "0 \<le> r" "r < k" "0 \<le> r'" "r' < k" for k x y r r' :: int
    using that by (metis add.commute div_mult_self2 div_pos_pos_trivial mod_mult_self2 mod_pos_pos_trivial add_0 less_le_trans not_le order.trans)
  have 1: "a = a' \<and> 100 * b + 4 * c + e = 100 * b' + 4 * c' + e'"
    using assms by (intro digit [of 400]) simp_all
  then have 2: "b = b' \<and> 4 * c + e = 4 * c' + e'"
    using assms by (intro digit [of 100]) simp_all
  then have "c = c' \<and> e = e'" using assms by (intro digit [of 4]) simp_all
  with 1 2 show ?thesis by simp
qed

lemma civil_year_day_inj: "civil_year_day d = civil_year_day d' \<Longrightarrow> d = d'"
proof -
  assume eq: "civil_year_day d = civil_year_day d'"
  obtain a b c e where p: "civil_year_day d = (400 * a + 100 * b + 4 * c + e + 1, d - (146097 * a + 36524 * b + 1461 * c + 365 * e))"
    "0 \<le> b" "b \<le> 3" "0 \<le> c" "c \<le> 24" "0 \<le> e" "e \<le> 3" by (rule civil_year_day_parts)
  obtain a' b' c' e' where q: "civil_year_day d' = (400 * a' + 100 * b' + 4 * c' + e' + 1, d' - (146097 * a' + 36524 * b' + 1461 * c' + 365 * e'))"
    "0 \<le> b'" "b' \<le> 3" "0 \<le> c'" "c' \<le> 24" "0 \<le> e'" "e' \<le> 3" by (rule civil_year_day_parts)
  have "a = a' \<and> b = b' \<and> c = c' \<and> e = e'" using eq p q by (intro mixed_radix) simp_all
  with eq p(1) q(1) show "d = d'" by simp
qed

section \<open>Lemmas: numerals\<close>

lemma dec_int_itoa: "0 \<le> n \<Longrightarrow> dec_int (FormatInt n) = n"
  using FormatInt_nat [of "nat n"] by (simp add: dec_int_val)

lemma dec_int_zeros: "dec_int (replicate k (CHR ''0'') @ s) = dec_int s"
proof -
  have "foldl (\<lambda>a c. a * 10 + int (digit_val c)) 0 (replicate k (CHR ''0'')) = 0"
    by (induction k) (simp_all add: digit_val_def)
  then show ?thesis by (simp add: dec_int_def)
qed

lemma dec_int_pad: "0 \<le> n \<Longrightarrow> dec_int (pad k n) = n"
  by (simp add: pad_def Let_def dec_int_zeros dec_int_itoa)

lemma pad_inj: "pad k m = pad k n \<Longrightarrow> 0 \<le> m \<Longrightarrow> 0 \<le> n \<Longrightarrow> m = n"
  by (metis dec_int_pad)

lemma FormatInt_digits: "0 \<le> n \<Longrightarrow> list_all is_digit (FormatInt n)"
  using FormatInt_nat [of "nat n"] by (simp add: itoa_digits)

lemma pad_digits: "0 \<le> n \<Longrightarrow> list_all is_digit (pad k n)"
  using FormatInt_digits [of n] by (auto simp: pad_def Let_def list_all_iff is_digit_def)

lemma pad_nonempty: "0 \<le> n \<Longrightarrow> pad k n \<noteq> []"
  using FormatInt_nat [of "nat n"] by (simp add: pad_def Let_def)

lemma itoa_length: "n < 10 ^ k \<Longrightarrow> 0 < k \<Longrightarrow> length (itoa n) \<le> k"
proof (induction n arbitrary: k rule: itoa.induct)
  case (1 n)
  show ?case
  proof (cases "n < 10")
    case True
    with 1(3) show ?thesis by (subst itoa.simps) simp
  next
    case False
    with 1(3) obtain j where k: "k = Suc j" by (cases k) auto
    with 1(2) False have "0 < j" by (cases j) auto
    note j = k this
    with 1(2) have "n div 10 < 10 ^ j" by (simp add: less_mult_imp_div_less mult.commute)
    with 1(1) [OF False, of j] j False show ?thesis by (subst itoa.simps) simp
  qed
qed

lemma pad_length: "0 \<le> n \<Longrightarrow> n < 10 ^ k \<Longrightarrow> 0 < k \<Longrightarrow> length (pad k n) = k"
proof -
  assume n: "0 \<le> n" "n < 10 ^ k" "0 < k"
  then have "nat n < 10 ^ k" by (metis nat_less_eq_zless nat_numeral_as_int of_nat_numeral of_nat_power nat_int)
  then have "length (itoa (nat n)) \<le> k" using n(3) by (rule itoa_length)
  with n(1) FormatInt_nat [of "nat n"] show ?thesis by (simp add: pad_def Let_def)
qed

lemma drop_zeros_pad: "xs = replicate (length xs - length (drop_zeros xs)) (CHR ''0'') @ drop_zeros xs"
proof (induction xs)
  case (Cons c cs)
  have "length (drop_zeros cs) \<le> length cs" by (induction cs) auto
  with Cons show ?case by (auto simp: Suc_diff_le)
qed simp

lemma drop_zeros_inj: "drop_zeros xs = drop_zeros ys \<Longrightarrow> length xs = length ys \<Longrightarrow> xs = ys"
  by (metis drop_zeros_pad)

lemma set_drop_zeros: "set (drop_zeros xs) \<subseteq> set xs"
  by (induction xs) auto

lemma fraction_inj:
  assumes "fraction_text m = fraction_text n" "0 \<le> m" "m < second" "0 \<le> n" "n < second"
  shows "m = n"
proof (cases "m = 0 \<or> n = 0")
  case True
  with assms(1) show ?thesis by (auto simp: fraction_text_def split: if_splits)
next
  case False
  with assms(1) have "drop_zeros (rev (pad 9 m)) = drop_zeros (rev (pad 9 n))" by (simp add: fraction_text_def)
  moreover have "length (pad 9 m) = 9" "length (pad 9 n) = 9"
    using pad_length [of m 9] pad_length [of n 9] assms(2-5) by simp_all
  ultimately have "rev (pad 9 m) = rev (pad 9 n)" by (intro drop_zeros_inj [of "rev (pad 9 m)" "rev (pad 9 n)"]) simp_all
  with assms(2,4) show ?thesis using pad_inj by simp
qed

lemma digit_not: "is_digit c \<Longrightarrow> c \<noteq> CHR ''-'' \<and> c \<noteq> CHR ''T'' \<and> c \<noteq> CHR 0x0A \<and> c \<noteq> CHR ''Z''"
  by (auto simp: is_digit_def less_eq_char_def)

lemma year_text_inj: "year_text y = year_text y' \<Longrightarrow> y = y'"
proof -
  assume eq: "year_text y = year_text y'"
  have hd: "hd (pad 4 n) \<noteq> CHR ''-''" if "0 \<le> n" for n
    using pad_digits [OF that, of 4] pad_nonempty [OF that, of 4] digit_not [of "hd (pad 4 n)"] by (auto simp: list_all_iff)
  show ?thesis
    using eq hd [of y] hd [of y'] pad_inj [of 4 y y'] pad_inj [of 4 "- y" "- y'"]
    by (auto simp: year_text_def split: if_splits dest: arg_cong [of _ _ hd])
qed

lemma year_text_chars: "c \<in> set (year_text y) \<Longrightarrow> is_digit c \<or> c = CHR ''-''"
  using pad_digits [of y 4] pad_digits [of "- y" 4] by (auto simp: year_text_def list_all_iff split: if_splits)

section \<open>The text of an instant determines it\<close>

text \<open>The four groups of a text and the numbers they come from.\<close>

definition date_text :: "int \<Rightarrow> string" where
  "date_text days =
     (let (y, yday) = civil_year_day days; (mo, d) = split_month (month_lengths (leap y)) 1 yday
      in year_text y @ ''-'' @ pad 2 mo @ ''-'' @ pad 2 (d + 1))"

definition clock_text :: "int \<Rightarrow> string" where
  "clock_text r = pad 2 (r div hour) @ '':'' @ pad 2 (r mod hour div minute) @ '':'' @ pad 2 (r mod minute div second)"

lemma RFC3339Nano_parts:
  "RFC3339Nano t = date_text (t div (24 * hour)) @ CHR ''T'' # clock_text (t mod (24 * hour)) @
     fraction_text (t mod (24 * hour) mod second) @ ''Z''"
  by (simp add: RFC3339Nano_def date_text_def clock_text_def Let_def case_prod_beta)

lemma leap_shift: "leap (400 * a + y) = leap y"
proof -
  have "(400 * a + y) mod 4 = y mod 4" "(400 * a + y) mod 100 = y mod 100" "(400 * a + y) mod 400 = y mod 400"
    using mod_mult_self4 [of 4 "100 * a" y] mod_mult_self4 [of 100 "4 * a" y] mod_mult_self4 [of 400 a y] by (simp_all add: mult.assoc)
  then show ?thesis by (simp add: leap_def)
qed

lemma yday_bounds:
  assumes "civil_year_day d = (y, yday)"
  shows "0 \<le> yday" "yday < sum_list (month_lengths True)"
proof -
  obtain a b c e where "0 \<le> snd (civil_year_day d)" "snd (civil_year_day d) < 366" by (rule civil_year_day_parts)
  with assms show "0 \<le> yday" "yday < sum_list (month_lengths True)" by (simp_all add: month_lengths_def)
qed

lemma month_day_bounds:
  assumes "civil_year_day d = (y, yday)" "split_month (month_lengths (leap y)) 1 yday = (mo, day)"
  shows "0 \<le> mo" "mo < 100" "0 \<le> day + 1" "day + 1 < 100"
  using yday_bounds [OF assms(1)] assms(2) by (auto simp: month_lengths_def split: if_splits)

lemma date_text_inj: "date_text d = date_text d' \<Longrightarrow> d = d'"
proof -
  assume eq: "date_text d = date_text d'"
  obtain y yday where c: "civil_year_day d = (y, yday)" by fastforce
  obtain mo day where m: "split_month (month_lengths (leap y)) 1 yday = (mo, day)" by fastforce
  obtain y' yday' where c': "civil_year_day d' = (y', yday')" by fastforce
  obtain mo' day' where m': "split_month (month_lengths (leap y')) 1 yday' = (mo', day')" by fastforce
  note b = month_day_bounds [OF c m] and b' = month_day_bounds [OF c' m']
  have len: "length (pad 2 mo) = 2" "length (pad 2 (day + 1)) = 2" "length (pad 2 mo') = 2" "length (pad 2 (day' + 1)) = 2"
    using b b' by (auto intro!: pad_length)
  from eq have "year_text y @ (''-'' @ pad 2 mo @ ''-'' @ pad 2 (day + 1)) = year_text y' @ (''-'' @ pad 2 mo' @ ''-'' @ pad 2 (day' + 1))"
    by (simp add: date_text_def c m c' m')
  then have "year_text y = year_text y'" and "''-'' @ pad 2 mo @ ''-'' @ pad 2 (day + 1) = ''-'' @ pad 2 mo' @ ''-'' @ pad 2 (day' + 1)"
    using len by (simp_all add: append_eq_append_conv del: append_eq_Cons_conv)
  moreover from this(2) have "pad 2 mo = pad 2 mo'" "pad 2 (day + 1) = pad 2 (day' + 1)"
    using len by (simp_all add: append_eq_append_conv)
  ultimately have "y = y'" "mo = mo'" "day = day'"
    using year_text_inj pad_inj b b' by (auto dest: year_text_inj pad_inj)
  with m m' have "yday = yday'" using split_month_inj by metis
  with c c' \<open>y = y'\<close> show "d = d'" using civil_year_day_inj by simp
qed

lemma clock_seconds:
  fixes r :: int
  shows "r div hour = r div second div 3600" "r mod hour div minute = r div second mod 3600 div 60"
    "r mod minute div second = r div second mod 60"
proof -
  have units: "hour = second * 3600" "minute = second * 60" by simp_all
  have sub: "r mod (second * k) div second = r div second mod k" if "0 < k" for k
    using that by (simp add: zmod_zmult2_eq)
  show "r div hour = r div second div 3600" unfolding units(1) by (rule zdiv_zmult2_eq) simp
  show "r mod minute div second = r div second mod 60" unfolding units(2) by (rule sub) simp
  have "r mod (second * 3600) div (second * 60) = r mod (second * 3600) div second div 60" by (rule zdiv_zmult2_eq) simp
  also have "\<dots> = r div second mod 3600 div 60" by (subst sub) simp_all
  finally show "r mod hour div minute = r div second mod 3600 div 60" unfolding units(1) unfolding units(2) .
qed

lemma seconds_bounds:
  fixes q :: int
  assumes "0 \<le> q" "q < 86400"
  shows "0 \<le> q div 3600" "q div 3600 < 100" "0 \<le> q mod 3600 div 60" "q mod 3600 div 60 < 100" "0 \<le> q mod 60" "q mod 60 < 100"
proof -
  show "0 \<le> q div 3600" using assms(1) by simp
  show "q div 3600 < 100" using assms(2) by simp
  show "0 \<le> q mod 3600 div 60" by simp
  have "q mod 3600 < 3600" by simp
  then show "q mod 3600 div 60 < 100" by simp
  show "0 \<le> q mod 60" by simp
  have "q mod 60 < 60" by simp
  then show "q mod 60 < 100" by linarith
qed

lemma clock_lengths:
  assumes "0 \<le> q" "q < 86400"
  shows "length (pad 2 (q div 3600)) = 2" "length (pad 2 (q mod 3600 div 60)) = 2" "length (pad 2 (q mod 60)) = 2"
proof -
  have two: "length (pad 2 x) = 2" if "0 \<le> x" "x < 100" for x using that by (intro pad_length) simp_all
  note b = seconds_bounds [OF assms]
  show "length (pad 2 (q div 3600)) = 2" using b(1,2) by (rule two)
  show "length (pad 2 (q mod 3600 div 60)) = 2" using b(3,4) by (rule two)
  show "length (pad 2 (q mod 60)) = 2" using b(5,6) by (rule two)
qed

lemma clock_range:
  assumes "0 \<le> r" "r < 24 * hour"
  shows "0 \<le> r div second" "r div second < 86400"
proof -
  show "0 \<le> r div second" using assms(1) by (simp add: pos_imp_zdiv_nonneg_iff)
  show "r div second < 86400" using assms by simp
qed

lemma clock_text_length:
  assumes "0 \<le> r" "r < 24 * hour"
  shows "length (clock_text r) = 8"
  unfolding clock_text_def clock_seconds length_append clock_lengths [OF clock_range [OF assms]] by simp

lemma clock_text_inj:
  assumes eq: "clock_text r = clock_text r'" and r: "0 \<le> r" "r < 24 * hour" and r': "0 \<le> r'" "r' < 24 * hour"
  shows "r div second = r' div second"
proof -
  define q q' where "q = r div second" and "q' = r' div second"
  have q: "0 \<le> q" "q < 86400" "0 \<le> q'" "q' < 86400"
    unfolding q_def q'_def by (rule clock_range [OF r], rule clock_range [OF r], rule clock_range [OF r'], rule clock_range [OF r'])
  note a = seconds_bounds [OF q(1,2)] and b = seconds_bounds [OF q(3,4)]
  have parts: "u = u' \<and> v = v' \<and> w = w'"
    if "u @ '':'' @ v @ '':'' @ w = u' @ '':'' @ v' @ '':'' @ w'" "length u = 2" "length v = 2" "length u' = 2" "length v' = 2"
    for u v w u' v' w' :: string
    using that by (simp add: append_eq_append_conv)
  have "pad 2 (q div 3600) @ '':'' @ pad 2 (q mod 3600 div 60) @ '':'' @ pad 2 (q mod 60) =
      pad 2 (q' div 3600) @ '':'' @ pad 2 (q' mod 3600 div 60) @ '':'' @ pad 2 (q' mod 60)"
    using eq unfolding clock_text_def clock_seconds q_def q'_def .
  note parts [OF this clock_lengths(1,2) [OF q(1,2)] clock_lengths(1,2) [OF q(3,4)]]
  then have e: "q div 3600 = q' div 3600" "q mod 3600 div 60 = q' mod 3600 div 60" "q mod 60 = q' mod 60"
    using a b pad_inj by blast+
  have split: "x = x div 3600 * 3600 + (x mod 3600 div 60 * 60 + x mod 60)" for x :: int
  proof -
    have "x mod 3600 mod 60 = x mod 60" by (rule mod_mod_cancel) simp
    then have "x mod 3600 = x mod 3600 div 60 * 60 + x mod 60" using div_mult_mod_eq [of "x mod 3600" 60] by simp
    then show ?thesis using div_mult_mod_eq [of x 3600] by simp
  qed
  have "q = q'" using split [of q] split [of q'] unfolding e by simp
  then show ?thesis by (simp add: q_def q'_def)
qed

lemma RFC3339Nano_inj: "RFC3339Nano t = RFC3339Nano t' \<Longrightarrow> t = t'"
proof -
  assume eq: "RFC3339Nano t = RFC3339Nano t'"
  have no_T: "CHR ''T'' \<notin> set (date_text d)" for d
  proof -
    obtain y yday where c: "civil_year_day d = (y, yday)" by fastforce
    obtain mo day where m: "split_month (month_lengths (leap y)) 1 yday = (mo, day)" by fastforce
    show ?thesis
      using year_text_chars [of "CHR ''T''" y] month_day_bounds [OF c m] pad_digits [of mo 2] pad_digits [of "day + 1" 2] digit_not [of "CHR ''T''"]
      by (auto simp: date_text_def c m list_all_iff)
  qed
  let ?r = "t mod (24 * hour)" and ?r' = "t' mod (24 * hour)"
  have r: "0 \<le> ?r" "?r < 24 * hour" "0 \<le> ?r'" "?r' < 24 * hour" by simp_all
  from append_sep_inj [OF eq [unfolded RFC3339Nano_parts] no_T no_T]
  have date: "date_text (t div (24 * hour)) = date_text (t' div (24 * hour))"
    and rest: "clock_text ?r @ fraction_text (?r mod second) @ ''Z'' = clock_text ?r' @ fraction_text (?r' mod second) @ ''Z''" by simp_all
  from date have days: "t div (24 * hour) = t' div (24 * hour)" by (rule date_text_inj)
  have ct: "clock_text ?r = clock_text ?r'" and ft: "fraction_text (?r mod second) = fraction_text (?r' mod second)"
    using rest clock_text_length r by (simp_all add: append_eq_append_conv)
  have "?r div second = ?r' div second" by (rule clock_text_inj [OF ct r])
  moreover have "?r mod second = ?r' mod second" by (rule fraction_inj [OF ft]) simp_all
  ultimately have "?r = ?r'" by (metis div_mult_mod_eq)
  with days show "t = t'" by (metis div_mult_mod_eq)
qed

end
