(* ===== verification/Mesh_Signing.thy ===== *)
theory Mesh_Signing
  imports Mesh_Model Mesh_Encoding
begin

text \<open>
  Signed artifacts and sealed keys (\<^verbatim>\<open>internal/control/crypto.go\<close>).  What the package takes from the
  cryptographic libraries are arguments of the definitions: \<open>sign\<close>, \<open>verify\<close> and \<open>public\<close> of Ed25519, \<open>seal\<close>
  and \<open>open\<close> of AES-GCM, \<open>hmac\<close>, and \<open>sha\<close>.  Keys, signatures and sealed values are byte lists.  The theorems
  say what the payloads bind: which metadata and which configuration digest a signature stands for.
\<close>

type_synonym bytes = "nat list"

abbreviation (input) MaxManagedConfigBytes :: int where "MaxManagedConfigBytes \<equiv> 4194304"
abbreviation (input) PublicKeySize :: nat where "PublicKeySize \<equiv> 32"
abbreviation (input) PrivateKeySize :: nat where "PrivateKeySize \<equiv> 64"
abbreviation (input) SignatureSize :: nat where "SignatureSize \<equiv> 64"
abbreviation (input) NonceSize :: nat where "NonceSize \<equiv> 12"

section \<open>Desired-configuration signatures\<close>

record ConfigSignatureMetadata =
  csNodeID :: string
  csNetworkID :: string
  csRevision :: int
  csIssuedAt :: time
  csCACertificateSHA256 :: string
  csPreviousCACertificateSHA256 :: string
  csCARotationRequired :: bool
  csCertificateProfileRenewalRequired :: bool
  csCertificateFingerprint :: string
  csCertificateExpiresAt :: time
  csCertificateRenewAfter :: time
  csCertificateGeneration :: int
  csPublicKeyHash :: string

definition validateManagedConfig :: "string \<Rightarrow> unit result" where
  "validateManagedConfig config =
     guard_result (config \<noteq> [] \<and> int (length config) \<le> MaxManagedConfigBytes \<and> ValidString config \<and> CHR 0x0D \<notin> set config)
       ErrInternal (Inr ())"

definition one_line :: "string \<Rightarrow> bool" where
  "one_line s = (CHR 0x0D \<notin> set s \<and> CHR 0x0A \<notin> set s)"

definition validateConfigSignatureMetadata :: "ConfigSignatureMetadata \<Rightarrow> unit result" where
  "validateConfigSignatureMetadata m =
     guard_result (csNodeID m \<noteq> [] \<and> csNetworkID m \<noteq> [] \<and> one_line (csNodeID m) \<and> one_line (csNetworkID m)) ErrInternal
    (guard_result (1 \<le> csRevision m \<and> 1 \<le> csCertificateGeneration m \<and> csIssuedAt m \<noteq> 0 \<and> csCertificateExpiresAt m \<noteq> 0 \<and>
        csCertificateRenewAfter m \<noteq> 0 \<and> csCertificateRenewAfter m < csCertificateExpiresAt m) ErrInternal
    (guard_result (fingerprintPattern (csCACertificateSHA256 m) \<and> fingerprintPattern (csCertificateFingerprint m) \<and>
        ValidTokenHash (csPublicKeyHash m)) ErrInternal
    (guard_result (csPreviousCACertificateSHA256 m = [] \<or> fingerprintPattern (csPreviousCACertificateSHA256 m) \<and>
        csPreviousCACertificateSHA256 m \<noteq> csCACertificateSHA256 m) ErrInternal
    (guard_result (\<not> (csCARotationRequired m \<and> csPreviousCACertificateSHA256 m = [])) ErrInternal
    (guard_result (\<not> (csCARotationRequired m \<and> csCertificateProfileRenewalRequired m)) ErrInternal
    (Inr ()))))))"

definition payload_head :: "ConfigSignatureMetadata \<Rightarrow> string \<Rightarrow> string list" where
  "payload_head m digest =
     [''node_id='' @ csNodeID m, ''network_id='' @ csNetworkID m, ''revision='' @ FormatInt (csRevision m),
      ''issued_at='' @ RFC3339Nano (csIssuedAt m), ''config_sha256='' @ digest, ''ca_sha256='' @ csCACertificateSHA256 m]"

definition payload_tail :: "ConfigSignatureMetadata \<Rightarrow> string list" where
  "payload_tail m =
     [''certificate_fingerprint='' @ csCertificateFingerprint m,
      ''certificate_expires_at='' @ RFC3339Nano (csCertificateExpiresAt m),
      ''certificate_renew_after='' @ RFC3339Nano (csCertificateRenewAfter m),
      ''certificate_generation='' @ FormatInt (csCertificateGeneration m), ''public_key_hash='' @ csPublicKeyHash m]"

definition FormatBool :: "bool \<Rightarrow> string" where
  "FormatBool b = (if b then ''true'' else ''false'')"

definition payload_lines :: "ConfigSignatureMetadata \<Rightarrow> string \<Rightarrow> string list" where
  "payload_lines m digest =
     (if csPreviousCACertificateSHA256 m = [] \<and> \<not> csCARotationRequired m \<and> \<not> csCertificateProfileRenewalRequired m then
        [''mesh-desired-artifact-v3''] @ payload_head m digest @ payload_tail m
      else if csCertificateProfileRenewalRequired m then
        [''mesh-desired-artifact-v5''] @ payload_head m digest @ [''certificate_profile_renewal_required=true''] @ payload_tail m
      else
        [''mesh-desired-artifact-v4''] @ payload_head m digest @
        [''previous_ca_sha256='' @ csPreviousCACertificateSHA256 m,
         ''ca_rotation_required='' @ FormatBool (csCARotationRequired m)] @ payload_tail m)"

definition configSigningPayload :: "sha256 \<Rightarrow> ConfigSignatureMetadata \<Rightarrow> string \<Rightarrow> string \<times> string" where
  "configSigningPayload sha m config = (let digest = ConfigDigest sha config in (digest, unlines (payload_lines m digest)))"

definition SignConfig ::
  "sha256 \<Rightarrow> (bytes \<Rightarrow> string \<Rightarrow> bytes) \<Rightarrow> bytes \<Rightarrow> ConfigSignatureMetadata \<Rightarrow> string \<Rightarrow> (string \<times> string) result" where
  "SignConfig sha sign privateKey m config =
     guard_result (length privateKey = PrivateKeySize) ErrInternal
    (bind_result (validateManagedConfig config) (\<lambda>_.
     bind_result (validateConfigSignatureMetadata m) (\<lambda>_.
     let (digest, canonical) = configSigningPayload sha m config in
     Inr (digest, EncodeToString (sign privateKey canonical)))))"

definition decode_key :: "string \<Rightarrow> bytes result" where
  "decode_key encoded =
     (case DecodeString encoded of
        None \<Rightarrow> Inl ErrInternal
      | Some key \<Rightarrow> guard_result (length key = PublicKeySize) ErrInternal (Inr key))"

definition decode_signature :: "string \<Rightarrow> bytes result" where
  "decode_signature encoded =
     (case DecodeString encoded of
        None \<Rightarrow> Inl ErrInternal
      | Some signature \<Rightarrow> guard_result (length signature = SignatureSize) ErrInternal (Inr signature))"

definition VerifyConfig ::
  "sha256 \<Rightarrow> (bytes \<Rightarrow> string \<Rightarrow> bytes \<Rightarrow> bool) \<Rightarrow> string \<Rightarrow> ConfigSignatureMetadata \<Rightarrow> string \<Rightarrow> string \<Rightarrow> string \<Rightarrow> unit result" where
  "VerifyConfig sha verify publicKeyEncoded m config expectedDigest signatureEncoded =
     bind_result (decode_key publicKeyEncoded) (\<lambda>publicKey.
     bind_result (validateConfigSignatureMetadata m) (\<lambda>_.
     bind_result (validateManagedConfig config) (\<lambda>_.
     bind_result (decode_signature signatureEncoded) (\<lambda>signature.
     let (digest, canonical) = configSigningPayload sha m config in
     guard_result (digest = expectedDigest) ErrInternal
    (guard_result (verify publicKey canonical signature) ErrInternal (Inr ()))))))"

definition ValidateConfigSigningKeyPair :: "(bytes \<Rightarrow> bytes) \<Rightarrow> string \<Rightarrow> bytes \<Rightarrow> unit result" where
  "ValidateConfigSigningKeyPair public publicKeyEncoded privateKey =
     bind_result (decode_key publicKeyEncoded) (\<lambda>publicKey.
     guard_result (EncodeToString publicKey = publicKeyEncoded) ErrInternal
    (guard_result (length privateKey = PrivateKeySize) ErrInternal
    (guard_result (publicKey = public privateKey) ErrInternal (Inr ()))))"

section \<open>Recovery receipts\<close>

definition receipt_lines :: "RecoveryReceipt \<Rightarrow> string list" where
  "receipt_lines r =
     [''mesh-agent-recovery-receipt-v1'', ''node_id='' @ rrNodeID r, ''network_id='' @ rrNetworkID r,
      ''new_agent_token_hash='' @ rrNewAgentTokenHash r,
      ''agent_credential_generation='' @ FormatInt (rrAgentCredentialGeneration r),
      ''agent_credential_expires_at='' @ RFC3339Nano (rrAgentCredentialExpiresAt r),
      ''config_sha256='' @ rrConfigSHA256 r, ''config_signature='' @ rrConfigSignature r]"

definition recoveryReceiptPayload :: "RecoveryReceipt \<Rightarrow> string result" where
  "recoveryReceiptPayload r =
     guard_result (validPersistedID (rrNodeID r) \<and> validPersistedID (rrNetworkID r)) ErrInternal
    (guard_result (ValidTokenHash (rrNewAgentTokenHash r) \<and> 1 \<le> rrAgentCredentialGeneration r \<and> rrAgentCredentialExpiresAt r \<noteq> 0) ErrInternal
    (guard_result (fingerprintPattern (rrConfigSHA256 r)) ErrInternal
    (bind_result (decode_signature (rrConfigSignature r)) (\<lambda>configSignature.
     guard_result (EncodeToString configSignature = rrConfigSignature r) ErrInternal
    (Inr (unlines (receipt_lines r)))))))"

definition SignRecoveryReceipt :: "(bytes \<Rightarrow> string \<Rightarrow> bytes) \<Rightarrow> bytes \<Rightarrow> RecoveryReceipt \<Rightarrow> string result" where
  "SignRecoveryReceipt sign privateKey r =
     guard_result (length privateKey = PrivateKeySize) ErrInternal
    (bind_result (recoveryReceiptPayload r) (\<lambda>canonical. Inr (EncodeToString (sign privateKey canonical))))"

definition VerifyRecoveryReceipt :: "(bytes \<Rightarrow> string \<Rightarrow> bytes \<Rightarrow> bool) \<Rightarrow> string \<Rightarrow> RecoveryReceipt \<Rightarrow> unit result" where
  "VerifyRecoveryReceipt verify publicKeyEncoded r =
     bind_result (decode_key publicKeyEncoded) (\<lambda>publicKey.
     guard_result (EncodeToString publicKey = publicKeyEncoded) ErrInternal
    (bind_result (decode_signature (rrSignature r)) (\<lambda>signature.
     bind_result (recoveryReceiptPayload r) (\<lambda>canonical.
     guard_result (verify publicKey canonical signature) ErrInternal (Inr ())))))"

section \<open>Sealed keys and verifiers\<close>

definition SealFor :: "(bytes \<Rightarrow> bytes \<Rightarrow> string \<Rightarrow> bytes) \<Rightarrow> bytes \<Rightarrow> string \<Rightarrow> bytes \<Rightarrow> string" where
  "SealFor seal nonce purpose plain = EncodeToString (nonce @ seal nonce plain (''mesh-'' @ purpose))"

definition OpenFor :: "(bytes \<Rightarrow> bytes \<Rightarrow> string \<Rightarrow> bytes option) \<Rightarrow> string \<Rightarrow> string \<Rightarrow> bytes result" where
  "OpenFor open_aead purpose encoded =
     (case DecodeString encoded of
        None \<Rightarrow> Inl ErrInternal
      | Some sealed \<Rightarrow>
          guard_result (NonceSize \<le> length sealed) ErrInternal
         (case open_aead (take NonceSize sealed) (drop NonceSize sealed) (''mesh-'' @ purpose) of
            None \<Rightarrow> Inl ErrInternal
          | Some plain \<Rightarrow> Inr plain))"

definition validateAdminCredential :: "string \<Rightarrow> unit result" where
  "validateAdminCredential adminToken =
     guard_result (32 \<le> length adminToken \<and> length adminToken \<le> 4096) ErrInternal
    (guard_result (list_all graphic adminToken) ErrInternal (Inr ()))"

definition DeriveAdminCredentialVerifier :: "(bytes \<Rightarrow> string \<Rightarrow> bytes) \<Rightarrow> bytes \<Rightarrow> string \<Rightarrow> string result" where
  "DeriveAdminCredentialVerifier hmac masterKey adminToken =
     guard_result (length masterKey = 32) ErrInternal
    (bind_result (validateAdminCredential adminToken) (\<lambda>_.
     let verifierKey = hmac masterKey ''mesh-admin-credential-verifier-key-v1'' in
     Inr (adminCredentialVerifierPrefix @
       EncodeToString (hmac verifierKey (''mesh-admin-credential-verifier-value-v1'' @ [CHR 0x00] @ adminToken)))))"

definition DeriveMasterKeyVerifier :: "(bytes \<Rightarrow> string \<Rightarrow> bytes) \<Rightarrow> bytes \<Rightarrow> string result" where
  "DeriveMasterKeyVerifier hmac masterKey =
     guard_result (length masterKey = 32) ErrInternal
    (Inr (adminCredentialVerifierPrefix @ EncodeToString (hmac masterKey ''mesh-master-key-verifier-v1'')))"

section \<open>Lemmas: characters of the fields\<close>

lemma b64_val_lt: "b64_val c = Some v \<Longrightarrow> v < 64"
  by (auto simp: b64_val_def dest: find_idx_lt)

lemma all_some_elem: "all_some xs = Some ys \<Longrightarrow> y \<in> set ys \<Longrightarrow> Some y \<in> set xs"
  by (induction xs arbitrary: ys rule: all_some.induct) auto

lemma b64_dec_lt: "b64_dec vs = Some bs \<Longrightarrow> \<forall>v\<in>set vs. v < 64 \<Longrightarrow> \<forall>b\<in>set bs. b < 256"
proof (induction vs arbitrary: bs rule: b64_dec.induct)
  case (5 a b c d vs)
  then obtain bs' where bs: "b64_dec vs = Some bs'" "bs = [a * 4 + b div 16, b mod 16 * 16 + c div 4, c mod 4 * 64 + d] @ bs'" by auto
  have "a * 4 + b div 16 < 256" "b mod 16 * 16 + c div 4 < 256" "c mod 4 * 64 + d < 256" using 5(3) by auto
  with 5(1) [OF bs(1)] 5(3) bs(2) show ?case by auto
qed auto

lemma DecodeString_bytes: "DecodeString s = Some bs \<Longrightarrow> \<forall>b\<in>set bs. b < 256"
proof -
  assume "DecodeString s = Some bs"
  then obtain vs where vs: "all_some (map b64_val (filter (\<lambda>c. c \<noteq> CHR 0x0A \<and> c \<noteq> CHR 0x0D) s)) = Some vs" "b64_dec vs = Some bs"
    by (auto simp: DecodeString_def split: option.splits)
  have "v < 64" if "v \<in> set vs" for v
    using all_some_elem [OF vs(1) that] by (auto dest: b64_val_lt [OF sym])
  with vs(2) show ?thesis by (intro b64_dec_lt) blast+
qed

lemma EncodeToString_one_line: "\<forall>b\<in>set bs. b < 256 \<Longrightarrow> line_free (EncodeToString bs)"
proof -
  assume "\<forall>b\<in>set bs. b < 256"
  then have v: "\<forall>v\<in>set (b64_enc bs). v < 64" by (rule b64_enc_lt)
  show ?thesis unfolding line_free_def
  proof
    assume "CHR 0x0A \<in> set (EncodeToString bs)"
    then obtain v where "v \<in> set (b64_enc bs)" "b64_char v = CHR 0x0A" by (auto simp: EncodeToString_def)
    with v b64_char_not_newline [of v] show False by simp
  qed
qed

lemma ValidTokenHash_one_line: "ValidTokenHash h \<Longrightarrow> line_free h"
  using DecodeString_bytes EncodeToString_one_line by (auto simp: ValidTokenHash_def split: option.splits)

lemma fingerprint_one_line: "fingerprintPattern s \<Longrightarrow> line_free s"
  by (auto simp: fingerprintPattern_def line_free_def list_all_iff is_digit_def less_eq_char_def)

lemma FormatInt_one_line: "line_free (FormatInt n)"
  using FormatInt_digits [of n] FormatInt_digits [of "- n"] digit_not [of "CHR 0x0A"]
  by (auto simp: line_free_def FormatInt_def list_all_iff)

lemma FormatInt_inj: "FormatInt m = FormatInt n \<Longrightarrow> 0 \<le> m \<Longrightarrow> 0 \<le> n \<Longrightarrow> m = n"
  by (metis dec_int_itoa)

lemma persisted_one_line: "validPersistedID s \<Longrightarrow> line_free s"
  by (auto simp: validPersistedID_def line_free_def list_all_iff is_alnum_def is_digit_def is_lower_def is_upper_def less_eq_char_def)

lemma pad_one_line: "0 \<le> n \<Longrightarrow> CHR 0x0A \<notin> set (pad k n)"
  using pad_digits [of n k] digit_not by (auto simp: list_all_iff)

lemma RFC3339Nano_one_line: "line_free (RFC3339Nano t)"
proof -
  have date: "CHR 0x0A \<notin> set (date_text d)" for d
  proof -
    obtain y yday where c: "civil_year_day d = (y, yday)" by fastforce
    obtain mo day where m: "split_month (month_lengths (leap y)) 1 yday = (mo, day)" by fastforce
    show ?thesis
      using year_text_chars [of "CHR 0x0A" y] month_day_bounds [OF c m] pad_one_line digit_not [of "CHR 0x0A"]
      by (auto simp: date_text_def c m)
  qed
  have colons: "CHR 0x0A \<notin> set (u @ '':'' @ v @ '':'' @ w)" if "CHR 0x0A \<notin> set u" "CHR 0x0A \<notin> set v" "CHR 0x0A \<notin> set w" for u v w
    using that by simp
  have clock: "CHR 0x0A \<notin> set (clock_text r)" if "0 \<le> r" "r < 24 * hour" for r
    unfolding clock_text_def clock_seconds
    by (intro colons pad_one_line seconds_bounds(1,3,5) [OF clock_range [OF that]])
  have frac: "CHR 0x0A \<notin> set (fraction_text n)" if "0 \<le> n" for n
    using pad_one_line [OF that, of 9] set_drop_zeros [of "rev (pad 9 n)"] by (auto simp: fraction_text_def)
  show ?thesis
    unfolding line_free_def RFC3339Nano_parts using date [of "t div (24 * hour)"] clock [of "t mod (24 * hour)"] frac [of "t mod (24 * hour) mod second"]
    by simp
qed

lemma hex_digit_one_line: "n < 16 \<Longrightarrow> hex_digit n \<noteq> CHR 0x0A"
proof -
  assume "n < 16"
  then have "hex_digit n \<in> set ''0123456789abcdef''" unfolding hex_digit_def by (intro nth_mem) simp
  then show ?thesis by auto
qed

lemma ConfigDigest_one_line: "sum_shape sha \<Longrightarrow> line_free (ConfigDigest sha s)"
proof -
  assume "sum_shape sha"
  then have lt: "b div 16 < 16" "b mod 16 < 16" if "b \<in> set (sha s)" for b
    using that by (auto simp: sum_shape_def less_mult_imp_div_less)
  show ?thesis unfolding line_free_def
  proof
    assume "CHR 0x0A \<in> set (ConfigDigest sha s)"
    then obtain b where "b \<in> set (sha s)" "hex_digit (b div 16) = CHR 0x0A \<or> hex_digit (b mod 16) = CHR 0x0A"
      by (auto simp: ConfigDigest_def hex_string_def)
    with lt [of b] hex_digit_one_line show False by blast
  qed
qed

section \<open>Lemmas: what a payload determines\<close>

lemma line_free_simps [simp]:
  "line_free (a @ b) \<longleftrightarrow> line_free a \<and> line_free b" "line_free (c # b) \<longleftrightarrow> c \<noteq> CHR 0x0A \<and> line_free b" "line_free []"
  by (auto simp: line_free_def)

lemma metadata_ok_iff:
  "validateConfigSignatureMetadata m = Inr () \<longleftrightarrow>
     csNodeID m \<noteq> [] \<and> csNetworkID m \<noteq> [] \<and> one_line (csNodeID m) \<and> one_line (csNetworkID m) \<and>
     1 \<le> csRevision m \<and> 1 \<le> csCertificateGeneration m \<and> csIssuedAt m \<noteq> 0 \<and> csCertificateExpiresAt m \<noteq> 0 \<and>
     csCertificateRenewAfter m \<noteq> 0 \<and> csCertificateRenewAfter m < csCertificateExpiresAt m \<and>
     fingerprintPattern (csCACertificateSHA256 m) \<and> fingerprintPattern (csCertificateFingerprint m) \<and> ValidTokenHash (csPublicKeyHash m) \<and>
     (csPreviousCACertificateSHA256 m = [] \<or> fingerprintPattern (csPreviousCACertificateSHA256 m) \<and>
        csPreviousCACertificateSHA256 m \<noteq> csCACertificateSHA256 m) \<and>
     (csCARotationRequired m \<longrightarrow> csPreviousCACertificateSHA256 m \<noteq> [] \<and> \<not> csCertificateProfileRenewalRequired m)"
  by (auto simp: validateConfigSignatureMetadata_def)

lemma payload_lines_free:
  assumes "sum_shape sha" "validateConfigSignatureMetadata m = Inr ()"
  shows "list_all line_free (payload_lines m (ConfigDigest sha c))"
proof -
  have "line_free (csNodeID m)" "line_free (csNetworkID m)" "line_free (csPreviousCACertificateSHA256 m)"
    "line_free (csCACertificateSHA256 m)" "line_free (csCertificateFingerprint m)" "line_free (csPublicKeyHash m)"
    using assms(2) fingerprint_one_line ValidTokenHash_one_line
    by (auto simp: metadata_ok_iff one_line_def line_free_def)
  with assms(1) show ?thesis
    by (simp add: payload_lines_def payload_head_def payload_tail_def FormatInt_one_line RFC3339Nano_one_line ConfigDigest_one_line
        FormatBool_def)
qed

lemma FormatBool_inj [simp]: "FormatBool a = FormatBool b \<longleftrightarrow> a = b"
  by (simp add: FormatBool_def)

text \<open>
  What a payload says about the metadata: every field, except that an artifact of version 5 says nothing
  about the previous trust bundle.
\<close>

lemma payload_fields:
  assumes "payload_lines m d = payload_lines m' d'"
    and "validateConfigSignatureMetadata m = Inr ()" "validateConfigSignatureMetadata m' = Inr ()"
  shows "d = d' \<and> csNodeID m = csNodeID m' \<and> csNetworkID m = csNetworkID m' \<and>
     csRevision m = csRevision m' \<and> csIssuedAt m = csIssuedAt m' \<and> csCACertificateSHA256 m = csCACertificateSHA256 m' \<and>
     csCARotationRequired m = csCARotationRequired m' \<and>
     csCertificateProfileRenewalRequired m = csCertificateProfileRenewalRequired m' \<and>
     (csCertificateProfileRenewalRequired m \<or> csPreviousCACertificateSHA256 m = csPreviousCACertificateSHA256 m') \<and>
     csCertificateFingerprint m = csCertificateFingerprint m' \<and> csCertificateExpiresAt m = csCertificateExpiresAt m' \<and>
     csCertificateRenewAfter m = csCertificateRenewAfter m' \<and> csCertificateGeneration m = csCertificateGeneration m' \<and>
     csPublicKeyHash m = csPublicKeyHash m'"
  using assms FormatInt_inj [of "csRevision m" "csRevision m'"] FormatInt_inj [of "csCertificateGeneration m" "csCertificateGeneration m'"]
    RFC3339Nano_inj [of "csIssuedAt m" "csIssuedAt m'"] RFC3339Nano_inj [of "csCertificateExpiresAt m" "csCertificateExpiresAt m'"]
    RFC3339Nano_inj [of "csCertificateRenewAfter m" "csCertificateRenewAfter m'"]
  by (simp add: payload_lines_def payload_head_def payload_tail_def metadata_ok_iff split: if_splits)

lemma payload_lines_inj:
  assumes "payload_lines m d = payload_lines m' d'"
    and "validateConfigSignatureMetadata m = Inr ()" "validateConfigSignatureMetadata m' = Inr ()"
  shows "d = d' \<and> m' = (if csCertificateProfileRenewalRequired m
    then m\<lparr>csPreviousCACertificateSHA256 := csPreviousCACertificateSHA256 m'\<rparr> else m)"
  using payload_fields [OF assms] by (cases "csCertificateProfileRenewalRequired m") simp_all

lemma payload_lines_v5:
  "csCertificateProfileRenewalRequired m \<Longrightarrow> payload_lines (m\<lparr>csPreviousCACertificateSHA256 := x\<rparr>) d = payload_lines m d"
  by (simp add: payload_lines_def payload_head_def payload_tail_def)

lemma fst_payload: "fst (configSigningPayload sha m c) = ConfigDigest sha c"
  by (simp add: configSigningPayload_def Let_def)

lemma snd_payload: "snd (configSigningPayload sha m c) = unlines (payload_lines m (ConfigDigest sha c))"
  by (simp add: configSigningPayload_def Let_def)

lemma receipt_lines_free:
  assumes "recoveryReceiptPayload r = Inr p"
  shows "list_all line_free (receipt_lines r)" "p = unlines (receipt_lines r)"
proof -
  from assms obtain sig where "decode_signature (rrConfigSignature r) = Inr sig" "EncodeToString sig = rrConfigSignature r"
    "validPersistedID (rrNodeID r)" "validPersistedID (rrNetworkID r)" "ValidTokenHash (rrNewAgentTokenHash r)" "fingerprintPattern (rrConfigSHA256 r)"
    by (auto simp: recoveryReceiptPayload_def)
  moreover from this have "line_free (rrConfigSignature r)"
    using DecodeString_bytes [of "rrConfigSignature r"] EncodeToString_one_line [of sig]
    by (auto simp: decode_signature_def split: option.splits)
  ultimately show "list_all line_free (receipt_lines r)"
    using persisted_one_line ValidTokenHash_one_line fingerprint_one_line
    by (simp add: receipt_lines_def FormatInt_one_line RFC3339Nano_one_line)
  show "p = unlines (receipt_lines r)" using assms by (auto simp: recoveryReceiptPayload_def)
qed

definition sample_metadata :: ConfigSignatureMetadata where
  "sample_metadata = \<lparr>csNodeID = ''node'', csNetworkID = ''net'', csRevision = 3, csIssuedAt = hour,
     csCACertificateSHA256 = hex_string (replicate 32 1), csPreviousCACertificateSHA256 = [], csCARotationRequired = False,
     csCertificateProfileRenewalRequired = False, csCertificateFingerprint = hex_string (replicate 32 2),
     csCertificateExpiresAt = 3 * hour, csCertificateRenewAfter = 2 * hour, csCertificateGeneration = 1,
     csPublicKeyHash = EncodeToString (replicate 32 3)\<rparr>"

definition sample_receipt :: RecoveryReceipt where
  "sample_receipt = \<lparr>rrNodeID = ''node'', rrNetworkID = ''net'', rrNewAgentTokenHash = EncodeToString (replicate 32 4),
     rrAgentCredentialGeneration = 2, rrAgentCredentialExpiresAt = hour, rrConfigSHA256 = hex_string (replicate 32 5),
     rrConfigSignature = EncodeToString (replicate 64 6), rrSignature = []\<rparr>"

definition flat_sha :: sha256 where
  "flat_sha s = replicate 32 (length s mod 256)"

lemma flat_sha_shape: "sum_shape flat_sha"
  by (simp add: sum_shape_def flat_sha_def)

lemma sample_metadata_ok:
  "validateConfigSignatureMetadata sample_metadata = Inr ()"
  "validateConfigSignatureMetadata (sample_metadata\<lparr>csCertificateProfileRenewalRequired := True\<rparr>) = Inr ()"
  "validateConfigSignatureMetadata (sample_metadata\<lparr>csCertificateProfileRenewalRequired := True,
     csPreviousCACertificateSHA256 := hex_string (replicate 32 7)\<rparr>) = Inr ()"
  "validateManagedConfig ''pki:'' = Inr ()" "is_ok (recoveryReceiptPayload sample_receipt)"
  "validateConfigSignatureMetadata (sample_metadata\<lparr>csRevision := 4\<rparr>) = Inr ()"
  by code_simp+

section \<open>Properties\<close>

text \<open>No recovery receipt has the payload of a configuration, so a signature on one is never a signature
  on the other; and the payload of a receipt determines every field it signs.\<close>
theorem receipt_payload_separate:
  assumes "sum_shape sha" "recoveryReceiptPayload r = Inr p"
  shows "(validateConfigSignatureMetadata m = Inr () \<longrightarrow> p \<noteq> snd (configSigningPayload sha m config)) \<and>
    (recoveryReceiptPayload r' = Inr p \<longrightarrow> r' = r\<lparr>rrSignature := rrSignature r'\<rparr>)"
proof (intro conjI impI)
  note r = receipt_lines_free [OF assms(2)]
  show "p \<noteq> snd (configSigningPayload sha m config)" if m: "validateConfigSignatureMetadata m = Inr ()"
  proof
    assume "p = snd (configSigningPayload sha m config)"
    then have "receipt_lines r = payload_lines m (ConfigDigest sha config)"
      using r payload_lines_free [OF assms(1) m] by (intro unlines_inj) (simp_all add: snd_payload)
    then show False by (simp add: receipt_lines_def payload_lines_def split: if_splits)
  qed
  assume r': "recoveryReceiptPayload r' = Inr p"
  note q = receipt_lines_free [OF r']
  have "receipt_lines r = receipt_lines r'" using r q by (intro unlines_inj) simp_all
  moreover have "1 \<le> rrAgentCredentialGeneration r" "1 \<le> rrAgentCredentialGeneration r'"
    using assms(2) r' by (auto simp: recoveryReceiptPayload_def)
  ultimately show "r' = r\<lparr>rrSignature := rrSignature r'\<rparr>"
    by (cases r; cases r') (auto simp: receipt_lines_def dest!: RFC3339Nano_inj FormatInt_inj)
qed

theorem receipt_payload_separate_witness:
  "\<exists>p. recoveryReceiptPayload sample_receipt = Inr p \<and> p \<noteq> snd (configSigningPayload flat_sha sample_metadata ''pki:'')"
proof -
  obtain p where p: "recoveryReceiptPayload sample_receipt = Inr p" using sample_metadata_ok(5) by (auto simp: is_ok_iff)
  from receipt_payload_separate [OF flat_sha_shape p, of sample_metadata "''pki:''"] p sample_metadata_ok(1) show ?thesis by blast
qed

text \<open>C18. What a network key signs for an agent determines what the agent is told.  Two well-formed metadata with
  their configurations have the same signed text exactly when the digests of the configurations are equal and
  the metadata are equal in every field, with one exception: the text of an artifact that demands a
  certificate-profile renewal leaves out the previous trust bundle, although the metadata is documented as the
  complete context a signature authenticates.  No recovery receipt, which the same key signs, has the text of
  a configuration.\<close>
theorem signing_payload_exact:
  assumes "sum_shape sha" "validateConfigSignatureMetadata m = Inr ()" "validateConfigSignatureMetadata m' = Inr ()"
  shows "(configSigningPayload sha m config = configSigningPayload sha m' config' \<longleftrightarrow>
      ConfigDigest sha config = ConfigDigest sha config' \<and>
      m' = (if csCertificateProfileRenewalRequired m
            then m\<lparr>csPreviousCACertificateSHA256 := csPreviousCACertificateSHA256 m'\<rparr> else m)) \<and>
    recoveryReceiptPayload r \<noteq> Inr (snd (configSigningPayload sha m config))"
proof (intro conjI iffI)
  assume "configSigningPayload sha m config = configSigningPayload sha m' config'"
  then have "unlines (payload_lines m (ConfigDigest sha config)) = unlines (payload_lines m' (ConfigDigest sha config'))"
    unfolding configSigningPayload_def Let_def by blast
  then have "payload_lines m (ConfigDigest sha config) = payload_lines m' (ConfigDigest sha config')"
    using payload_lines_free assms by (blast intro: unlines_inj)
  then show "ConfigDigest sha config = ConfigDigest sha config'"
    "m' = (if csCertificateProfileRenewalRequired m
       then m\<lparr>csPreviousCACertificateSHA256 := csPreviousCACertificateSHA256 m'\<rparr> else m)"
    using payload_lines_inj assms(2,3) by blast+
next
  assume eq: "ConfigDigest sha config = ConfigDigest sha config' \<and>
    m' = (if csCertificateProfileRenewalRequired m
      then m\<lparr>csPreviousCACertificateSHA256 := csPreviousCACertificateSHA256 m'\<rparr> else m)"
  then have "payload_lines m' d = payload_lines m d" for d by (metis payload_lines_v5)
  with eq show "configSigningPayload sha m config = configSigningPayload sha m' config'"
    by (simp add: configSigningPayload_def Let_def)
next
  show "recoveryReceiptPayload r \<noteq> Inr (snd (configSigningPayload sha m config))"
    using receipt_payload_separate [OF assms(1), of r "snd (configSigningPayload sha m config)" m config] assms(2) by blast
qed

theorem signing_payload_exact_witness:
  "configSigningPayload flat_sha sample_metadata ''pki:'' \<noteq> configSigningPayload flat_sha (sample_metadata\<lparr>csRevision := 4\<rparr>) ''pki:'' \<and>
   configSigningPayload flat_sha (sample_metadata\<lparr>csCertificateProfileRenewalRequired := True\<rparr>) ''pki:'' =
     configSigningPayload flat_sha (sample_metadata\<lparr>csCertificateProfileRenewalRequired := True,
       csPreviousCACertificateSHA256 := hex_string (replicate 32 7)\<rparr>) ''pki:''"
proof
  show "configSigningPayload flat_sha sample_metadata ''pki:'' \<noteq> configSigningPayload flat_sha (sample_metadata\<lparr>csRevision := 4\<rparr>) ''pki:''"
    using signing_payload_exact [OF flat_sha_shape sample_metadata_ok(1,6), of "''pki:''" "''pki:''"] by (simp add: sample_metadata_def)
  show "configSigningPayload flat_sha (sample_metadata\<lparr>csCertificateProfileRenewalRequired := True\<rparr>) ''pki:'' =
     configSigningPayload flat_sha (sample_metadata\<lparr>csCertificateProfileRenewalRequired := True,
       csPreviousCACertificateSHA256 := hex_string (replicate 32 7)\<rparr>) ''pki:''"
    using signing_payload_exact [OF flat_sha_shape sample_metadata_ok(2,3), of "''pki:''" "''pki:''"] by simp
qed

text \<open>C38. A sealed key opens again: with an authenticated cipher that inverts its own sealing, opening what
  was sealed for a purpose under a nonce of twelve bytes returns the plain text.\<close>
theorem seal_open:
  assumes "length nonce = 12" "\<forall>b\<in>set nonce. b < 256"
    and "\<forall>b\<in>set (seal nonce plain (''mesh-'' @ purpose)). b < 256"
    and "open_aead nonce (seal nonce plain (''mesh-'' @ purpose)) (''mesh-'' @ purpose) = Some plain"
  shows "OpenFor open_aead purpose (SealFor seal nonce purpose plain) = Inr plain"
  using assms by (auto simp: OpenFor_def SealFor_def DecodeString_EncodeToString guard_result_def ball_Un)

theorem seal_open_witness:
  "OpenFor (\<lambda>n c a. Some c) ''ca-key-v1'' (SealFor (\<lambda>n p a. p) (replicate 12 1) ''ca-key-v1'' [5, 6]) = Inr [5, 6]"
  by (rule seal_open) simp_all

end
