(* ===== verification/Mesh_Agent.thy ===== *)
theory Mesh_Agent
  imports Mesh_FirewallRollout Mesh_Signing
begin

text \<open>
  The calls of an enrolled agent (\<^verbatim>\<open>internal/control/service.go\<close>): it fetches its signed configuration,
  fetches its bundle again, reports its state in heartbeats, and authorises telemetry against the last
  heartbeat.  The key of the network is opened by \<open>box\<close> (\<^verbatim>\<open>SecretBox.OpenFor\<close> under the master key) and
  used by \<open>sign\<close>; \<open>viewed\<close> is the state the preflight read reads at the instant \<open>at\<close>.
\<close>

section \<open>Signed configurations\<close>

record AgentConfig =
  acNodeID :: string
  acNetworkID :: string
  acRevision :: int
  acConfig :: string
  acIssuedAt :: time
  acSHA256 :: string
  acCACertificateSHA256 :: string
  acPreviousCACertificateSHA256 :: string
  acCARotationRequired :: bool
  acCertificateProfileRenewalRequired :: bool
  acCertificateFingerprint :: string
  acCertificateGeneration :: int
  acPublicKeyHash :: string
  acSignature :: string
  acCertificateExpiresAt :: time
  acCertificateRenewAfter :: time

definition SignatureMetadata :: "AgentConfig \<Rightarrow> ConfigSignatureMetadata" where
  "SignatureMetadata a =
     \<lparr>csNodeID = acNodeID a, csNetworkID = acNetworkID a, csRevision = acRevision a, csIssuedAt = acIssuedAt a,
      csCACertificateSHA256 = acCACertificateSHA256 a, csPreviousCACertificateSHA256 = acPreviousCACertificateSHA256 a,
      csCARotationRequired = acCARotationRequired a,
      csCertificateProfileRenewalRequired = acCertificateProfileRenewalRequired a,
      csCertificateFingerprint = acCertificateFingerprint a, csCertificateExpiresAt = acCertificateExpiresAt a,
      csCertificateRenewAfter = acCertificateRenewAfter a, csCertificateGeneration = acCertificateGeneration a,
      csPublicKeyHash = acPublicKeyHash a\<rparr>"

definition config_metadata :: "sha256 \<Rightarrow> Network \<Rightarrow> Node \<Rightarrow> time \<Rightarrow> ConfigSignatureMetadata" where
  "config_metadata sha network node issuedAt =
     \<lparr>csNodeID = nodeID node, csNetworkID = netID network, csRevision = netConfigRevision network,
      csIssuedAt = (if netConfigUpdatedAt network \<noteq> 0 then netConfigUpdatedAt network else issuedAt),
      csCACertificateSHA256 = ConfigDigest sha (networkTrustBundle network),
      csPreviousCACertificateSHA256 = caPreviousTrustBundleSHA256 (netCARotation network),
      csCARotationRequired = networkCARotationRequired network node,
      csCertificateProfileRenewalRequired = networkCertificateProfileRenewalRequired network node,
      csCertificateFingerprint = nodeCertificateFingerprint node,
      csCertificateExpiresAt = valueOrZero (nodeCertificateExpiresAt node),
      csCertificateRenewAfter = valueOrZero (nodeCertificateRenewAfter node),
      csCertificateGeneration = nodeCertificateGeneration node, csPublicKeyHash = nodePublicKeyHash node\<rparr>"

definition signConfig ::
  "sha256 \<Rightarrow> (string \<Rightarrow> string \<Rightarrow> bytes result) \<Rightarrow> (bytes \<Rightarrow> string \<Rightarrow> bytes) \<Rightarrow> Network \<Rightarrow> Node \<Rightarrow> string \<Rightarrow> time \<Rightarrow> AgentConfig result" where
  "signConfig sha box sign network node config issuedAt =
     bind_result (box ''config-signing-key-v1'' (netEncryptedConfigSigningKey network)) (\<lambda>privateKey.
     let m = config_metadata sha network node issuedAt in
     bind_result (SignConfig sha sign privateKey m config) (\<lambda>(digest, signature).
     Inr \<lparr>acNodeID = csNodeID m, acNetworkID = csNetworkID m, acRevision = csRevision m, acConfig = config,
          acIssuedAt = csIssuedAt m, acSHA256 = digest, acCACertificateSHA256 = csCACertificateSHA256 m,
          acPreviousCACertificateSHA256 = csPreviousCACertificateSHA256 m, acCARotationRequired = csCARotationRequired m,
          acCertificateProfileRenewalRequired = csCertificateProfileRenewalRequired m,
          acCertificateFingerprint = csCertificateFingerprint m, acCertificateGeneration = csCertificateGeneration m,
          acPublicKeyHash = csPublicKeyHash m, acSignature = signature,
          acCertificateExpiresAt = csCertificateExpiresAt m, acCertificateRenewAfter = csCertificateRenewAfter m\<rparr>))"

definition enrollmentBundle :: "Network \<Rightarrow> Node \<Rightarrow> string \<Rightarrow> AgentConfig \<Rightarrow> EnrollmentBundle" where
  "enrollmentBundle network node config ac =
     \<lparr>ebNodeID = acNodeID ac, ebNetworkID = acNetworkID ac, ebNode = node, ebCertificate = nodeCertificate node,
      ebCA = networkTrustBundle network, ebConfig = config, ebConfigRevision = acRevision ac,
      ebCertificateExpiresAt = acCertificateExpiresAt ac, ebCertificateRenewAfter = acCertificateRenewAfter ac,
      ebAgentCredentialExpiresAt = valueOrZero (nodeAgentCredentialExpiresAt node),
      ebAgentCredentialGeneration = nodeAgentCredentialGeneration node, ebConfigIssuedAt = acIssuedAt ac,
      ebConfigSHA256 = acSHA256 ac, ebCACertificateSHA256 = acCACertificateSHA256 ac,
      ebPreviousCACertificateSHA256 = acPreviousCACertificateSHA256 ac, ebCARotationRequired = acCARotationRequired ac,
      ebCertificateProfileRenewalRequired = acCertificateProfileRenewalRequired ac,
      ebCertificateFingerprint = acCertificateFingerprint ac, ebCertificateGeneration = acCertificateGeneration ac,
      ebPublicKeyHash = acPublicKeyHash ac, ebConfigSignature = acSignature ac,
      ebConfigSigningPublicKey = netConfigSigningPublicKey network\<rparr>"

definition AgentConfig_call ::
  "sha256 \<Rightarrow> (string \<Rightarrow> string \<Rightarrow> bytes result) \<Rightarrow> (bytes \<Rightarrow> string \<Rightarrow> bytes) \<Rightarrow> State \<Rightarrow> time \<Rightarrow> time \<Rightarrow> string \<Rightarrow> State \<Rightarrow> AgentConfig result" where
  "AgentConfig_call sha box sign viewed at now token state =
     (let token = TrimSpace token; tokenHash = HashToken sha token in
      guard_result (ValidBearerToken token) ErrUnauthorized
     (bind_result (preflightAgentCredential tokenHash at viewed) (\<lambda>_.
      case findAgent state tokenHash now of
        None \<Rightarrow> Inl ErrUnauthorized
      | Some node \<Rightarrow>
          (case findNetwork state (nodeNetworkID node) of
             None \<Rightarrow> Inl ErrUnauthorized
           | Some network \<Rightarrow>
               guard_result (nodeCertificateExpiresAt node \<noteq> None) ErrUnauthorized
              (signConfig sha box sign network node (renderConfig state network node) now)))))"

definition AgentBootstrap ::
  "sha256 \<Rightarrow> (string \<Rightarrow> string \<Rightarrow> bytes result) \<Rightarrow> (bytes \<Rightarrow> string \<Rightarrow> bytes) \<Rightarrow> State \<Rightarrow> time \<Rightarrow> time \<Rightarrow> string \<Rightarrow> State \<Rightarrow> EnrollmentBundle result" where
  "AgentBootstrap sha box sign viewed at now token state =
     (let token = TrimSpace token; tokenHash = HashToken sha token in
      guard_result (ValidBearerToken token) ErrUnauthorized
     (bind_result (preflightAgentCredential tokenHash at viewed) (\<lambda>_.
      case findAgent state tokenHash now of
        None \<Rightarrow> Inl ErrUnauthorized
      | Some node \<Rightarrow>
          guard_result (nodeCertificateExpiresAt node \<noteq> None \<and> nodeAgentCredentialExpiresAt node \<noteq> None) ErrUnauthorized
         (case findNetwork state (nodeNetworkID node) of
            None \<Rightarrow> Inl ErrUnauthorized
          | Some network \<Rightarrow>
              (let config = renderConfig state network node in
               bind_result (signConfig sha box sign network node config now) (\<lambda>ac.
               Inr (enrollmentBundle network node config ac)))))))"

section \<open>Telemetry and heartbeats\<close>

abbreviation (input) maxPersistedHeartbeatSequence :: int where "maxPersistedHeartbeatSequence \<equiv> 9007199254740991"

definition AuthorizeRuntimeTelemetry :: "sha256 \<Rightarrow> time \<Rightarrow> string \<Rightarrow> int \<Rightarrow> State \<Rightarrow> Node result" where
  "AuthorizeRuntimeTelemetry sha now token heartbeatSequence state =
     (let token = TrimSpace token in
      guard_result (ValidBearerToken token) ErrUnauthorized
     (guard_result (1 \<le> heartbeatSequence \<and> heartbeatSequence \<le> maxPersistedHeartbeatSequence) ErrInvalid
     (bind_result (preflightAgentCredential (HashToken sha token) now state) (\<lambda>node.
      guard_result (nodeHeartbeatSequence node = heartbeatSequence \<and> nodeLastSeenAt node \<noteq> None) ErrConflict (Inr node)))))"

definition validTelemetry :: "string \<Rightarrow> nat \<Rightarrow> bool" where
  "validTelemetry v limit =
     (length v \<le> limit \<and> (case runes v of None \<Rightarrow> False | Some rs \<Rightarrow> list_all (\<lambda>r. \<not> (r < 0x20 \<and> r \<noteq> 9)) rs))"

record HeartbeatInput =
  hbAgentVersion :: string
  hbNebulaVersion :: string
  hbAppliedConfigRevision :: int
  hbCertificateGeneration :: int
  hbAppliedConfigSHA256 :: string
  hbCertificateFingerprint :: string
  hbNebulaRunning :: bool
  hbNativeDNSActive :: bool
  hbStatus :: string
  hbLastError :: string
  hbBootID :: string
  hbSequence :: int

definition trim_heartbeat :: "HeartbeatInput \<Rightarrow> HeartbeatInput" where
  "trim_heartbeat input =
     input\<lparr>hbAgentVersion := TrimSpace (hbAgentVersion input), hbNebulaVersion := TrimSpace (hbNebulaVersion input),
       hbStatus := TrimSpace (hbStatus input), hbLastError := TrimSpace (hbLastError input), hbBootID := TrimSpace (hbBootID input),
       hbAppliedConfigSHA256 := TrimSpace (hbAppliedConfigSHA256 input),
       hbCertificateFingerprint := TrimSpace (hbCertificateFingerprint input)\<rparr>"

definition default_status :: "HeartbeatInput \<Rightarrow> HeartbeatInput" where
  "default_status input = (if hbStatus input = [] then input\<lparr>hbStatus := ''healthy''\<rparr> else input)"

text \<open>The checks of a report against the node and its network.\<close>

definition heartbeat_checks :: "HeartbeatInput \<Rightarrow> time \<Rightarrow> Network \<Rightarrow> Node \<Rightarrow> unit result" where
  "heartbeat_checks input now network node =
     guard_result (1 \<le> netConfigRevision network \<and> 1 \<le> nodeCertificateGeneration node \<and> 0 \<le> nodeAppliedConfigRevision node \<and>
        0 \<le> nodeAppliedCertificateGeneration node \<and> 0 \<le> nodeHeartbeatSequence node) ErrInternal
    (guard_result (hbAppliedConfigRevision input \<le> netConfigRevision network \<and>
        nodeAppliedConfigRevision node \<le> hbAppliedConfigRevision input) ErrInvalid
    (guard_result (hbCertificateGeneration input \<le> nodeCertificateGeneration node \<and>
        \<not> (0 < hbCertificateGeneration input \<and> hbCertificateGeneration input < nodeAppliedCertificateGeneration node)) ErrInvalid
    (guard_result (nodeHeartbeatSequence node < hbSequence input) ErrConflict
    (guard_result (hbSequence input - nodeHeartbeatSequence node \<le> 1000000) ErrInvalid
    (guard_result (case nodeLastSeenAt node of None \<Rightarrow> True | Some t \<Rightarrow> 5 * second \<le> now - t) ErrRateLimited
    (guard_result (0 < hbAppliedConfigRevision input \<longrightarrow> fingerprintPattern (hbAppliedConfigSHA256 input)) ErrInvalid
    (guard_result (hbCertificateFingerprint input \<noteq> [] \<longrightarrow> fingerprintPattern (hbCertificateFingerprint input)) ErrInvalid
    (Inr ()))))))))"

text \<open>The comparison with the desired configuration; the value tells whether the network is rolled back.\<close>

definition heartbeat_convergence :: "sha256 \<Rightarrow> HeartbeatInput \<Rightarrow> State \<Rightarrow> Network \<Rightarrow> Node \<Rightarrow> bool result" where
  "heartbeat_convergence sha input state network node =
     (if hbAppliedConfigRevision input \<noteq> netConfigRevision network then Inr False
      else if hbAppliedConfigSHA256 input \<noteq> ConfigDigest sha (renderConfig state network node) \<or>
              hbCertificateFingerprint input \<noteq> nodeCertificateFingerprint node \<or>
              0 < hbCertificateGeneration input \<and> hbCertificateGeneration input \<noteq> nodeCertificateGeneration node \<or>
              hbNativeDNSActive input \<noteq> dnsNativeResolver (effectiveNetworkDNSSettings (netDNSSettings network)) then Inl ErrConflict
      else if hbNebulaRunning input then Inr False
      else guard_result (roPhase (netFirewallRollout network) = FirewallRolloutPhaseCanary \<and> nodeID node \<in> set (canaries_of network) \<and>
             hbCertificateGeneration input = nodeCertificateGeneration node \<and> hbStatus input = ''degraded'') ErrConflict (Inr True))"

definition heartbeat_node :: "HeartbeatInput \<Rightarrow> time \<Rightarrow> bool \<Rightarrow> Node \<Rightarrow> Node" where
  "heartbeat_node input now current node =
     (let node1 = node\<lparr>nodeAgentVersion := hbAgentVersion input, nodeNebulaVersion := hbNebulaVersion input,
            nodeAppliedConfigRevision := hbAppliedConfigRevision input,
            nodeAppliedCertificateGeneration :=
              (if 0 < hbCertificateGeneration input then hbCertificateGeneration input
               else if hbCertificateFingerprint input = nodeCertificateFingerprint node then nodeCertificateGeneration node
               else nodeAppliedCertificateGeneration node),
            nodeAppliedConfigSHA256 := hbAppliedConfigSHA256 input,
            nodeReportedCertificateFingerprint := hbCertificateFingerprint input,
            nodeNebulaRunning := hbNebulaRunning input, nodeNativeDNSActive := hbNativeDNSActive input,
            nodeAgentStatus := hbStatus input, nodeAgentBootID := hbBootID input, nodeHeartbeatSequence := hbSequence input,
            nodeLastError := hbLastError input, nodeLastSeenAt := Some now, nodeAgentCredentialLastUsedAt := Some now\<rparr>
      in if current then node1\<lparr>nodePreviousAgentTokenHash := [], nodePreviousAgentTokenExpiresAt := None\<rparr> else node1)"

text \<open>\<open>k\<close> is the index of the reporting node, \<open>i\<close> that of its network.\<close>

definition heartbeat_commit ::
  "sha256 \<Rightarrow> string \<Rightarrow> time \<Rightarrow> string \<Rightarrow> HeartbeatInput \<Rightarrow> nat \<Rightarrow> nat \<Rightarrow> State \<Rightarrow> (Node \<times> State) result" where
  "heartbeat_commit sha eid now tokenHash input k i state =
     (let node = Nodes state ! k; network = Networks state ! i in
      bind_result (heartbeat_checks input now network node) (\<lambda>_.
      bind_result (heartbeat_convergence sha input state network node) (\<lambda>autoRollback.
      let node' = heartbeat_node input now (snd (agentCredentialMatch node tokenHash now)) node;
          state1 = set_node state k node' in
      if autoRollback then
        bind_result (autoRollbackFirewallRollout sha eid state1 i node' now ''canary_target_runtime_stopped''
            [(''failed_config_revision'', DInt (hbAppliedConfigRevision input)),
             (''failed_config_sha256'', DStr (hbAppliedConfigSHA256 input)),
             (''heartbeat_sequence'', DInt (hbSequence input)), (''nebula_running'', DBool False),
             (''agent_status'', DStr ''degraded'')]) (\<lambda>(d, state2). Inr (node', state2))
      else Inr (node', state1))))"

definition Heartbeat ::
  "sha256 \<Rightarrow> State \<Rightarrow> time \<Rightarrow> string \<Rightarrow> time \<Rightarrow> string \<Rightarrow> HeartbeatInput \<Rightarrow> State \<Rightarrow> (Node \<times> State) result" where
  "Heartbeat sha viewed at eid now token input0 state =
     (let token = TrimSpace token; input1 = trim_heartbeat input0; tokenHash = HashToken sha token in
      guard_result (ValidBearerToken token \<and> validTelemetry (hbAgentVersion input1) 64 \<and> validTelemetry (hbNebulaVersion input1) 64 \<and>
         validTelemetry (hbLastError input1) 512 \<and> namePattern (hbBootID input1)) ErrUnauthorized
     (bind_result (preflightAgentCredential tokenHash at viewed) (\<lambda>_.
      let input = default_status input1 in
      guard_result (hbStatus input = ''healthy'' \<or> hbStatus input = ''degraded'') ErrInvalid
     (guard_result (0 \<le> hbAppliedConfigRevision input \<and> 0 \<le> hbCertificateGeneration input \<and> 1 \<le> hbSequence input \<and>
         hbSequence input \<le> maxPersistedHeartbeatSequence) ErrInvalid
     (guard_result (hbAppliedConfigRevision input = 0 \<longrightarrow> hbAppliedConfigSHA256 input = []) ErrInvalid
     (case find_idx (agent_matches tokenHash now) (Nodes state) of
        None \<Rightarrow> Inl ErrUnauthorized
      | Some k \<Rightarrow>
          (case find_network_idx state (nodeNetworkID (Nodes state ! k)) of
             None \<Rightarrow> Inl ErrInternal
           | Some i \<Rightarrow> heartbeat_commit sha eid now tokenHash input k i state)))))))"

section \<open>Lemmas: heartbeats\<close>

definition heartbeat_report :: "HeartbeatInput \<Rightarrow> HeartbeatInput" where
  "heartbeat_report input = default_status (trim_heartbeat input)"

text \<open>Everything an accepted heartbeat did, in one place.\<close>

lemma heartbeat_commit_ok:
  assumes "heartbeat_commit sha eid now h input k i s = Inr (node', s')"
  obtains rollback where "heartbeat_checks input now (Networks s ! i) (Nodes s ! k) = Inr ()"
    "heartbeat_convergence sha input s (Networks s ! i) (Nodes s ! k) = Inr rollback"
    "node' = heartbeat_node input now (snd (agentCredentialMatch (Nodes s ! k) h now)) (Nodes s ! k)"
    "if rollback then \<exists>d evidence. autoRollbackFirewallRollout sha eid (set_node s k node') i node' now ''canary_target_runtime_stopped'' evidence = Inr (d, s')
     else s' = set_node s k node'"
proof -
  from assms obtain rollback where c: "heartbeat_checks input now (Networks s ! i) (Nodes s ! k) = Inr ()"
      "heartbeat_convergence sha input s (Networks s ! i) (Nodes s ! k) = Inr rollback"
    by (auto simp: heartbeat_commit_def Let_def)
  show thesis
  proof (cases rollback)
    case True
    with assms c show thesis by (intro that [OF c]) (auto simp: heartbeat_commit_def Let_def)
  next
    case False
    with assms c show thesis by (intro that [OF c]) (auto simp: heartbeat_commit_def Let_def)
  qed
qed

lemma Heartbeat_ok:
  assumes "Heartbeat sha viewed at eid now token input0 s = Inr (node', s')"
  obtains k i where "find_idx (agent_matches (HashToken sha (TrimSpace token)) now) (Nodes s) = Some k"
    "find_network_idx s (nodeNetworkID (Nodes s ! k)) = Some i"
    "1 \<le> hbSequence (heartbeat_report input0)" "hbSequence (heartbeat_report input0) \<le> maxPersistedHeartbeatSequence"
    "0 \<le> hbCertificateGeneration (heartbeat_report input0)"
    "heartbeat_commit sha eid now (HashToken sha (TrimSpace token)) (heartbeat_report input0) k i s = Inr (node', s')"
  using assms by (auto simp: Heartbeat_def Let_def heartbeat_report_def split: option.splits)

lemma heartbeat_node_kept [simp]:
  "nodeID (heartbeat_node input now c n) = nodeID n" "nodeNetworkID (heartbeat_node input now c n) = nodeNetworkID n"
  "nodeStatus (heartbeat_node input now c n) = nodeStatus n" "nodeAgentTokenHash (heartbeat_node input now c n) = nodeAgentTokenHash n"
  "nodeCertificateGeneration (heartbeat_node input now c n) = nodeCertificateGeneration n"
  "nodeCertificateFingerprint (heartbeat_node input now c n) = nodeCertificateFingerprint n"
  by (simp_all add: heartbeat_node_def Let_def)

lemma heartbeat_node_set [simp]:
  "nodeHeartbeatSequence (heartbeat_node input now c n) = hbSequence input"
  "nodeAppliedConfigRevision (heartbeat_node input now c n) = hbAppliedConfigRevision input"
  "nodeAppliedConfigSHA256 (heartbeat_node input now c n) = hbAppliedConfigSHA256 input"
  "nodeReportedCertificateFingerprint (heartbeat_node input now c n) = hbCertificateFingerprint input"
  "nodeNebulaRunning (heartbeat_node input now c n) = hbNebulaRunning input"
  "nodeLastSeenAt (heartbeat_node input now c n) = Some now"
  "nodeAppliedCertificateGeneration (heartbeat_node input now c n) =
     (if 0 < hbCertificateGeneration input then hbCertificateGeneration input
      else if hbCertificateFingerprint input = nodeCertificateFingerprint n then nodeCertificateGeneration n
      else nodeAppliedCertificateGeneration n)"
  by (simp_all add: heartbeat_node_def Let_def)

lemma heartbeat_nodes:
  assumes "if rollback then \<exists>d evidence. autoRollbackFirewallRollout sha eid (set_node s k node') i node' now reason evidence = Inr (d, s')
     else s' = set_node s k node'"
  shows "Nodes s' = (Nodes s)[k := node']" "Enrollments s' = Enrollments s" "AgentRecoveries s' = AgentRecoveries s"
    "Revocations s' = Revocations s" "Issuances s' = Issuances s"
  using assms by (auto elim!: autoRollback_ok split: if_splits)

lemma heartbeat_hashes:
  "set (node_hashes (heartbeat_node input now c n)) \<subseteq> set (node_hashes n)"
  "distinct (node_hashes n) \<Longrightarrow> distinct (node_hashes (heartbeat_node input now c n))"
  by (auto simp: node_hashes_def heartbeat_node_def Let_def)

text \<open>Dropping hashes of one node keeps the hash invariant.\<close>

lemma credential_inv_drop:
  assumes inv: "credential_inv s" and k: "k < length (Nodes s)"
    and "set (node_hashes m) \<subseteq> set (node_hashes (Nodes s ! k))" "distinct (node_hashes m)"
  shows "credential_inv (set_node s k m)"
proof -
  obtain A B where old: "credential_hashes s = A @ node_hashes (Nodes s ! k) @ B"
    and upd: "credential_hashes (set_node s k m) = A @ node_hashes m @ B"
    using credential_hashes_split [OF k] by metis
  from inv have "distinct (A @ node_hashes (Nodes s ! k) @ B)" "list_all ValidTokenHash (A @ node_hashes (Nodes s ! k) @ B)"
    unfolding credential_inv_def old by simp_all
  with assms(3,4) show ?thesis unfolding credential_inv_def upd by (auto simp: list_all_iff)
qed

lemma credential_inv_distinct: "credential_inv s \<Longrightarrow> k < length (Nodes s) \<Longrightarrow> distinct (node_hashes (Nodes s ! k))"
  using credential_hashes_split [of k s] by (metis credential_inv_def distinct_append)

section \<open>A reporting agent\<close>

definition beat_network :: Network where
  "beat_network = demo_network\<lparr>netConfigSigningPublicKey := bearer 9\<rparr>"

definition beat_node :: Node where
  "beat_node = demo_member\<lparr>nodeAgentTokenHash := bearer 65, nodeAgentCredentialExpiresAt := Some (hour * 100),
     nodeAgentCredentialGeneration := 3, nodeCertificateFingerprint := hex_string (replicate 32 5), nodePublicKeyHash := bearer 3,
     nodeCertificateExpiresAt := Some (hour * 200), nodeCertificateRenewAfter := Some (hour * 100)\<rparr>"

definition beat_state :: State where
  "beat_state = demo_state\<lparr>Networks := [beat_network], Nodes := [demo_gateway, beat_node]\<rparr>"

definition beat_input :: HeartbeatInput where
  "beat_input = \<lparr>hbAgentVersion = ''1.0'', hbNebulaVersion = ''1.9'', hbAppliedConfigRevision = 7, hbCertificateGeneration = 1,
     hbAppliedConfigSHA256 = hex_string (replicate 32 112), hbCertificateFingerprint = hex_string (replicate 32 5),
     hbNebulaRunning = True, hbNativeDNSActive = False, hbStatus = ''healthy'', hbLastError = [], hbBootID = ''boot'', hbSequence = 1\<rparr>"

lemma beat_config_plain:
  "list_all (\<lambda>c. c < CHR 0x80 \<and> c \<noteq> CHR 0x0D) (renderConfig beat_state beat_network beat_node)"
  "renderConfig beat_state beat_network beat_node \<noteq> []" "int (length (renderConfig beat_state beat_network beat_node)) \<le> 4194304"
  by code_simp+

lemma beat_config_ok: "validateManagedConfig (renderConfig beat_state beat_network beat_node) = Inr ()"
proof -
  have "ValidString (renderConfig beat_state beat_network beat_node)"
    using beat_config_plain(1) ValidString_ascii by (auto simp: list_all_iff less_char_def)
  with beat_config_plain show ?thesis by (auto simp: validateManagedConfig_def list_all_iff)
qed

lemma beat_digest: "ConfigDigest wide_sha (renderConfig s beat_network node) = hex_string (replicate 32 112)"
  by (rule plain_digest) (simp add: beat_network_def)

lemma beat_report: "heartbeat_report beat_input = beat_input" "trim_heartbeat beat_input = beat_input"
  "validTelemetry ''1.0'' 64" "validTelemetry ''1.9'' 64" "validTelemetry [] 512" "namePattern ''boot''"
  "fingerprintPattern (hex_string (replicate 32 112))" "fingerprintPattern (hex_string (replicate 32 5))"
  by code_simp+

lemma beat_simps [simp]: "Nodes beat_state = [demo_gateway, beat_node]" "Networks beat_state = [beat_network]" "netID beat_network = ''net''"
  "nodeNetworkID beat_node = ''net''" "nodeStatus beat_node = ''active''" "netConfigRevision beat_network = 7" "nodeID beat_node = ''member''"
  by (simp_all add: beat_state_def beat_network_def beat_node_def)

lemma beat_node_fields [simp]: "nodeCertificateGeneration beat_node = 1" "nodeAppliedConfigRevision beat_node = 0"
  "nodeAppliedCertificateGeneration beat_node = 0" "nodeHeartbeatSequence beat_node = 0" "nodeLastSeenAt beat_node = None"
  "nodeCertificateFingerprint beat_node = hex_string (replicate 32 5)" "nodeCertificateExpiresAt beat_node = Some (hour * 200)"
  by (simp_all add: beat_node_def demo_member_def demo_node_def zero_node_def)

lemma beat_agent: "filter (agent_matches (bearer 65) hour) [demo_gateway, beat_node] = [beat_node]"
  "\<not> agent_matches (bearer 65) hour demo_gateway" "agent_matches (bearer 65) hour beat_node"
  by (simp_all add: beat_node_def agent_matches_iff live_slot_def demo_gateway_def demo_node_def zero_node_def)

lemma beat_inv: "credential_inv beat_state"
  by (simp add: credential_inv_def credential_hashes_def node_hashes_def beat_state_def beat_node_def demo_defs)

lemma beat_input_fields [simp]: "hbAgentVersion beat_input = ''1.0''" "hbNebulaVersion beat_input = ''1.9''" "hbLastError beat_input = []"
  "hbBootID beat_input = ''boot''" "hbStatus beat_input = ''healthy''" "hbAppliedConfigRevision beat_input = 7" "hbCertificateGeneration beat_input = 1"
  "hbSequence beat_input = 1" "hbAppliedConfigSHA256 beat_input = hex_string (replicate 32 112)"
  "hbCertificateFingerprint beat_input = hex_string (replicate 32 5)" "hbNebulaRunning beat_input" "\<not> hbNativeDNSActive beat_input"
  by (simp_all add: beat_input_def)

lemma beat_dns: "\<not> dnsNativeResolver (effectiveNetworkDNSSettings (netDNSSettings beat_network))"
  by code_simp

lemma beat_run: "\<exists>node' s'. Heartbeat wide_sha beat_state hour ''ev'' hour (bearer 0) beat_input beat_state = Inr (node', s') \<and>
  nodeNetworkID node' = ''net'' \<and> nodeAppliedConfigRevision node' = 7"
proof -
  have "default_status beat_input = beat_input" by (simp add: default_status_def)
  moreover have "heartbeat_checks beat_input hour beat_network beat_node = Inr ()"
    using beat_report(7,8) by (simp add: heartbeat_checks_def guard_result_def)
  moreover have "heartbeat_convergence wide_sha beat_input beat_state beat_network beat_node = Inr False"
    using beat_digest beat_dns by (simp add: heartbeat_convergence_def)
  ultimately show ?thesis
    using beat_report beat_agent
    by (simp add: Heartbeat_def Let_def bearer_samples guard_result_def preflightAgentCredential_def findAgent_def find_network_idx_def heartbeat_commit_def)
qed

definition beat_box :: "string \<Rightarrow> string \<Rightarrow> bytes result" where
  "beat_box purpose encoded = Inr (replicate 64 8)"

lemma beat_metadata_ok: "validateConfigSignatureMetadata (config_metadata wide_sha beat_network beat_node hour) = Inr ()"
  by code_simp

section \<open>Properties\<close>

text \<open>C37. An accepted heartbeat moves the counters of one node, the one its bearer names, and only forwards: the
  sequence strictly increases by at most a million and stays in the persisted range, the applied
  revision never decreases and never passes the revision of the network, the applied certificate
  generation never decreases and never passes the issued one, and two accepted heartbeats are at least
  five seconds apart.  No other node changes, and stored hashes stay pairwise distinct.\<close>
theorem heartbeat_monotone:
  assumes inv: "credential_inv s" and run: "Heartbeat sha viewed at eid now token input s = Inr (node', s')"
    and applied: "\<forall>n\<in>set (Nodes s). nodeAppliedCertificateGeneration n \<le> nodeCertificateGeneration n"
  shows "credential_inv s' \<and> (\<exists>k i. find_idx (agent_matches (HashToken sha (TrimSpace token)) now) (Nodes s) = Some k \<and>
    find_network_idx s (nodeNetworkID (Nodes s ! k)) = Some i \<and> Nodes s' = (Nodes s)[k := node'] \<and>
    nodeHeartbeatSequence (Nodes s ! k) < nodeHeartbeatSequence node' \<and>
    nodeHeartbeatSequence node' \<le> min (nodeHeartbeatSequence (Nodes s ! k) + 1000000) maxPersistedHeartbeatSequence \<and>
    nodeAppliedConfigRevision (Nodes s ! k) \<le> nodeAppliedConfigRevision node' \<and>
    nodeAppliedConfigRevision node' \<le> netConfigRevision (Networks s ! i) \<and>
    nodeAppliedCertificateGeneration (Nodes s ! k) \<le> nodeAppliedCertificateGeneration node' \<and>
    nodeAppliedCertificateGeneration node' \<le> nodeCertificateGeneration node' \<and>
    (\<forall>t. nodeLastSeenAt (Nodes s ! k) = Some t \<longrightarrow> t + 5 * second \<le> now))"
  using run
proof (rule Heartbeat_ok)
  fix k i
  let ?n = "Nodes s ! k" and ?in = "heartbeat_report input" and ?h = "HashToken sha (TrimSpace token)"
  assume k: "find_idx (agent_matches ?h now) (Nodes s) = Some k" and i: "find_network_idx s (nodeNetworkID ?n) = Some i"
    and range: "1 \<le> hbSequence ?in" "hbSequence ?in \<le> maxPersistedHeartbeatSequence" "0 \<le> hbCertificateGeneration ?in"
    and commit: "heartbeat_commit sha eid now ?h ?in k i s = Inr (node', s')"
  have kl: "k < length (Nodes s)" and kn: "?n \<in> set (Nodes s)" using find_idx_lt [OF k] find_idx_mem [OF k] by simp_all
  from commit show ?thesis
  proof (rule heartbeat_commit_ok)
    fix rollback
    assume checks: "heartbeat_checks ?in now (Networks s ! i) ?n = Inr ()"
      and node': "node' = heartbeat_node ?in now (snd (agentCredentialMatch ?n ?h now)) ?n"
      and out: "if rollback then \<exists>d evidence. autoRollbackFirewallRollout sha eid (set_node s k node') i node' now ''canary_target_runtime_stopped'' evidence = Inr (d, s')
        else s' = set_node s k node'"
    have "credential_inv (set_node s k node')"
      unfolding node' using heartbeat_hashes credential_inv_distinct [OF inv kl] by (intro credential_inv_drop [OF inv kl]) auto
    then have "credential_inv s'"
      using heartbeat_nodes [OF out] by (subst credential_inv_cong [of s' "set_node s k node'"]) simp_all
    moreover have "nodeHeartbeatSequence ?n < nodeHeartbeatSequence node'"
      "nodeHeartbeatSequence node' \<le> min (nodeHeartbeatSequence ?n + 1000000) maxPersistedHeartbeatSequence"
      "nodeAppliedConfigRevision ?n \<le> nodeAppliedConfigRevision node'" "nodeAppliedConfigRevision node' \<le> netConfigRevision (Networks s ! i)"
      using checks range unfolding node' by (simp_all add: heartbeat_checks_def)
    moreover have "nodeAppliedCertificateGeneration ?n \<le> nodeCertificateGeneration ?n" using applied kn by blast
    then have "nodeAppliedCertificateGeneration ?n \<le> nodeAppliedCertificateGeneration node'"
      "nodeAppliedCertificateGeneration node' \<le> nodeCertificateGeneration node'"
      using checks range(3) unfolding node' by (auto simp: heartbeat_checks_def)
    moreover have "\<forall>t. nodeLastSeenAt ?n = Some t \<longrightarrow> t + 5 * second \<le> now"
      using checks by (auto simp: heartbeat_checks_def)
    ultimately show ?thesis using k i heartbeat_nodes(1) [OF out] by blast
  qed
qed

theorem heartbeat_monotone_witness:
  "\<exists>node' s'. Heartbeat wide_sha beat_state hour ''ev'' hour (bearer 0) beat_input beat_state = Inr (node', s') \<and> credential_inv s'"
proof -
  obtain node' s' where run: "Heartbeat wide_sha beat_state hour ''ev'' hour (bearer 0) beat_input beat_state = Inr (node', s')"
    using beat_run by blast
  have "\<forall>n\<in>set (Nodes beat_state). nodeAppliedCertificateGeneration n \<le> nodeCertificateGeneration n"
    by (simp add: demo_gateway_def demo_node_def zero_node_def)
  from heartbeat_monotone [OF beat_inv run this] run show ?thesis by blast
qed

text \<open>C15. No false convergence: when an accepted heartbeat leaves the node at the current revision of its
  network, the digest it reported is that of the configuration rendered for it, the certificate it reported
  is the issued one, and the tunnel is running, unless the network was rolled back because a canary
  reported that it is not.\<close>
theorem heartbeat_no_false_convergence:
  assumes "Heartbeat sha viewed at eid now token input s = Inr (node', s')"
    and "find_network_idx s (nodeNetworkID node') = Some i" "nodeAppliedConfigRevision node' = netConfigRevision (Networks s ! i)"
  shows "\<exists>node\<in>set (Nodes s). nodeID node = nodeID node' \<and>
    nodeAppliedConfigSHA256 node' = ConfigDigest sha (renderConfig s (Networks s ! i) node) \<and>
    nodeReportedCertificateFingerprint node' = nodeCertificateFingerprint node \<and>
    (nodeNebulaRunning node' \<or>
     nodeID node \<in> set (canaries_of (Networks s ! i)) \<and> netFirewallRollout (Networks s' ! i) = zero_rollout \<and>
     netConfigRevision (Networks s' ! i) = netConfigRevision (Networks s ! i) + 1)"
  using assms(1)
proof (rule Heartbeat_ok)
  fix k i'
  let ?n = "Nodes s ! k" and ?in = "heartbeat_report input" and ?h = "HashToken sha (TrimSpace token)"
  assume k: "find_idx (agent_matches ?h now) (Nodes s) = Some k" and i': "find_network_idx s (nodeNetworkID ?n) = Some i'"
    and commit: "heartbeat_commit sha eid now ?h ?in k i' s = Inr (node', s')"
  from commit show ?thesis
  proof (rule heartbeat_commit_ok)
    fix rollback
    assume conv: "heartbeat_convergence sha ?in s (Networks s ! i') ?n = Inr rollback"
      and node': "node' = heartbeat_node ?in now (snd (agentCredentialMatch ?n ?h now)) ?n"
      and out: "if rollback then \<exists>d evidence. autoRollbackFirewallRollout sha eid (set_node s k node') i' node' now ''canary_target_runtime_stopped'' evidence = Inr (d, s')
        else s' = set_node s k node'"
    have [simp]: "i' = i" using i' assms(2) node' by simp
    have "netFirewallRollout (Networks s' ! i) = zero_rollout \<and> netConfigRevision (Networks s' ! i) = netConfigRevision (Networks s ! i) + 1"
      if rollback
      using out that find_network_idx_lt [OF i'] by (auto elim!: autoRollback_ok simp: nextConfigRevision_def split: if_splits)
    with conv assms(3) node' find_idx_mem [OF k] show ?thesis
      by (intro bexI [of _ ?n]) (auto simp: heartbeat_convergence_def split: if_splits)
  qed
qed

theorem heartbeat_no_false_convergence_witness:
  "\<exists>node' s'. Heartbeat wide_sha beat_state hour ''ev'' hour (bearer 0) beat_input beat_state = Inr (node', s') \<and>
    (\<exists>node\<in>set (Nodes beat_state). nodeID node = nodeID node' \<and>
       nodeAppliedConfigSHA256 node' = ConfigDigest wide_sha (renderConfig beat_state (Networks beat_state ! 0) node))"
proof -
  obtain node' s' where run: "Heartbeat wide_sha beat_state hour ''ev'' hour (bearer 0) beat_input beat_state = Inr (node', s')"
      "nodeNetworkID node' = ''net''" "nodeAppliedConfigRevision node' = 7"
    using beat_run by blast
  then have "find_network_idx beat_state (nodeNetworkID node') = Some 0" "nodeAppliedConfigRevision node' = netConfigRevision (Networks beat_state ! 0)"
    by (simp_all add: find_network_idx_def)
  from heartbeat_no_false_convergence [OF run(1) this] run(1) show ?thesis by blast
qed

text \<open>C34. A configuration an agent fetches verifies: where the signature scheme accepts its own signatures
  under the public key of the network, the metadata, the text, the digest and the signature that
  \<^verbatim>\<open>AgentConfig\<close> returns pass the verification the agent runs, and they are those of the node and the
  network the bearer names.\<close>
theorem agent_config_verifies:
  assumes "AgentConfig_call sha box sign viewed at now token s = Inr ac"
    and "findNetwork s (acNetworkID ac) = Some network" "decode_key (netConfigSigningPublicKey network) = Inr publicKey"
    and "\<forall>privateKey x. box ''config-signing-key-v1'' (netEncryptedConfigSigningKey network) = Inr privateKey \<longrightarrow>
      verify publicKey x (sign privateKey x) \<and> length (sign privateKey x) = 64 \<and> (\<forall>b\<in>set (sign privateKey x). b < 256)"
  shows "VerifyConfig sha verify (netConfigSigningPublicKey network) (SignatureMetadata ac) (acConfig ac) (acSHA256 ac) (acSignature ac) = Inr () \<and>
    (\<exists>node. findAgent s (HashToken sha (TrimSpace token)) now = Some node \<and> acNodeID ac = nodeID node \<and>
       acConfig ac = renderConfig s network node \<and> acRevision ac = netConfigRevision network \<and>
       acCACertificateSHA256 ac = ConfigDigest sha (networkTrustBundle network))"
proof -
  from assms(1) obtain node net where node: "findAgent s (HashToken sha (TrimSpace token)) now = Some node"
    and net: "findNetwork s (nodeNetworkID node) = Some net"
    and run: "signConfig sha box sign net node (renderConfig s net node) now = Inr ac"
    by (auto simp: AgentConfig_call_def Let_def split: option.splits)
  have "netID net = nodeNetworkID node" using net by (auto simp: findNetwork_def find_Some_iff)
  moreover have ac: "acNetworkID ac = netID net" using run by (auto simp: signConfig_def config_metadata_def Let_def)
  ultimately have [simp]: "net = network" using assms(2) net by simp
  let ?m = "config_metadata sha network node now" and ?c = "renderConfig s network node"
  from run obtain key digest signature where key: "box ''config-signing-key-v1'' (netEncryptedConfigSigningKey network) = Inr key"
    and signed: "SignConfig sha sign key ?m ?c = Inr (digest, signature)"
    and fields: "SignatureMetadata ac = ?m" "acConfig ac = ?c" "acSHA256 ac = digest" "acSignature ac = signature"
      "acNodeID ac = csNodeID ?m" "acRevision ac = csRevision ?m" "acCACertificateSHA256 ac = csCACertificateSHA256 ?m"
    by (auto simp: signConfig_def SignatureMetadata_def Let_def)
  let ?p = "snd (configSigningPayload sha ?m ?c)"
  note sig = assms(4) [rule_format, OF key, of ?p]
  have "validateConfigSignatureMetadata ?m = Inr ()" "validateManagedConfig ?c = Inr ()"
    "digest = fst (configSigningPayload sha ?m ?c)" "signature = EncodeToString (sign key ?p)"
    using signed by (auto simp: SignConfig_def case_prod_beta Let_def)
  moreover have "decode_signature (EncodeToString (sign key ?p)) = Inr (sign key ?p)"
    using sig by (simp add: decode_signature_def DecodeString_EncodeToString guard_result_def)
  ultimately have "VerifyConfig sha verify (netConfigSigningPublicKey network) ?m ?c digest signature = Inr ()"
    using assms(3) sig by (simp add: VerifyConfig_def case_prod_beta Let_def)
  with fields node show ?thesis by (simp add: config_metadata_def)
qed

theorem agent_config_verifies_witness:
  "\<exists>ac. AgentConfig_call wide_sha beat_box (\<lambda>_ _. replicate 64 1) beat_state hour hour (bearer 0) beat_state = Inr ac \<and>
    VerifyConfig wide_sha (\<lambda>_ _ _. True) (bearer 9) (SignatureMetadata ac) (acConfig ac) (acSHA256 ac) (acSignature ac) = Inr ()"
proof -
  let ?call = "AgentConfig_call wide_sha beat_box (\<lambda>_ _. replicate 64 1) beat_state hour hour (bearer 0) beat_state"
  have net: "findNetwork beat_state ''net'' = Some beat_network" by (simp add: findNetwork_def)
  have "\<exists>ac. ?call = Inr ac \<and> acNetworkID ac = ''net''"
    using beat_agent beat_config_ok beat_metadata_ok net
    by (simp add: AgentConfig_call_def Let_def bearer_samples guard_result_def preflightAgentCredential_def findAgent_def signConfig_def
        beat_box_def SignConfig_def case_prod_beta) (simp add: config_metadata_def)
  then obtain ac where run: "?call = Inr ac" and id: "acNetworkID ac = ''net''" by blast
  have net': "findNetwork beat_state (acNetworkID ac) = Some beat_network" using net id by simp
  have key: "decode_key (netConfigSigningPublicKey beat_network) = Inr (replicate 32 9)"
    by (simp add: beat_network_def decode_key_def DecodeString_bearer guard_result_def)
  have "VerifyConfig wide_sha (\<lambda>_ _ _. True) (netConfigSigningPublicKey beat_network) (SignatureMetadata ac) (acConfig ac) (acSHA256 ac) (acSignature ac) = Inr ()"
    using agent_config_verifies [OF run net' key, of "\<lambda>_ _ _. True"] by simp
  with run show ?thesis by (auto simp: beat_network_def)
qed

end
