(* ===== verification/Mesh_RouteTransfer.thy ===== *)
theory Mesh_RouteTransfer
  imports Mesh_Render
begin

text \<open>
  The handlers of \<^verbatim>\<open>internal/control/route_transfer.go\<close>: an operator moves prefixes from one gateway to
  another in steps, and every step waits until the node concerned has reported the certificate and the
  configuration of the step before.  The records and their validation are in \<^verbatim>\<open>Mesh_RouteRecords\<close>.
  A step changes the transition records, the stored route policies and the revision of one network, and
  the prefixes of its nodes, and nothing else; that contract is a locale which the handlers of the route
  profile edits share.
\<close>

section \<open>Convergence and the document\<close>

definition route_transition_schema :: "State \<Rightarrow> bool" where
  "route_transition_schema state =
     (Version state = ControlStateVersionRouteProfileEdit \<or> Version state = ControlStateVersionRoutePolicies \<or>
      Version state = ControlStateVersionNativeDNS \<or> Version state = ControlStateVersionFirewallScopes)"

definition routeTransferNodeConverged :: "sha256 \<Rightarrow> State \<Rightarrow> Network \<Rightarrow> Node \<Rightarrow> int \<Rightarrow> bool" where
  "routeTransferNodeConverged sha state network node desired =
     (if desired < 1 \<or> nodeStatus node \<noteq> ''active'' \<or> nodeCertificateGeneration node < desired \<or>
         nodeAppliedCertificateGeneration node \<noteq> nodeCertificateGeneration node \<or>
         nodeAppliedConfigRevision node \<noteq> netConfigRevision network \<or>
         nodeReportedCertificateFingerprint node \<noteq> nodeCertificateFingerprint node \<or>
         \<not> nodeNebulaRunning node \<or> nodeAgentStatus node \<noteq> ''healthy'' \<or> nodeLastSeenAt node = None
      then False
      else nodeAppliedConfigSHA256 node = ConfigDigest sha (renderConfig state network node))"

record StartRouteTransferInput =
  srtSourceNodeID :: string
  srtTargetNodeID :: string
  srtRoutedSubnets :: "string list"
  srtExpectedConfigRevision :: int
  srtRequestID :: string

record UpdateRouteTransferInput =
  urtExpectedConfigRevision :: int
  urtRequestID :: string

record RouteTransferNodeStatus =
  rnsNodeID :: string
  rnsName :: string
  rnsCertificateGeneration :: int
  rnsAppliedCertificateGeneration :: int
  rnsAppliedConfigRevision :: int
  rnsDesiredCertificateGeneration :: int
  rnsReady :: bool

record NetworkRouteTransferDocument =
  rtdSchema :: string
  rtdNetworkID :: string
  rtdRequestID :: string
  rtdPhase :: string
  rtdRoutedSubnets :: "string list"
  rtdConfigRevision :: int
  rtdStartedAt :: "time option"
  rtdPromotedAt :: "time option"
  rtdFinishedAt :: "time option"
  rtdSource :: "RouteTransferNodeStatus option"
  rtdTarget :: "RouteTransferNodeStatus option"
  rtdAvailableActions :: "string list"

definition optionalRouteTransferTime :: "time \<Rightarrow> time option" where
  "optionalRouteTransferTime v = (if v = 0 then None else Some v)"

definition routeTransferNodeStatus :: "sha256 \<Rightarrow> State \<Rightarrow> Network \<Rightarrow> Node \<Rightarrow> int \<Rightarrow> RouteTransferNodeStatus" where
  "routeTransferNodeStatus sha state network node desired =
     (if nodeID node = []
      then \<lparr>rnsNodeID = [], rnsName = [], rnsCertificateGeneration = 0, rnsAppliedCertificateGeneration = 0,
            rnsAppliedConfigRevision = 0, rnsDesiredCertificateGeneration = desired, rnsReady = False\<rparr>
      else \<lparr>rnsNodeID = nodeID node, rnsName = nodeName node,
            rnsCertificateGeneration = nodeCertificateGeneration node,
            rnsAppliedCertificateGeneration = nodeAppliedCertificateGeneration node,
            rnsAppliedConfigRevision = nodeAppliedConfigRevision node, rnsDesiredCertificateGeneration = desired,
            rnsReady = routeTransferNodeConverged sha state network node desired\<rparr>)"

text \<open>The node \<^verbatim>\<open>findNode\<close> returns, which is the zero node when there is none.\<close>

definition node_or_zero :: "State \<Rightarrow> string \<Rightarrow> Node" where
  "node_or_zero state ident = (case findNode state ident of None \<Rightarrow> zero_node | Some node \<Rightarrow> node)"

definition participant_status :: "sha256 \<Rightarrow> State \<Rightarrow> Network \<Rightarrow> string \<Rightarrow> int \<Rightarrow> RouteTransferNodeStatus option" where
  "participant_status sha state network ident desired =
     (let node = node_or_zero state ident in
      if nodeID node \<noteq> [] then Some (routeTransferNodeStatus sha state network node desired) else None)"

definition status_ready :: "RouteTransferNodeStatus option \<Rightarrow> bool" where
  "status_ready st = (case st of None \<Rightarrow> False | Some v \<Rightarrow> rnsReady v)"

definition transfer_start_available :: "Network \<Rightarrow> bool" where
  "transfer_start_available network =
     (caPhase (netCARotation network) = [] \<and> roPhase (netFirewallRollout network) = [] \<and>
      routeProfileEditTerminal (netRouteProfileEdit network))"

definition transfer_actions ::
  "Network \<Rightarrow> RouteTransferNodeStatus option \<Rightarrow> RouteTransferNodeStatus option \<Rightarrow> string list" where
  "transfer_actions network source target =
     (let phase = rtPhase (netRouteTransfer network) in
      if phase = RouteTransferPhasePreparingTarget
        then (if status_ready target then [''advance''] else []) @ [''cancel'']
      else if phase = RouteTransferPhaseCleaningSource then (if status_ready source then [''advance''] else [])
      else if phase = RouteTransferPhaseCleaningTarget then (if status_ready target then [''cancel''] else [])
      else if phase = RouteTransferPhaseCompleted \<or> phase = RouteTransferPhaseCancelled
        then (if transfer_start_available network then [''start''] else [])
      else [])"

definition routeTransferDocument :: "sha256 \<Rightarrow> State \<Rightarrow> Network \<Rightarrow> NetworkRouteTransferDocument" where
  "routeTransferDocument sha state network =
     (let t = netRouteTransfer network;
          doc = \<lparr>rtdSchema = ''mesh-network-route-transfer-v1'', rtdNetworkID = netID network, rtdRequestID = [],
                 rtdPhase = [], rtdRoutedSubnets = [], rtdConfigRevision = netConfigRevision network,
                 rtdStartedAt = None, rtdPromotedAt = None, rtdFinishedAt = None, rtdSource = None, rtdTarget = None,
                 rtdAvailableActions = []\<rparr>
      in if zeroNetworkRouteTransfer t
         then doc\<lparr>rtdAvailableActions := if transfer_start_available network then [''start''] else []\<rparr>
         else let source = participant_status sha state network (rtSourceNodeID t) (rtSourceCertificateGeneration t);
                  target = participant_status sha state network (rtTargetNodeID t) (rtTargetCertificateGeneration t)
              in doc\<lparr>rtdRequestID := rtRequestID t, rtdPhase := rtPhase t, rtdRoutedSubnets := rtRoutedSubnets t,
                     rtdStartedAt := optionalRouteTransferTime (rtStartedAt t),
                     rtdPromotedAt := optionalRouteTransferTime (rtPromotedAt t),
                     rtdFinishedAt := optionalRouteTransferTime (rtFinishedAt t),
                     rtdSource := source, rtdTarget := target,
                     rtdAvailableActions := transfer_actions network source target\<rparr>)"

definition NetworkRouteTransfer_call :: "sha256 \<Rightarrow> string \<Rightarrow> State \<Rightarrow> NetworkRouteTransferDocument result" where
  "NetworkRouteTransfer_call sha ident state =
     (if \<not> validPersistedID ident then Inl ErrInvalid
      else case findNetwork state ident of
        None \<Rightarrow> Inl ErrNotFound
      | Some network \<Rightarrow> Inr (routeTransferDocument sha state network))"

section \<open>Starting a transfer\<close>

definition transfer_participants_ok :: "State \<Rightarrow> Network \<Rightarrow> Node option \<Rightarrow> Node option \<Rightarrow> bool" where
  "transfer_participants_ok state network source target =
     (case (source, target) of
        (Some s, Some t) \<Rightarrow>
          nodeNetworkID s = netID network \<and> nodeNetworkID t = netID network \<and> nodeStatus s = ''active'' \<and>
          nodeStatus t = ''active'' \<and> nodeEnrolledAt s \<noteq> None \<and> nodeEnrolledAt t \<noteq> None
      | _ \<Rightarrow> False)"

definition sole_owner :: "State \<Rightarrow> Network \<Rightarrow> Node \<Rightarrow> string \<Rightarrow> bool" where
  "sole_owner state network source route =
     (case activeRouteOwners state (netID network) route of [owner] \<Rightarrow> nodeID owner = nodeID source | _ \<Rightarrow> False)"

definition transfer_target_profile :: "Node \<Rightarrow> string list \<Rightarrow> bool" where
  "transfer_target_profile target routes =
     (case normalizeRoutedSubnets (nodeRoutedSubnets target @ routes) of
        Inl e \<Rightarrow> False
      | Inr final \<Rightarrow> length final \<le> maxRoutedSubnetsPerNode)"

definition start_transfer_checks ::
  "string list \<Rightarrow> StartRouteTransferInput \<Rightarrow> State \<Rightarrow> Network \<Rightarrow> (Node \<times> Node) result" where
  "start_transfer_checks routes input state network =
     (let source = findNode state (srtSourceNodeID input); target = findNode state (srtTargetNodeID input) in
      guard_result (routeTransferTerminal (netRouteTransfer network)) ErrConflict
      (guard_result (caPhase (netCARotation network) = [] \<and> roPhase (netFirewallRollout network) = [] \<and>
          routeProfileEditTerminal (netRouteProfileEdit network) \<and>
          netConfigRevision network = srtExpectedConfigRevision input) ErrConflict
      (guard_result (transfer_participants_ok state network source target) ErrConflict
      (guard_result (subnetSetContainsAll (nodeRoutedSubnets (the source)) routes) ErrConflict
      (guard_result (list_all (sole_owner state network (the source)) routes) ErrConflict
      (guard_result (transfer_target_profile (the target) routes) ErrConflict
      (guard_result (1 \<le> nodeCertificateGeneration (the source) \<and> 1 \<le> nodeCertificateGeneration (the target) \<and>
          nodeCertificateGeneration (the target) \<noteq> MaxInt64) ErrConflict
      (Inr (the source, the target)))))))))"

definition started_transfer :: "string list \<Rightarrow> time \<Rightarrow> string \<Rightarrow> Node \<Rightarrow> Node \<Rightarrow> NetworkRouteTransfer" where
  "started_transfer routes now request source target =
     zero_route_transfer\<lparr>rtRequestID := request, rtPhase := RouteTransferPhasePreparingTarget,
       rtSourceNodeID := nodeID source, rtTargetNodeID := nodeID target, rtRoutedSubnets := routes,
       rtSourceOriginalSubnets := nodeRoutedSubnets source, rtTargetOriginalSubnets := nodeRoutedSubnets target,
       rtTargetCertificateGeneration := nodeCertificateGeneration target + 1, rtStartedAt := now\<rparr>"

definition start_transfer_commit ::
  "sha256 \<Rightarrow> string \<Rightarrow> time \<Rightarrow> Actor option \<Rightarrow> string list \<Rightarrow> StartRouteTransferInput \<Rightarrow> State \<Rightarrow> nat \<Rightarrow>
    (NetworkRouteTransferDocument \<times> State) result" where
  "start_transfer_commit sha eid now actor routes input state i =
     (let network = Networks state ! i in
      bind_result (start_transfer_checks routes input state network) (\<lambda>(source, target).
      bind_result (nextConfigRevision (netConfigRevision network) True) (\<lambda>nextRevision.
      bind_result (newOptionalAttributedAudit eid now ''network.route_transfer_started'' ''network'' (netID network)
          (Some [(''request_id'', DStr (srtRequestID input)), (''source_node_id'', DStr (nodeID source)),
                 (''target_node_id'', DStr (nodeID target)), (''routed_subnets'', DStr (join_with '','' routes)),
                 (''previous_config_revision'', DInt (srtExpectedConfigRevision input)),
                 (''config_revision'', DInt nextRevision),
                 (''target_certificate_generation'', DInt (nodeCertificateGeneration target + 1))]) actor) (\<lambda>event.
        let network' = network\<lparr>netRouteTransfer := started_transfer routes now (srtRequestID input) source target,
                               netConfigRevision := nextRevision, netConfigUpdatedAt := now\<rparr>;
            state' = add_audit (set_network state i network') event
        in Inr (routeTransferDocument sha state' network', state')))))"

definition trim_start_transfer :: "StartRouteTransferInput \<Rightarrow> StartRouteTransferInput" where
  "trim_start_transfer input =
     input\<lparr>srtSourceNodeID := TrimSpace (srtSourceNodeID input), srtTargetNodeID := TrimSpace (srtTargetNodeID input),
           srtRequestID := TrimSpace (srtRequestID input)\<rparr>"

definition start_transfer_input :: "string \<Rightarrow> StartRouteTransferInput \<Rightarrow> string list result" where
  "start_transfer_input ident input =
     (case normalizeRoutedSubnets (srtRoutedSubnets input) of
        Inl e \<Rightarrow> Inl ErrInvalid
      | Inr routes \<Rightarrow>
          if \<not> validPersistedID ident \<or> \<not> validPersistedID (srtSourceNodeID input) \<or>
             \<not> validPersistedID (srtTargetNodeID input) \<or> srtSourceNodeID input = srtTargetNodeID input \<or>
             srtExpectedConfigRevision input < 1 \<or> \<not> validRouteTransferRequestID (srtRequestID input) \<or> routes = []
          then Inl ErrInvalid else Inr routes)"

definition startRouteTransfer ::
  "sha256 \<Rightarrow> string \<Rightarrow> time \<Rightarrow> Actor option \<Rightarrow> string \<Rightarrow> StartRouteTransferInput \<Rightarrow> State \<Rightarrow>
    (NetworkRouteTransferDocument \<times> State) result" where
  "startRouteTransfer sha eid now actor ident input state =
     (let input = trim_start_transfer input in
      bind_result (start_transfer_input ident input) (\<lambda>routes.
      guard_result (route_transition_schema state) ErrConflict
      (case find_network_idx state ident of
         None \<Rightarrow> Inl ErrNotFound
       | Some i \<Rightarrow>
           (let network = Networks state ! i; existing = netRouteTransfer network in
            if rtRequestID existing = srtRequestID input
            then guard_result (rtSourceNodeID existing = srtSourceNodeID input \<and>
                   rtTargetNodeID existing = srtTargetNodeID input \<and> rtRoutedSubnets existing = routes) ErrConflict
                 (Inr (routeTransferDocument sha state network, state))
            else start_transfer_commit sha eid now actor routes input state i))))"

definition StartRouteTransferAs ::
  "sha256 \<Rightarrow> string \<Rightarrow> time \<Rightarrow> Actor \<Rightarrow> string \<Rightarrow> StartRouteTransferInput \<Rightarrow> State \<Rightarrow>
    (NetworkRouteTransferDocument \<times> State) result" where
  "StartRouteTransferAs sha eid now actor ident input state =
     bind_result (validateActor actor) (\<lambda>_. startRouteTransfer sha eid now (Some actor) ident input state)"

section \<open>Advancing and cancelling\<close>

definition cancel_transfer :: "sha256 \<Rightarrow> time \<Rightarrow> State \<Rightarrow> Network \<Rightarrow> Network result" where
  "cancel_transfer sha now state network =
     (let t = netRouteTransfer network; target = node_or_zero state (rtTargetNodeID t) in
      if rtPhase t = RouteTransferPhasePreparingTarget
      then bind_result (nextConfigRevision (netConfigRevision network) True) (\<lambda>nextRevision.
        if nodeCertificateGeneration target < rtTargetCertificateGeneration t
        then Inr (network\<lparr>netRouteTransfer := t\<lparr>rtPhase := RouteTransferPhaseCancelled, rtFinishedAt := now\<rparr>,
                          netConfigRevision := nextRevision, netConfigUpdatedAt := now\<rparr>)
        else guard_result (nodeCertificateGeneration target \<noteq> MaxInt64) ErrConflict
          (Inr (network\<lparr>netRouteTransfer := t\<lparr>rtPhase := RouteTransferPhaseCleaningTarget,
                            rtTargetCertificateGeneration := nodeCertificateGeneration target + 1\<rparr>,
                        netConfigRevision := nextRevision, netConfigUpdatedAt := now\<rparr>)))
      else if rtPhase t = RouteTransferPhaseCleaningTarget
      then guard_result (routeTransferNodeConverged sha state network target (rtTargetCertificateGeneration t)) ErrConflict
        (Inr (network\<lparr>netRouteTransfer := t\<lparr>rtPhase := RouteTransferPhaseCancelled, rtFinishedAt := now\<rparr>\<rparr>))
      else Inl ErrConflict)"

definition promote_node :: "NetworkRouteTransfer \<Rightarrow> Node \<Rightarrow> Node \<Rightarrow> Node \<Rightarrow> Node" where
  "promote_node t source target node =
     (if nodeID node = nodeID source
      then node\<lparr>nodeRoutedSubnets := subtractSubnets (rtSourceOriginalSubnets t) (rtRoutedSubnets t)\<rparr>
      else if nodeID node = nodeID target
      then node\<lparr>nodeRoutedSubnets := mergeSubnets (rtTargetOriginalSubnets t) (rtRoutedSubnets t)\<rparr>
      else node)"

definition advance_transfer :: "sha256 \<Rightarrow> time \<Rightarrow> State \<Rightarrow> Network \<Rightarrow> (State \<times> Network) result" where
  "advance_transfer sha now state network =
     (let t = netRouteTransfer network; source = node_or_zero state (rtSourceNodeID t);
          target = node_or_zero state (rtTargetNodeID t) in
      if rtPhase t = RouteTransferPhasePreparingTarget
      then guard_result (routeTransferNodeConverged sha state network target (rtTargetCertificateGeneration t)) ErrConflict
        (guard_result (nodeCertificateGeneration source \<noteq> MaxInt64) ErrConflict
        (bind_result (nextConfigRevision (netConfigRevision network) True) (\<lambda>nextRevision.
          let state' = state\<lparr>Nodes := map (promote_node t source target) (Nodes state)\<rparr>
          in Inr (state', (reconcileNetworkRoutePolicies state' network)\<lparr>
               netRouteTransfer := t\<lparr>rtPhase := RouteTransferPhaseCleaningSource, rtPromotedAt := now,
                   rtSourceCertificateGeneration := nodeCertificateGeneration source + 1\<rparr>,
               netConfigRevision := nextRevision, netConfigUpdatedAt := now\<rparr>))))
      else if rtPhase t = RouteTransferPhaseCleaningSource
      then guard_result (routeTransferNodeConverged sha state network source (rtSourceCertificateGeneration t)) ErrConflict
        (Inr (state, network\<lparr>netRouteTransfer := t\<lparr>rtPhase := RouteTransferPhaseCompleted, rtFinishedAt := now\<rparr>\<rparr>))
      else Inl ErrConflict)"

definition transfer_commit ::
  "sha256 \<Rightarrow> State \<Rightarrow> nat \<Rightarrow> Network \<Rightarrow> AuditEvent result \<Rightarrow> (NetworkRouteTransferDocument \<times> State) result" where
  "transfer_commit sha state i network audit =
     bind_result audit (\<lambda>event.
       let state' = add_audit (set_network state i network) event
       in Inr (routeTransferDocument sha state' network, state'))"

definition cancel_transfer_audit :: "string \<Rightarrow> time \<Rightarrow> Actor option \<Rightarrow> Network \<Rightarrow> AuditEvent result" where
  "cancel_transfer_audit eid now actor network =
     (let t = netRouteTransfer network in
      newOptionalAttributedAudit eid now
        (if rtPhase t = RouteTransferPhaseCleaningTarget then ''network.route_transfer_cancellation_started''
         else ''network.route_transfer_cancelled'') ''network'' (netID network)
        (Some [(''request_id'', DStr (rtRequestID t)), (''phase'', DStr (rtPhase t)),
               (''config_revision'', DInt (netConfigRevision network))]) actor)"

definition advance_transfer_audit :: "string \<Rightarrow> time \<Rightarrow> Actor option \<Rightarrow> Network \<Rightarrow> AuditEvent result" where
  "advance_transfer_audit eid now actor network =
     (let t = netRouteTransfer network in
      newOptionalAttributedAudit eid now
        (if rtPhase t = RouteTransferPhaseCompleted then ''network.route_transfer_completed''
         else ''network.route_transfer_promoted'') ''network'' (netID network)
        (Some [(''request_id'', DStr (rtRequestID t)), (''phase'', DStr (rtPhase t)),
               (''routed_subnets'', DStr (join_with '','' (rtRoutedSubnets t))),
               (''source_node_id'', DStr (rtSourceNodeID t)), (''target_node_id'', DStr (rtTargetNodeID t)),
               (''config_revision'', DInt (netConfigRevision network))]) actor)"

definition updateRouteTransfer ::
  "sha256 \<Rightarrow> string \<Rightarrow> time \<Rightarrow> Actor option \<Rightarrow> string \<Rightarrow> UpdateRouteTransferInput \<Rightarrow> bool \<Rightarrow> State \<Rightarrow>
    (NetworkRouteTransferDocument \<times> State) result" where
  "updateRouteTransfer sha eid now actor ident input cancel state =
     (let request = TrimSpace (urtRequestID input) in
      guard_result (validPersistedID ident \<and> 1 \<le> urtExpectedConfigRevision input \<and>
        validRouteTransferRequestID request) ErrInvalid
      (guard_result (route_transition_schema state) ErrConflict
      (case find_network_idx state ident of
         None \<Rightarrow> Inl ErrNotFound
       | Some i \<Rightarrow>
           (let network = Networks state ! i; t = netRouteTransfer network;
                replay = Inr (routeTransferDocument sha state network, state) in
            guard_result (rtRequestID t = request) ErrConflict
            (if (cancel \<and> rtPhase t = RouteTransferPhaseCancelled \<or> \<not> cancel \<and> rtPhase t = RouteTransferPhaseCompleted) \<and>
                terminalRouteTransitionReplayRevision (urtExpectedConfigRevision input) (netConfigRevision network)
             then replay
             else guard_result (netConfigRevision network = urtExpectedConfigRevision input) ErrConflict
             (if cancel
              then if rtPhase t = RouteTransferPhaseCancelled then replay
                   else bind_result (cancel_transfer sha now state network) (\<lambda>network'.
                     transfer_commit sha state i network' (cancel_transfer_audit eid now actor network'))
              else if rtPhase t = RouteTransferPhaseCompleted then replay
                   else bind_result (advance_transfer sha now state network) (\<lambda>(state', network').
                     transfer_commit sha state' i network' (advance_transfer_audit eid now actor network'))))))))"

definition AdvanceRouteTransferAs ::
  "sha256 \<Rightarrow> string \<Rightarrow> time \<Rightarrow> Actor \<Rightarrow> string \<Rightarrow> UpdateRouteTransferInput \<Rightarrow> State \<Rightarrow>
    (NetworkRouteTransferDocument \<times> State) result" where
  "AdvanceRouteTransferAs sha eid now actor ident input state =
     bind_result (validateActor actor) (\<lambda>_. updateRouteTransfer sha eid now (Some actor) ident input False state)"

definition CancelRouteTransferAs ::
  "sha256 \<Rightarrow> string \<Rightarrow> time \<Rightarrow> Actor \<Rightarrow> string \<Rightarrow> UpdateRouteTransferInput \<Rightarrow> State \<Rightarrow>
    (NetworkRouteTransferDocument \<times> State) result" where
  "CancelRouteTransferAs sha eid now actor ident input state =
     bind_result (validateActor actor) (\<lambda>_. updateRouteTransfer sha eid now (Some actor) ident input True state)"


section \<open>The contract of a route transition\<close>

definition route_change :: "time \<Rightarrow> Network \<Rightarrow> Network \<Rightarrow> bool" where
  "route_change now m n \<longleftrightarrow>
     n = m\<lparr>netRouteTransfer := netRouteTransfer n, netRouteProfileEdit := netRouteProfileEdit n,
           netRoutePolicies := netRoutePolicies n, netConfigRevision := netConfigRevision n,
           netConfigUpdatedAt := netConfigUpdatedAt n\<rparr> \<and>
     (netConfigRevision n = netConfigRevision m \<and> netConfigUpdatedAt n = netConfigUpdatedAt m \<or>
      netConfigRevision m \<noteq> MaxInt64 \<and> netConfigRevision n = netConfigRevision m + 1 \<and> netConfigUpdatedAt n = now)"

definition routes_only :: "Node \<Rightarrow> Node \<Rightarrow> bool" where
  "routes_only a b \<longleftrightarrow> b = a\<lparr>nodeRoutedSubnets := nodeRoutedSubnets b\<rparr>"

definition route_step :: "string \<Rightarrow> time \<Rightarrow> State \<Rightarrow> State \<Rightarrow> bool" where
  "route_step ident now s s' \<longleftrightarrow>
     (\<exists>i n nodes ev. i < length (Networks s) \<and> netID (Networks s ! i) = ident \<and> route_change now (Networks s ! i) n \<and>
        list_all2 routes_only (Nodes s) nodes \<and>
        s' = add_audit (set_network (s\<lparr>Nodes := nodes\<rparr>) i n) ev)"

lemma routes_only_simps:
  assumes "routes_only a b"
  shows "nodeID b = nodeID a" "nodeNetworkID b = nodeNetworkID a" "nodeStatus b = nodeStatus a"
    "nodeEnrolledAt b = nodeEnrolledAt a" "nodeCertificateGeneration b = nodeCertificateGeneration a"
    "nodeCertificateAuthoritySHA256 b = nodeCertificateAuthoritySHA256 a"
  by (subst assms [unfolded routes_only_def], simp)+

lemma routes_only_refl [simp]: "routes_only a a" "routes_only a (a\<lparr>nodeRoutedSubnets := xs\<rparr>)"
  by (simp_all add: routes_only_def)

lemma route_change_simps:
  assumes "route_change now m n"
  shows "netID n = netID m" "netCARotation n = netCARotation m" "netCACertificate n = netCACertificate m"
    "netFirewallRollout n = netFirewallRollout m" "netConfigRevision m \<le> netConfigRevision n"
proof -
  from assms have n: "n = m\<lparr>netRouteTransfer := netRouteTransfer n, netRouteProfileEdit := netRouteProfileEdit n,
      netRoutePolicies := netRoutePolicies n, netConfigRevision := netConfigRevision n,
      netConfigUpdatedAt := netConfigUpdatedAt n\<rparr>"
    by (simp add: route_change_def)
  show "netID n = netID m" "netCARotation n = netCARotation m" "netCACertificate n = netCACertificate m"
    "netFirewallRollout n = netFirewallRollout m"
    by (subst n, simp)+
  from assms show "netConfigRevision m \<le> netConfigRevision n" by (auto simp: route_change_def)
qed

locale route_transition =
  fixes handle :: "string \<Rightarrow> 'input \<Rightarrow> time \<Rightarrow> State \<Rightarrow> ('doc \<times> State) result"
    and network_of :: "State \<Rightarrow> string \<Rightarrow> string"
  assumes transition: "handle ident input now s = Inr (d, s') \<Longrightarrow> s' = s \<or> route_step (network_of s ident) now s s'"
begin

lemma transition_audit:
  assumes "handle ident input now s = Inr (d, s')"
  shows "\<exists>evs. Audit s' = Audit s @ evs \<and> length evs \<le> 1"
  using transition [OF assms] by (auto simp: route_step_def)

lemma transition_nodes:
  assumes "handle ident input now s = Inr (d, s')"
  shows "list_all2 routes_only (Nodes s) (Nodes s')"
  using transition [OF assms] by (auto simp: route_step_def list_all2_refl)

lemma transition_networks:
  assumes "handle ident input now s = Inr (d, s')"
  shows "list_all2 (\<lambda>m n. m = n \<or> netID m = network_of s ident \<and> route_change now m n) (Networks s) (Networks s')"
  using transition [OF assms]
proof
  assume "route_step (network_of s ident) now s s'"
  then obtain i n where "i < length (Networks s)" "netID (Networks s ! i) = network_of s ident"
      "route_change now (Networks s ! i) n" "Networks s' = (Networks s)[i := n]"
    by (auto simp: route_step_def)
  then show ?thesis
    by (auto simp: list_all2_conv_all_nth nth_list_update)
qed (simp add: list_all2_refl)

end

section \<open>The steps of a transfer\<close>

definition transfer_effect :: "sha256 \<Rightarrow> time \<Rightarrow> bool \<Rightarrow> State \<Rightarrow> Network \<Rightarrow> State \<Rightarrow> Network \<Rightarrow> bool" where
  "transfer_effect sha now cancel s n s1 n' \<longleftrightarrow>
     (if cancel then cancel_transfer sha now s n = Inr n' \<and> s1 = s else advance_transfer sha now s n = Inr (s1, n'))"

lemma updateRouteTransfer_ok:
  assumes "updateRouteTransfer sha eid now actor ident input cancel s = Inr (d, s')"
  obtains (replay) i where "find_network_idx s ident = Some i" "s' = s" "d = routeTransferDocument sha s (Networks s ! i)"
      "rtRequestID (netRouteTransfer (Networks s ! i)) = TrimSpace (urtRequestID input)"
      "rtPhase (netRouteTransfer (Networks s ! i)) =
         (if cancel then RouteTransferPhaseCancelled else RouteTransferPhaseCompleted)"
    | (step) i s1 n' ev where "find_network_idx s ident = Some i"
      "netConfigRevision (Networks s ! i) = urtExpectedConfigRevision input"
      "rtRequestID (netRouteTransfer (Networks s ! i)) = TrimSpace (urtRequestID input)"
      "transfer_effect sha now cancel s (Networks s ! i) s1 n'"
      "s' = add_audit (set_network s1 i n') ev" "d = routeTransferDocument sha s' n'"
proof -
  from assms obtain i where i: "find_network_idx s ident = Some i"
    by (auto simp: updateRouteTransfer_def Let_def split: option.splits)
  show thesis
  proof (cases "rtPhase (netRouteTransfer (Networks s ! i)) =
      (if cancel then RouteTransferPhaseCancelled else RouteTransferPhaseCompleted)")
    case True
    with assms i show thesis
      by (intro replay [OF i]) (auto simp: updateRouteTransfer_def Let_def split: if_splits)
  next
    case False
    with assms i obtain s1 n' ev where "transfer_effect sha now cancel s (Networks s ! i) s1 n'"
        "netConfigRevision (Networks s ! i) = urtExpectedConfigRevision input"
        "rtRequestID (netRouteTransfer (Networks s ! i)) = TrimSpace (urtRequestID input)"
        "s' = add_audit (set_network s1 i n') ev" "d = routeTransferDocument sha s' n'"
      by (cases cancel) (auto simp: updateRouteTransfer_def Let_def transfer_effect_def transfer_commit_def)
    then show thesis using i by (intro step)
  qed
qed

text \<open>The five steps, with what each one waited for and what it wrote.\<close>

lemma transfer_effect_cases:
  assumes "transfer_effect sha now cancel s n s1 n'"
  defines "t \<equiv> netRouteTransfer n"
  defines "target \<equiv> node_or_zero s (rtTargetNodeID t)"
  defines "source \<equiv> node_or_zero s (rtSourceNodeID t)"
  obtains (abandon) "rtPhase t = RouteTransferPhasePreparingTarget" "s1 = s" "cancel" "netConfigRevision n \<noteq> MaxInt64"
      "nodeCertificateGeneration target < rtTargetCertificateGeneration t"
      "n' = n\<lparr>netRouteTransfer := t\<lparr>rtPhase := RouteTransferPhaseCancelled, rtFinishedAt := now\<rparr>,
              netConfigRevision := netConfigRevision n + 1, netConfigUpdatedAt := now\<rparr>"
    | (undo) "rtPhase t = RouteTransferPhasePreparingTarget" "s1 = s" "cancel" "netConfigRevision n \<noteq> MaxInt64"
      "rtTargetCertificateGeneration t \<le> nodeCertificateGeneration target" "nodeCertificateGeneration target \<noteq> MaxInt64"
      "n' = n\<lparr>netRouteTransfer := t\<lparr>rtPhase := RouteTransferPhaseCleaningTarget,
                rtTargetCertificateGeneration := nodeCertificateGeneration target + 1\<rparr>,
              netConfigRevision := netConfigRevision n + 1, netConfigUpdatedAt := now\<rparr>"
    | (undone) "rtPhase t = RouteTransferPhaseCleaningTarget" "s1 = s" "cancel"
      "routeTransferNodeConverged sha s n target (rtTargetCertificateGeneration t)"
      "n' = n\<lparr>netRouteTransfer := t\<lparr>rtPhase := RouteTransferPhaseCancelled, rtFinishedAt := now\<rparr>\<rparr>"
    | (promote) "rtPhase t = RouteTransferPhasePreparingTarget" "\<not> cancel" "netConfigRevision n \<noteq> MaxInt64"
      "routeTransferNodeConverged sha s n target (rtTargetCertificateGeneration t)"
      "nodeCertificateGeneration source \<noteq> MaxInt64" "s1 = s\<lparr>Nodes := map (promote_node t source target) (Nodes s)\<rparr>"
      "n' = (reconcileNetworkRoutePolicies s1 n)\<lparr>
              netRouteTransfer := t\<lparr>rtPhase := RouteTransferPhaseCleaningSource, rtPromotedAt := now,
                rtSourceCertificateGeneration := nodeCertificateGeneration source + 1\<rparr>,
              netConfigRevision := netConfigRevision n + 1, netConfigUpdatedAt := now\<rparr>"
    | (complete) "rtPhase t = RouteTransferPhaseCleaningSource" "s1 = s" "\<not> cancel"
      "routeTransferNodeConverged sha s n source (rtSourceCertificateGeneration t)"
      "n' = n\<lparr>netRouteTransfer := t\<lparr>rtPhase := RouteTransferPhaseCompleted, rtFinishedAt := now\<rparr>\<rparr>"
  using assms(1) unfolding transfer_effect_def
  by (auto simp: cancel_transfer_def advance_transfer_def Let_def nextConfigRevision_Inr t_def target_def source_def
      split: if_splits)

lemma reconcile_change:
  "\<exists>ps. reconcileNetworkRoutePolicies s n = n\<lparr>netRoutePolicies := ps\<rparr>"
  by (cases "netRoutePolicies n = []") (auto simp: reconcileNetworkRoutePolicies_def intro: exI [of _ "[]"])

lemma transfer_effect_change:
  assumes "transfer_effect sha now cancel s n s1 n'"
  shows "route_change now n n'" "\<exists>nodes. s1 = s\<lparr>Nodes := nodes\<rparr> \<and> list_all2 routes_only (Nodes s) nodes"
proof -
  have "route_change now n n' \<and> (\<exists>nodes. s1 = s\<lparr>Nodes := nodes\<rparr> \<and> list_all2 routes_only (Nodes s) nodes)"
    using assms
  proof (cases rule: transfer_effect_cases)
    case promote
    obtain ps where "reconcileNetworkRoutePolicies s1 n = n\<lparr>netRoutePolicies := ps\<rparr>" using reconcile_change by blast
    with promote show ?thesis
      by (auto simp: route_change_def list.rel_map promote_node_def list_all2_refl)
  qed (auto simp: route_change_def list_all2_refl intro!: exI [of _ "Nodes s"])
  then show "route_change now n n'" "\<exists>nodes. s1 = s\<lparr>Nodes := nodes\<rparr> \<and> list_all2 routes_only (Nodes s) nodes"
    by blast+
qed

interpretation update_transfer: route_transition
  "\<lambda>ident input now s. updateRouteTransfer sha eid now actor ident input cancel s" "\<lambda>s ident. ident"
  for sha eid actor cancel
proof
  fix ident input now s d s'
  assume "updateRouteTransfer sha eid now actor ident input cancel s = Inr (d, s')"
  then show "s' = s \<or> route_step ident now s s'"
  proof (cases rule: updateRouteTransfer_ok)
    case (step i s1 n' ev)
    from transfer_effect_change [OF step(4)] obtain nodes where
      "route_change now (Networks s ! i) n'" "s1 = s\<lparr>Nodes := nodes\<rparr>" "list_all2 routes_only (Nodes s) nodes" by blast
    with step(5) find_network_idx_ID [OF step(1)] find_network_idx_lt [OF step(1)] show ?thesis
      unfolding route_step_def by blast
  qed simp
qed


lemma start_transfer_checks_ok:
  assumes "start_transfer_checks routes input s n = Inr (source, target)"
  shows "findNode s (srtSourceNodeID input) = Some source" "findNode s (srtTargetNodeID input) = Some target"
    "routeTransferTerminal (netRouteTransfer n)" "routeProfileEditTerminal (netRouteProfileEdit n)"
    "netConfigRevision n = srtExpectedConfigRevision input" "subnetSetContainsAll (nodeRoutedSubnets source) routes"
    "list_all (sole_owner s n source) routes" "transfer_target_profile target routes"
    "transfer_participants_ok s n (Some source) (Some target)"
    "1 \<le> nodeCertificateGeneration source" "1 \<le> nodeCertificateGeneration target"
    "nodeCertificateGeneration target \<noteq> MaxInt64"
  using assms
  by (auto simp: start_transfer_checks_def Let_def transfer_participants_ok_def split: option.splits)

lemma startRouteTransfer_ok:
  assumes "startRouteTransfer sha eid now actor ident input s = Inr (d, s')"
  obtains (replay) i where "find_network_idx s ident = Some i" "s' = s" "d = routeTransferDocument sha s (Networks s ! i)"
      "rtRequestID (netRouteTransfer (Networks s ! i)) = srtRequestID (trim_start_transfer input)"
    | (step) i routes source target ev where "find_network_idx s ident = Some i"
      "start_transfer_input ident (trim_start_transfer input) = Inr routes"
      "start_transfer_checks routes (trim_start_transfer input) s (Networks s ! i) = Inr (source, target)"
      "netConfigRevision (Networks s ! i) \<noteq> MaxInt64"
      "s' = add_audit (set_network s i ((Networks s ! i)\<lparr>
         netRouteTransfer := started_transfer routes now (TrimSpace (srtRequestID input)) source target,
         netConfigRevision := netConfigRevision (Networks s ! i) + 1, netConfigUpdatedAt := now\<rparr>)) ev"
proof -
  from assms obtain i where i: "find_network_idx s ident = Some i"
    by (auto simp: startRouteTransfer_def Let_def split: option.splits)
  show thesis
  proof (cases "rtRequestID (netRouteTransfer (Networks s ! i)) = srtRequestID (trim_start_transfer input)")
    case True
    with assms i show thesis by (intro replay [OF i]) (auto simp: startRouteTransfer_def Let_def)
  next
    case False
    with assms i obtain routes where r: "start_transfer_input ident (trim_start_transfer input) = Inr routes"
        "start_transfer_commit sha eid now actor routes (trim_start_transfer input) s i = Inr (d, s')"
      by (auto simp: startRouteTransfer_def Let_def)
    have req: "srtRequestID (trim_start_transfer input) = TrimSpace (srtRequestID input)"
      by (simp add: trim_start_transfer_def)
    from r(2) obtain source target ev where
      "start_transfer_checks routes (trim_start_transfer input) s (Networks s ! i) = Inr (source, target)"
      "netConfigRevision (Networks s ! i) \<noteq> MaxInt64"
      "s' = add_audit (set_network s i ((Networks s ! i)\<lparr>
         netRouteTransfer := started_transfer routes now (TrimSpace (srtRequestID input)) source target,
         netConfigRevision := netConfigRevision (Networks s ! i) + 1, netConfigUpdatedAt := now\<rparr>)) ev"
      by (auto simp: start_transfer_commit_def Let_def nextConfigRevision_Inr req)
    then show thesis by (rule step [OF i r(1)])
  qed
qed

interpretation start_transfer: revisioned_handler
  "\<lambda>ident input now s. startRouteTransfer sha eid now actor ident input s" "\<lambda>ident. ident" srtExpectedConfigRevision
  for sha eid actor
proof
  fix ident input now s d s'
  assume "startRouteTransfer sha eid now actor ident input s = Inr (d, s')"
  then show "s' = s \<or> network_step ident (srtExpectedConfigRevision input) now s s'"
  proof (cases rule: startRouteTransfer_ok)
    case (step i routes source target ev)
    have "netConfigRevision (Networks s ! i) = srtExpectedConfigRevision input"
      using start_transfer_checks_ok(5) [OF step(3)] by (simp add: trim_start_transfer_def)
    with step show ?thesis by (auto simp: nextConfigRevision_Inr intro!: network_step_commitI(1))
  qed simp
qed

interpretation start_transfer_routes: route_transition
  "\<lambda>ident input now s. startRouteTransfer sha eid now actor ident input s" "\<lambda>s ident. ident"
  for sha eid actor
proof
  fix ident input now s d s'
  assume "startRouteTransfer sha eid now actor ident input s = Inr (d, s')"
  then show "s' = s \<or> route_step ident now s s'"
  proof (cases rule: startRouteTransfer_ok)
    case (step i routes source target ev)
    with find_network_idx_ID [OF step(1)] find_network_idx_lt [OF step(1)] show ?thesis
      unfolding route_step_def
      by (intro disjI2 exI [of _ i] exI [of _ "(Networks s ! i)\<lparr>
         netRouteTransfer := started_transfer routes now (TrimSpace (srtRequestID input)) source target,
         netConfigRevision := netConfigRevision (Networks s ! i) + 1, netConfigUpdatedAt := now\<rparr>"]
         exI [of _ "Nodes s"] exI [of _ ev])
        (auto simp: route_change_def list_all2_refl)
  qed simp
qed

section \<open>The routing invariant\<close>

text \<open>
  What the store checks of the two transition records in every network, what the start of a transfer
  checked of its participants, and that every node carries a canonical profile.
\<close>

definition transfer_record_ok :: "NetworkRouteTransfer \<Rightarrow> bool" where
  "transfer_record_ok t =
     (validRouteTransferRequestID (rtRequestID t) \<and> validPersistedID (rtSourceNodeID t) \<and>
      validPersistedID (rtTargetNodeID t) \<and> rtSourceNodeID t \<noteq> rtTargetNodeID t \<and> rtStartedAt t \<noteq> 0 \<and>
      (routeTransferActive t \<or> rtPhase t = RouteTransferPhaseCompleted \<or> rtPhase t = RouteTransferPhaseCancelled) \<and>
      canonical_subnets (rtRoutedSubnets t) \<and> rtRoutedSubnets t \<noteq> [] \<and>
      canonical_subnets (rtSourceOriginalSubnets t) \<and> rtSourceOriginalSubnets t \<noteq> [] \<and>
      canonical_subnets (rtTargetOriginalSubnets t) \<and>
      subnetSetContainsAll (rtSourceOriginalSubnets t) (rtRoutedSubnets t) \<and>
      1 \<le> rtTargetCertificateGeneration t \<and> route_transfer_phase_metadata t)"

definition profile_record_ok :: "NetworkRouteProfileEdit \<Rightarrow> bool" where
  "profile_record_ok e =
     (validRouteTransferRequestID (peRequestID e) \<and> validPersistedID (peNodeID e) \<and> peStartedAt e \<noteq> 0 \<and>
      (routeProfileEditActive e \<or> pePhase e = RouteProfileEditPhaseCompleted \<or> pePhase e = RouteProfileEditPhaseCancelled) \<and>
      canonical_subnets (peOriginalSubnets e) \<and> canonical_subnets (peDesiredSubnets e) \<and>
      (routeProfileEditAdditions e = [] \<longrightarrow> routeProfileEditRemovals e \<noteq> [] \<and> pePreparedCertificateGeneration e = 0) \<and>
      (routeProfileEditAdditions e \<noteq> [] \<longrightarrow> 1 \<le> pePreparedCertificateGeneration e) \<and> route_profile_phase_metadata e)"

lemma zero_transfer_inactive [simp]: "zeroNetworkRouteTransfer t \<Longrightarrow> \<not> routeTransferActive t"
  by (simp add: zeroNetworkRouteTransfer_def routeTransferActive_def)

lemma zero_profile_inactive [simp]: "zeroNetworkRouteProfileEdit e \<Longrightarrow> \<not> routeProfileEditActive e"
  by (simp add: zeroNetworkRouteProfileEdit_def routeProfileEditActive_def)

lemma validate_transfer_iff:
  "validateNetworkRouteTransfer s n = Inr () \<longleftrightarrow>
     (zeroNetworkRouteTransfer (netRouteTransfer n) \<or> transfer_record_ok (netRouteTransfer n)) \<and>
     (routeTransferActive (netRouteTransfer n) \<longrightarrow> route_transfer_participants s n)"
proof (cases "zeroNetworkRouteTransfer (netRouteTransfer n)")
  case False
  then show ?thesis
    by (simp add: validateNetworkRouteTransfer_def Let_def transfer_record_ok_def flip: not_less)
qed (simp add: validateNetworkRouteTransfer_def Let_def)

lemma validate_profile_iff:
  "validateNetworkRouteProfileEdit s n = Inr () \<longleftrightarrow>
     (zeroNetworkRouteProfileEdit (netRouteProfileEdit n) \<or> profile_record_ok (netRouteProfileEdit n)) \<and>
     (routeProfileEditActive (netRouteProfileEdit n) \<longrightarrow> route_profile_owner s n)"
proof (cases "zeroNetworkRouteProfileEdit (netRouteProfileEdit n)")
  case False
  then show ?thesis
    by (simp add: validateNetworkRouteProfileEdit_def Let_def profile_record_ok_def not_less) blast
qed (simp add: validateNetworkRouteProfileEdit_def Let_def)

definition participant_ready :: "State \<Rightarrow> string \<Rightarrow> bool" where
  "participant_ready s x =
     (case findNode s x of None \<Rightarrow> True
      | Some v \<Rightarrow> nodeEnrolledAt v \<noteq> None \<and> 1 \<le> nodeCertificateGeneration v)"

definition transfer_ready :: "State \<Rightarrow> NetworkRouteTransfer \<Rightarrow> bool" where
  "transfer_ready s t =
     (routeTransferActive t \<longrightarrow>
        is_ok (normalizeRoutedSubnets (rtTargetOriginalSubnets t @ rtRoutedSubnets t)) \<and>
        participant_ready s (rtSourceNodeID t) \<and> participant_ready s (rtTargetNodeID t))"

definition network_routing_ok :: "State \<Rightarrow> Network \<Rightarrow> bool" where
  "network_routing_ok s n =
     (validateNetworkRouteTransfer s n = Inr () \<and> transfer_ready s (netRouteTransfer n) \<and>
      validateNetworkRouteProfileEdit s n = Inr ())"

definition routing_inv :: "State \<Rightarrow> bool" where
  "routing_inv s =
     (distinct (map nodeID (Nodes s)) \<and> distinct (map netID (Networks s)) \<and>
      list_all (\<lambda>v. canonical_subnets (nodeRoutedSubnets v)) (Nodes s) \<and>
      list_all (network_routing_ok s) (Networks s))"

text \<open>Nodes that belong to another network are not touched.\<close>

definition touches_only :: "string \<Rightarrow> Node \<Rightarrow> Node \<Rightarrow> bool" where
  "touches_only ident a b \<longleftrightarrow> routes_only a b \<and> (nodeNetworkID a \<noteq> ident \<longrightarrow> b = a)"

lemma touched_find:
  assumes "list_all2 (touches_only ident) (Nodes s) (Nodes s')" "findNode s x = Some a"
  obtains b where "findNode s' x = Some b" "touches_only ident a b"
proof -
  have "(nodeID v = x) = (nodeID u = x)" if "touches_only ident u v" for u v
    using that routes_only_simps(1) [of u v] by (simp add: touches_only_def)
  then show thesis
    using list_all2_find [OF assms(1), of "\<lambda>v. nodeID v = x" a] assms(2) that by (auto simp: findNode_def)
qed

lemma touched_other:
  assumes "list_all2 (touches_only ident) (Nodes s) (Nodes s')" "findNode s x = Some a" "nodeNetworkID a \<noteq> ident"
  shows "findNode s' x = Some a"
  using touched_find [OF assms(1,2)] assms(3) by (metis touches_only_def)

lemma participant_ready_touched:
  assumes "list_all2 (touches_only ident) (Nodes s) (Nodes s')" "participant_ready s x" "findNode s x \<noteq> None"
  shows "participant_ready s' x"
proof -
  from assms(3) obtain a where a: "findNode s x = Some a" by blast
  from touched_find [OF assms(1) a] obtain b where "findNode s' x = Some b" "touches_only ident a b" .
  with a assms(2) routes_only_simps [of a b] show ?thesis by (simp add: participant_ready_def touches_only_def)
qed

lemma other_network_kept:
  assumes t: "list_all2 (touches_only ident) (Nodes s) (Nodes s')" and other: "netID n \<noteq> ident"
    and ok: "network_routing_ok s n"
  shows "network_routing_ok s' n"
proof -
  have "route_transfer_participants s' n" if "route_transfer_participants s n"
    using that touched_other [OF t] other by (fastforce simp: route_transfer_participants_def Let_def split: option.splits)
  moreover have "route_profile_owner s' n" if "route_profile_owner s n"
    using that touched_other [OF t] other by (fastforce simp: route_profile_owner_def Let_def split: option.splits)
  ultimately have "validateNetworkRouteTransfer s' n = Inr ()" "validateNetworkRouteProfileEdit s' n = Inr ()"
    using ok by (auto simp: network_routing_ok_def validate_transfer_iff validate_profile_iff)
  moreover have "transfer_ready s' (netRouteTransfer n)"
  proof (cases "routeTransferActive (netRouteTransfer n)")
    case True
    then have "route_transfer_participants s n"
      using ok by (auto simp: network_routing_ok_def validate_transfer_iff)
    then have "findNode s (rtSourceNodeID (netRouteTransfer n)) \<noteq> None" "findNode s (rtTargetNodeID (netRouteTransfer n)) \<noteq> None"
      by (auto simp: route_transfer_participants_def Let_def split: option.splits)
    with True ok participant_ready_touched [OF t] show ?thesis by (simp add: transfer_ready_def network_routing_ok_def)
  qed (simp add: transfer_ready_def)
  ultimately show ?thesis by (simp add: network_routing_ok_def)
qed

lemma network_routing_cong:
  assumes "findNode s' = findNode s"
  shows "network_routing_ok s' n = network_routing_ok s n"
  unfolding network_routing_ok_def validate_transfer_iff validate_profile_iff transfer_ready_def participant_ready_def
    route_transfer_participants_def route_profile_owner_def assms ..

lemma routing_inv_update:
  assumes inv: "routing_inv s" and i: "i < length (Networks s)" "netID n = netID (Networks s ! i)"
    and t: "list_all2 (touches_only (netID n)) (Nodes s) (Nodes s')"
    and canon: "list_all (\<lambda>v. canonical_subnets (nodeRoutedSubnets v)) (Nodes s')"
    and nets: "Networks s' = (Networks s)[i := n]" and ok: "network_routing_ok s' n"
  shows "routing_inv s'"
proof -
  have "map nodeID (Nodes s') = map nodeID (Nodes s)"
    using t by (induction rule: list_all2_induct) (auto simp: touches_only_def routes_only_simps)
  moreover have ids: "map netID (Networks s') = map netID (Networks s)"
    using i nets by (simp add: map_update)  (metis list_update_id nth_map)
  moreover have "network_routing_ok s' m" if m: "m \<in> set (Networks s')" for m
    using m unfolding nets
  proof (cases rule: in_set_update_cases)
    case (2 j)
    have "distinct (map netID (Networks s))" using inv by (simp add: routing_inv_def)
    then have "netID m \<noteq> netID n" using 2 i by (auto simp: distinct_conv_nth)
    moreover have "network_routing_ok s m" using inv 2 by (auto simp: routing_inv_def list_all_length)
    ultimately show ?thesis using other_network_kept [OF t] by blast
  qed (simp add: ok)
  ultimately show ?thesis using inv canon by (simp add: routing_inv_def list_all_iff)
qed


lemma terminal_inactive:
  "routeTransferTerminal t \<Longrightarrow> \<not> routeTransferActive t" "routeProfileEditTerminal e \<Longrightarrow> \<not> routeProfileEditActive e"
  by (auto simp: routeTransferTerminal_def routeProfileEditTerminal_def routeTransferActive_def routeProfileEditActive_def
      zeroNetworkRouteTransfer_def zeroNetworkRouteProfileEdit_def)

lemma routing_inv_node:
  "routing_inv s \<Longrightarrow> findNode s x = Some v \<Longrightarrow> canonical_subnets (nodeRoutedSubnets v)"
  by (auto simp: routing_inv_def list_all_iff dest: findNode_SomeD)

lemma routing_inv_network:
  "routing_inv s \<Longrightarrow> find_network_idx s ident = Some i \<Longrightarrow> network_routing_ok s (Networks s ! i)"
  using find_network_idx_lt by (fastforce simp: routing_inv_def list_all_iff)

lemma touches_refl [simp]: "list_all2 (touches_only ident) vs vs"
  by (simp add: list_all2_refl touches_only_def)

lemma started_transfer_ok:
  assumes inv: "routing_inv s" and now: "now \<noteq> 0" and c: "start_transfer_checks routes input s n = Inr (source, target)"
    and inp: "start_transfer_input ident input = Inr routes"
  shows "transfer_record_ok (started_transfer routes now (srtRequestID input) source target)"
    "findNode s (nodeID source) = Some source" "findNode s (nodeID target) = Some target"
proof -
  note c = start_transfer_checks_ok [OF c]
  have ids: "nodeID source = srtSourceNodeID input" "nodeID target = srtTargetNodeID input"
    using c(1,2) findNode_SomeD by blast+
  then show "findNode s (nodeID source) = Some source" "findNode s (nodeID target) = Some target" using c(1,2) by simp_all
  have can: "canonical_subnets (nodeRoutedSubnets source)" "canonical_subnets (nodeRoutedSubnets target)"
    using routing_inv_node [OF inv] c(1,2) by blast+
  have r: "canonical_subnets routes" "routes \<noteq> []" "validPersistedID (srtSourceNodeID input)"
      "validPersistedID (srtTargetNodeID input)" "srtSourceNodeID input \<noteq> srtTargetNodeID input"
      "validRouteTransferRequestID (srtRequestID input)"
    using inp normalizeRoutedSubnets_idem by (auto simp: start_transfer_input_def split: sum.splits if_splits)
  have "nodeRoutedSubnets source \<noteq> []"
    using c(6) r(2) by (cases routes) (auto simp: subnetSetContainsAll_def)
  with can r c ids now show "transfer_record_ok (started_transfer routes now (srtRequestID input) source target)"
    by (simp add: transfer_record_ok_def started_transfer_def zero_route_transfer_def routeTransferActive_def
        route_transfer_phase_metadata_def)
qed

lemma start_keeps_routing:
  assumes "startRouteTransfer sha eid now actor ident input s = Inr (d, s')" "routing_inv s" "now \<noteq> 0"
  shows "routing_inv s'"
  using assms(1)
proof (cases rule: startRouteTransfer_ok)
  case (step i routes source target ev)
  let ?n = "Networks s ! i"
  let ?t = "started_transfer routes now (TrimSpace (srtRequestID input)) source target"
  let ?n' = "?n\<lparr>netRouteTransfer := ?t, netConfigRevision := netConfigRevision ?n + 1, netConfigUpdatedAt := now\<rparr>"
  have rec: "transfer_record_ok ?t" and found: "findNode s (nodeID source) = Some source" "findNode s (nodeID target) = Some target"
    using started_transfer_ok [OF assms(2,3) step(3,2)] by (simp_all add: trim_start_transfer_def)
  note c = start_transfer_checks_ok [OF step(3)]
  have fields: "rtSourceNodeID ?t = nodeID source" "rtTargetNodeID ?t = nodeID target" "rtPhase ?t = RouteTransferPhasePreparingTarget"
      "rtSourceOriginalSubnets ?t = nodeRoutedSubnets source" "rtTargetOriginalSubnets ?t = nodeRoutedSubnets target"
      "rtRoutedSubnets ?t = routes"
    by (simp_all add: started_transfer_def)
  have "route_transfer_participants s' ?n'" "transfer_ready s' ?t"
    using found c(8-11) fields step(5)
    by (auto simp: route_transfer_participants_def Let_def transfer_participants_ok_def transfer_ready_def participant_ready_def
        transfer_target_profile_def split: sum.splits)
  moreover have "validateNetworkRouteProfileEdit s' ?n' = Inr ()"
    using routing_inv_network [OF assms(2) step(1)] terminal_inactive(2) [OF c(4)]
    by (auto simp: network_routing_ok_def validate_profile_iff)
  ultimately have "network_routing_ok s' ?n'" using rec by (simp add: network_routing_ok_def validate_transfer_iff)
  moreover have "list_all (\<lambda>v. canonical_subnets (nodeRoutedSubnets v)) (Nodes s)"
    using assms(2) by (simp add: routing_inv_def)
  ultimately show ?thesis
    using step(5) by (intro routing_inv_update [OF assms(2) find_network_idx_lt [OF step(1)], of ?n']) simp_all
qed (use assms(2) in simp)

section \<open>Promotion\<close>

lemma node_or_zero_Some [simp]: "findNode s x = Some v \<Longrightarrow> node_or_zero s x = v"
  by (simp add: node_or_zero_def)

lemma promote_simps [simp]:
  "nodeID (promote_node t a b v) = nodeID v" "nodeNetworkID (promote_node t a b v) = nodeNetworkID v"
  "nodeStatus (promote_node t a b v) = nodeStatus v" "nodeEnrolledAt (promote_node t a b v) = nodeEnrolledAt v"
  by (simp_all add: promote_node_def)

lemma findNode_map:
  "(\<And>v. nodeID (f v) = nodeID v) \<Longrightarrow> findNode (s\<lparr>Nodes := map f (Nodes s)\<rparr>) x = map_option f (findNode s x)"
  by (simp add: findNode_def find_map)

text \<open>The participants of an active transfer, as the invariant gives them.\<close>

lemma active_participants:
  assumes "network_routing_ok s n" "routeTransferActive (netRouteTransfer n)"
  obtains source target where
    "findNode s (rtSourceNodeID (netRouteTransfer n)) = Some source"
    "findNode s (rtTargetNodeID (netRouteTransfer n)) = Some target"
    "nodeID source = rtSourceNodeID (netRouteTransfer n)" "nodeID target = rtTargetNodeID (netRouteTransfer n)"
    "nodeID source \<noteq> nodeID target" "nodeNetworkID source = netID n" "nodeNetworkID target = netID n"
    "nodeStatus source = ''active''" "nodeStatus target = ''active''" "nodeEnrolledAt source \<noteq> None"
    "nodeEnrolledAt target \<noteq> None" "1 \<le> nodeCertificateGeneration source" "1 \<le> nodeCertificateGeneration target"
proof -
  have p: "route_transfer_participants s n" "transfer_ready s (netRouteTransfer n)" "transfer_record_ok (netRouteTransfer n)"
    using assms by (auto simp: network_routing_ok_def validate_transfer_iff)
  from p(1) obtain source target where f: "findNode s (rtSourceNodeID (netRouteTransfer n)) = Some source"
      "findNode s (rtTargetNodeID (netRouteTransfer n)) = Some target"
    by (auto simp: route_transfer_participants_def Let_def split: option.splits)
  show thesis
    using p f assms(2) findNode_SomeD [OF f(1)] findNode_SomeD [OF f(2)]
    by (intro that [OF f])
       (simp_all add: route_transfer_participants_def Let_def transfer_ready_def participant_ready_def transfer_record_ok_def)
qed

lemma merged_profile:
  assumes "network_routing_ok s n" "routeTransferActive (netRouteTransfer n)"
  defines "t \<equiv> netRouteTransfer n"
  shows "canonical_subnets (mergeSubnets (rtTargetOriginalSubnets t) (rtRoutedSubnets t))"
    "set (mergeSubnets (rtTargetOriginalSubnets t) (rtRoutedSubnets t)) = set (rtTargetOriginalSubnets t) \<union> set (rtRoutedSubnets t)"
    "canonical_subnets (subtractSubnets (rtSourceOriginalSubnets t) (rtRoutedSubnets t))"
proof -
  have t: "transfer_record_ok t" "transfer_ready s t"
    using assms by (auto simp: network_routing_ok_def validate_transfer_iff)
  have can: "canonical_subnets (rtTargetOriginalSubnets t)" "canonical_subnets (rtRoutedSubnets t)" "rtRoutedSubnets t \<noteq> []"
      "canonical_subnets (rtSourceOriginalSubnets t)"
    using t(1) by (simp_all add: transfer_record_ok_def)
  from t(2) assms(2) obtain m where "normalizeRoutedSubnets (rtTargetOriginalSubnets t @ rtRoutedSubnets t) = Inr m"
    by (auto simp: transfer_ready_def t_def is_ok_iff)
  then have m: "mergeSubnets (rtTargetOriginalSubnets t) (rtRoutedSubnets t) = m" and "set m = TrimSpace ` set (rtTargetOriginalSubnets t @ rtRoutedSubnets t)"
    by (simp_all add: mergeSubnets_def normalize_set)
  then have "m \<noteq> []" using can(3) by auto
  with merge_set [OF can(1,2)] m show "canonical_subnets (mergeSubnets (rtTargetOriginalSubnets t) (rtRoutedSubnets t))"
    "set (mergeSubnets (rtTargetOriginalSubnets t) (rtRoutedSubnets t)) = set (rtTargetOriginalSubnets t) \<union> set (rtRoutedSubnets t)"
    by simp_all
  show "canonical_subnets (subtractSubnets (rtSourceOriginalSubnets t) (rtRoutedSubnets t))"
    using can(4) by (rule subtract_canonical)
qed


lemma promotion_frame:
  assumes inv: "routing_inv s" and ok: "network_routing_ok s n" and act: "routeTransferActive (netRouteTransfer n)"
    and found: "findNode s (rtSourceNodeID (netRouteTransfer n)) = Some source"
      "findNode s (rtTargetNodeID (netRouteTransfer n)) = Some target"
    and s1: "s1 = s\<lparr>Nodes := map (promote_node (netRouteTransfer n) source target) (Nodes s)\<rparr>"
  shows "list_all2 (touches_only (netID n)) (Nodes s) (Nodes s1)"
    "list_all (\<lambda>v. canonical_subnets (nodeRoutedSubnets v)) (Nodes s1)"
proof -
  have d: "distinct (map nodeID (Nodes s))" and can: "\<forall>v \<in> set (Nodes s). canonical_subnets (nodeRoutedSubnets v)"
    using inv by (simp_all add: routing_inv_def list_all_iff)
  from active_participants [OF ok act] found have net: "nodeNetworkID source = netID n" "nodeNetworkID target = netID n"
    by (metis option.inject)+
  have ids: "nodeID source = rtSourceNodeID (netRouteTransfer n)" "nodeID target = rtTargetNodeID (netRouteTransfer n)"
    using found findNode_SomeD by blast+
  have "v = source" if "v \<in> set (Nodes s)" "nodeID v = nodeID source" for v
    using findNode_member [OF d that(1)] that(2) found(1) ids by simp
  moreover have "v = target" if "v \<in> set (Nodes s)" "nodeID v = nodeID target" for v
    using findNode_member [OF d that(1)] that(2) found(2) ids by simp
  ultimately have "touches_only (netID n) v (promote_node (netRouteTransfer n) source target v)" if "v \<in> set (Nodes s)" for v
    using net that by (simp add: touches_only_def promote_node_def) metis
  then show "list_all2 (touches_only (netID n)) (Nodes s) (Nodes s1)"
    unfolding s1 by (simp add: list.rel_map list_all2_same)
  show "list_all (\<lambda>v. canonical_subnets (nodeRoutedSubnets v)) (Nodes s1)"
    using can merged_profile [OF ok act] unfolding s1 by (auto simp: list_all_iff promote_node_def)
qed

lemma update_keeps_network:
  assumes inv: "routing_inv s" and ok: "network_routing_ok s n" and now: "now \<noteq> 0"
    and eff: "transfer_effect sha now cancel s n s1 n'"
  shows "network_routing_ok s1 n' \<and> list_all2 (touches_only (netID n)) (Nodes s) (Nodes s1) \<and>
    list_all (\<lambda>v. canonical_subnets (nodeRoutedSubnets v)) (Nodes s1)"
proof -
  have act: "routeTransferActive (netRouteTransfer n)"
    using eff by (cases rule: transfer_effect_cases) (simp_all add: routeTransferActive_def)
  then have rec: "transfer_record_ok (netRouteTransfer n)" and part: "route_transfer_participants s n"
    and rdy: "transfer_ready s (netRouteTransfer n)" and prof: "validateNetworkRouteProfileEdit s n = Inr ()"
    using ok by (auto simp: network_routing_ok_def validate_transfer_iff)
  have idle: "\<not> routeProfileEditActive (netRouteProfileEdit n)"
    using prof act by (auto simp: validate_profile_iff route_profile_owner_def Let_def)
  from ok act obtain source target where pt:
    "findNode s (rtSourceNodeID (netRouteTransfer n)) = Some source"
    "findNode s (rtTargetNodeID (netRouteTransfer n)) = Some target"
    "nodeID source = rtSourceNodeID (netRouteTransfer n)" "nodeID target = rtTargetNodeID (netRouteTransfer n)"
    "nodeID source \<noteq> nodeID target" "nodeNetworkID source = netID n" "nodeNetworkID target = netID n"
    "nodeStatus source = ''active''" "nodeStatus target = ''active''" "nodeEnrolledAt source \<noteq> None"
    "nodeEnrolledAt target \<noteq> None" "1 \<le> nodeCertificateGeneration source" "1 \<le> nodeCertificateGeneration target"
    by (rule active_participants)
  have can: "list_all (\<lambda>v. canonical_subnets (nodeRoutedSubnets v)) (Nodes s)" using inv by (simp add: routing_inv_def)
  note defs = network_routing_ok_def validate_transfer_iff validate_profile_iff transfer_record_ok_def
    route_transfer_phase_metadata_def routeTransferActive_def
  from eff show ?thesis
  proof (cases rule: transfer_effect_cases)
    case promote
    obtain ps where ps: "reconcileNetworkRoutePolicies s1 n = n\<lparr>netRoutePolicies := ps\<rparr>" using reconcile_change by blast
    have s1: "s1 = s\<lparr>Nodes := map (promote_node (netRouteTransfer n) source target) (Nodes s)\<rparr>"
      using promote(6) pt(1,2) by simp
    note frame = promotion_frame [OF inv ok act pt(1,2) s1]
    have "route_transfer_participants s1 n'" "participant_ready s1 (rtSourceNodeID (netRouteTransfer n))"
      "participant_ready s1 (rtTargetNodeID (netRouteTransfer n))"
      using pt promote(7) ps
      by (simp_all add: s1 route_transfer_participants_def Let_def findNode_map promote_node_def participant_ready_def)
    then have "network_routing_ok s1 n'"
      using rec rdy prof idle promote(1,7) pt now ps
      by (simp add: defs transfer_ready_def)
    with frame show ?thesis by simp
  next
    case undo
    with rec part rdy prof idle now can show ?thesis
      by (simp add: defs transfer_ready_def route_transfer_participants_def Let_def split: option.splits)
  qed (use rec part rdy prof idle now can in \<open>simp_all add: defs transfer_ready_def\<close>)
qed

lemma update_keeps_routing:
  assumes "updateRouteTransfer sha eid now actor ident input cancel s = Inr (d, s')" "routing_inv s" "now \<noteq> 0"
  shows "routing_inv s'"
  using assms(1)
proof (cases rule: updateRouteTransfer_ok)
  case (step i s1 n' ev)
  let ?n = "Networks s ! i"
  note k = update_keeps_network [OF assms(2) routing_inv_network [OF assms(2) step(1)] assms(3) step(4)]
  have nets: "Networks s1 = Networks s" and id: "netID n' = netID ?n"
    using transfer_effect_change [OF step(4)] route_change_simps(1) by auto
  have "network_routing_ok s' n'" using k step(5) network_routing_cong [of s' s1] by simp
  with k nets id step(5) show ?thesis
    by (intro routing_inv_update [OF assms(2) find_network_idx_lt [OF step(1)], of n']) simp_all
qed (use assms(2) in simp)


section \<open>Ownership and retries\<close>

abbreviation owner_ids :: "State \<Rightarrow> string \<Rightarrow> string \<Rightarrow> string set" where
  "owner_ids s ident route \<equiv> nodeID ` set (activeRouteOwners s ident route)"

lemma owner_ids_cong: "Nodes s' = Nodes s \<Longrightarrow> activeRouteOwners s' = activeRouteOwners s"
  by (simp add: activeRouteOwners_def fun_eq_iff)

lemma owner_ids_iff:
  assumes "distinct (map nodeID (Nodes s))"
  shows "x \<in> owner_ids s ident route \<longleftrightarrow> (\<exists>v. findNode s x = Some v \<and> nodeNetworkID v = ident \<and> nodeStatus v = ''active'' \<and>
     nodeEnrolledAt v \<noteq> None \<and> route \<in> set (nodeRoutedSubnets v))"
  using findNode_member [OF assms] by (fastforce simp: activeRouteOwners_set dest: findNode_SomeD)

lemma promotion_owners:
  assumes inv: "routing_inv s" and ok: "network_routing_ok s n" and phase: "rtPhase (netRouteTransfer n) = RouteTransferPhasePreparingTarget"
    and eff: "transfer_effect sha now False s n s1 n'"
  defines "t \<equiv> netRouteTransfer n"
  shows "owner_ids s1 (netID n) route =
    (if route \<in> set (rtRoutedSubnets t) then insert (rtTargetNodeID t) (owner_ids s (netID n) route - {rtSourceNodeID t})
     else owner_ids s (netID n) route)"
proof -
  have act: "routeTransferActive (netRouteTransfer n)" using phase by (simp add: routeTransferActive_def)
  from ok act obtain source target where pt:
    "findNode s (rtSourceNodeID t) = Some source" "findNode s (rtTargetNodeID t) = Some target"
    "nodeID source = rtSourceNodeID t" "nodeID target = rtTargetNodeID t" "nodeID source \<noteq> nodeID target"
    "nodeNetworkID target = netID n" "nodeStatus target = ''active''" "nodeEnrolledAt target \<noteq> None"
    unfolding t_def by (rule active_participants)
  have s1: "s1 = s\<lparr>Nodes := map (promote_node t source target) (Nodes s)\<rparr>"
    using eff phase pt(1,2) by (cases rule: transfer_effect_cases) (simp_all add: t_def)
  have sub: "nodeRoutedSubnets source = rtSourceOriginalSubnets t" "nodeRoutedSubnets target = rtTargetOriginalSubnets t"
    using ok act pt phase by (auto simp: network_routing_ok_def validate_transfer_iff route_transfer_participants_def Let_def t_def)
  note m = merged_profile(2) [OF ok act, folded t_def]
  have d: "distinct (map nodeID (Nodes s))" using inv by (simp add: routing_inv_def)
  then have d1: "distinct (map nodeID (Nodes s1))" unfolding s1 by (simp add: o_def)
  have mem: "x \<in> owner_ids s1 (netID n) route \<longleftrightarrow> (\<exists>v. findNode s x = Some v \<and> nodeNetworkID v = netID n \<and>
      nodeStatus v = ''active'' \<and> nodeEnrolledAt v \<noteq> None \<and> route \<in> set (nodeRoutedSubnets (promote_node t source target v)))" for x
    unfolding owner_ids_iff [OF d1] unfolding s1 by (cases "findNode s x") (simp_all add: findNode_map)
  show ?thesis
  proof (rule set_eqI)
    fix x
    have id: "findNode s x = Some v \<Longrightarrow> nodeID v = x" for v using findNode_SomeD by blast
    consider "x = rtSourceNodeID t" | "x = rtTargetNodeID t" | "x \<noteq> rtSourceNodeID t" "x \<noteq> rtTargetNodeID t" by blast
    then show "x \<in> owner_ids s1 (netID n) route \<longleftrightarrow> x \<in> (if route \<in> set (rtRoutedSubnets t)
        then insert (rtTargetNodeID t) (owner_ids s (netID n) route - {rtSourceNodeID t}) else owner_ids s (netID n) route)"
      using pt sub m id unfolding mem
      by cases (auto simp: owner_ids_iff [OF d] promote_node_def simp del: image_iff)
  qed
qed


lemma start_retry:
  assumes "startRouteTransfer sha eid now actor ident input s = Inr (d, s')"
  shows "\<exists>n. findNetwork s' ident = Some n \<and>
    startRouteTransfer sha eid' now' actor' ident input s' = Inr (routeTransferDocument sha s' n, s')"
  using assms
proof (cases rule: startRouteTransfer_ok)
  case (replay i)
  have f: "findNetwork s ident = Some (Networks s ! i)"
    using replay(1) by (simp add: findNetwork_idx)
  with assms replay show ?thesis by (auto simp: startRouteTransfer_def Let_def)
next
  case (step i routes source target ev)
  let ?n = "(Networks s ! i)\<lparr>netRouteTransfer := started_transfer routes now (TrimSpace (srtRequestID input)) source target,
         netConfigRevision := netConfigRevision (Networks s ! i) + 1, netConfigUpdatedAt := now\<rparr>"
  have i: "find_network_idx s' ident = Some i" "Networks s' ! i = ?n"
    using set_network_find [OF step(1), of ?n s'] step(5) by simp_all
  have f: "findNetwork s' ident = Some ?n"
    using i by (simp add: findNetwork_idx)
  have "nodeID source = srtSourceNodeID (trim_start_transfer input)" "nodeID target = srtTargetNodeID (trim_start_transfer input)"
    using start_transfer_checks_ok(1,2) [OF step(3)] findNode_SomeD by blast+
  moreover have "route_transition_schema s'"
    using assms step(5) by (auto simp: startRouteTransfer_def Let_def route_transition_schema_def)
  ultimately have "startRouteTransfer sha eid' now' actor' ident input s' = Inr (routeTransferDocument sha s' ?n, s')"
    using i step(2) by (simp add: startRouteTransfer_def Let_def started_transfer_def trim_start_transfer_def)
  with f show ?thesis by blast
qed

lemma update_retry:
  assumes "updateRouteTransfer sha eid now actor ident input cancel s = Inr (d, s')"
  shows "\<exists>n. findNetwork s' ident = Some n \<and> updateRouteTransfer sha eid' now' actor' ident input cancel s' =
    (if routeTransferTerminal (netRouteTransfer n) then Inr (d, s') else Inl ErrConflict)"
proof -
  have v: "validPersistedID ident" "1 \<le> urtExpectedConfigRevision input" "validRouteTransferRequestID (TrimSpace (urtRequestID input))"
      "route_transition_schema s"
    using assms by (simp_all add: updateRouteTransfer_def Let_def)
  show ?thesis
    using assms
  proof (cases rule: updateRouteTransfer_ok)
    case (replay i)
    have f: "findNetwork s ident = Some (Networks s ! i)"
      using replay(1) by (simp add: findNetwork_idx)
    have "routeTransferTerminal (netRouteTransfer (Networks s ! i))"
      using replay(5) by (simp add: routeTransferTerminal_def split: if_splits)
    with assms replay f show ?thesis by (auto simp: updateRouteTransfer_def Let_def split: if_splits)
  next
    case (step i s1 n' ev)
    have ch: "route_change now (Networks s ! i) n'" "Networks s1 = Networks s" "Version s1 = Version s"
      using transfer_effect_change [OF step(4)] by auto
    have i: "find_network_idx s' ident = Some i" "Networks s' ! i = n'"
      using set_network_find [OF step(1) route_change_simps(1) [OF ch(1)], of s'] step(5) ch(2) by simp_all
    have f: "findNetwork s' ident = Some n'"
      using i by (simp add: findNetwork_idx)
    have sch: "route_transition_schema s'" using v(4) ch(3) step(5) by (simp add: route_transition_schema_def)
    from step(4) have "updateRouteTransfer sha eid' now' actor' ident input cancel s' =
        (if routeTransferTerminal (netRouteTransfer n') then Inr (d, s') else Inl ErrConflict)"
      by (cases rule: transfer_effect_cases)
         (use v sch i step(2,3,6) in \<open>simp_all add: updateRouteTransfer_def Let_def routeTransferTerminal_def
            terminalRouteTransitionReplayRevision_def zeroNetworkRouteTransfer_def guard_result_def\<close>)
    with f show ?thesis by blast
  qed
qed

section \<open>A sample transfer\<close>

definition handover_input :: StartRouteTransferInput where
  "handover_input = \<lparr>srtSourceNodeID = ''gateway'', srtTargetNodeID = ''member'', srtRoutedSubnets = [''192.168.4.0/24''],
     srtExpectedConfigRevision = 7, srtRequestID = ''request-0123456789''\<rparr>"

definition handover_network :: Network where
  "handover_network = demo_network\<lparr>netConfigRevision := 8,
     netRouteTransfer := started_transfer [''192.168.4.0/24''] 90 ''request-0123456789'' demo_gateway demo_member\<rparr>"

definition handover_member :: Node where
  "handover_member = demo_member\<lparr>nodeCertificateGeneration := 2, nodeAppliedCertificateGeneration := 2,
     nodeAppliedConfigRevision := 8, nodeReportedCertificateFingerprint := ''fp-member'', nodeNebulaRunning := True,
     nodeAgentStatus := ''healthy'', nodeLastSeenAt := Some 95,
     nodeAppliedConfigSHA256 := hex_string (replicate 32 112)\<rparr>"

definition handover_state :: State where
  "handover_state = demo_state\<lparr>Networks := [handover_network], Nodes := [demo_gateway, handover_member, demo_revoked]\<rparr>"

abbreviation handover_step :: UpdateRouteTransferInput where
  "handover_step \<equiv> \<lparr>urtExpectedConfigRevision = 8, urtRequestID = ''request-0123456789''\<rparr>"

lemma handover_start:
  "is_ok (startRouteTransfer wide_sha ''event'' 90 None ''net'' handover_input demo_state)"
  by code_simp

lemma handover_invs: "routing_inv demo_state" "routing_inv handover_state"
  by code_simp+

lemma handover_fields [simp]:
  "Networks handover_state = [handover_network]" "Version handover_state = 13" "netID handover_network = ''net''"
  "netConfigRevision handover_network = 8" "rtRequestID (netRouteTransfer handover_network) = ''request-0123456789''"
  "rtPhase (netRouteTransfer handover_network) = RouteTransferPhasePreparingTarget"
  "rtRoutedSubnets (netRouteTransfer handover_network) = [''192.168.4.0/24'']"
  "rtTargetNodeID (netRouteTransfer handover_network) = ''member''" "rtSourceNodeID (netRouteTransfer handover_network) = ''gateway''"
  "rtTargetCertificateGeneration (netRouteTransfer handover_network) = 2"
  "node_or_zero handover_state ''member'' = handover_member" "node_or_zero handover_state ''gateway'' = demo_gateway"
  by (simp_all add: handover_state_def handover_network_def started_transfer_def node_or_zero_def findNode_def handover_member_def
      demo_member_def demo_node_def zero_node_def)

lemma handover_converged: "routeTransferNodeConverged wide_sha handover_state handover_network handover_member 2"
proof -
  have "ConfigDigest wide_sha (renderConfig handover_state handover_network handover_member) = hex_string (replicate 32 112)"
    by (rule plain_digest) (simp add: handover_network_def)
  then show ?thesis
    by (simp add: routeTransferNodeConverged_def handover_member_def demo_member_def demo_node_def zero_node_def)
qed

lemma handover_ok:
  obtains d s' n where "updateRouteTransfer wide_sha ''event'' 99 None ''net'' handover_step False handover_state = Inr (d, s')"
    "findNetwork s' ''net'' = Some n" "\<not> routeTransferTerminal (netRouteTransfer n)"
proof -
  have v: "TrimSpace ''request-0123456789'' = ''request-0123456789''" "validRouteTransferRequestID ''request-0123456789''"
    "validPersistedID ''net''"
    by code_simp+
  have g: "nodeCertificateGeneration demo_gateway = 1" "reconcileNetworkRoutePolicies x handover_network = handover_network" for x
    by (simp_all add: demo_gateway_def demo_node_def reconcileNetworkRoutePolicies_def handover_network_def demo_network_def zero_network_def)
  obtain d s' where r: "updateRouteTransfer wide_sha ''event'' 99 None ''net'' handover_step False handover_state = Inr (d, s')"
      and n: "\<exists>n. Networks s' = [n] \<and> netID n = ''net'' \<and> rtPhase (netRouteTransfer n) = RouteTransferPhaseCleaningSource"
    using v g handover_converged
    by (simp add: updateRouteTransfer_def Let_def route_transition_schema_def find_network_idx_def
        advance_transfer_def nextConfigRevision_def transfer_commit_def advance_transfer_audit_def newOptionalAttributedAudit_def
        guard_result_def)
  from n obtain n where "Networks s' = [n]" "netID n = ''net''" "rtPhase (netRouteTransfer n) = RouteTransferPhaseCleaningSource"
    by blast
  then show thesis
    by (intro that [OF r, of n]) (simp_all add: findNetwork_def routeTransferTerminal_def zeroNetworkRouteTransfer_def)
qed

section \<open>Properties\<close>

text \<open>C10. Prefixes change hands exactly when a transfer is promoted.  A successful advance from the
  preparing phase puts the target among the owners of every transferred prefix and takes the source
  out, leaves every other prefix and every other owner alone, and happened only after the target had
  reported the prepared certificate and the current configuration; so no transferred prefix is ever
  without an owner.  Every other successful call leaves the owners of every prefix as they were.\<close>

theorem route_transfer_ownership:
  assumes "routing_inv s" "findNetwork s ident = Some n"
    and "updateRouteTransfer sha eid now actor ident input cancel s = Inr (d, s')"
  defines "t \<equiv> netRouteTransfer n"
  defines "promoted \<equiv> \<not> cancel \<and> rtPhase t = RouteTransferPhasePreparingTarget"
  shows "(\<forall>route. owner_ids s' ident route =
      (if promoted \<and> route \<in> set (rtRoutedSubnets t)
       then insert (rtTargetNodeID t) (owner_ids s ident route - {rtSourceNodeID t}) else owner_ids s ident route)) \<and>
    (promoted \<longrightarrow> routeTransferNodeConverged sha s n (node_or_zero s (rtTargetNodeID t)) (rtTargetCertificateGeneration t))"
proof -
  have n: "find_network_idx s ident = Some i \<Longrightarrow> Networks s ! i = n \<and> netID n = ident" for i
    using assms(2) find_network_idx_ID [of s ident i] by (auto simp: findNetwork_idx)
  show ?thesis
    using assms(3)
  proof (cases rule: updateRouteTransfer_ok)
    case (replay i)
    then have "\<not> promoted" using n by (auto simp: promoted_def t_def)
    with replay show ?thesis by simp
  next
    case (step i s1 n' ev)
    have ok: "network_routing_ok s n" using routing_inv_network [OF assms(1) step(1)] n [OF step(1)] by simp
    have eff: "transfer_effect sha now cancel s n s1 n'" using step(4) n [OF step(1)] by simp
    have s': "activeRouteOwners s' = activeRouteOwners s1" using step(5) by (intro owner_ids_cong) simp
    from eff show ?thesis
    proof (cases rule: transfer_effect_cases)
      case promote
      then show ?thesis
        using promotion_owners [OF assms(1) ok promote(1)] eff n [OF step(1)] by (simp add: s' promoted_def t_def)
    qed (use s' in \<open>simp_all add: promoted_def t_def\<close>)
  qed
qed

theorem route_transfer_ownership_witness:
  "owner_ids handover_state ''net'' ''192.168.4.0/24'' = {''gateway''} \<and>
   (\<exists>d s'. updateRouteTransfer wide_sha ''event'' 99 None ''net'' handover_step False handover_state = Inr (d, s') \<and>
     owner_ids s' ''net'' ''192.168.4.0/24'' = {''member''})"
proof -
  have n: "findNetwork handover_state ''net'' = Some handover_network"
    by (simp add: findNetwork_def handover_state_def handover_network_def)
  have o: "owner_ids handover_state ''net'' ''192.168.4.0/24'' = {''gateway''}" by code_simp
  obtain d s' where r: "updateRouteTransfer wide_sha ''event'' 99 None ''net'' handover_step False handover_state = Inr (d, s')"
    by (rule handover_ok)
  have "owner_ids s' ''net'' ''192.168.4.0/24'' = {''member''}"
    using route_transfer_ownership [OF handover_invs(2) n r, THEN conjunct1, THEN spec [of _ "''192.168.4.0/24''"]] o by simp
  with o r show ?thesis by blast
qed

text \<open>C32. A retried call takes effect once.  Repeating a successful start, at any later time and by any
  actor, returns the current document and leaves the state alone; repeating a successful advance or
  cancellation with the same expected revision does the same when that call finished the transfer, and
  is refused with a conflict when it did not.\<close>

theorem route_transfer_retry:
  "(startRouteTransfer sha eid now actor ident sinput s = Inr (d, s') \<longrightarrow>
      (\<exists>n. findNetwork s' ident = Some n \<and>
        startRouteTransfer sha eid' now' actor' ident sinput s' = Inr (routeTransferDocument sha s' n, s'))) \<and>
   (updateRouteTransfer sha eid now actor ident uinput cancel s = Inr (d, s') \<longrightarrow>
      (\<exists>n. findNetwork s' ident = Some n \<and>
        updateRouteTransfer sha eid' now' actor' ident uinput cancel s' =
          (if routeTransferTerminal (netRouteTransfer n) then Inr (d, s') else Inl ErrConflict)))"
  by (intro conjI impI) (rule start_retry update_retry, assumption)+

theorem route_transfer_retry_witness:
  "(\<exists>d s'. startRouteTransfer wide_sha ''event'' 90 None ''net'' handover_input demo_state = Inr (d, s') \<and>
     is_ok (startRouteTransfer wide_sha ''other'' 91 None ''net'' handover_input s')) \<and>
   (\<exists>d s'. updateRouteTransfer wide_sha ''event'' 99 None ''net'' handover_step False handover_state = Inr (d, s') \<and>
     updateRouteTransfer wide_sha ''other'' 99 None ''net'' handover_step False s' = Inl ErrConflict)"
proof
  obtain d s' where 1: "startRouteTransfer wide_sha ''event'' 90 None ''net'' handover_input demo_state = Inr (d, s')"
    using handover_start by (auto simp: is_ok_iff)
  have "is_ok (startRouteTransfer wide_sha ''other'' 91 None ''net'' handover_input s')"
    using route_transfer_retry [THEN conjunct1, THEN mp, OF 1, of "''other''" 91 None] by (auto simp: is_ok_iff)
  with 1 show "\<exists>d s'. startRouteTransfer wide_sha ''event'' 90 None ''net'' handover_input demo_state = Inr (d, s') \<and>
     is_ok (startRouteTransfer wide_sha ''other'' 91 None ''net'' handover_input s')" by blast
  obtain e t' n where 2: "updateRouteTransfer wide_sha ''event'' 99 None ''net'' handover_step False handover_state = Inr (e, t')"
    "findNetwork t' ''net'' = Some n" "\<not> routeTransferTerminal (netRouteTransfer n)"
    by (rule handover_ok)
  then have "updateRouteTransfer wide_sha ''other'' 99 None ''net'' handover_step False t' = Inl ErrConflict"
    using route_transfer_retry [THEN conjunct2, THEN mp, OF 2(1), of "''other''" 99 None] by auto
  with 2(1) show "\<exists>d s'. updateRouteTransfer wide_sha ''event'' 99 None ''net'' handover_step False handover_state = Inr (d, s') \<and>
     updateRouteTransfer wide_sha ''other'' 99 None ''net'' handover_step False s' = Inl ErrConflict" by blast
qed

end
