(* ===== verification/Mesh_RouteProfileEdit.thy ===== *)
theory Mesh_RouteProfileEdit
  imports Mesh_RouteTransfer
begin

text \<open>
  The handlers of \<^verbatim>\<open>internal/control/route_profile_edit.go\<close>: an operator replaces the prefixes of one
  gateway.  Prefixes that are added are first put into a prepared certificate and become routes only
  after the owner has reported it; prefixes that are removed stop being routes at once and a second
  certificate cleans them up.  The records and their validation are in \<^verbatim>\<open>Mesh_RouteRecords\<close>, the
  convergence test and the contract of a route transition in \<^verbatim>\<open>Mesh_RouteTransfer\<close>.
\<close>

section \<open>The document\<close>

record StartRouteProfileEditInput =
  speRoutedSubnets :: "string list"
  speExpectedConfigRevision :: int
  speRequestID :: string

record UpdateRouteProfileEditInput =
  upeExpectedConfigRevision :: int
  upeRequestID :: string

record RouteProfileEditNodeStatus =
  pnsNodeID :: string
  pnsName :: string
  pnsCertificateGeneration :: int
  pnsAppliedCertificateGeneration :: int
  pnsAppliedConfigRevision :: int
  pnsDesiredCertificateGeneration :: int
  pnsReady :: bool

record NodeRouteProfileEditDocument =
  pedSchema :: string
  pedNetworkID :: string
  pedNodeID :: string
  pedRequestID :: string
  pedPhase :: string
  pedOriginalRoutedSubnets :: "string list"
  pedDesiredRoutedSubnets :: "string list"
  pedAdditions :: "string list"
  pedRemovals :: "string list"
  pedConfigRevision :: int
  pedStartedAt :: "time option"
  pedPromotedAt :: "time option"
  pedFinishedAt :: "time option"
  pedOwner :: RouteProfileEditNodeStatus
  pedAvailableActions :: "string list"

definition routeProfileEditNodeStatus :: "sha256 \<Rightarrow> State \<Rightarrow> Network \<Rightarrow> Node \<Rightarrow> int \<Rightarrow> RouteProfileEditNodeStatus" where
  "routeProfileEditNodeStatus sha state network node desired =
     \<lparr>pnsNodeID = nodeID node, pnsName = nodeName node, pnsCertificateGeneration = nodeCertificateGeneration node,
      pnsAppliedCertificateGeneration = nodeAppliedCertificateGeneration node,
      pnsAppliedConfigRevision = nodeAppliedConfigRevision node, pnsDesiredCertificateGeneration = desired,
      pnsReady = routeTransferNodeConverged sha state network node desired\<rparr>"

definition profile_edit_actions :: "Network \<Rightarrow> Node \<Rightarrow> bool \<Rightarrow> string list" where
  "profile_edit_actions network node ready =
     (let phase = pePhase (netRouteProfileEdit network) in
      if phase = RouteProfileEditPhasePreparingOwner then (if ready then [''advance''] else []) @ [''cancel'']
      else if phase = RouteProfileEditPhaseCleaningOwner then (if ready then [''advance''] else [])
      else if phase = RouteProfileEditPhaseCleaningCancelledOwner then (if ready then [''cancel''] else [])
      else if phase = RouteProfileEditPhaseCompleted \<or> phase = RouteProfileEditPhaseCancelled
        then (if routeProfileEditStartAvailable network node then [''start''] else [])
      else [])"

definition routeProfileEditDocument :: "sha256 \<Rightarrow> State \<Rightarrow> Network \<Rightarrow> Node \<Rightarrow> NodeRouteProfileEditDocument" where
  "routeProfileEditDocument sha state network node =
     (let edit = netRouteProfileEdit network;
          doc = \<lparr>pedSchema = ''mesh-node-route-profile-edit-v1'', pedNetworkID = netID network, pedNodeID = nodeID node,
                 pedRequestID = [], pedPhase = [], pedOriginalRoutedSubnets = nodeRoutedSubnets node,
                 pedDesiredRoutedSubnets = nodeRoutedSubnets node, pedAdditions = [], pedRemovals = [],
                 pedConfigRevision = netConfigRevision network, pedStartedAt = None, pedPromotedAt = None,
                 pedFinishedAt = None, pedOwner = routeProfileEditNodeStatus sha state network node 0,
                 pedAvailableActions = []\<rparr>
      in if zeroNetworkRouteProfileEdit edit \<or> peNodeID edit \<noteq> nodeID node
         then doc\<lparr>pedAvailableActions := if routeProfileEditStartAvailable network node then [''start''] else []\<rparr>
         else let status = routeProfileEditNodeStatus sha state network node (routeProfileEditDesiredGeneration edit)
              in doc\<lparr>pedRequestID := peRequestID edit, pedPhase := pePhase edit,
                     pedOriginalRoutedSubnets := peOriginalSubnets edit, pedDesiredRoutedSubnets := peDesiredSubnets edit,
                     pedAdditions := routeProfileEditAdditions edit, pedRemovals := routeProfileEditRemovals edit,
                     pedStartedAt := optionalRouteTransferTime (peStartedAt edit),
                     pedPromotedAt := optionalRouteTransferTime (pePromotedAt edit),
                     pedFinishedAt := optionalRouteTransferTime (peFinishedAt edit), pedOwner := status,
                     pedAvailableActions := profile_edit_actions network node (pnsReady status)\<rparr>)"

definition NodeRouteProfileEdit :: "sha256 \<Rightarrow> string \<Rightarrow> State \<Rightarrow> NodeRouteProfileEditDocument result" where
  "NodeRouteProfileEdit sha ident state =
     (if \<not> validPersistedID ident then Inl ErrInvalid
      else case findNode state ident of
        None \<Rightarrow> Inl ErrNotFound
      | Some node \<Rightarrow>
          (case findNetwork state (nodeNetworkID node) of
             None \<Rightarrow> Inl ErrNotFound
           | Some network \<Rightarrow> Inr (routeProfileEditDocument sha state network node)))"

section \<open>Starting an edit\<close>

definition start_profile_checks ::
  "string list \<Rightarrow> StartRouteProfileEditInput \<Rightarrow> State \<Rightarrow> Network \<Rightarrow> Node \<Rightarrow> unit result" where
  "start_profile_checks desired input state network node =
     guard_result (routeProfileEditTerminal (netRouteProfileEdit network) \<and>
       routeTransferTerminal (netRouteTransfer network) \<and> caPhase (netCARotation network) = [] \<and>
       roPhase (netFirewallRollout network) = [] \<and>
       netConfigRevision network = speExpectedConfigRevision input) ErrConflict
     (guard_result (nodeStatus node = ''active'' \<and> nodeEnrolledAt node \<noteq> None \<and>
       1 \<le> nodeCertificateGeneration node \<and> nodeCertificateGeneration node \<noteq> MaxInt64) ErrConflict
     (guard_result (nodeRoutedSubnets node \<noteq> desired) ErrInvalid
     (bind_result (validateRouteProfileTransition (nodeRoutedSubnets node) desired) (\<lambda>_.
      validateRoutedSubnetsForNode state (nodeID node) desired))))"

definition started_profile_edit :: "string list \<Rightarrow> time \<Rightarrow> string \<Rightarrow> Node \<Rightarrow> NetworkRouteProfileEdit" where
  "started_profile_edit desired now request node =
     (let edit = zero_route_profile_edit\<lparr>peRequestID := request, peNodeID := nodeID node,
            peOriginalSubnets := nodeRoutedSubnets node, peDesiredSubnets := desired, peStartedAt := now\<rparr>
      in if routeProfileEditAdditions edit \<noteq> []
         then edit\<lparr>pePhase := RouteProfileEditPhasePreparingOwner,
                   pePreparedCertificateGeneration := nodeCertificateGeneration node + 1\<rparr>
         else edit\<lparr>pePhase := RouteProfileEditPhaseCleaningOwner, pePromotedAt := now,
                   peCleanupCertificateGeneration := nodeCertificateGeneration node + 1\<rparr>)"

text \<open>The first node with the identifier gets the profile.\<close>

definition set_profile :: "State \<Rightarrow> string \<Rightarrow> string list \<Rightarrow> State" where
  "set_profile state ident desired =
     (case find_node_idx state ident of
        None \<Rightarrow> state
      | Some k \<Rightarrow> set_node state k ((Nodes state ! k)\<lparr>nodeRoutedSubnets := desired\<rparr>))"

definition start_profile_effect :: "string list \<Rightarrow> time \<Rightarrow> string \<Rightarrow> State \<Rightarrow> Network \<Rightarrow> Node \<Rightarrow> State \<times> Network" where
  "start_profile_effect desired now request state network node =
     (let edit = started_profile_edit desired now request node in
      if routeProfileEditAdditions edit \<noteq> [] then (state, network\<lparr>netRouteProfileEdit := edit\<rparr>)
      else let state' = set_profile state (nodeID node) desired
           in (state', (reconcileNetworkRoutePolicies state' network)\<lparr>netRouteProfileEdit := edit\<rparr>))"

definition profile_commit ::
  "sha256 \<Rightarrow> State \<Rightarrow> nat \<Rightarrow> Network \<Rightarrow> Node \<Rightarrow> AuditEvent result \<Rightarrow> (NodeRouteProfileEditDocument \<times> State) result" where
  "profile_commit sha state i network node audit =
     bind_result audit (\<lambda>event.
       let state' = add_audit (set_network state i network) event
       in Inr (routeProfileEditDocument sha state' network node, state'))"

definition start_profile_commit ::
  "sha256 \<Rightarrow> string \<Rightarrow> time \<Rightarrow> Actor option \<Rightarrow> string list \<Rightarrow> StartRouteProfileEditInput \<Rightarrow> State \<Rightarrow> nat \<Rightarrow> Node \<Rightarrow>
    (NodeRouteProfileEditDocument \<times> State) result" where
  "start_profile_commit sha eid now actor desired input state i node =
     (let network = Networks state ! i in
      bind_result (start_profile_checks desired input state network node) (\<lambda>_.
      bind_result (nextConfigRevision (netConfigRevision network) True) (\<lambda>nextRevision.
        case start_profile_effect desired now (speRequestID input) state network node of (state', network') \<Rightarrow>
          (let edit = netRouteProfileEdit network' in
           profile_commit sha state' i (network'\<lparr>netConfigRevision := nextRevision, netConfigUpdatedAt := now\<rparr>)
             (if routeProfileEditAdditions edit \<noteq> [] then node else node\<lparr>nodeRoutedSubnets := desired\<rparr>)
             (newOptionalAttributedAudit eid now ''node.route_profile_edit_started'' ''node'' (nodeID node)
               (Some [(''request_id'', DStr (peRequestID edit)), (''phase'', DStr (pePhase edit)),
                      (''original_routed_subnets'', DStr (join_with '','' (peOriginalSubnets edit))),
                      (''desired_routed_subnets'', DStr (join_with '','' (peDesiredSubnets edit))),
                      (''additions'', DStr (join_with '','' (routeProfileEditAdditions edit))),
                      (''removals'', DStr (join_with '','' (routeProfileEditRemovals edit))),
                      (''previous_config_revision'', DInt (speExpectedConfigRevision input)),
                      (''config_revision'', DInt nextRevision)]) actor)))))"

definition startRouteProfileEdit ::
  "sha256 \<Rightarrow> string \<Rightarrow> time \<Rightarrow> Actor option \<Rightarrow> string \<Rightarrow> StartRouteProfileEditInput \<Rightarrow> State \<Rightarrow>
    (NodeRouteProfileEditDocument \<times> State) result" where
  "startRouteProfileEdit sha eid now actor ident input state =
     (let ident = TrimSpace ident; input = input\<lparr>speRequestID := TrimSpace (speRequestID input)\<rparr> in
      case normalizeRoutedSubnets (speRoutedSubnets input) of
        Inl e \<Rightarrow> Inl ErrInvalid
      | Inr desired \<Rightarrow>
          guard_result (validPersistedID ident \<and> 1 \<le> speExpectedConfigRevision input \<and>
            validRouteTransferRequestID (speRequestID input)) ErrInvalid
          (guard_result (now \<noteq> 0) ErrInternal
          (guard_result (route_transition_schema state) ErrConflict
          (case findNode state ident of
             None \<Rightarrow> Inl ErrNotFound
           | Some node \<Rightarrow>
               (case find_network_idx state (nodeNetworkID node) of
                  None \<Rightarrow> Inl ErrNotFound
                | Some i \<Rightarrow>
                    (let network = Networks state ! i; existing = netRouteProfileEdit network in
                     if peRequestID existing = speRequestID input
                     then guard_result (peNodeID existing = ident \<and> peDesiredSubnets existing = desired) ErrConflict
                       (Inr (routeProfileEditDocument sha state network node, state))
                     else start_profile_commit sha eid now actor desired input state i node))))))"

definition StartRouteProfileEditAs ::
  "sha256 \<Rightarrow> string \<Rightarrow> time \<Rightarrow> Actor \<Rightarrow> string \<Rightarrow> StartRouteProfileEditInput \<Rightarrow> State \<Rightarrow>
    (NodeRouteProfileEditDocument \<times> State) result" where
  "StartRouteProfileEditAs sha eid now actor ident input state =
     bind_result (validateActor actor) (\<lambda>_. startRouteProfileEdit sha eid now (Some actor) ident input state)"

section \<open>Advancing and cancelling\<close>

definition cancel_profile_edit :: "sha256 \<Rightarrow> time \<Rightarrow> State \<Rightarrow> Network \<Rightarrow> Node \<Rightarrow> Network result" where
  "cancel_profile_edit sha now state network node =
     (let edit = netRouteProfileEdit network in
      if pePhase edit = RouteProfileEditPhasePreparingOwner
      then bind_result (nextConfigRevision (netConfigRevision network) True) (\<lambda>nextRevision.
        if nodeCertificateGeneration node < pePreparedCertificateGeneration edit
        then Inr (network\<lparr>netRouteProfileEdit := edit\<lparr>pePhase := RouteProfileEditPhaseCancelled, peFinishedAt := now\<rparr>,
                          netConfigRevision := nextRevision, netConfigUpdatedAt := now\<rparr>)
        else guard_result (nodeCertificateGeneration node \<noteq> MaxInt64) ErrConflict
          (Inr (network\<lparr>netRouteProfileEdit := edit\<lparr>pePhase := RouteProfileEditPhaseCleaningCancelledOwner,
                            peCleanupCertificateGeneration := nodeCertificateGeneration node + 1\<rparr>,
                        netConfigRevision := nextRevision, netConfigUpdatedAt := now\<rparr>)))
      else if pePhase edit = RouteProfileEditPhaseCleaningCancelledOwner
      then guard_result (routeTransferNodeConverged sha state network node (peCleanupCertificateGeneration edit)) ErrConflict
        (Inr (network\<lparr>netRouteProfileEdit := edit\<lparr>pePhase := RouteProfileEditPhaseCancelled, peFinishedAt := now\<rparr>\<rparr>))
      else Inl ErrConflict)"

definition advance_profile_edit :: "sha256 \<Rightarrow> time \<Rightarrow> State \<Rightarrow> Network \<Rightarrow> Node \<Rightarrow> (State \<times> Network \<times> Node) result" where
  "advance_profile_edit sha now state network node =
     (let edit = netRouteProfileEdit network in
      if pePhase edit = RouteProfileEditPhasePreparingOwner
      then guard_result (routeTransferNodeConverged sha state network node (pePreparedCertificateGeneration edit)) ErrConflict
        (bind_result (nextConfigRevision (netConfigRevision network) True) (\<lambda>nextRevision.
          let state' = set_profile state (nodeID node) (peDesiredSubnets edit);
              node' = node\<lparr>nodeRoutedSubnets := peDesiredSubnets edit\<rparr>;
              network' = reconcileNetworkRoutePolicies state' network;
              commit = (\<lambda>edit'. Inr (state', network'\<lparr>netRouteProfileEdit := edit', netConfigRevision := nextRevision,
                                              netConfigUpdatedAt := now\<rparr>, node'))
          in if routeProfileEditRemovals edit \<noteq> []
             then guard_result (nodeCertificateGeneration node' \<noteq> MaxInt64) ErrConflict
               (commit (edit\<lparr>pePromotedAt := now, pePhase := RouteProfileEditPhaseCleaningOwner,
                             peCleanupCertificateGeneration := nodeCertificateGeneration node' + 1\<rparr>))
             else commit (edit\<lparr>pePromotedAt := now, pePhase := RouteProfileEditPhaseCompleted, peFinishedAt := now\<rparr>)))
      else if pePhase edit = RouteProfileEditPhaseCleaningOwner
      then guard_result (routeTransferNodeConverged sha state network node (peCleanupCertificateGeneration edit)) ErrConflict
        (Inr (state, network\<lparr>netRouteProfileEdit := edit\<lparr>pePhase := RouteProfileEditPhaseCompleted, peFinishedAt := now\<rparr>\<rparr>, node))
      else Inl ErrConflict)"

definition cancel_profile_audit :: "string \<Rightarrow> time \<Rightarrow> Actor option \<Rightarrow> Network \<Rightarrow> Node \<Rightarrow> AuditEvent result" where
  "cancel_profile_audit eid now actor network node =
     (let edit = netRouteProfileEdit network in
      newOptionalAttributedAudit eid now
        (if pePhase edit = RouteProfileEditPhaseCleaningCancelledOwner then ''node.route_profile_edit_cancellation_started''
         else ''node.route_profile_edit_cancelled'') ''node'' (nodeID node)
        (Some [(''request_id'', DStr (peRequestID edit)), (''phase'', DStr (pePhase edit)),
               (''config_revision'', DInt (netConfigRevision network))]) actor)"

definition advance_profile_audit :: "string \<Rightarrow> time \<Rightarrow> Actor option \<Rightarrow> Network \<Rightarrow> Node \<Rightarrow> AuditEvent result" where
  "advance_profile_audit eid now actor network node =
     (let edit = netRouteProfileEdit network in
      newOptionalAttributedAudit eid now
        (if pePhase edit = RouteProfileEditPhaseCompleted then ''node.route_profile_edit_completed''
         else ''node.route_profile_edit_promoted'') ''node'' (nodeID node)
        (Some [(''request_id'', DStr (peRequestID edit)), (''phase'', DStr (pePhase edit)),
               (''desired_routed_subnets'', DStr (join_with '','' (peDesiredSubnets edit))),
               (''config_revision'', DInt (netConfigRevision network))]) actor)"

text \<open>The loop skips the networks whose edit belongs to another node.\<close>

definition find_edit_idx :: "State \<Rightarrow> Node \<Rightarrow> nat option" where
  "find_edit_idx state node =
     find_idx (\<lambda>n. netID n = nodeNetworkID node \<and> peNodeID (netRouteProfileEdit n) = nodeID node) (Networks state)"

definition updateRouteProfileEdit ::
  "sha256 \<Rightarrow> string \<Rightarrow> time \<Rightarrow> Actor option \<Rightarrow> string \<Rightarrow> UpdateRouteProfileEditInput \<Rightarrow> bool \<Rightarrow> State \<Rightarrow>
    (NodeRouteProfileEditDocument \<times> State) result" where
  "updateRouteProfileEdit sha eid now actor ident input cancel state =
     (let ident = TrimSpace ident; request = TrimSpace (upeRequestID input) in
      guard_result (validPersistedID ident \<and> 1 \<le> upeExpectedConfigRevision input \<and>
        validRouteTransferRequestID request) ErrInvalid
      (guard_result (now \<noteq> 0) ErrInternal
      (guard_result (route_transition_schema state) ErrConflict
      (case findNode state ident of
         None \<Rightarrow> Inl ErrNotFound
       | Some node \<Rightarrow>
           (case find_edit_idx state node of
              None \<Rightarrow> Inl ErrNotFound
            | Some i \<Rightarrow>
                (let network = Networks state ! i; edit = netRouteProfileEdit network;
                     replay = Inr (routeProfileEditDocument sha state network node, state) in
                 guard_result (peRequestID edit = request) ErrConflict
                 (if (cancel \<and> pePhase edit = RouteProfileEditPhaseCancelled \<or>
                      \<not> cancel \<and> pePhase edit = RouteProfileEditPhaseCompleted) \<and>
                     terminalRouteTransitionReplayRevision (upeExpectedConfigRevision input) (netConfigRevision network)
                  then replay
                  else guard_result (netConfigRevision network = upeExpectedConfigRevision input) ErrConflict
                  (if cancel
                   then if pePhase edit = RouteProfileEditPhaseCancelled then replay
                        else bind_result (cancel_profile_edit sha now state network node) (\<lambda>network'.
                          profile_commit sha state i network' node (cancel_profile_audit eid now actor network' node))
                   else if pePhase edit = RouteProfileEditPhaseCompleted then replay
                        else bind_result (advance_profile_edit sha now state network node) (\<lambda>(state', network', node').
                          profile_commit sha state' i network' node'
                            (advance_profile_audit eid now actor network' node'))))))))))"

definition AdvanceRouteProfileEditAs ::
  "sha256 \<Rightarrow> string \<Rightarrow> time \<Rightarrow> Actor \<Rightarrow> string \<Rightarrow> UpdateRouteProfileEditInput \<Rightarrow> State \<Rightarrow>
    (NodeRouteProfileEditDocument \<times> State) result" where
  "AdvanceRouteProfileEditAs sha eid now actor ident input state =
     bind_result (validateActor actor) (\<lambda>_. updateRouteProfileEdit sha eid now (Some actor) ident input False state)"

definition CancelRouteProfileEditAs ::
  "sha256 \<Rightarrow> string \<Rightarrow> time \<Rightarrow> Actor \<Rightarrow> string \<Rightarrow> UpdateRouteProfileEditInput \<Rightarrow> State \<Rightarrow>
    (NodeRouteProfileEditDocument \<times> State) result" where
  "CancelRouteProfileEditAs sha eid now actor ident input state =
     bind_result (validateActor actor) (\<lambda>_. updateRouteProfileEdit sha eid now (Some actor) ident input True state)"

section \<open>The steps of an edit\<close>

lemma find_node_idx_Some:
  assumes "findNode s x = Some v"
  obtains k where "find_node_idx s x = Some k" "k < length (Nodes s)" "Nodes s ! k = v" "nodeID v = x"
  using assms find_idx_lt findNode_SomeD [OF assms]
  by (auto simp: findNode_def find_node_idx_def find_find_idx)

lemma set_profile_nodes:
  assumes "findNode s x = Some v"
  obtains k where "k < length (Nodes s)" "Nodes s ! k = v"
    "set_profile s x d = s\<lparr>Nodes := (Nodes s)[k := v\<lparr>nodeRoutedSubnets := d\<rparr>]\<rparr>"
  using assms by (rule find_node_idx_Some) (auto simp: set_profile_def set_node_def intro: that)

lemma routes_only_update:
  "k < length vs \<Longrightarrow> list_all2 routes_only vs (vs[k := (vs ! k)\<lparr>nodeRoutedSubnets := d\<rparr>])"
  by (auto simp: list_all2_conv_all_nth nth_list_update)

definition profile_effect :: "sha256 \<Rightarrow> time \<Rightarrow> bool \<Rightarrow> State \<Rightarrow> Network \<Rightarrow> Node \<Rightarrow> State \<Rightarrow> Network \<Rightarrow> Node \<Rightarrow> bool" where
  "profile_effect sha now cancel s n v s1 n' v' \<longleftrightarrow>
     (if cancel then cancel_profile_edit sha now s n v = Inr n' \<and> s1 = s \<and> v' = v
      else advance_profile_edit sha now s n v = Inr (s1, n', v'))"

lemma updateRouteProfileEdit_ok:
  assumes "updateRouteProfileEdit sha eid now actor ident input cancel s = Inr (d, s')"
  obtains (replay) v i where "now \<noteq> 0" "findNode s (TrimSpace ident) = Some v" "find_edit_idx s v = Some i" "s' = s"
      "pePhase (netRouteProfileEdit (Networks s ! i)) =
         (if cancel then RouteProfileEditPhaseCancelled else RouteProfileEditPhaseCompleted)"
    | (step) v i s1 n' v' ev where "now \<noteq> 0" "findNode s (TrimSpace ident) = Some v" "find_edit_idx s v = Some i"
      "netConfigRevision (Networks s ! i) = upeExpectedConfigRevision input"
      "profile_effect sha now cancel s (Networks s ! i) v s1 n' v'"
      "s' = add_audit (set_network s1 i n') ev" "d = routeProfileEditDocument sha s' n' v'"
proof -
  from assms obtain v i where v: "now \<noteq> 0" "findNode s (TrimSpace ident) = Some v" "find_edit_idx s v = Some i"
    by (auto simp: updateRouteProfileEdit_def Let_def split: option.splits)
  show thesis
  proof (cases "pePhase (netRouteProfileEdit (Networks s ! i)) =
      (if cancel then RouteProfileEditPhaseCancelled else RouteProfileEditPhaseCompleted)")
    case True
    with assms v show thesis
      by (intro replay [OF v]) (auto simp: updateRouteProfileEdit_def Let_def split: if_splits)
  next
    case False
    with assms v obtain s1 n' v' ev where "profile_effect sha now cancel s (Networks s ! i) v s1 n' v'"
        "netConfigRevision (Networks s ! i) = upeExpectedConfigRevision input"
        "s' = add_audit (set_network s1 i n') ev" "d = routeProfileEditDocument sha s' n' v'"
      by (cases cancel) (auto simp: updateRouteProfileEdit_def Let_def profile_effect_def profile_commit_def)
    then show thesis using v by (intro step)
  qed
qed

definition promoted_edit :: "time \<Rightarrow> Node \<Rightarrow> NetworkRouteProfileEdit \<Rightarrow> NetworkRouteProfileEdit" where
  "promoted_edit now v e =
     (if routeProfileEditRemovals e \<noteq> []
      then e\<lparr>pePromotedAt := now, pePhase := RouteProfileEditPhaseCleaningOwner,
             peCleanupCertificateGeneration := nodeCertificateGeneration v + 1\<rparr>
      else e\<lparr>pePromotedAt := now, pePhase := RouteProfileEditPhaseCompleted, peFinishedAt := now\<rparr>)"

lemma profile_effect_cases:
  assumes "profile_effect sha now cancel s n v s1 n' v'"
  defines "e \<equiv> netRouteProfileEdit n"
  obtains (abandon) "pePhase e = RouteProfileEditPhasePreparingOwner" "s1 = s" "v' = v" "cancel" "netConfigRevision n \<noteq> MaxInt64"
      "nodeCertificateGeneration v < pePreparedCertificateGeneration e"
      "n' = n\<lparr>netRouteProfileEdit := e\<lparr>pePhase := RouteProfileEditPhaseCancelled, peFinishedAt := now\<rparr>,
              netConfigRevision := netConfigRevision n + 1, netConfigUpdatedAt := now\<rparr>"
    | (undo) "pePhase e = RouteProfileEditPhasePreparingOwner" "s1 = s" "v' = v" "cancel" "netConfigRevision n \<noteq> MaxInt64"
      "pePreparedCertificateGeneration e \<le> nodeCertificateGeneration v" "nodeCertificateGeneration v \<noteq> MaxInt64"
      "n' = n\<lparr>netRouteProfileEdit := e\<lparr>pePhase := RouteProfileEditPhaseCleaningCancelledOwner,
                peCleanupCertificateGeneration := nodeCertificateGeneration v + 1\<rparr>,
              netConfigRevision := netConfigRevision n + 1, netConfigUpdatedAt := now\<rparr>"
    | (undone) "pePhase e = RouteProfileEditPhaseCleaningCancelledOwner" "s1 = s" "v' = v" "cancel"
      "routeTransferNodeConverged sha s n v (peCleanupCertificateGeneration e)"
      "n' = n\<lparr>netRouteProfileEdit := e\<lparr>pePhase := RouteProfileEditPhaseCancelled, peFinishedAt := now\<rparr>\<rparr>"
    | (promote) "pePhase e = RouteProfileEditPhasePreparingOwner" "\<not> cancel" "netConfigRevision n \<noteq> MaxInt64"
      "routeTransferNodeConverged sha s n v (pePreparedCertificateGeneration e)"
      "routeProfileEditRemovals e \<noteq> [] \<longrightarrow> nodeCertificateGeneration v \<noteq> MaxInt64"
      "s1 = set_profile s (nodeID v) (peDesiredSubnets e)" "v' = v\<lparr>nodeRoutedSubnets := peDesiredSubnets e\<rparr>"
      "n' = (reconcileNetworkRoutePolicies s1 n)\<lparr>netRouteProfileEdit := promoted_edit now v e,
              netConfigRevision := netConfigRevision n + 1, netConfigUpdatedAt := now\<rparr>"
    | (complete) "pePhase e = RouteProfileEditPhaseCleaningOwner" "s1 = s" "v' = v" "\<not> cancel"
      "routeTransferNodeConverged sha s n v (peCleanupCertificateGeneration e)"
      "n' = n\<lparr>netRouteProfileEdit := e\<lparr>pePhase := RouteProfileEditPhaseCompleted, peFinishedAt := now\<rparr>\<rparr>"
  using assms(1) unfolding profile_effect_def
  by (auto simp: cancel_profile_edit_def advance_profile_edit_def Let_def nextConfigRevision_Inr e_def promoted_edit_def
      split: if_splits)

lemma set_profile_routes:
  assumes "findNode s x = Some v"
  shows "\<exists>nodes. set_profile s x d = s\<lparr>Nodes := nodes\<rparr> \<and> list_all2 routes_only (Nodes s) nodes"
  using assms by (rule set_profile_nodes) (auto dest: routes_only_update [of _ "Nodes s" d])

lemma profile_effect_change:
  assumes "profile_effect sha now cancel s n v s1 n' v'" "findNode s (nodeID v) = Some v"
  shows "route_change now n n'" "\<exists>nodes. s1 = s\<lparr>Nodes := nodes\<rparr> \<and> list_all2 routes_only (Nodes s) nodes"
proof -
  have "route_change now n n' \<and> (\<exists>nodes. s1 = s\<lparr>Nodes := nodes\<rparr> \<and> list_all2 routes_only (Nodes s) nodes)"
    using assms(1)
  proof (cases rule: profile_effect_cases)
    case promote
    obtain ps where "reconcileNetworkRoutePolicies s1 n = n\<lparr>netRoutePolicies := ps\<rparr>" using reconcile_change by blast
    with promote set_profile_routes [OF assms(2)] show ?thesis by (auto simp: route_change_def)
  qed (auto simp: route_change_def list_all2_refl intro!: exI [of _ "Nodes s"])
  then show "route_change now n n'" "\<exists>nodes. s1 = s\<lparr>Nodes := nodes\<rparr> \<and> list_all2 routes_only (Nodes s) nodes"
    by blast+
qed

text \<open>The network of the node a call names.\<close>

definition network_of_node :: "State \<Rightarrow> string \<Rightarrow> string" where
  "network_of_node s ident = (case findNode s (TrimSpace ident) of None \<Rightarrow> [] | Some v \<Rightarrow> nodeNetworkID v)"

lemma find_edit_idx_Some:
  assumes "find_edit_idx s v = Some i"
  shows "i < length (Networks s)" "netID (Networks s ! i) = nodeNetworkID v" "peNodeID (netRouteProfileEdit (Networks s ! i)) = nodeID v"
  using assms by (auto simp: find_edit_idx_def dest: find_idx_lt find_idx_P)

lemma findNode_own: "findNode s x = Some v \<Longrightarrow> findNode s (nodeID v) = Some v"
  using findNode_SomeD by blast

interpretation update_profile: route_transition
  "\<lambda>ident input now s. updateRouteProfileEdit sha eid now actor ident input cancel s" network_of_node
  for sha eid actor cancel
proof
  fix ident input now s d s'
  assume "updateRouteProfileEdit sha eid now actor ident input cancel s = Inr (d, s')"
  then show "s' = s \<or> route_step (network_of_node s ident) now s s'"
  proof (cases rule: updateRouteProfileEdit_ok)
    case (step v i s1 n' v' ev)
    from profile_effect_change [OF step(5) findNode_own [OF step(2)]] obtain nodes where
      "route_change now (Networks s ! i) n'" "s1 = s\<lparr>Nodes := nodes\<rparr>" "list_all2 routes_only (Nodes s) nodes" by blast
    moreover have "netID (Networks s ! i) = network_of_node s ident"
      using find_edit_idx_Some(2) [OF step(3)] step(2) by (simp add: network_of_node_def)
    ultimately show ?thesis
      using step(6) find_edit_idx_Some(1) [OF step(3)] unfolding route_step_def by blast
  qed simp
qed

lemma start_profile_checks_ok:
  assumes "start_profile_checks desired input s n v = Inr ()"
  shows "routeProfileEditTerminal (netRouteProfileEdit n)" "routeTransferTerminal (netRouteTransfer n)"
    "nodeStatus v = ''active''" "nodeEnrolledAt v \<noteq> None" "1 \<le> nodeCertificateGeneration v"
    "nodeCertificateGeneration v \<noteq> MaxInt64" "nodeRoutedSubnets v \<noteq> desired"
  using assms by (auto simp: start_profile_checks_def)

lemma startRouteProfileEdit_ok:
  assumes "startRouteProfileEdit sha eid now actor ident input s = Inr (d, s')"
  obtains (replay) "now \<noteq> 0" "s' = s"
    | (step) desired v i s1 n1 ev where "now \<noteq> 0" "findNode s (TrimSpace ident) = Some v"
      "find_network_idx s (nodeNetworkID v) = Some i" "canonical_subnets desired" "validPersistedID (nodeID v)"
      "validRouteTransferRequestID (TrimSpace (speRequestID input))"
      "start_profile_checks desired (input\<lparr>speRequestID := TrimSpace (speRequestID input)\<rparr>) s (Networks s ! i) v = Inr ()"
      "netConfigRevision (Networks s ! i) \<noteq> MaxInt64"
      "start_profile_effect desired now (TrimSpace (speRequestID input)) s (Networks s ! i) v = (s1, n1)"
      "s' = add_audit (set_network s1 i (n1\<lparr>netConfigRevision := netConfigRevision (Networks s ! i) + 1,
         netConfigUpdatedAt := now\<rparr>)) ev"
proof -
  let ?in = "input\<lparr>speRequestID := TrimSpace (speRequestID input)\<rparr>"
  from assms obtain desired v i where v: "now \<noteq> 0" "findNode s (TrimSpace ident) = Some v"
      "find_network_idx s (nodeNetworkID v) = Some i" "normalizeRoutedSubnets (speRoutedSubnets input) = Inr desired"
      "validPersistedID (TrimSpace ident)" "validRouteTransferRequestID (TrimSpace (speRequestID input))"
    by (auto simp: startRouteProfileEdit_def Let_def split: option.splits sum.splits)
  show thesis
  proof (cases "peRequestID (netRouteProfileEdit (Networks s ! i)) = TrimSpace (speRequestID input)")
    case True
    with assms v show thesis by (intro replay) (auto simp: startRouteProfileEdit_def Let_def)
  next
    case False
    with assms v have c: "start_profile_commit sha eid now actor desired ?in s i v = Inr (d, s')"
      by (auto simp: startRouteProfileEdit_def Let_def)
    obtain s1 n1 where e: "start_profile_effect desired now (TrimSpace (speRequestID input)) s (Networks s ! i) v = (s1, n1)"
      by fastforce
    from c e obtain ev where "start_profile_checks desired ?in s (Networks s ! i) v = Inr ()"
        "netConfigRevision (Networks s ! i) \<noteq> MaxInt64"
        "s' = add_audit (set_network s1 i (n1\<lparr>netConfigRevision := netConfigRevision (Networks s ! i) + 1,
           netConfigUpdatedAt := now\<rparr>)) ev"
      by (auto simp: start_profile_commit_def Let_def nextConfigRevision_Inr profile_commit_def)
    moreover have "validPersistedID (nodeID v)" using v(5) findNode_SomeD [OF v(2)] by simp
    ultimately show thesis
      by (intro step [OF v(1-3) normalizeRoutedSubnets_idem [OF v(4)] _ v(6) _ _ e])
  qed
qed

lemma start_effect_change:
  assumes "start_profile_effect desired now request s n v = (s1, n1)" "findNode s x = Some v" "netConfigRevision n \<noteq> MaxInt64"
  shows "route_change now n (n1\<lparr>netConfigRevision := netConfigRevision n + 1, netConfigUpdatedAt := now\<rparr>)"
    "\<exists>nodes. s1 = s\<lparr>Nodes := nodes\<rparr> \<and> list_all2 routes_only (Nodes s) nodes"
proof -
  obtain ps where ps: "reconcileNetworkRoutePolicies s1 n = n\<lparr>netRoutePolicies := ps\<rparr>" using reconcile_change by blast
  with assms(1,3) show "route_change now n (n1\<lparr>netConfigRevision := netConfigRevision n + 1, netConfigUpdatedAt := now\<rparr>)"
    by (auto simp: start_profile_effect_def Let_def route_change_def split: if_splits)
  from assms(1) have "s1 = s \<or> s1 = set_profile s (nodeID v) desired"
    by (auto simp: start_profile_effect_def Let_def split: if_splits)
  moreover have "s = s\<lparr>Nodes := Nodes s\<rparr> \<and> list_all2 routes_only (Nodes s) (Nodes s)" by (simp add: list_all2_refl)
  ultimately show "\<exists>nodes. s1 = s\<lparr>Nodes := nodes\<rparr> \<and> list_all2 routes_only (Nodes s) nodes"
    using set_profile_routes [OF findNode_own [OF assms(2)], of desired] by blast
qed

interpretation start_profile: route_transition
  "\<lambda>ident input now s. startRouteProfileEdit sha eid now actor ident input s" network_of_node
  for sha eid actor
proof
  fix ident input now s d s'
  assume "startRouteProfileEdit sha eid now actor ident input s = Inr (d, s')"
  then show "s' = s \<or> route_step (network_of_node s ident) now s s'"
  proof (cases rule: startRouteProfileEdit_ok)
    case (step desired v i s1 n1 ev)
    from start_effect_change [OF step(9,2,8)] obtain nodes where
      "route_change now (Networks s ! i) (n1\<lparr>netConfigRevision := netConfigRevision (Networks s ! i) + 1, netConfigUpdatedAt := now\<rparr>)"
      "s1 = s\<lparr>Nodes := nodes\<rparr>" "list_all2 routes_only (Nodes s) nodes" by blast
    moreover have "netID (Networks s ! i) = network_of_node s ident"
      using find_network_idx_ID [OF step(3)] step(2) by (simp add: network_of_node_def)
    ultimately show ?thesis
      using step(10) find_network_idx_lt [OF step(3)] unfolding route_step_def by blast
  qed simp
qed

section \<open>The routing invariant\<close>

lemma set_profile_frame:
  assumes inv: "routing_inv s" and v: "findNode s x = Some v" "nodeNetworkID v = ident" and d: "canonical_subnets d"
  shows "list_all2 (touches_only ident) (Nodes s) (Nodes (set_profile s x d))"
    "list_all (\<lambda>v. canonical_subnets (nodeRoutedSubnets v)) (Nodes (set_profile s x d))"
    "findNode (set_profile s x d) y = (if y = x then Some (v\<lparr>nodeRoutedSubnets := d\<rparr>) else findNode s y)"
proof -
  obtain k where k: "find_node_idx s x = Some k" "k < length (Nodes s)" "Nodes s ! k = v" "nodeID v = x"
    using v(1) by (rule find_node_idx_Some)
  then have n: "Nodes (set_profile s x d) = (Nodes s)[k := v\<lparr>nodeRoutedSubnets := d\<rparr>]" by (simp add: set_profile_def)
  show "list_all2 (touches_only ident) (Nodes s) (Nodes (set_profile s x d))"
    unfolding n using k v(2) by (auto simp: list_all2_conv_all_nth nth_list_update touches_only_def)
  show "list_all (\<lambda>v. canonical_subnets (nodeRoutedSubnets v)) (Nodes (set_profile s x d))"
    unfolding n using inv d by (auto simp: routing_inv_def list_all_iff dest!: set_update_subset_insert [THEN subsetD])
  show "findNode (set_profile s x d) y = (if y = x then Some (v\<lparr>nodeRoutedSubnets := d\<rparr>) else findNode s y)"
  proof (cases "y = x")
    case True
    have "find_idx (\<lambda>n. nodeID n = x) ((Nodes s)[k := v\<lparr>nodeRoutedSubnets := d\<rparr>]) = Some k"
      by (rule find_idx_update_same) (use k in \<open>simp_all add: find_node_idx_def\<close>)
    with True k show ?thesis by (simp add: findNode_def n find_find_idx)
  next
    case False
    have "find_idx (\<lambda>n. nodeID n = y) ((Nodes s)[k := v\<lparr>nodeRoutedSubnets := d\<rparr>]) = find_idx (\<lambda>n. nodeID n = y) (Nodes s)"
      by (rule find_idx_update_other) (use k in simp_all)
    moreover have "j \<noteq> k" if "find_idx (\<lambda>n. nodeID n = y) (Nodes s) = Some j" for j
      using find_idx_P [OF that] k False by auto
    ultimately show ?thesis using False by (auto simp: findNode_def n find_find_idx map_option_case split: option.splits)
  qed
qed

text \<open>The owner of an active edit, as the invariant gives it.\<close>

lemma profile_owner:
  assumes "network_routing_ok s n" "routeProfileEditActive (netRouteProfileEdit n)" "findNode s (peNodeID (netRouteProfileEdit n)) = Some v"
  shows "profile_record_ok (netRouteProfileEdit n)" "\<not> routeTransferActive (netRouteTransfer n)" "nodeNetworkID v = netID n"
    "nodeStatus v = ''active''" "nodeEnrolledAt v \<noteq> None"
    "nodeRoutedSubnets v = (if pePhase (netRouteProfileEdit n) = RouteProfileEditPhaseCleaningOwner
       then peDesiredSubnets (netRouteProfileEdit n) else peOriginalSubnets (netRouteProfileEdit n))"
    "routeProfileEditDesiredGeneration (netRouteProfileEdit n) = nodeCertificateGeneration v \<or>
     nodeCertificateGeneration v \<noteq> MaxInt64 \<and> routeProfileEditDesiredGeneration (netRouteProfileEdit n) = nodeCertificateGeneration v + 1"
  using assms by (auto simp: network_routing_ok_def validate_profile_iff route_profile_owner_def Let_def)

lemma active_network_ok:
  assumes "network_routing_ok s n" "\<not> routeTransferActive (netRouteTransfer n)" "profile_record_ok e"
    and "netRouteTransfer n' = netRouteTransfer n" "netRouteProfileEdit n' = e" "netID n' = netID n"
    and "findNode s' (peNodeID e) = Some w" "nodeNetworkID w = netID n" "nodeStatus w = ''active''" "nodeEnrolledAt w \<noteq> None"
    and "routeProfileEditDesiredGeneration e = nodeCertificateGeneration w + 1" "nodeCertificateGeneration w \<noteq> MaxInt64"
    and "nodeRoutedSubnets w = (if pePhase e = RouteProfileEditPhaseCleaningOwner then peDesiredSubnets e else peOriginalSubnets e)"
  shows "network_routing_ok s' n'"
proof -
  have "route_profile_owner s' n'" using assms by (simp add: route_profile_owner_def Let_def)
  with assms(1-5) show ?thesis
    by (simp add: network_routing_ok_def validate_transfer_iff validate_profile_iff transfer_ready_def)
qed

lemma idle_network_ok:
  assumes "network_routing_ok s n" "\<not> routeTransferActive (netRouteTransfer n)" "profile_record_ok e"
    and "netRouteTransfer n' = netRouteTransfer n" "netRouteProfileEdit n' = e" "\<not> routeProfileEditActive e"
  shows "network_routing_ok s' n'"
  using assms by (simp add: network_routing_ok_def validate_transfer_iff validate_profile_iff transfer_ready_def)

text \<open>The record of every step is valid again.\<close>

lemma edit_record_steps:
  assumes e: "profile_record_ok e" and now: "now \<noteq> 0"
  shows "pePhase e = RouteProfileEditPhasePreparingOwner \<or> pePhase e = RouteProfileEditPhaseCleaningCancelledOwner \<Longrightarrow>
      profile_record_ok (e\<lparr>pePhase := RouteProfileEditPhaseCancelled, peFinishedAt := now\<rparr>)"
    and "pePhase e = RouteProfileEditPhasePreparingOwner \<Longrightarrow> 1 \<le> g \<Longrightarrow>
      profile_record_ok (e\<lparr>pePhase := RouteProfileEditPhaseCleaningCancelledOwner, peCleanupCertificateGeneration := g + 1\<rparr>)"
    and "pePhase e = RouteProfileEditPhasePreparingOwner \<Longrightarrow> 1 \<le> nodeCertificateGeneration v \<Longrightarrow>
      profile_record_ok (promoted_edit now v e)"
    and "pePhase e = RouteProfileEditPhaseCleaningOwner \<Longrightarrow>
      profile_record_ok (e\<lparr>pePhase := RouteProfileEditPhaseCompleted, peFinishedAt := now\<rparr>)"
  using e now
  by (simp_all add: profile_record_ok_def route_profile_phase_metadata_def Let_def routeProfileEditActive_def promoted_edit_def
      routeProfileEditAdditions_def routeProfileEditRemovals_def del: difference_Nil) auto

lemma promoted_edit_fields:
  "peNodeID (promoted_edit now v e) = peNodeID e" "peDesiredSubnets (promoted_edit now v e) = peDesiredSubnets e"
  "routeProfileEditActive (promoted_edit now v e) \<longleftrightarrow> routeProfileEditRemovals e \<noteq> []"
  "routeProfileEditRemovals e \<noteq> [] \<Longrightarrow> pePhase (promoted_edit now v e) = RouteProfileEditPhaseCleaningOwner \<and>
     routeProfileEditDesiredGeneration (promoted_edit now v e) = nodeCertificateGeneration v + 1"
  by (simp_all add: promoted_edit_def routeProfileEditActive_def routeProfileEditDesiredGeneration_def)

lemma profile_effect_routing:
  assumes inv: "routing_inv s" and ok: "network_routing_ok s n" and now: "now \<noteq> 0"
    and v: "findNode s (nodeID v) = Some v" "peNodeID (netRouteProfileEdit n) = nodeID v"
    and eff: "profile_effect sha now cancel s n v s1 n' v'"
  shows "network_routing_ok s1 n' \<and> list_all2 (touches_only (netID n)) (Nodes s) (Nodes s1) \<and>
    list_all (\<lambda>v. canonical_subnets (nodeRoutedSubnets v)) (Nodes s1)"
proof -
  let ?e = "netRouteProfileEdit n"
  have act: "routeProfileEditActive ?e"
    using eff by (cases rule: profile_effect_cases) (simp_all add: routeProfileEditActive_def)
  have "findNode s (peNodeID ?e) = Some v" using v by simp
  note o = profile_owner [OF ok act this]
  have can: "list_all (\<lambda>v. canonical_subnets (nodeRoutedSubnets v)) (Nodes s)" using inv by (simp add: routing_inv_def)
  have gen: "1 \<le> pePreparedCertificateGeneration ?e" if "pePhase ?e = RouteProfileEditPhasePreparingOwner"
    using o(1) that by (simp add: profile_record_ok_def route_profile_phase_metadata_def Let_def)
  note rec = edit_record_steps [OF o(1) now]
  from eff show ?thesis
  proof (cases rule: profile_effect_cases)
    case abandon
    have "network_routing_ok s1 n'"
      by (rule idle_network_ok [OF ok o(2) rec(1)]) (use abandon in \<open>simp_all add: routeProfileEditActive_def\<close>)
    with can abandon(2) show ?thesis by simp
  next
    case undo
    have "network_routing_ok s1 n'"
      by (rule active_network_ok [OF ok o(2) rec(2) [OF undo(1)], of _ _ _ v])
         (use undo gen o v in \<open>simp_all add: routeProfileEditDesiredGeneration_def\<close>)
    with can undo(2) show ?thesis by simp
  next
    case undone
    have "network_routing_ok s1 n'"
      by (rule idle_network_ok [OF ok o(2) rec(1)]) (use undone in \<open>simp_all add: routeProfileEditActive_def\<close>)
    with can undone(2) show ?thesis by simp
  next
    case complete
    have "network_routing_ok s1 n'"
      by (rule idle_network_ok [OF ok o(2) rec(4)]) (use complete in \<open>simp_all add: routeProfileEditActive_def\<close>)
    with can complete(2) show ?thesis by simp
  next
    case promote
    obtain ps where ps: "reconcileNetworkRoutePolicies s1 n = n\<lparr>netRoutePolicies := ps\<rparr>" using reconcile_change by blast
    have d: "canonical_subnets (peDesiredSubnets ?e)" using o(1) by (simp add: profile_record_ok_def)
    note f = set_profile_frame [OF inv v(1) o(3) d, folded promote(6)]
    have n': "netRouteTransfer n' = netRouteTransfer n" "netRouteProfileEdit n' = promoted_edit now v ?e" "netID n' = netID n"
      using promote(8) ps by simp_all
    have g: "1 \<le> nodeCertificateGeneration v"
      using promote(1,4) by (auto simp: routeTransferNodeConverged_def split: if_splits)
    have "network_routing_ok s1 n'"
    proof (cases "routeProfileEditRemovals ?e = []")
      case True
      then show ?thesis
        by (intro idle_network_ok [OF ok o(2) rec(3) [OF promote(1) g] n'(1,2)]) (simp add: promoted_edit_fields)
    next
      case False
      show ?thesis
        by (rule active_network_ok [OF ok o(2) rec(3) [OF promote(1) g] n', of _ "v\<lparr>nodeRoutedSubnets := peDesiredSubnets ?e\<rparr>"])
           (use False promote(5) f(3) o v in \<open>simp_all add: promoted_edit_fields\<close>)
    qed
    with f show ?thesis by simp
  qed
qed

lemma update_profile_routing:
  assumes "updateRouteProfileEdit sha eid now actor ident input cancel s = Inr (d, s')" "routing_inv s"
  shows "routing_inv s'"
  using assms(1)
proof (cases rule: updateRouteProfileEdit_ok)
  case (step v i s1 n' v' ev)
  let ?n = "Networks s ! i"
  note i = find_edit_idx_Some [OF step(3)]
  note v = findNode_own [OF step(2)]
  have ok: "network_routing_ok s ?n" using assms(2) i(1) by (simp add: routing_inv_def list_all_length)
  note k = profile_effect_routing [OF assms(2) ok step(1) v i(3) step(5)]
  have nets: "Networks s1 = Networks s" and id: "netID n' = netID ?n"
    using profile_effect_change [OF step(5) v] route_change_simps(1) by auto
  have "network_routing_ok s' n'" using k step(6) network_routing_cong [of s' s1] by simp
  with k nets id step(6) show ?thesis
    by (intro routing_inv_update [OF assms(2) i(1), of n']) simp_all
qed (use assms(2) in simp)

lemma started_edit_ok:
  assumes "canonical_subnets (nodeRoutedSubnets v)" "canonical_subnets desired" "nodeRoutedSubnets v \<noteq> desired" "now \<noteq> 0"
    and "validPersistedID (nodeID v)" "validRouteTransferRequestID request" "1 \<le> nodeCertificateGeneration v"
  shows "profile_record_ok (started_profile_edit desired now request v)"
proof -
  have "subnetDifference desired (nodeRoutedSubnets v) \<noteq> [] \<or> subnetDifference (nodeRoutedSubnets v) desired \<noteq> []"
    using canonical_subnets_eqI [OF assms(1,2)] assms(3) by auto
  with assms show ?thesis
    by (auto simp: started_profile_edit_def Let_def profile_record_ok_def routeProfileEditActive_def route_profile_phase_metadata_def
        routeProfileEditAdditions_def routeProfileEditRemovals_def zero_route_profile_edit_def)
qed

lemma started_edit_fields:
  "peNodeID (started_profile_edit desired now request v) = nodeID v"
  "peOriginalSubnets (started_profile_edit desired now request v) = nodeRoutedSubnets v"
  "peDesiredSubnets (started_profile_edit desired now request v) = desired"
  "routeProfileEditAdditions (started_profile_edit desired now request v) = subnetDifference desired (nodeRoutedSubnets v)"
  "routeProfileEditDesiredGeneration (started_profile_edit desired now request v) = nodeCertificateGeneration v + 1"
  "pePhase (started_profile_edit desired now request v) =
     (if subnetDifference desired (nodeRoutedSubnets v) \<noteq> [] then RouteProfileEditPhasePreparingOwner else RouteProfileEditPhaseCleaningOwner)"
  by (simp_all add: started_profile_edit_def Let_def routeProfileEditAdditions_def routeProfileEditDesiredGeneration_def)

lemma start_effect_cases:
  assumes "start_profile_effect desired now request s n v = (s1, n1)"
  obtains (grow) "subnetDifference desired (nodeRoutedSubnets v) \<noteq> []" "s1 = s"
      "n1 = n\<lparr>netRouteProfileEdit := started_profile_edit desired now request v\<rparr>"
    | (shrink) ps where "subnetDifference desired (nodeRoutedSubnets v) = []" "s1 = set_profile s (nodeID v) desired"
      "n1 = n\<lparr>netRoutePolicies := ps, netRouteProfileEdit := started_profile_edit desired now request v\<rparr>"
proof (cases "subnetDifference desired (nodeRoutedSubnets v) = []")
  case True
  obtain ps where "reconcileNetworkRoutePolicies s1 n = n\<lparr>netRoutePolicies := ps\<rparr>" using reconcile_change by blast
  with assms True show thesis
    by (intro shrink [of ps]) (auto simp: start_profile_effect_def Let_def started_edit_fields)
next
  case False
  with assms show thesis by (intro grow) (simp_all add: start_profile_effect_def Let_def started_edit_fields)
qed

lemma start_profile_routing:
  assumes "startRouteProfileEdit sha eid now actor ident input s = Inr (d, s')" "routing_inv s"
  shows "routing_inv s'"
  using assms(1)
proof (cases rule: startRouteProfileEdit_ok)
  case (step desired v i s1 n1 ev)
  let ?n = "Networks s ! i" and ?e = "started_profile_edit desired now (TrimSpace (speRequestID input)) v"
  define n' where "n' = n1\<lparr>netConfigRevision := netConfigRevision ?n + 1, netConfigUpdatedAt := now\<rparr>"
  note c = start_profile_checks_ok [OF step(7)]
  note v = findNode_own [OF step(2)]
  note ok = routing_inv_network [OF assms(2) step(3)]
  have net: "nodeNetworkID v = netID ?n" using find_network_idx_ID [OF step(3)] by simp
  have can: "canonical_subnets (nodeRoutedSubnets v)" using routing_inv_node [OF assms(2) step(2)] .
  have rec: "profile_record_ok ?e" by (rule started_edit_ok [OF can step(4) c(7) step(1,5,6) c(5)])
  have "netRouteTransfer n' = netRouteTransfer ?n \<and> netRouteProfileEdit n' = ?e \<and> netID n' = netID ?n \<and> Networks s1 = Networks s \<and>
    network_routing_ok s1 n' \<and> list_all2 (touches_only (netID ?n)) (Nodes s) (Nodes s1) \<and>
    list_all (\<lambda>v. canonical_subnets (nodeRoutedSubnets v)) (Nodes s1)"
    using step(9)
  proof (cases rule: start_effect_cases)
    case grow
    then have n': "netRouteTransfer n' = netRouteTransfer ?n" "netRouteProfileEdit n' = ?e" "netID n' = netID ?n"
      by (simp_all add: n'_def)
    have "network_routing_ok s1 n'"
      by (rule active_network_ok [OF ok terminal_inactive(1) [OF c(2)] rec n', of _ v])
         (use grow v net c in \<open>simp_all add: started_edit_fields\<close>)
    with n' grow(2) assms(2) show ?thesis by (simp add: routing_inv_def)
  next
    case (shrink ps)
    let ?w = "v\<lparr>nodeRoutedSubnets := desired\<rparr>"
    from shrink have n': "netRouteTransfer n' = netRouteTransfer ?n" "netRouteProfileEdit n' = ?e" "netID n' = netID ?n"
      by (simp_all add: n'_def)
    note f = set_profile_frame [OF assms(2) v net step(4), folded shrink(2)]
    have "network_routing_ok s1 n'"
      by (rule active_network_ok [OF ok terminal_inactive(1) [OF c(2)] rec n', of _ ?w])
         (use shrink(1) f(3) net c in \<open>simp_all add: started_edit_fields\<close>)
    moreover obtain nodes where "s1 = s\<lparr>Nodes := nodes\<rparr>" using set_profile_routes [OF v, of desired] shrink(2) by blast
    ultimately show ?thesis using n' f(1,2) by simp
  qed
  moreover from this have "network_routing_ok s' n'" using step(10) network_routing_cong [of s' s1] by simp
  ultimately show ?thesis
    using step(10) by (intro routing_inv_update [OF assms(2) find_network_idx_lt [OF step(3)], of n']) (simp_all add: n'_def)
qed (use assms(2) in simp)

section \<open>Ownership\<close>

lemma set_profile_owners:
  assumes inv: "routing_inv s" and v: "findNode s x = Some v" "nodeNetworkID v = ident" "nodeStatus v = ''active''" "nodeEnrolledAt v \<noteq> None"
    and d: "canonical_subnets d"
  shows "owner_ids (set_profile s x d) ident route =
    (if route \<in> set d then insert x (owner_ids s ident route) else owner_ids s ident route - {x})"
proof -
  note f = set_profile_frame [OF inv v(1,2) d]
  have di: "distinct (map nodeID (Nodes s))" using inv by (simp add: routing_inv_def)
  have "map nodeID (Nodes (set_profile s x d)) = map nodeID (Nodes s)"
    using f(1) by (induction rule: list_all2_induct) (auto simp: touches_only_def routes_only_simps)
  with di have di': "distinct (map nodeID (Nodes (set_profile s x d)))" by simp
  show ?thesis
    by (rule set_eqI) (use v in \<open>auto simp: owner_ids_iff [OF di] owner_ids_iff [OF di'] f(3) simp del: image_iff\<close>)
qed

lemma edit_network:
  assumes "routing_inv s" "find_edit_idx s v = Some i" "findNetwork s (nodeNetworkID v) = Some n"
  shows "Networks s ! i = n"
proof -
  from assms(3) obtain j where j: "find_network_idx s (nodeNetworkID v) = Some j" "n = Networks s ! j"
    by (auto simp: findNetwork_idx)
  have "distinct (map netID (Networks s))" using assms(1) by (simp add: routing_inv_def)
  then have "i = j"
    using find_edit_idx_Some(1,2) [OF assms(2)] find_network_idx_lt [OF j(1)] find_network_idx_ID [OF j(1)]
    by (metis length_map nth_eq_iff_index_eq nth_map)
  with j show ?thesis by simp
qed

lemma start_profile_owners:
  assumes "startRouteProfileEdit sha eid now actor ident input s = Inr (d, s')" "routing_inv s"
    and "findNode s (TrimSpace ident) = Some v"
  shows "owner_ids s' (nodeNetworkID v) route = owner_ids s (nodeNetworkID v) route \<or>
    owner_ids s' (nodeNetworkID v) route = owner_ids s (nodeNetworkID v) route - {nodeID v}"
  using assms(1)
proof (cases rule: startRouteProfileEdit_ok)
  case (step desired w i s1 n1 ev)
  have w: "w = v" using step(2) assms(3) by simp
  note c = start_profile_checks_ok [OF step(7), unfolded w]
  have s': "activeRouteOwners s' = activeRouteOwners s1" using step(10) by (intro owner_ids_cong) simp
  from step(9)[unfolded w] show ?thesis
  proof (cases rule: start_effect_cases)
    case (shrink ps)
    have "nodeID v \<in> owner_ids s (nodeNetworkID v) route" if "route \<in> set desired"
    proof -
      have "route \<in> set (nodeRoutedSubnets v)" using shrink(1) that by auto
      moreover have "distinct (map nodeID (Nodes s))" using assms(2) by (simp add: routing_inv_def)
      ultimately show ?thesis
        using findNode_own [OF assms(3)] c(3,4) by (simp add: owner_ids_iff del: image_iff)
    qed
    then show ?thesis
      using set_profile_owners [OF assms(2) findNode_own [OF assms(3)] refl c(3,4) step(4), of route] shrink(2) s'
      by (simp add: insert_absorb)
  qed (use s' in simp)
qed simp

lemma update_profile_owners:
  assumes "updateRouteProfileEdit sha eid now actor ident input cancel s = Inr (d, s')" "routing_inv s"
    and v: "findNode s (TrimSpace ident) = Some v" and n: "findNetwork s (nodeNetworkID v) = Some n"
  defines "e \<equiv> netRouteProfileEdit n"
  defines "promoted \<equiv> \<not> cancel \<and> pePhase e = RouteProfileEditPhasePreparingOwner"
  shows "owner_ids s' (nodeNetworkID v) route =
      (if \<not> promoted then owner_ids s (nodeNetworkID v) route
       else if route \<in> set (peDesiredSubnets e) then insert (nodeID v) (owner_ids s (nodeNetworkID v) route)
       else owner_ids s (nodeNetworkID v) route - {nodeID v}) \<and>
    (promoted \<longrightarrow> routeTransferNodeConverged sha s n v (pePreparedCertificateGeneration e))"
  using assms(1)
proof (cases rule: updateRouteProfileEdit_ok)
  case (replay w i)
  then have "Networks s ! i = n" using edit_network [OF assms(2) _ n] v by simp
  with replay have "\<not> promoted" by (auto simp: promoted_def e_def)
  with replay(4) show ?thesis by simp
next
  case (step w i s1 n' v' ev)
  have w: "w = v" using step(2) v by simp
  have ni: "Networks s ! i = n" using edit_network [OF assms(2) _ n] step(3) w by simp
  have ok: "network_routing_ok s n" using assms(2) find_edit_idx_Some(1) [OF step(3)] ni by (auto simp: routing_inv_def list_all_length)
  have s': "activeRouteOwners s' = activeRouteOwners s1" using step(6) by (intro owner_ids_cong) simp
  from step(5) [unfolded w ni] show ?thesis
  proof (cases rule: profile_effect_cases)
    case promote
    have act: "routeProfileEditActive (netRouteProfileEdit n)" using promote(1) by (simp add: routeProfileEditActive_def)
    have "findNode s (peNodeID (netRouteProfileEdit n)) = Some v"
      using findNode_own [OF v] find_edit_idx_Some(3) [OF step(3)] w ni by simp
    note o = profile_owner [OF ok act this]
    have "canonical_subnets (peDesiredSubnets e)" using o(1) by (simp add: profile_record_ok_def e_def)
    from set_profile_owners [OF assms(2) findNode_own [OF v] refl o(4,5) this, of route] promote s'
    show ?thesis by (simp add: promoted_def e_def)
  qed (use s' in \<open>simp_all add: promoted_def e_def\<close>)
qed

section \<open>A sample edit\<close>

text \<open>The gateway of the sample has reported the certificate prepared for a second prefix.\<close>

definition growth_edit :: NetworkRouteProfileEdit where
  "growth_edit = started_profile_edit [''192.168.4.0/24'', ''192.168.5.0/24''] 90 ''request-0123456789'' demo_gateway"

definition growth_network :: Network where
  "growth_network = demo_network\<lparr>netConfigRevision := 8, netRouteProfileEdit := growth_edit\<rparr>"

definition growth_gateway :: Node where
  "growth_gateway = demo_gateway\<lparr>nodeCertificateGeneration := 2, nodeAppliedCertificateGeneration := 2,
     nodeAppliedConfigRevision := 8, nodeReportedCertificateFingerprint := ''fp-gateway'', nodeNebulaRunning := True,
     nodeAgentStatus := ''healthy'', nodeLastSeenAt := Some 95, nodeAppliedConfigSHA256 := hex_string (replicate 32 112)\<rparr>"

definition growth_state :: State where
  "growth_state = demo_state\<lparr>Networks := [growth_network], Nodes := [growth_gateway, demo_member, demo_revoked]\<rparr>"

abbreviation growth_step :: UpdateRouteProfileEditInput where
  "growth_step \<equiv> \<lparr>upeExpectedConfigRevision = 8, upeRequestID = ''request-0123456789''\<rparr>"

abbreviation growth_input :: StartRouteProfileEditInput where
  "growth_input \<equiv> \<lparr>speRoutedSubnets = [''192.168.4.0/24'', ''192.168.5.0/24''], speExpectedConfigRevision = 7,
     speRequestID = ''request-0123456789''\<rparr>"

lemma growth_inv: "routing_inv growth_state"
  by code_simp

lemma growth_start: "is_ok (startRouteProfileEdit wide_sha ''event'' 90 None ''gateway'' growth_input demo_state)"
  by code_simp

lemma growth_fields [simp]:
  "Networks growth_state = [growth_network]" "Version growth_state = 13" "netID growth_network = ''net''"
  "netConfigRevision growth_network = 8" "netRouteProfileEdit growth_network = growth_edit"
  "findNode growth_state ''gateway'' = Some growth_gateway" "nodeID growth_gateway = ''gateway''"
  "nodeNetworkID growth_gateway = ''net''" "nodeCertificateGeneration growth_gateway = 2"
  "findNetwork growth_state ''net'' = Some growth_network"
  by (simp_all add: growth_state_def growth_network_def findNode_def growth_gateway_def findNetwork_def)

lemma growth_edit_fields [simp]:
  "peRequestID growth_edit = ''request-0123456789''" "pePhase growth_edit = RouteProfileEditPhasePreparingOwner"
  "peNodeID growth_edit = ''gateway''" "peDesiredSubnets growth_edit = [''192.168.4.0/24'', ''192.168.5.0/24'']"
  "pePreparedCertificateGeneration growth_edit = 2" "routeProfileEditRemovals growth_edit = []"
  by code_simp+

lemma growth_converged: "routeTransferNodeConverged wide_sha growth_state growth_network growth_gateway 2"
proof -
  have "ConfigDigest wide_sha (renderConfig growth_state growth_network growth_gateway) = hex_string (replicate 32 112)"
    by (rule plain_digest) (simp add: growth_network_def)
  then show ?thesis
    by (simp add: routeTransferNodeConverged_def growth_gateway_def demo_gateway_def demo_node_def zero_node_def growth_network_def)
qed

lemma growth_run: "is_ok (updateRouteProfileEdit wide_sha ''event'' 99 None ''gateway'' growth_step False growth_state)"
proof -
  have v: "TrimSpace ''request-0123456789'' = ''request-0123456789''" "validRouteTransferRequestID ''request-0123456789''"
    "validPersistedID ''gateway''" "TrimSpace ''gateway'' = ''gateway''"
    by code_simp+
  then show ?thesis
    using growth_converged
    by (simp add: updateRouteProfileEdit_def Let_def route_transition_schema_def find_edit_idx_def advance_profile_edit_def
        nextConfigRevision_def profile_commit_def advance_profile_audit_def newOptionalAttributedAudit_def guard_result_def)
qed

section \<open>Properties\<close>

text \<open>C11. A route-profile edit gives a node a new prefix only after the node has reported the prepared
  certificate and the current configuration.  Starting an edit leaves the owners of a prefix as they
  were or takes the edited node out; advancing a prepared edit makes the node an owner of exactly the
  desired prefixes; every other successful call changes no owner.  No other node is ever concerned.\<close>

theorem route_profile_ownership:
  assumes "routing_inv s" "findNode s (TrimSpace ident) = Some v" "findNetwork s (nodeNetworkID v) = Some n"
  defines "owners \<equiv> \<lambda>s. owner_ids s (nodeNetworkID v)"
  defines "e \<equiv> netRouteProfileEdit n"
  defines "promoted \<equiv> \<lambda>cancel. \<not> cancel \<and> pePhase e = RouteProfileEditPhasePreparingOwner"
  shows "(startRouteProfileEdit sha eid now actor ident sinput s = Inr (d, s') \<longrightarrow>
      owners s' route = owners s route \<or> owners s' route = owners s route - {nodeID v}) \<and>
    (updateRouteProfileEdit sha eid now actor ident uinput cancel s = Inr (d, s') \<longrightarrow>
      owners s' route =
        (if \<not> promoted cancel then owners s route
         else if route \<in> set (peDesiredSubnets e) then insert (nodeID v) (owners s route)
         else owners s route - {nodeID v}) \<and>
      (promoted cancel \<longrightarrow> routeTransferNodeConverged sha s n v (pePreparedCertificateGeneration e)))"
  unfolding owners_def promoted_def e_def
  by (intro conjI impI)
     (rule start_profile_owners [OF _ assms(1,2)] update_profile_owners [OF _ assms(1-3), THEN conjunct1]
        update_profile_owners [OF _ assms(1-3), THEN conjunct2, THEN mp], assumption+)+

theorem route_profile_ownership_witness:
  "owner_ids growth_state ''net'' ''192.168.5.0/24'' = {} \<and>
   (\<exists>d s'. updateRouteProfileEdit wide_sha ''event'' 99 None ''gateway'' growth_step False growth_state = Inr (d, s') \<and>
     owner_ids s' ''net'' ''192.168.5.0/24'' = {''gateway''}) \<and>
   is_ok (startRouteProfileEdit wide_sha ''event'' 90 None ''gateway'' growth_input demo_state)"
proof -
  have o: "owner_ids growth_state ''net'' ''192.168.5.0/24'' = {}" by code_simp
  have t: "TrimSpace ''gateway'' = ''gateway''" by code_simp
  then have v: "findNode growth_state (TrimSpace ''gateway'') = Some growth_gateway" by simp
  have n: "findNetwork growth_state (nodeNetworkID growth_gateway) = Some growth_network" by simp
  obtain d s' where r: "updateRouteProfileEdit wide_sha ''event'' 99 None ''gateway'' growth_step False growth_state = Inr (d, s')"
    using growth_run by (auto simp: is_ok_iff)
  have "owner_ids s' ''net'' ''192.168.5.0/24'' = {''gateway''}"
    using route_profile_ownership [OF growth_inv v n, THEN conjunct2, THEN mp, OF r, of "''192.168.5.0/24''"] o by simp
  with o r growth_start show ?thesis by blast
qed

end
