(* ===== verification/Mesh_Issuance.thy ===== *)
theory Mesh_Issuance
  imports Mesh_Address Mesh_Agent Mesh_RouteProfileEdit
begin

text \<open>
  What enrollment, renewal and recovery share: the collaborators the service calls outside its own
  code, the canonical form of a submitted public key (\<^verbatim>\<open>internal/control/nebula.go\<close>), and the request
  to the certificate issuer with the checks on its answer (\<^verbatim>\<open>internal/control/service.go\<close>).

  The three calls are not one transaction.  Each reads the state, commits a claim, talks to the issuer
  while other calls may commit, and commits the result if the claim still stands, or else releases the
  claim.  Every transaction is a definition of its own; the whole call takes the state changes other
  calls make in between as an argument.
\<close>

section \<open>Collaborators\<close>

text \<open>
  \<open>envUnmarshalKey\<close> and \<open>envMarshalKey\<close> are \<^verbatim>\<open>UnmarshalPublicKeyFromPEM\<close> (key, remainder, curve) and
  \<^verbatim>\<open>MarshalPublicKeyToPEM\<close> of the Nebula library, \<open>envSignPublicKey\<close> is the certificate issuer, which
  runs an external program, \<open>envOpenFor\<close> and \<open>envSign\<close> the key box and the signature algorithm.
\<close>

record Environment =
  envSHA :: sha256
  envOpenFor :: "string \<Rightarrow> string \<Rightarrow> bytes result"
  envSign :: "bytes \<Rightarrow> string \<Rightarrow> bytes"
  envUnmarshalKey :: "string \<Rightarrow> (string \<times> string \<times> int) option"
  envMarshalKey :: "int \<Rightarrow> string \<Rightarrow> string"
  envSignPublicKey :: "string \<Rightarrow> string \<Rightarrow> string \<Rightarrow> string \<Rightarrow> string \<Rightarrow> string \<Rightarrow> string \<Rightarrow> int \<Rightarrow> (string \<times> string \<times> time) result"

definition canonicalNebulaPublicKeyPEM :: "Environment \<Rightarrow> string \<Rightarrow> string result" where
  "canonicalNebulaPublicKeyPEM env raw =
     guard_result (40 \<le> length raw \<and> length raw \<le> 4096 \<and> ValidString raw) ErrInternal
     (let normalized = TrimSpace raw @ [CHR 0x0A] in
      case envUnmarshalKey env normalized of
        None \<Rightarrow> Inl ErrInternal
      | Some (publicKey, remainder, curve) \<Rightarrow>
          (let canonical = envMarshalKey env curve publicKey in
           guard_result (canonical \<noteq> [] \<and> remainder = [] \<and> normalized = canonical) ErrInternal (Inr canonical)))"

definition bytes_string :: "bytes \<Rightarrow> string" where
  "bytes_string bs = map char_of bs"

section \<open>Certificate lifetimes\<close>

definition certificate_ttl :: "Network \<Rightarrow> int" where
  "certificate_ttl network = wrap64 (netCertificateTTL network * hour)"

definition renewalWindow :: "int \<Rightarrow> int" where
  "renewalWindow ttl =
     (let window = ttl div 3; window = (if window < hour then hour else window) in
      if window > 30 * 24 * hour then 30 * 24 * hour else window)"

definition renew_after :: "Network \<Rightarrow> time \<Rightarrow> time" where
  "renew_after network expiresAt = expiresAt - renewalWindow (certificate_ttl network)"

definition renewal_metadata_ok :: "time \<Rightarrow> time \<Rightarrow> time \<Rightarrow> bool" where
  "renewal_metadata_ok now expiresAt renewAfter = (renewAfter \<noteq> 0 \<and> now < renewAfter \<and> renewAfter < expiresAt)"

section \<open>The request to the issuer\<close>

definition issue_certificate ::
  "Environment \<Rightarrow> Network \<Rightarrow> Node \<Rightarrow> string \<Rightarrow> string list \<Rightarrow> (string \<times> string \<times> time) result" where
  "issue_certificate env network node publicKey subnets =
     (case networkSigningAuthority network of (caCertificate, encryptedKey) \<Rightarrow>
        bind_result (envOpenFor env ''ca-key-v1'' encryptedKey) (\<lambda>caKey.
        case prefixLength (netCIDR network) of
          None \<Rightarrow> Inl ErrInternal
        | Some len \<Rightarrow>
            bind_result (envSignPublicKey env caCertificate (bytes_string caKey) publicKey (nodeName node)
                (nodeIP node @ ''/'' @ len) (join_with '','' (nodeGroups node)) (join_with '','' subnets)
                (certificate_ttl network)) (\<lambda>(certificate, fingerprint, expiresAt).
              guard_result (fingerprintPattern fingerprint \<and> expiresAt \<noteq> 0) ErrInternal
                (Inr (certificate, fingerprint, expiresAt)))))"

text \<open>The fields a new certificate sets in its node.\<close>

definition set_certificate :: "sha256 \<Rightarrow> State \<Rightarrow> string \<Rightarrow> string \<Rightarrow> string \<Rightarrow> time \<Rightarrow> time \<Rightarrow> Node \<Rightarrow> Node" where
  "set_certificate sha state caCertificate certificate fingerprint expiresAt renewAfter node =
     node\<lparr>nodeCertificate := certificate, nodeCertificateFingerprint := fingerprint,
          nodeCertificateAuthoritySHA256 :=
            if ControlStateVersionCARotation \<le> Version state then ConfigDigest sha caCertificate
            else nodeCertificateAuthoritySHA256 node,
          nodeCertificateExpiresAt := Some expiresAt, nodeCertificateRenewAfter := Some renewAfter\<rparr>"

definition issuance_record :: "Node \<Rightarrow> string \<Rightarrow> time \<Rightarrow> time \<Rightarrow> CertificateIssuance" where
  "issuance_record node fingerprint now expiresAt =
     \<lparr>isFingerprint = fingerprint, isNodeID = nodeID node, isNetworkID = nodeNetworkID node, isIssuedAt = now,
      isExpiresAt = expiresAt\<rparr>"

end
