(* ===== verification/Mesh_Invariants.thy ===== *)
theory Mesh_Invariants
  imports Mesh_Issuance
begin

text \<open>
  What every transaction of the control plane keeps of the state, in the form the theories of the
  lifecycle calls use it: the credential fields each node status allows (\<^verbatim>\<open>internal/control/store.go\<close>,
  \<^verbatim>\<open>validateStateGraph\<close>), the distinctness of identifiers and of stored hashes, and the trust invariant.
  A transaction that leaves credentials, trust and identifiers alone is a frame step; the frame lemma
  gives the invariant for all of them at once.
\<close>

section \<open>The lifecycle of a node\<close>

definition pending_shape :: "Node \<Rightarrow> bool" where
  "pending_shape n =
     (nodeEnrolledAt n = None \<and> nodeRevokedAt n = None \<and> nodeAgentTokenHash n = [] \<and> nodeAgentCredentialExpiresAt n = None \<and>
      nodeAgentCredentialGeneration n = 0 \<and> nodePublicKeyHash n = [])"

definition active_shape :: "Node \<Rightarrow> bool" where
  "active_shape n =
     (nodeEnrolledAt n \<noteq> None \<and> nodeRevokedAt n = None \<and> ValidTokenHash (nodeAgentTokenHash n) \<and>
      nodeAgentCredentialExpiresAt n \<noteq> None \<and> 1 \<le> nodeAgentCredentialGeneration n \<and> ValidTokenHash (nodePublicKeyHash n))"

definition revoked_shape :: "Node \<Rightarrow> bool" where
  "revoked_shape n =
     (nodeRevokedAt n \<noteq> None \<and> nodeAgentTokenHash n = [] \<and> nodePreviousAgentTokenHash n = [] \<and>
      nodeAgentCredentialExpiresAt n = None)"

definition node_lifecycle_ok :: "Node \<Rightarrow> bool" where
  "node_lifecycle_ok n =
     ((nodePreviousAgentTokenHash n = []) = (nodePreviousAgentTokenExpiresAt n = None) \<and>
      (if nodeStatus n = ''pending'' then pending_shape n
       else if nodeStatus n = ''active'' then active_shape n
       else nodeStatus n = ''revoked'' \<and> revoked_shape n))"

definition control_inv :: "sha256 \<Rightarrow> State \<Rightarrow> bool" where
  "control_inv sha s \<longleftrightarrow>
     credential_inv s \<and> trust_inv sha s \<and> list_all node_lifecycle_ok (Nodes s) \<and>
     distinct (map nodeID (Nodes s)) \<and> distinct (map netID (Networks s)) \<and> ControlStateVersionCARotation \<le> Version s"

lemma control_invI:
  assumes "credential_inv s" "trust_inv sha s" "list_all node_lifecycle_ok (Nodes s)" "distinct (map nodeID (Nodes s))"
    and "distinct (map netID (Networks s))" "ControlStateVersionCARotation \<le> Version s"
  shows "control_inv sha s"
  using assms by (simp add: control_inv_def)

lemma control_invD:
  assumes "control_inv sha s"
  shows "credential_inv s" "trust_inv sha s" "list_all node_lifecycle_ok (Nodes s)" "distinct (map nodeID (Nodes s))"
    and "distinct (map netID (Networks s))" "ControlStateVersionCARotation \<le> Version s"
  using assms by (simp_all add: control_inv_def)

section \<open>Stored hashes\<close>

lemma distinct_mset_mono:
  assumes "mset xs \<subseteq># mset ys" "distinct ys"
  shows "distinct xs"
proof -
  have "count (mset xs) a \<le> (if a \<in> set ys then 1 else 0)" for a
    using mset_subset_eq_count [OF assms(1), of a] assms(2) by (simp add: distinct_count_atmost_1)
  then have le: "count (mset xs) a \<le> 1" for a by (rule order_trans) simp
  have "count (mset xs) a = (if a \<in> set xs then 1 else 0)" for a
    using le [of a] count_greater_zero_iff [of "mset xs" a] by (cases "count (mset xs) a") auto
  then show ?thesis by (simp add: distinct_count_atmost_1)
qed

lemma credential_inv_less:
  assumes "credential_inv s" "mset (credential_hashes s') \<subseteq># mset (credential_hashes s)"
  shows "credential_inv s'"
  using assms set_mset_mono [OF assms(2)] distinct_mset_mono [OF assms(2)]
  by (auto simp: credential_inv_def list_all_iff)

lemma credential_inv_fresh:
  assumes inv: "credential_inv s" and h: "ValidTokenHash h" "\<not> strictCredentialHashInUse s h"
    and sub: "mset (credential_hashes s') \<subseteq># add_mset h (mset (credential_hashes s))"
  shows "credential_inv s'"
proof -
  have "distinct (h # credential_hashes s)" using inv unused_hash [OF inv h] by (simp add: credential_inv_def)
  then have "distinct (credential_hashes s')" using distinct_mset_mono [of "credential_hashes s'" "h # credential_hashes s"] sub by simp
  moreover have "set (credential_hashes s') \<subseteq> insert h (set (credential_hashes s))"
    using set_mset_mono [OF sub] by simp
  ultimately show ?thesis using inv h(1) by (auto simp: credential_inv_def list_all_iff)
qed

definition node_hash_mset :: "Node list \<Rightarrow> string multiset" where
  "node_hash_mset nodes = (\<Sum>n\<in>#mset nodes. mset (node_hashes n))"

lemma credential_mset:
  "mset (credential_hashes s) =
     node_hash_mset (Nodes s) + image_mset enrTokenHash (mset (Enrollments s)) + image_mset recTokenHash (mset (AgentRecoveries s))"
proof -
  have "mset (concat (map node_hashes nodes)) = node_hash_mset nodes" for nodes
    by (induction nodes) (simp_all add: node_hash_mset_def)
  then show ?thesis by (simp add: credential_hashes_def ac_simps)
qed

lemma node_hash_mset_update:
  assumes "i < length nodes"
  shows "node_hash_mset (nodes[i := m]) + mset (node_hashes (nodes ! i)) = node_hash_mset nodes + mset (node_hashes m)"
proof -
  have split: "nodes = take i nodes @ nodes ! i # drop (Suc i) nodes" using assms by (rule id_take_nth_drop)
  have "node_hash_mset nodes = node_hash_mset (take i nodes) + mset (node_hashes (nodes ! i)) + node_hash_mset (drop (Suc i) nodes)"
    by (subst split) (simp add: node_hash_mset_def)
  then show ?thesis using assms by (simp add: upd_conv_take_nth_drop node_hash_mset_def)
qed

lemma node_hash_mset_update_add:
  assumes "i < length nodes" "mset (node_hashes m) \<subseteq># mset (node_hashes (nodes ! i)) + H"
  shows "node_hash_mset (nodes[i := m]) \<subseteq># node_hash_mset nodes + H"
proof -
  have "node_hash_mset (nodes[i := m]) + mset (node_hashes (nodes ! i)) \<subseteq>#
      node_hash_mset nodes + (mset (node_hashes (nodes ! i)) + H)"
    unfolding node_hash_mset_update [OF assms(1)] using assms(2) by (rule subset_mset.add_left_mono)
  then show ?thesis by (simp add: ac_simps)
qed

lemma node_hash_mset_same:
  "list_all2 (\<lambda>a b. node_hashes b = node_hashes a) nodes nodes' \<Longrightarrow> node_hash_mset nodes' = node_hash_mset nodes"
  by (induction nodes nodes' rule: list_all2_induct) (simp_all add: node_hash_mset_def)

lemma unique_bearer_ok:
  "unique_bearer sha s k draws = Inr token \<Longrightarrow> ValidBearerToken token \<and> \<not> strictCredentialHashInUse s (HashToken sha token)"
  by (induction sha s k draws rule: unique_bearer.induct) (auto split: sum.splits if_splits)

section \<open>Frame steps\<close>

definition same_trust :: "Network \<Rightarrow> Network \<Rightarrow> bool" where
  "same_trust a b \<longleftrightarrow> netID b = netID a \<and> netCACertificate b = netCACertificate a \<and> netCARotation b = netCARotation a"

definition same_credentials :: "Node \<Rightarrow> Node \<Rightarrow> bool" where
  "same_credentials a b \<longleftrightarrow>
     nodeID b = nodeID a \<and> nodeNetworkID b = nodeNetworkID a \<and> nodeStatus b = nodeStatus a \<and>
     nodeCertificateAuthoritySHA256 b = nodeCertificateAuthoritySHA256 a \<and> nodeAgentTokenHash b = nodeAgentTokenHash a \<and>
     nodePreviousAgentTokenHash b = nodePreviousAgentTokenHash a \<and>
     nodePreviousAgentTokenExpiresAt b = nodePreviousAgentTokenExpiresAt a \<and>
     nodeAgentCredentialExpiresAt b = nodeAgentCredentialExpiresAt a \<and>
     nodeAgentCredentialGeneration b = nodeAgentCredentialGeneration a \<and> nodePublicKeyHash b = nodePublicKeyHash a \<and>
     nodeEnrolledAt b = nodeEnrolledAt a \<and> nodeRevokedAt b = nodeRevokedAt a"

definition frame_step :: "State \<Rightarrow> State \<Rightarrow> bool" where
  "frame_step s s' \<longleftrightarrow>
     Version s' = Version s \<and> list_all2 same_trust (Networks s) (Networks s') \<and>
     list_all2 same_credentials (Nodes s) (Nodes s') \<and> map enrTokenHash (Enrollments s') = map enrTokenHash (Enrollments s) \<and>
     mset (map recTokenHash (AgentRecoveries s')) \<subseteq># mset (map recTokenHash (AgentRecoveries s))"

lemma same_refl [simp]: "same_trust n n" "same_credentials v v"
  by (simp_all add: same_trust_def same_credentials_def)

lemma same_trust_authority: "same_trust a b \<Longrightarrow> rotation_ok sha b = rotation_ok sha a \<and> authority_ok sha b v = authority_ok sha a v"
  by (simp add: same_trust_def rotation_ok_def authority_ok_def)

lemma signing_authority_ok:
  "nodeCertificateAuthoritySHA256 v = ConfigDigest sha (fst (networkSigningAuthority n)) \<Longrightarrow> authority_ok sha n v"
  by (auto simp: authority_ok_def networkSigningAuthority_def split: if_splits)

text \<open>A transaction keeps the trust invariant when it invents no network and every node of the new state had its
  authority before or has one its network signs with.\<close>

lemma trust_inv_step:
  assumes inv: "trust_inv sha s" and nets: "\<forall>n' \<in> set (Networks s'). \<exists>n \<in> set (Networks s). same_trust n n'"
    and nodes: "\<forall>v' \<in> set (Nodes s'). (\<exists>v \<in> set (Nodes s). same_credentials v v') \<or> (\<forall>n \<in> set (Networks s). authority_ok sha n v')"
  shows "trust_inv sha s'"
  unfolding trust_inv_def
proof (intro ballI conjI)
  fix n' assume "n' \<in> set (Networks s')"
  with nets obtain n where n: "n \<in> set (Networks s)" "same_trust n n'" by blast
  with inv show "rotation_ok sha n'" by (simp add: trust_inv_def same_trust_authority)
  fix v' assume "v' \<in> set (Nodes s')"
  with nodes consider (old) v where "v \<in> set (Nodes s)" "same_credentials v v'" | (new) "\<forall>n \<in> set (Networks s). authority_ok sha n v'" by blast
  then show "authority_ok sha n' v'"
  proof cases
    case old
    with inv n have "authority_ok sha n v" by (simp add: trust_inv_def)
    with old(2) have "authority_ok sha n v'" by (simp add: authority_ok_def same_credentials_def)
    with n(2) show ?thesis by (simp add: same_trust_authority)
  next
    case new
    with n show ?thesis by (simp add: same_trust_authority)
  qed
qed

lemma list_all2_ex1: "list_all2 R xs ys \<Longrightarrow> y \<in> set ys \<Longrightarrow> \<exists>x \<in> set xs. R x y"
  by (induction xs ys rule: list_all2_induct) auto

lemma list_all2_map_same: "list_all2 R xs ys \<Longrightarrow> (\<And>a b. R a b \<Longrightarrow> f b = f a) \<Longrightarrow> map f ys = map f xs"
  by (induction xs ys rule: list_all2_induct) auto

lemma same_credentials_lifecycle: "same_credentials a b \<Longrightarrow> node_lifecycle_ok b = node_lifecycle_ok a"
  by (simp add: same_credentials_def node_lifecycle_ok_def pending_shape_def active_shape_def revoked_shape_def)

lemma same_credentials_hashes: "same_credentials a b \<Longrightarrow> node_hashes b = node_hashes a"
  by (simp add: same_credentials_def node_hashes_def)

lemma frame_nodes:
  assumes "list_all2 same_credentials (Nodes s) (Nodes s')"
  shows "map nodeID (Nodes s') = map nodeID (Nodes s)" "node_hash_mset (Nodes s') = node_hash_mset (Nodes s)"
    and "list_all node_lifecycle_ok (Nodes s) \<Longrightarrow> list_all node_lifecycle_ok (Nodes s')"
    and "\<forall>v' \<in> set (Nodes s'). \<exists>v \<in> set (Nodes s). same_credentials v v'"
proof -
  show "map nodeID (Nodes s') = map nodeID (Nodes s)"
    by (rule list_all2_map_same [OF assms]) (simp add: same_credentials_def)
  show "node_hash_mset (Nodes s') = node_hash_mset (Nodes s)"
    by (rule node_hash_mset_same) (rule list.rel_mono_strong [OF assms], simp add: same_credentials_hashes)
  show ex: "\<forall>v' \<in> set (Nodes s'). \<exists>v \<in> set (Nodes s). same_credentials v v'" using list_all2_ex1 [OF assms] by blast
  then show "list_all node_lifecycle_ok (Nodes s')" if "list_all node_lifecycle_ok (Nodes s)"
    using that same_credentials_lifecycle by (metis list_all_iff)
qed

lemma frame_networks:
  assumes "list_all2 same_trust (Networks s) (Networks s')"
  shows "map netID (Networks s') = map netID (Networks s)" "\<forall>n' \<in> set (Networks s'). \<exists>n \<in> set (Networks s). same_trust n n'"
  using list_all2_map_same [OF assms, of netID] list_all2_ex1 [OF assms] by (auto simp: same_trust_def)

lemma frame_control_inv:
  assumes inv: "control_inv sha s" and step: "frame_step s s'"
  shows "control_inv sha s'"
proof (rule control_invI)
  have nodes: "list_all2 same_credentials (Nodes s) (Nodes s')" and nets: "list_all2 same_trust (Networks s) (Networks s')"
    using step by (simp_all add: frame_step_def)
  have "image_mset enrTokenHash (mset (Enrollments s')) = image_mset enrTokenHash (mset (Enrollments s))"
    using step by (metis frame_step_def mset_map)
  then have "mset (credential_hashes s') \<subseteq># mset (credential_hashes s)"
    using step frame_nodes(2) [OF nodes] by (simp add: credential_mset frame_step_def)
  then show "credential_inv s'" using control_invD(1) [OF inv] by (rule credential_inv_less [rotated])
  show "trust_inv sha s'"
    by (rule trust_inv_step [OF control_invD(2) [OF inv] frame_networks(2) [OF nets]]) (use frame_nodes(4) [OF nodes] in blast)
  show "list_all node_lifecycle_ok (Nodes s')" using frame_nodes(3) [OF nodes] control_invD(3) [OF inv] .
  show "distinct (map nodeID (Nodes s'))" using frame_nodes(1) [OF nodes] control_invD(4) [OF inv] by simp
  show "distinct (map netID (Networks s'))" using frame_networks(1) [OF nets] control_invD(5) [OF inv] by simp
  show "6 \<le> Version s'" using step control_invD(6) [OF inv] by (simp add: frame_step_def)
qed

text \<open>Ways to show that a step is one.\<close>

lemma list_all2_update: "list_all2 R xs xs \<Longrightarrow> i < length xs \<Longrightarrow> R (xs ! i) v \<Longrightarrow> list_all2 R xs (xs[i := v])"
  by (simp add: list_all2_conv_all_nth nth_list_update)

lemma frame_set_network:
  assumes "i < length (Networks s)" "same_trust (Networks s ! i) n" "Networks s' = (Networks s)[i := n]" "Nodes s' = Nodes s"
    and "Version s' = Version s" "Enrollments s' = Enrollments s"
    and "mset (map recTokenHash (AgentRecoveries s')) \<subseteq># mset (map recTokenHash (AgentRecoveries s))"
  shows "frame_step s s'"
  using assms by (auto simp: frame_step_def list_all2_refl intro!: list_all2_update)

lemma frame_refl [simp]: "frame_step s s"
  by (simp add: frame_step_def list_all2_refl)

section \<open>Transactions on one node\<close>

lemma signed_authority_ok:
  assumes "distinct (map netID (Networks s))" "findNetwork s ident = Some latest" "nodeNetworkID v = ident"
    and "nodeCertificateAuthoritySHA256 v = ConfigDigest sha (fst (networkSigningAuthority latest))"
  shows "\<forall>n \<in> set (Networks s). authority_ok sha n v"
proof
  fix n assume n: "n \<in> set (Networks s)"
  have l: "latest \<in> set (Networks s)" "netID latest = ident" using assms(2) by (auto simp: findNetwork_def find_Some_iff)
  show "authority_ok sha n v"
  proof (cases "netID n = ident")
    case True
    with n l assms(1) have "n = latest" by (auto simp: distinct_map inj_on_def)
    with assms(4) show ?thesis by (simp add: signing_authority_ok)
  qed (use assms(3) in \<open>simp add: authority_ok_def\<close>)
qed

lemma kept_authority_ok:
  assumes "trust_inv sha s" "v \<in> set (Nodes s)" "nodeStatus v' = nodeStatus v" "nodeNetworkID v' = nodeNetworkID v"
    and "nodeCertificateAuthoritySHA256 v' = nodeCertificateAuthoritySHA256 v"
  shows "\<forall>n \<in> set (Networks s). authority_ok sha n v'"
  using assms by (simp add: trust_inv_def authority_ok_def)

lemma inactive_authority_ok: "nodeStatus v \<noteq> ''active'' \<Longrightarrow> authority_ok sha n v"
  by (simp add: authority_ok_def)

definition fresh_hashes :: "State \<Rightarrow> string multiset \<Rightarrow> bool" where
  "fresh_hashes s H \<longleftrightarrow> H = {#} \<or> (\<exists>h. H = {#h#} \<and> ValidTokenHash h \<and> \<not> strictCredentialHashInUse s h)"

lemma fresh_hashes_simps [simp]:
  "fresh_hashes s {#}" "fresh_hashes s {#h#} \<longleftrightarrow> ValidTokenHash h \<and> \<not> strictCredentialHashInUse s h"
  by (auto simp: fresh_hashes_def)

lemma credential_inv_step:
  assumes "credential_inv s" "fresh_hashes s H" "mset (credential_hashes s') \<subseteq># mset (credential_hashes s) + H"
  shows "credential_inv s'"
  using assms credential_inv_less [OF assms(1)] credential_inv_fresh [OF assms(1)] by (auto simp: fresh_hashes_def)

text \<open>
  A transaction that replaces one node and possibly stores one new hash, drops or keeps tokens, and leaves
  the trust of every network alone.
\<close>

lemma node_update_inv:
  assumes inv: "control_inv sha s" and k: "k < length (Nodes s)" and nodes: "Nodes s' = (Nodes s)[k := v']"
    and v': "nodeID v' = nodeID (Nodes s ! k)" "node_lifecycle_ok v'" "\<forall>n \<in> set (Networks s). authority_ok sha n v'"
    and nets: "list_all2 same_trust (Networks s) (Networks s')" and ver: "Version s' = Version s"
    and H: "fresh_hashes s H" "mset (node_hashes v') \<subseteq># mset (node_hashes (Nodes s ! k)) + H"
    and enr: "mset (map enrTokenHash (Enrollments s')) \<subseteq># mset (map enrTokenHash (Enrollments s))"
    and rec: "mset (map recTokenHash (AgentRecoveries s')) \<subseteq># mset (map recTokenHash (AgentRecoveries s))"
  shows "control_inv sha s'"
proof (rule control_invI)
  note old = control_invD [OF inv]
  have "mset (credential_hashes s') \<subseteq># (node_hash_mset (Nodes s) + H) + image_mset enrTokenHash (mset (Enrollments s)) +
      image_mset recTokenHash (mset (AgentRecoveries s))"
    unfolding credential_mset nodes using node_hash_mset_update_add [OF k H(2)] enr rec
    by (intro subset_mset.add_mono) simp_all
  then show "credential_inv s'"
    by (intro credential_inv_step [OF old(1) H(1)]) (simp add: credential_mset ac_simps)
  show "trust_inv sha s'"
    by (rule trust_inv_step [OF old(2) frame_networks(2) [OF nets]])
       (use v'(3) in \<open>auto simp: nodes intro: same_refl dest!: set_update_subset_insert [THEN subsetD]\<close>)
  show "list_all node_lifecycle_ok (Nodes s')" using old(3) v'(2) ball_list_update by (simp add: nodes list_all_iff)
  show "distinct (map nodeID (Nodes s'))" using old(4) k v'(1) by (simp add: nodes map_update_same)
  show "distinct (map netID (Networks s'))" using old(5) frame_networks(1) [OF nets] by simp
  show "6 \<le> Version s'" using old(6) ver by simp
qed

lemma lifecycle_nth: "control_inv sha s \<Longrightarrow> k < length (Nodes s) \<Longrightarrow> node_lifecycle_ok (Nodes s ! k)"
  by (simp add: control_inv_def list_all_length)

text \<open>New tokens.\<close>

lemma token_update_inv:
  assumes inv: "control_inv sha s" and "Nodes s' = Nodes s" "Networks s' = Networks s" "Version s' = Version s"
    and H: "fresh_hashes s H"
    and sub: "mset (map enrTokenHash (Enrollments s')) + mset (map recTokenHash (AgentRecoveries s')) \<subseteq>#
      mset (map enrTokenHash (Enrollments s)) + mset (map recTokenHash (AgentRecoveries s)) + H"
  shows "control_inv sha s'"
proof (rule control_invI)
  note old = control_invD [OF inv]
  show "credential_inv s'"
    using sub assms(2) by (intro credential_inv_step [OF old(1) H]) (simp add: credential_mset ac_simps)
  show "trust_inv sha s'" using old(2) assms(2,3) by (simp add: trust_inv_def)
qed (use control_invD [OF inv] assms(2-4) in simp_all)

section \<open>Configurations of a quiet network\<close>

text \<open>With no lighthouse, relay, route, revocation or managed policy every node gets the same text; the samples of the
  lifecycle theories evaluate on it.\<close>

definition quiet_config :: string where
  "quiet_config = lines [''pki:'', ''  ca: /etc/nebula/ca.crt'', ''  cert: /etc/nebula/host.crt'', ''  key: /etc/nebula/host.key'',
     ''  disconnect_invalid: true'', ''static_host_map:'', ''lighthouse:'', ''  am_lighthouse: false'', ''  interval: 60'',
     ''  hosts: []'', ''listen:'', ''  host: 0.0.0.0'', ''  port: 4242'', ''punchy:'', ''  punch: true'', ''firewall:'',
     ''  outbound: []'', ''  inbound: []'', ''logging:'', ''  level: info'', ''  format: json'']"

definition quiet_network :: "Network \<Rightarrow> bool" where
  "quiet_network n \<longleftrightarrow> netDNSSettings n = netDNSSettings demo_network \<and> netRelaySettings n = netRelaySettings demo_network \<and>
     netListenPort n = 4242 \<and> netFirewallRollout n = zero_rollout \<and> netFirewallPolicy n = zero_firewall_policy"

definition quiet_node :: "Node \<Rightarrow> bool" where
  "quiet_node v \<longleftrightarrow> nodeStatus v \<noteq> ''revoked'' \<and> nodeRole v = ''member'' \<and> nodeRoutedSubnets v = []"

lemma quiet_render:
  assumes "quiet_network n" "list_all quiet_node (Nodes s)" "Revocations s = []" "quiet_node v"
  shows "renderConfig s n v = quiet_config"
proof -
  have "config_blocklist s n = []" "config_lighthouses s n = []" "owned_routes s n = []"
    using assms(2,3) by (auto simp: config_blocklist_def config_lighthouses_def owned_routes_def quiet_node_def list_all_iff filter_empty_conv)
  moreover have "itoa_int 4242 = ''4242''" by code_simp
  ultimately show ?thesis
    using assms(1,4)
    by (simp add: quiet_config_def quiet_network_def quiet_node_def renderConfig_def render_pki_def render_lighthouse_def Let_def render_relay_def
        render_routes_def routed_entries_def demo_network_def zero_network_def renderNativeDNSPolicy_def firewallPolicyForNode_def zero_rollout_def
        effectiveNetworkRelaySettings_def effectiveNetworkDNSSettings_def nativeDNSPolicy_def defaultNetworkDNSSettings_def zero_dns_def
        effectiveFirewallPolicyForNode_def zero_firewall_policy_def renderFirewallPolicyForNode_def renderFirewallDirection_def FormatInt_def)
qed

lemma quiet_config_ok: "validateManagedConfig quiet_config = Inr ()"
proof -
  have plain: "list_all (\<lambda>c. c < CHR 0x80 \<and> c \<noteq> CHR 0x0D) quiet_config" by code_simp
  then have "ValidString quiet_config" using ValidString_ascii by (auto simp: list_all_iff less_char_def)
  moreover have "quiet_config \<noteq> [] \<and> int (length quiet_config) \<le> 4194304" by (simp add: quiet_config_def)
  ultimately show ?thesis using plain by (auto simp: validateManagedConfig_def list_all_iff)
qed

lemma quiet_sign:
  assumes "quiet_network n" "list_all quiet_node (Nodes s)" "Revocations s = []" "quiet_node v"
    and "box ''config-signing-key-v1'' (netEncryptedConfigSigningKey n) = Inr key" "length key = PrivateKeySize"
    and "validateConfigSignatureMetadata (config_metadata sha n v now) = Inr ()"
  shows "\<exists>ac. signConfig sha box sign n v (renderConfig s n v) now = Inr ac \<and> acConfig ac = quiet_config"
  using assms quiet_config_ok quiet_render [OF assms(1-4)]
  by (simp add: signConfig_def SignConfig_def Let_def case_prod_beta guard_result_def)

end
