(* ===== verification/Mesh_Enrollment.thy ===== *)
theory Mesh_Enrollment
  imports Mesh_Invariants
begin

text \<open>
  Enrollment (\<^verbatim>\<open>internal/control/service.go\<close>: \<^verbatim>\<open>reissueEnrollment\<close>, \<^verbatim>\<open>Enroll\<close>,
  \<^verbatim>\<open>releaseEnrollmentClaim\<close>; \<^verbatim>\<open>enrollment_preflight.go\<close>): a pending node exchanges a one-time token for
  its first certificate and its agent credential.
\<close>

section \<open>Reissue of the token\<close>

record ReissuedEnrollment =
  reNode :: Node
  reEnrollmentToken :: string
  reExpiresAt :: time

definition uniqueUnseenEnrollmentBearer :: "sha256 \<Rightarrow> State \<Rightarrow> string result list \<Rightarrow> string result" where
  "uniqueUnseenEnrollmentBearer sha state draws = unique_bearer sha state 16 draws"

definition new_enrollment :: "string \<Rightarrow> string \<Rightarrow> string \<Rightarrow> time \<Rightarrow> time \<Rightarrow> EnrollmentToken" where
  "new_enrollment ident node tokenHash now expiresAt =
     \<lparr>enrID = ident, enrNodeID = node, enrTokenHash = tokenHash, enrCreatedAt = now, enrExpiresAt = expiresAt,
      enrUsedAt = None, enrClaimID = [], enrClaimedAt = None, enrClaimKeyHash = []\<rparr>"

definition reissueEnrollment ::
  "sha256 \<Rightarrow> string result list \<Rightarrow> string result list \<Rightarrow> string \<Rightarrow> time \<Rightarrow> Actor option \<Rightarrow> string \<Rightarrow> State \<Rightarrow>
    (ReissuedEnrollment \<times> State) result" where
  "reissueEnrollment sha bearers idents eid now actor ident state =
     (let ident = TrimSpace ident; expiresAt = now + 30 * minute in
      case findNode state ident of
        None \<Rightarrow> Inl ErrNotFound
      | Some node \<Rightarrow>
          guard_result (nodeStatus node = ''pending'' \<and> nodeEnrolledAt node = None) ErrConflict
         (bind_result (uniqueUnseenEnrollmentBearer sha state bearers) (\<lambda>token.
          bind_result (uniqueEnrollmentID state idents) (\<lambda>enrollmentID.
          let kept = filter (\<lambda>e. enrNodeID e \<noteq> ident) (Enrollments state);
              invalidated = length (filter (\<lambda>e. enrNodeID e = ident) (Enrollments state)) in
          bind_result (newOptionalAttributedAudit eid now ''node.enrollment_reissued'' ''node'' ident
              (Some [(''expires_at'', DTime expiresAt), (''invalidated_tokens'', DInt (int invalidated))]) actor) (\<lambda>event.
            Inr (\<lparr>reNode = node, reEnrollmentToken = token, reExpiresAt = expiresAt\<rparr>,
                 add_audit (state\<lparr>Enrollments := kept @ [new_enrollment enrollmentID ident (HashToken sha token) now expiresAt]\<rparr>)
                   event))))))"

definition ReissueEnrollmentAs ::
  "sha256 \<Rightarrow> string result list \<Rightarrow> string result list \<Rightarrow> string \<Rightarrow> time \<Rightarrow> Actor \<Rightarrow> string \<Rightarrow> State \<Rightarrow>
    (ReissuedEnrollment \<times> State) result" where
  "ReissueEnrollmentAs sha bearers idents eid now actor ident state =
     bind_result (validateActor actor) (\<lambda>_. reissueEnrollment sha bearers idents eid now (Some actor) ident state)"

section \<open>Claiming the token\<close>

text \<open>The hash that binds a claim to the key and the credential it was made for.\<close>

definition request_hash :: "sha256 \<Rightarrow> string \<Rightarrow> string \<Rightarrow> string" where
  "request_hash sha publicKey agentTokenHash = HashToken sha (publicKey @ [CHR 0x00] @ agentTokenHash)"

definition enroll_preflight :: "sha256 \<Rightarrow> time \<Rightarrow> string \<Rightarrow> State \<Rightarrow> unit result" where
  "enroll_preflight sha at token state =
     guard_result (list_ex (\<lambda>e. at < enrExpiresAt e \<and> TokenHashEqual (enrTokenHash e) (HashToken sha token)) (Enrollments state))
       ErrUnauthorized (Inr ())"

datatype enroll_outcome = EnrollReplay EnrollmentBundle | EnrollClaimed Node Network EnrollmentToken

definition enroll_replay :: "Environment \<Rightarrow> time \<Rightarrow> string \<Rightarrow> string \<Rightarrow> EnrollmentToken \<Rightarrow> State \<Rightarrow> EnrollmentBundle result" where
  "enroll_replay env claimedAt requestHash agentTokenHash candidate state =
     guard_result (enrClaimKeyHash candidate = requestHash) ErrUnauthorized
     (case findNode state (enrNodeID candidate) of
        None \<Rightarrow> Inl ErrUnauthorized
      | Some node \<Rightarrow>
          guard_result (nodeStatus node = ''active'' \<and> nodeAgentTokenHash node = agentTokenHash) ErrUnauthorized
          (case findNetwork state (nodeNetworkID node) of
             None \<Rightarrow> Inl ErrUnauthorized
           | Some network \<Rightarrow>
               (let config = renderConfig state network node in
                bind_result (signConfig (envSHA env) (envOpenFor env) (envSign env) network node config claimedAt) (\<lambda>ac.
                Inr (enrollmentBundle network node config ac)))))"

definition recently_claimed :: "time option \<Rightarrow> time \<Rightarrow> bool" where
  "recently_claimed claim now = (case claim of None \<Rightarrow> False | Some at \<Rightarrow> now - at < 5 * minute)"

definition enroll_claim ::
  "Environment \<Rightarrow> string \<Rightarrow> time \<Rightarrow> string \<Rightarrow> string \<Rightarrow> string \<Rightarrow> State \<Rightarrow> (enroll_outcome \<times> State) result" where
  "enroll_claim env claimID claimedAt token publicKey agentTokenHash state =
     (let sha = envSHA env; requestHash = request_hash sha publicKey agentTokenHash in
      case find_idx (\<lambda>e. claimedAt < enrExpiresAt e \<and> TokenEqual sha (enrTokenHash e) token) (Enrollments state) of
        None \<Rightarrow> Inl ErrUnauthorized
      | Some i \<Rightarrow>
          (let candidate = Enrollments state ! i in
           if enrUsedAt candidate \<noteq> None
           then bind_result (enroll_replay env claimedAt requestHash agentTokenHash candidate state) (\<lambda>bundle.
             Inr (EnrollReplay bundle, state))
           else guard_result (\<not> strictCredentialHashInUse state agentTokenHash) ErrUnauthorized
             (guard_result (\<not> recently_claimed (enrClaimedAt candidate) claimedAt) ErrUnauthorized
             (case findNode state (enrNodeID candidate) of
                None \<Rightarrow> Inl ErrUnauthorized
              | Some node \<Rightarrow>
                  guard_result (nodeStatus node = ''pending'') ErrUnauthorized
                  (case findNetwork state (nodeNetworkID node) of
                     None \<Rightarrow> Inl ErrUnauthorized
                   | Some network \<Rightarrow>
                       (let claimed = candidate\<lparr>enrClaimID := claimID, enrClaimedAt := Some claimedAt, enrClaimKeyHash := requestHash\<rparr>
                        in Inr (EnrollClaimed node network claimed,
                                state\<lparr>Enrollments := (Enrollments state)[i := claimed]\<rparr>)))))))"

section \<open>Committing the enrollment\<close>

record issued =
  isdAuthority :: string
  isdCertificate :: string
  isdFingerprint :: string
  isdExpiresAt :: time
  isdRenewAfter :: time

text \<open>The use of the claimed record: the first record with the identifier decides.\<close>

definition use_enrollment :: "string \<Rightarrow> string \<Rightarrow> string \<Rightarrow> time \<Rightarrow> State \<Rightarrow> State result" where
  "use_enrollment ident claimID requestHash now state =
     (case find_idx (\<lambda>e. enrID e = ident) (Enrollments state) of
        None \<Rightarrow> Inl ErrUnauthorized
      | Some i \<Rightarrow>
          (let e = Enrollments state ! i in
           guard_result (enrUsedAt e = None \<and> enrClaimID e = claimID \<and> enrClaimKeyHash e = requestHash) ErrUnauthorized
             (Inr (state\<lparr>Enrollments := (Enrollments state)[i := e\<lparr>enrUsedAt := Some now\<rparr>]\<rparr>))))"

definition enrolled_node :: "Environment \<Rightarrow> State \<Rightarrow> issued \<Rightarrow> string \<Rightarrow> string \<Rightarrow> time \<Rightarrow> Node \<Rightarrow> Node" where
  "enrolled_node env state cert publicKey agentTokenHash now node =
     (set_certificate (envSHA env) state (isdAuthority cert) (isdCertificate cert) (isdFingerprint cert)
        (isdExpiresAt cert) (isdRenewAfter cert) node)\<lparr>nodeStatus := ''active'', nodeCertificateGeneration := 1,
       nodeAgentTokenHash := agentTokenHash, nodeAgentCredentialExpiresAt := Some (now + 90 * 24 * hour),
       nodeAgentCredentialGeneration := 1, nodePublicKeyHash := HashToken (envSHA env) publicKey,
       nodeEnrolledAt := Some now\<rparr>"

text \<open>A node that is a lighthouse or routes prefixes changes the configuration of its network; the revision is a machine integer.\<close>

definition enrolled_network :: "State \<Rightarrow> Node \<Rightarrow> time \<Rightarrow> Network \<Rightarrow> Network" where
  "enrolled_network state node now network =
     reconcileNetworkRoutePolicies state
       (if nodeRole node = ''lighthouse'' \<or> nodeRoutedSubnets node \<noteq> []
        then network\<lparr>netConfigRevision := wrap64 (netConfigRevision network + 1), netConfigUpdatedAt := now\<rparr>
        else network)"

definition enroll_commit ::
  "Environment \<Rightarrow> string \<Rightarrow> time \<Rightarrow> string \<Rightarrow> string \<Rightarrow> string \<Rightarrow> issued \<Rightarrow> Node \<Rightarrow> Network \<Rightarrow> EnrollmentToken \<Rightarrow> State \<Rightarrow>
    (EnrollmentBundle \<times> State) result" where
  "enroll_commit env eid now claimID publicKey agentTokenHash cert node network enrollment state =
     (case findNetwork state (netID network) of
        None \<Rightarrow> Inl ErrUnauthorized
      | Some latest \<Rightarrow>
          guard_result (fst (networkSigningAuthority latest) = isdAuthority cert) ErrConflict
         (guard_result (\<not> strictCredentialHashInUse state agentTokenHash) ErrUnauthorized
         (bind_result (use_enrollment (enrID enrollment) claimID (request_hash (envSHA env) publicKey agentTokenHash) now state) (\<lambda>state1.
          case find_node_idx state1 (nodeID node) of
            None \<Rightarrow> Inl ErrUnauthorized
          | Some k \<Rightarrow>
              guard_result (nodeStatus (Nodes state1 ! k) = ''pending'') ErrUnauthorized
              (let node' = enrolled_node env state1 cert publicKey agentTokenHash now (Nodes state1 ! k);
                   state2 = (set_node state1 k node')\<lparr>Issuances := Issuances state1 @
                     [issuance_record node' (isdFingerprint cert) now (isdExpiresAt cert)]\<rparr>;
                   state3 = state2\<lparr>Networks := map (\<lambda>n. if netID n = netID latest then enrolled_network state2 node' now n else n)
                     (Networks state2)\<rparr>;
                   network' = last (filter (\<lambda>n. netID n = netID latest) (Networks state3));
                   config = renderConfig state3 network' node' in
               bind_result (signConfig (envSHA env) (envOpenFor env) (envSign env) network' node' config now) (\<lambda>ac.
               Inr (enrollmentBundle network' node' config ac,
                    add_audit state3 (newAudit eid now ''node.enrolled'' ''node'' (nodeID node') None))))))))"

definition releaseEnrollmentClaim :: "string \<Rightarrow> string \<Rightarrow> State \<Rightarrow> State" where
  "releaseEnrollmentClaim ident claimID state =
     state\<lparr>Enrollments := map (\<lambda>e. if enrID e = ident \<and> enrUsedAt e = None \<and> enrClaimID e = claimID
       then e\<lparr>enrClaimID := [], enrClaimedAt := None, enrClaimKeyHash := []\<rparr> else e) (Enrollments state)\<rparr>"

section \<open>The whole call\<close>

definition enroll_issue :: "Environment \<Rightarrow> time \<Rightarrow> Node \<Rightarrow> Network \<Rightarrow> string \<Rightarrow> issued result" where
  "enroll_issue env now node network publicKey =
     bind_result (issue_certificate env network node publicKey (nodeRoutedSubnets node)) (\<lambda>(certificate, fingerprint, expiresAt).
     guard_result (now < expiresAt) ErrInternal
     (let renewAfter = renew_after network expiresAt in
      guard_result (renewal_metadata_ok now expiresAt renewAfter) ErrInternal
      (Inr \<lparr>isdAuthority = fst (networkSigningAuthority network), isdCertificate = certificate,
            isdFingerprint = fingerprint, isdExpiresAt = expiresAt, isdRenewAfter = renewAfter\<rparr>)))"

text \<open>
  The state that results is returned with the answer, because a call that fails may have claimed the
  token.  \<open>viewed\<close> is the state the preflight reads, \<open>others\<close> what other calls commit between the claim
  and the commit, \<open>later\<close> what they commit before the claim is released.
\<close>

definition Enroll ::
  "Environment \<Rightarrow> string \<Rightarrow> string result \<Rightarrow> time \<Rightarrow> time \<Rightarrow> time \<Rightarrow> State \<Rightarrow> (State \<Rightarrow> State) \<Rightarrow> (State \<Rightarrow> State) \<Rightarrow>
    string \<Rightarrow> string \<Rightarrow> string \<Rightarrow> State \<Rightarrow> EnrollmentBundle result \<times> State" where
  "Enroll env eid claim preflightAt claimedAt now viewed others later token publicKey agentTokenHash state =
     (let token = TrimSpace token; agentTokenHash = TrimSpace agentTokenHash in
      case guard_result (ValidBearerToken token \<and> ValidTokenHash agentTokenHash) ErrUnauthorized
          (case canonicalNebulaPublicKeyPEM env publicKey of
             Inl e \<Rightarrow> Inl ErrUnauthorized
           | Inr publicKey \<Rightarrow>
               bind_result (enroll_preflight (envSHA env) preflightAt token viewed) (\<lambda>_.
               bind_result claim (\<lambda>claimID.
               bind_result (enroll_claim env claimID claimedAt token publicKey agentTokenHash state) (\<lambda>(outcome, state1).
               Inr (publicKey, claimID, outcome, state1))))) of
        Inl e \<Rightarrow> (Inl e, state)
      | Inr (publicKey, claimID, outcome, state1) \<Rightarrow>
          (case outcome of
             EnrollReplay bundle \<Rightarrow> (Inr bundle, state1)
           | EnrollClaimed node network enrollment \<Rightarrow>
               (let state2 = others state1 in
                case bind_result (enroll_issue env now node network publicKey) (\<lambda>cert.
                     enroll_commit env eid now claimID publicKey agentTokenHash cert node network enrollment state2) of
                  Inl e \<Rightarrow> (Inl e, releaseEnrollmentClaim (enrID enrollment) claimID (later state2))
                | Inr (bundle, state3) \<Rightarrow> (Inr bundle, state3))))"

section \<open>What each transaction did\<close>

lemma reissueEnrollment_ok:
  assumes "reissueEnrollment sha bearers idents eid now actor ident s = Inr (d, s')"
  obtains node token rid ev where "findNode s (TrimSpace ident) = Some node" "nodeStatus node = ''pending''"
    "unique_bearer sha s 16 bearers = Inr token" "unique_record_id s 16 idents = Inr rid"
    "d = \<lparr>reNode = node, reEnrollmentToken = token, reExpiresAt = now + 30 * minute\<rparr>"
    "s' = add_audit (s\<lparr>Enrollments := filter (\<lambda>e. enrNodeID e \<noteq> TrimSpace ident) (Enrollments s) @
       [new_enrollment rid (TrimSpace ident) (HashToken sha token) now (now + 30 * minute)]\<rparr>) ev"
  using assms
  by (auto simp: reissueEnrollment_def Let_def uniqueUnseenEnrollmentBearer_def uniqueEnrollmentID_def split: option.splits)

lemma enroll_claim_ok:
  assumes "enroll_claim env claimID at token publicKey hash s = Inr (out, s')"
  obtains (replay) i b where
    "find_idx (\<lambda>e. at < enrExpiresAt e \<and> TokenEqual (envSHA env) (enrTokenHash e) token) (Enrollments s) = Some i"
    "enrUsedAt (Enrollments s ! i) \<noteq> None" "out = EnrollReplay b" "s' = s"
    "enroll_replay env at (request_hash (envSHA env) publicKey hash) hash (Enrollments s ! i) s = Inr b"
  | (claim) i node network claimed where
    "find_idx (\<lambda>e. at < enrExpiresAt e \<and> TokenEqual (envSHA env) (enrTokenHash e) token) (Enrollments s) = Some i"
    "enrUsedAt (Enrollments s ! i) = None" "\<not> recently_claimed (enrClaimedAt (Enrollments s ! i)) at"
    "\<not> strictCredentialHashInUse s hash"
    "findNode s (enrNodeID (Enrollments s ! i)) = Some node" "nodeStatus node = ''pending''"
    "findNetwork s (nodeNetworkID node) = Some network"
    "claimed = (Enrollments s ! i)\<lparr>enrClaimID := claimID, enrClaimedAt := Some at,
       enrClaimKeyHash := request_hash (envSHA env) publicKey hash\<rparr>"
    "out = EnrollClaimed node network claimed" "s' = s\<lparr>Enrollments := (Enrollments s)[i := claimed]\<rparr>"
proof -
  from assms obtain i where i:
      "find_idx (\<lambda>e. at < enrExpiresAt e \<and> TokenEqual (envSHA env) (enrTokenHash e) token) (Enrollments s) = Some i"
    by (cases "find_idx (\<lambda>e. at < enrExpiresAt e \<and> TokenEqual (envSHA env) (enrTokenHash e) token) (Enrollments s)")
       (simp_all add: enroll_claim_def Let_def)
  show thesis
  proof (cases "enrUsedAt (Enrollments s ! i) = None")
    case True
    with assms i show thesis by (auto simp: enroll_claim_def Let_def split: option.splits intro: claim [OF i True])
  next
    case False
    with assms i show thesis by (auto simp: enroll_claim_def Let_def intro: replay [OF i False])
  qed
qed

lemma use_enrollment_ok:
  assumes "use_enrollment ident claimID requestHash now s = Inr s'"
  obtains i where "find_idx (\<lambda>e. enrID e = ident) (Enrollments s) = Some i" "enrUsedAt (Enrollments s ! i) = None"
    "enrClaimID (Enrollments s ! i) = claimID" "enrClaimKeyHash (Enrollments s ! i) = requestHash"
    "s' = s\<lparr>Enrollments := (Enrollments s)[i := (Enrollments s ! i)\<lparr>enrUsedAt := Some now\<rparr>]\<rparr>"
  using assms by (auto simp: use_enrollment_def Let_def split: option.splits)

lemma enroll_commit_ok:
  assumes "enroll_commit env eid now claimID publicKey hash cert node network enrollment s = Inr (b, s')"
  obtains latest i k e v v' s2 ev where
    "findNetwork s (netID network) = Some latest" "fst (networkSigningAuthority latest) = isdAuthority cert"
    "\<not> strictCredentialHashInUse s hash"
    "find_idx (\<lambda>e. enrID e = enrID enrollment) (Enrollments s) = Some i" "e = Enrollments s ! i" "enrUsedAt e = None"
    "enrClaimID e = claimID" "enrClaimKeyHash e = request_hash (envSHA env) publicKey hash"
    "find_node_idx s (nodeID node) = Some k" "v = Nodes s ! k" "nodeStatus v = ''pending''"
    "v' = enrolled_node env s cert publicKey hash now v"
    "s' = add_audit (s\<lparr>Enrollments := (Enrollments s)[i := e\<lparr>enrUsedAt := Some now\<rparr>], Nodes := (Nodes s)[k := v'],
       Issuances := Issuances s @ [issuance_record v' (isdFingerprint cert) now (isdExpiresAt cert)],
       Networks := map (\<lambda>n. if netID n = netID latest then enrolled_network s2 v' now n else n) (Networks s)\<rparr>) ev"
    "evAction ev = ''node.enrolled''"
proof -
  from assms obtain latest s1 k v' s2 ev where 1: "findNetwork s (netID network) = Some latest"
      "fst (networkSigningAuthority latest) = isdAuthority cert" "\<not> strictCredentialHashInUse s hash"
      and u: "use_enrollment (enrID enrollment) claimID (request_hash (envSHA env) publicKey hash) now s = Inr s1"
      and k: "find_node_idx s1 (nodeID node) = Some k" "nodeStatus (Nodes s1 ! k) = ''pending''"
      and v': "v' = enrolled_node env s1 cert publicKey hash now (Nodes s1 ! k)"
      and s2: "s2 = (set_node s1 k v')\<lparr>Issuances := Issuances s1 @ [issuance_record v' (isdFingerprint cert) now (isdExpiresAt cert)]\<rparr>"
      and s': "s' = add_audit (s2\<lparr>Networks := map (\<lambda>n. if netID n = netID latest then enrolled_network s2 v' now n else n) (Networks s2)\<rparr>) ev"
      and ev: "evAction ev = ''node.enrolled''"
    by (auto simp: enroll_commit_def Let_def newAudit_def split: option.splits)
  from u obtain i where i: "find_idx (\<lambda>e. enrID e = enrID enrollment) (Enrollments s) = Some i" "enrUsedAt (Enrollments s ! i) = None"
    "enrClaimID (Enrollments s ! i) = claimID" "enrClaimKeyHash (Enrollments s ! i) = request_hash (envSHA env) publicKey hash"
    and s1: "s1 = s\<lparr>Enrollments := (Enrollments s)[i := (Enrollments s ! i)\<lparr>enrUsedAt := Some now\<rparr>]\<rparr>"
    by (rule use_enrollment_ok)
  have n: "Networks s2 = Networks s" by (simp add: s2 s1)
  have e: "s2\<lparr>Networks := X\<rparr> = s\<lparr>Enrollments := (Enrollments s)[i := (Enrollments s ! i)\<lparr>enrUsedAt := Some now\<rparr>], Nodes := (Nodes s)[k := v'],
       Issuances := Issuances s @ [issuance_record v' (isdFingerprint cert) now (isdExpiresAt cert)], Networks := X\<rparr>" for X
    by (simp add: s2 s1 set_node_def)
  show thesis
  proof (rule that [OF 1 i(1) refl i(2-4) _ refl _ _ _ ev])
    show "find_node_idx s (nodeID node) = Some k" "nodeStatus (Nodes s ! k) = ''pending''"
      using k by (simp_all add: s1 find_node_idx_def)
    show "v' = enrolled_node env s cert publicKey hash now (Nodes s ! k)"
      unfolding v' by (simp add: s1 enrolled_node_def set_certificate_def)
  qed (use s' [unfolded e n] in simp)
qed

section \<open>Invariants\<close>

lemma enroll_claim_frame: "enroll_claim env claimID at token publicKey hash s = Inr (out, s') \<Longrightarrow> frame_step s s'"
  by (erule enroll_claim_ok) (auto simp: frame_step_def list_all2_refl find_idx_lt intro!: map_update_same)

lemma release_enrollment_frame: "frame_step s (releaseEnrollmentClaim ident claimID s)"
  by (simp add: frame_step_def list_all2_refl releaseEnrollmentClaim_def)

lemma reissue_inv:
  assumes "reissueEnrollment sha bearers idents eid now actor ident s = Inr (d, s')" "sum_shape sha" "control_inv sha s"
  shows "control_inv sha s'"
  using assms(1)
proof (rule reissueEnrollment_ok)
  fix node token rid ev
  let ?e = "new_enrollment rid (TrimSpace ident) (HashToken sha token) now (now + 30 * minute)"
  assume u: "unique_bearer sha s 16 bearers = Inr token"
    and s': "s' = add_audit (s\<lparr>Enrollments := filter (\<lambda>e. enrNodeID e \<noteq> TrimSpace ident) (Enrollments s) @ [?e]\<rparr>) ev"
  show ?thesis
    by (rule token_update_inv [OF assms(3), where H = "{#HashToken sha token#}"])
       (use unique_bearer_ok [OF u] ValidTokenHash_HashToken [OF assms(2)]
        in \<open>simp_all add: s' new_enrollment_def image_mset_subseteq_mono multiset_filter_subset mset_filter\<close>)
qed

lemma enrolled_network_trust: "same_trust n (enrolled_network s v now n)"
  by (simp add: enrolled_network_def reconcileNetworkRoutePolicies_def same_trust_def)

lemma enrolled_node_simps [simp]:
  "nodeID (enrolled_node env s cert publicKey hash now v) = nodeID v"
  "nodeNetworkID (enrolled_node env s cert publicKey hash now v) = nodeNetworkID v"
  "nodeStatus (enrolled_node env s cert publicKey hash now v) = ''active''"
  "nodeAgentTokenHash (enrolled_node env s cert publicKey hash now v) = hash"
  "nodePreviousAgentTokenHash (enrolled_node env s cert publicKey hash now v) = nodePreviousAgentTokenHash v"
  "nodeAgentCredentialExpiresAt (enrolled_node env s cert publicKey hash now v) = Some (now + 90 * 24 * hour)"
  by (simp_all add: enrolled_node_def set_certificate_def)

lemma enrolled_lifecycle:
  assumes "node_lifecycle_ok v" "nodeStatus v = ''pending''" "ValidTokenHash hash" "sum_shape (envSHA env)"
  shows "node_lifecycle_ok (enrolled_node env s cert publicKey hash now v)"
  using assms ValidTokenHash_HashToken [OF assms(4)]
  by (simp add: node_lifecycle_ok_def active_shape_def pending_shape_def enrolled_node_def set_certificate_def)

text \<open>The nodes and networks of the claim: a node does not change its network while the certificate is issued.\<close>

definition claim_current :: "Node \<Rightarrow> string \<Rightarrow> State \<Rightarrow> bool" where
  "claim_current node network s \<longleftrightarrow> (\<forall>v \<in> set (Nodes s). nodeID v = nodeID node \<longrightarrow> nodeNetworkID v = network)"

lemma enroll_commit_inv:
  assumes "enroll_commit env eid now claimID publicKey hash cert node network enrollment s = Inr (b, s')"
    and "sum_shape (envSHA env)" "ValidTokenHash hash" "claim_current node (netID network) s" "control_inv (envSHA env) s"
  shows "control_inv (envSHA env) s'"
  using assms(1)
proof (rule enroll_commit_ok)
  fix latest i k e v v' s2 ev
  let ?sha = "envSHA env"
  assume latest: "findNetwork s (netID network) = Some latest" "fst (networkSigningAuthority latest) = isdAuthority cert"
    and fresh: "\<not> strictCredentialHashInUse s hash"
    and i: "find_idx (\<lambda>e. enrID e = enrID enrollment) (Enrollments s) = Some i" "e = Enrollments s ! i"
    and k: "find_node_idx s (nodeID node) = Some k" "v = Nodes s ! k" "nodeStatus v = ''pending''"
    and v': "v' = enrolled_node env s cert publicKey hash now v"
    and s': "s' = add_audit (s\<lparr>Enrollments := (Enrollments s)[i := e\<lparr>enrUsedAt := Some now\<rparr>], Nodes := (Nodes s)[k := v'],
       Issuances := Issuances s @ [issuance_record v' (isdFingerprint cert) now (isdExpiresAt cert)],
       Networks := map (\<lambda>n. if netID n = netID latest then enrolled_network s2 v' now n else n) (Networks s)\<rparr>) ev"
  note inv = control_invD [OF assms(5)]
  have kl: "k < length (Nodes s)" and kid: "nodeID v = nodeID node" and vin: "v \<in> set (Nodes s)"
    using k find_idx_lt find_idx_P by (fastforce simp: find_node_idx_def)+
  have net: "nodeNetworkID v = netID network" using assms(4) vin kid by (auto simp: claim_current_def)
  show ?thesis
  proof (rule node_update_inv [OF assms(5) kl, where v' = v' and H = "{#hash#}"])
    show "node_lifecycle_ok v'" unfolding v' using inv(3) vin k(3) assms(2,3) by (intro enrolled_lifecycle) (auto simp: list_all_iff)
    show "\<forall>n \<in> set (Networks s). authority_ok ?sha n v'"
      by (rule signed_authority_ok [OF inv(5) latest(1)])
         (use net latest(2) inv(6) v' in \<open>simp_all add: enrolled_node_def set_certificate_def\<close>)
    show "list_all2 same_trust (Networks s) (Networks s')"
      using enrolled_network_trust by (simp add: s' list_all2_conv_all_nth)
    show "mset (map enrTokenHash (Enrollments s')) \<subseteq># mset (map enrTokenHash (Enrollments s))"
      using map_update_same [of i "Enrollments s" enrTokenHash "e\<lparr>enrUsedAt := Some now\<rparr>"] i find_idx_lt [OF i(1)] by (simp add: s' del: mset_map)
  qed (use assms(3) fresh k in \<open>simp_all add: s' v' node_hashes_def\<close>)
qed

section \<open>One enrollment per token\<close>

lemma enrollment_hashes:
  assumes "credential_inv s"
  shows "distinct (map enrTokenHash (Enrollments s))" "\<forall>e \<in> set (Enrollments s). ValidTokenHash (enrTokenHash e)"
  using assms by (auto simp: credential_inv_def credential_hashes_def list_all_iff)

lemma enrollment_of_token:
  assumes "credential_inv s" "sum_shape sha" "i < length (Enrollments s)" "enrTokenHash (Enrollments s ! i) = HashToken sha token"
    and "find_idx (\<lambda>e. at < enrExpiresAt e \<and> TokenEqual sha (enrTokenHash e) token) (Enrollments s) = Some j"
  shows "j = i"
proof -
  have j: "j < length (Enrollments s)" "TokenEqual sha (enrTokenHash (Enrollments s ! j)) token"
    using find_idx_lt [OF assms(5)] find_idx_P [OF assms(5)] by simp_all
  moreover have "ValidTokenHash (enrTokenHash (Enrollments s ! j))" using enrollment_hashes(2) [OF assms(1)] j(1) by simp
  ultimately have "enrTokenHash (Enrollments s ! j) = enrTokenHash (Enrollments s ! i)" using assms(2,4) by (simp add: TokenEqual_valid)
  then show ?thesis
    using enrollment_hashes(1) [OF assms(1)] j(1) assms(3) nth_eq_iff_index_eq [of "map enrTokenHash (Enrollments s)" j i] by simp
qed

lemma used_claim_replays:
  assumes "enroll_claim env claimID at token publicKey hash s = Inr (out, s')" "credential_inv s" "sum_shape (envSHA env)"
    and "i < length (Enrollments s)" "enrTokenHash (Enrollments s ! i) = HashToken (envSHA env) token"
    and "enrUsedAt (Enrollments s ! i) \<noteq> None" "findNode s (enrNodeID (Enrollments s ! i)) = Some v"
  shows "s' = s \<and> (\<exists>b. out = EnrollReplay b) \<and> hash = nodeAgentTokenHash v \<and>
    enrClaimKeyHash (Enrollments s ! i) = request_hash (envSHA env) publicKey hash"
  using assms(1)
proof (cases rule: enroll_claim_ok)
  case (replay j b)
  have "j = i" by (rule enrollment_of_token [OF assms(2-5) replay(1)])
  with replay assms(7) show ?thesis by (auto simp: enroll_replay_def split: option.splits)
next
  case (claim j node network claimed)
  have "j = i" by (rule enrollment_of_token [OF assms(2-5) claim(1)])
  with claim assms(6) show ?thesis by simp
qed

lemma used_commit_fails:
  assumes "find_idx (\<lambda>e. enrID e = enrID enrollment) (Enrollments s) = Some i" "enrUsedAt (Enrollments s ! i) \<noteq> None"
  shows "enroll_commit env eid now claimID publicKey hash cert node network enrollment s \<noteq> Inr r"
  using assms by (cases r) (auto elim!: enroll_commit_ok)

lemma findAgent_current:
  assumes "control_inv sha s" "k < length (Nodes s)" "nodeStatus (Nodes s ! k) = ''active''" "nodeAgentTokenHash (Nodes s ! k) = h"
    and "nodeAgentCredentialExpiresAt (Nodes s ! k) = Some t" "at < t" "ValidTokenHash h"
  shows "findAgent s h at = Some (Nodes s ! k)"
  using assms control_invD(1) by (intro findAgent_idx(1)) (auto simp: agent_matches_iff live_slot_def TokenHashEqual_refl)

section \<open>A pending node\<close>

definition life_env :: Environment where
  "life_env = \<lparr>envSHA = wide_sha, envOpenFor = (\<lambda>_ _. Inr (replicate 64 8)), envSign = (\<lambda>_ _. replicate 64 1),
     envUnmarshalKey = (\<lambda>text. Some (text, [], 0)), envMarshalKey = (\<lambda>_ key. key),
     envSignPublicKey = (\<lambda>_ _ _ _ _ _ _ ttl. Inr (''certificate'', hex_string (replicate 32 6), 1000 * hour + ttl))\<rparr>"

definition life_network :: Network where
  "life_network = beat_network\<lparr>netCertificateTTL := 720\<rparr>"

definition life_member :: Node where
  "life_member = beat_node\<lparr>nodeCertificateAuthoritySHA256 := ConfigDigest wide_sha ''ca-one''\<rparr>"

definition life_pending :: Node where
  "life_pending = zero_node\<lparr>nodeID := ''fresh'', nodeNetworkID := ''net'', nodeName := ''fresh'', nodeIP := ''10.9.8.20'',
     nodeRole := ''member'', nodeStatus := ''pending'', nodeCreatedAt := 40\<rparr>"

definition life_token :: EnrollmentToken where
  "life_token = (new_enrollment ''enr'' ''fresh'' (HashToken wide_sha (bearer 4)) (900 * hour) (900 * hour + 30 * minute))\<lparr>
     enrClaimID := ''claim'', enrClaimedAt := Some (900 * hour), enrClaimKeyHash := request_hash wide_sha ''key'' (bearer 70)\<rparr>"

definition life_state :: State where
  "life_state = demo_state\<lparr>Networks := [life_network], Nodes := [life_member, life_pending], Enrollments := [life_token]\<rparr>"

definition life_issued :: issued where
  "life_issued = \<lparr>isdAuthority = ''ca-one'', isdCertificate = ''certificate'', isdFingerprint = hex_string (replicate 32 6),
     isdExpiresAt = 1720 * hour, isdRenewAfter = 1480 * hour\<rparr>"

lemma life_simps [simp]:
  "Networks life_state = [life_network]" "Nodes life_state = [life_member, life_pending]" "Enrollments life_state = [life_token]"
  "AgentRecoveries life_state = []" "Version life_state = 13" "netID life_network = ''net''" "nodeID life_member = ''member''"
  "nodeID life_pending = ''fresh''" "nodeStatus life_member = ''active''" "nodeStatus life_pending = ''pending''" "envSHA life_env = wide_sha"
  "nodeNetworkID life_member = ''net''" "nodeNetworkID life_pending = ''net''" "enrID life_token = ''enr''" "enrUsedAt life_token = None"
  by (simp_all add: life_state_def life_network_def life_member_def life_pending_def life_token_def new_enrollment_def demo_state_def
      empty_state_def life_env_def)

lemma life_token_hash: "HashToken wide_sha (bearer 4) = bearer 66"
  by code_simp

lemma life_inv: "control_inv wide_sha life_state"
proof (rule control_invI)
  show "credential_inv life_state"
    by (simp add: credential_inv_def credential_hashes_def node_hashes_def life_member_def life_pending_def beat_node_def demo_member_def
        demo_node_def zero_node_def life_token_def new_enrollment_def life_token_hash)
  show "trust_inv wide_sha life_state"
    by (simp add: trust_inv_def rotation_ok_def authority_ok_def life_network_def beat_network_def demo_network_def zero_network_def
        zero_ca_rotation_def life_member_def)
  show "list_all node_lifecycle_ok (Nodes life_state)"
    by (simp add: node_lifecycle_ok_def active_shape_def pending_shape_def life_member_def life_pending_def beat_node_def demo_member_def
        demo_node_def zero_node_def)
qed simp_all

definition life_commit :: "(EnrollmentBundle \<times> State) result" where
  "life_commit = enroll_commit life_env ''event'' (1000 * hour) ''claim'' ''key'' (bearer 70) life_issued life_pending life_network life_token life_state"

definition life_enrolled :: Node where
  "life_enrolled = enrolled_node life_env life_state life_issued ''key'' (bearer 70) (1000 * hour) life_pending"

definition life_after :: State where
  "life_after = life_state\<lparr>Enrollments := [life_token\<lparr>enrUsedAt := Some (1000 * hour)\<rparr>], Nodes := [life_member, life_enrolled],
     Issuances := [issuance_record life_enrolled (hex_string (replicate 32 6)) (1000 * hour) (1720 * hour)]\<rparr>"

lemma life_metadata_ok: "validateConfigSignatureMetadata (config_metadata wide_sha life_network life_enrolled (1000 * hour)) = Inr ()"
  by code_simp

lemma life_quiet: "quiet_network life_network" "quiet_node life_member" "quiet_node life_pending" "quiet_node life_enrolled"
  by (simp_all add: quiet_network_def quiet_node_def life_network_def beat_network_def demo_network_def zero_network_def life_member_def
      beat_node_def demo_member_def demo_node_def zero_node_def life_pending_def life_enrolled_def enrolled_node_def set_certificate_def)

lemma life_commit_ok: "\<exists>b s'. life_commit = Inr (b, s')"
proof -
  have n: "enrolled_network s life_enrolled now life_network = life_network" for s now
    by (simp add: enrolled_network_def life_enrolled_def enrolled_node_def set_certificate_def life_pending_def zero_node_def
        reconcileNetworkRoutePolicies_def life_network_def beat_network_def demo_network_def zero_network_def)
  have used: "use_enrollment ''enr'' ''claim'' (request_hash wide_sha ''key'' (bearer 70)) (1000 * hour) life_state =
      Inr (life_state\<lparr>Enrollments := [life_token\<lparr>enrUsedAt := Some (1000 * hour)\<rparr>]\<rparr>)"
    by (simp add: use_enrollment_def guard_result_def) (simp add: life_token_def)
  have fresh: "\<not> strictCredentialHashInUse life_state (bearer 70)"
    by (simp add: strictCredentialHashInUse_def life_member_def life_pending_def beat_node_def demo_member_def demo_node_def zero_node_def
        life_token_def new_enrollment_def life_token_hash)
  have node: "enrolled_node life_env (life_state\<lparr>Enrollments := X\<rparr>) life_issued ''key'' (bearer 70) (1000 * hour) life_pending = life_enrolled" for X
    by (simp add: life_enrolled_def enrolled_node_def set_certificate_def)
  have ca: "fst (networkSigningAuthority life_network) = ''ca-one''"
    by (simp add: networkSigningAuthority_def life_network_def beat_network_def demo_network_def zero_network_def zero_ca_rotation_def)
  obtain ac where sign: "signConfig wide_sha (envOpenFor life_env) (envSign life_env) life_network life_enrolled
      (renderConfig life_after life_network life_enrolled) (1000 * hour) = Inr ac"
    using quiet_sign [of life_network life_after life_enrolled "envOpenFor life_env" "replicate 64 8" wide_sha "1000 * hour" "envSign life_env"]
      life_quiet life_metadata_ok by (auto simp: life_after_def life_env_def demo_state_def life_state_def empty_state_def)
  have cert: "isdAuthority life_issued = ''ca-one''" "isdFingerprint life_issued = hex_string (replicate 32 6)"
    "isdExpiresAt life_issued = 1720 * hour"
    by (simp_all add: life_issued_def)
  have after: "(set_node (life_state\<lparr>Enrollments := [life_token\<lparr>enrUsedAt := Some (1000 * hour)\<rparr>]\<rparr>) (Suc 0) life_enrolled)\<lparr>
      Issuances := Issuances life_state @ [issuance_record life_enrolled (hex_string (replicate 32 6)) (1000 * hour) (1720 * hour)],
      Networks := [life_network]\<rparr> = life_after"
    by (simp add: life_after_def set_node_def life_state_def demo_state_def empty_state_def)
  have life_nets: "Networks life_after = [life_network]" by (simp add: life_after_def)
  show ?thesis
    unfolding life_commit_def enroll_commit_def Let_def
    using used fresh sign node after
    by (simp add: life_nets findNetwork_def ca cert guard_result_def find_node_idx_def n)
qed

section \<open>Properties\<close>

text \<open>C5. An enrollment token is used once.  After an enrollment has committed, the agent credential it
  named authenticates as the enrolled node until it expires; whoever presents the token again changes
  nothing and is answered only when the request is bound to the same public key and credential; and no
  other claim of the same record can commit, whatever certificate it holds.\<close>
theorem enrollment_single_use:
  assumes "control_inv (envSHA env) s" "sum_shape (envSHA env)" "ValidTokenHash hash" "claim_current node (netID network) s"
    and commit: "enroll_commit env eid now claimID publicKey hash cert node network enrollment s = Inr (b, s')"
    and tok: "List.find (\<lambda>e. enrID e = enrID enrollment) (Enrollments s) = Some e"
      "enrNodeID e = nodeID node" "enrTokenHash e = HashToken (envSHA env) token"
  shows "(\<forall>at. at < now + 90 * 24 * hour \<longrightarrow> map_option nodeID (findAgent s' hash at) = Some (nodeID node)) \<and>
    (\<forall>claimID' at publicKey' hash' out s''. enroll_claim env claimID' at token publicKey' hash' s' = Inr (out, s'') \<longrightarrow>
       s'' = s' \<and> (\<exists>b'. out = EnrollReplay b') \<and> hash' = hash \<and>
       request_hash (envSHA env) publicKey' hash' = request_hash (envSHA env) publicKey hash) \<and>
    (\<forall>env' eid' now' claimID' publicKey' hash' cert' node' network' r.
       enroll_commit env' eid' now' claimID' publicKey' hash' cert' node' network' enrollment s' \<noteq> Inr r)"
  using commit
proof (rule enroll_commit_ok)
  fix latest i k e1 v v' s2 ev
  assume i: "find_idx (\<lambda>e. enrID e = enrID enrollment) (Enrollments s) = Some i" and e1: "e1 = Enrollments s ! i"
    and key: "enrClaimKeyHash e1 = request_hash (envSHA env) publicKey hash"
    and k: "find_node_idx s (nodeID node) = Some k" and v: "v = Nodes s ! k"
    and v': "v' = enrolled_node env s cert publicKey hash now v"
    and s': "s' = add_audit (s\<lparr>Enrollments := (Enrollments s)[i := e1\<lparr>enrUsedAt := Some now\<rparr>], Nodes := (Nodes s)[k := v'],
       Issuances := Issuances s @ [issuance_record v' (isdFingerprint cert) now (isdExpiresAt cert)],
       Networks := map (\<lambda>n. if netID n = netID latest then enrolled_network s2 v' now n else n) (Networks s)\<rparr>) ev"
  have inv: "control_inv (envSHA env) s'" by (rule enroll_commit_inv [OF commit assms(2-4,1)])
  have il: "i < length (Enrollments s)" and kl: "k < length (Nodes s)" and kid: "nodeID v = nodeID node"
    using find_idx_lt [OF i] k v find_idx_lt find_idx_P by (fastforce simp: find_node_idx_def)+
  have e: "e1 = e" using tok(1) i e1 by (simp add: find_find_idx)
  have used: "find_idx (\<lambda>e. enrID e = enrID enrollment) (Enrollments s') = Some i"
    using find_idx_update_same [OF i, of "e1\<lparr>enrUsedAt := Some now\<rparr>"] find_idx_P [OF i] e1 by (simp add: s')
  have rec: "Enrollments s' ! i = e1\<lparr>enrUsedAt := Some now\<rparr>" using il by (simp add: s')
  have found: "find_idx (\<lambda>n. nodeID n = nodeID node) ((Nodes s)[k := v']) = Some k"
    using k kid v by (intro find_idx_update_same) (simp_all add: find_node_idx_def v')
  have node: "findNode s' (nodeID node) = Some v'" using found kl by (simp add: findNode_def find_find_idx s')
  have agent: "findAgent s' hash at = Some v'" if "at < now + 90 * 24 * hour" for at
    using findAgent_current [OF inv, of k hash "now + 90 * 24 * hour" at] kl that assms(3) by (simp add: s' v')
  have replay: "s'' = s' \<and> (\<exists>b'. out = EnrollReplay b') \<and> hash' = hash \<and>
      request_hash (envSHA env) publicKey' hash' = request_hash (envSHA env) publicKey hash"
    if "enroll_claim env claimID' at token publicKey' hash' s' = Inr (out, s'')" for claimID' at publicKey' hash' out s''
    using used_claim_replays [OF that control_invD(1) [OF inv] assms(2), of i v'] il rec e tok(2,3) node key
    by (simp add: s') (simp add: v')
  show ?thesis
    using agent replay used_commit_fails [OF used] rec kid v' by simp
qed

theorem enrollment_single_use_witness:
  "\<exists>b s'. enroll_commit life_env ''event'' (1000 * hour) ''claim'' ''key'' (bearer 70) life_issued life_pending life_network life_token life_state =
      Inr (b, s') \<and> map_option nodeID (findAgent s' (bearer 70) (1001 * hour)) = Some ''fresh''"
proof -
  obtain b s' where run: "enroll_commit life_env ''event'' (1000 * hour) ''claim'' ''key'' (bearer 70) life_issued life_pending life_network
      life_token life_state = Inr (b, s')"
    using life_commit_ok by (auto simp: life_commit_def)
  have "claim_current life_pending (netID life_network) life_state" by (simp add: claim_current_def)
  from enrollment_single_use [OF _ _ _ this run, of life_token "bearer 4"] life_inv wide_sha_shape
  have "map_option nodeID (findAgent s' (bearer 70) (1001 * hour)) = Some ''fresh''"
    by (simp add: life_token_def new_enrollment_def)
  with run show ?thesis by blast
qed

end
