(* ===== verification/Mesh_Renewal.thy ===== *)
theory Mesh_Renewal
  imports Mesh_Enrollment
begin

text \<open>
  Renewal of a certificate (\<^verbatim>\<open>internal/control/service.go\<close>: \<^verbatim>\<open>Renew\<close>, \<^verbatim>\<open>releaseRenewalClaim\<close>): an
  enrolled agent asks for a new certificate for the key it enrolled with, when the old one is due, when
  the signing authority has changed, or when a route transition staged a new prefix profile.
\<close>

section \<open>Claim\<close>

record RenewalBundle =
  rbNodeID :: string
  rbNetworkID :: string
  rbCA :: string
  rbCertificate :: string
  rbCertificateExpiresAt :: time
  rbCertificateRenewAfter :: time
  rbConfig :: string
  rbConfigRevision :: int
  rbConfigIssuedAt :: time
  rbConfigSHA256 :: string
  rbCACertificateSHA256 :: string
  rbPreviousCACertificateSHA256 :: string
  rbCARotationRequired :: bool
  rbCertificateProfileRenewalRequired :: bool
  rbCertificateFingerprint :: string
  rbCertificateGeneration :: int
  rbPublicKeyHash :: string
  rbConfigSignature :: string

definition renewalBundle :: "Network \<Rightarrow> Node \<Rightarrow> string \<Rightarrow> AgentConfig \<Rightarrow> RenewalBundle" where
  "renewalBundle network node config ac =
     \<lparr>rbNodeID = acNodeID ac, rbNetworkID = acNetworkID ac, rbCA = networkTrustBundle network,
      rbCertificate = nodeCertificate node, rbCertificateExpiresAt = acCertificateExpiresAt ac,
      rbCertificateRenewAfter = acCertificateRenewAfter ac, rbConfig = config, rbConfigRevision = acRevision ac,
      rbConfigIssuedAt = acIssuedAt ac, rbConfigSHA256 = acSHA256 ac, rbCACertificateSHA256 = acCACertificateSHA256 ac,
      rbPreviousCACertificateSHA256 = acPreviousCACertificateSHA256 ac, rbCARotationRequired = acCARotationRequired ac,
      rbCertificateProfileRenewalRequired = acCertificateProfileRenewalRequired ac,
      rbCertificateFingerprint = acCertificateFingerprint ac, rbCertificateGeneration = acCertificateGeneration ac,
      rbPublicKeyHash = acPublicKeyHash ac, rbConfigSignature = acSignature ac\<rparr>"

datatype renew_outcome = RenewReplay RenewalBundle | RenewClaimed Node Network

definition recently_renewed :: "Node \<Rightarrow> time \<Rightarrow> bool" where
  "recently_renewed node now = (case nodeLastRenewedAt node of None \<Rightarrow> False | Some at \<Rightarrow> now - at < 10 * minute)"

definition renewal_due :: "Node \<Rightarrow> time \<Rightarrow> bool \<Rightarrow> bool" where
  "renewal_due node now forced =
     (nodeCertificateExpiresAt node \<noteq> None \<and>
      (case nodeCertificateRenewAfter node of None \<Rightarrow> False | Some at \<Rightarrow> \<not> (now < at \<and> \<not> forced)))"

definition renew_claim ::
  "Environment \<Rightarrow> string \<Rightarrow> time \<Rightarrow> string \<Rightarrow> string \<Rightarrow> State \<Rightarrow> (renew_outcome \<times> State) result" where
  "renew_claim env claimID claimedAt tokenHash publicKey state =
     (case find_idx (agent_matches tokenHash claimedAt) (Nodes state) of
        None \<Rightarrow> Inl ErrUnauthorized
      | Some i \<Rightarrow>
          (let candidate = Nodes state ! i in
           guard_result (TokenEqual (envSHA env) (nodePublicKeyHash candidate) publicKey) ErrUnauthorized
           (case findNetwork state (nodeNetworkID candidate) of
              None \<Rightarrow> Inl ErrUnauthorized
            | Some network \<Rightarrow>
                (let forced = networkCARotationRequired network candidate \<or> networkCertificateProfileRenewalRequired network candidate in
                 if recently_renewed candidate claimedAt \<and> \<not> forced
                 then let config = renderConfig state network candidate in
                   bind_result (signConfig (envSHA env) (envOpenFor env) (envSign env) network candidate config claimedAt) (\<lambda>ac.
                   Inr (RenewReplay (renewalBundle network candidate config ac), state))
                 else guard_result (renewal_due candidate claimedAt forced) ErrConflict
                   (guard_result (1 \<le> nodeCertificateGeneration candidate \<and> nodeCertificateGeneration candidate \<noteq> MaxInt64) ErrConflict
                   (guard_result (\<not> recently_claimed (nodeRenewalClaimedAt candidate) claimedAt) ErrUnauthorized
                   (let claimed = candidate\<lparr>nodeRenewalClaimID := claimID, nodeRenewalClaimedAt := Some claimedAt\<rparr>
                    in Inr (RenewClaimed claimed network, set_node state i claimed))))))))"

section \<open>Commit\<close>

definition renewed_node :: "Environment \<Rightarrow> State \<Rightarrow> issued \<Rightarrow> time \<Rightarrow> Node \<Rightarrow> Node" where
  "renewed_node env state cert now node =
     (set_certificate (envSHA env) state (isdAuthority cert) (isdCertificate cert) (isdFingerprint cert)
        (isdExpiresAt cert) (isdRenewAfter cert) node)\<lparr>
       nodeCertificateGeneration := wrap64 (nodeCertificateGeneration node + 1), nodeLastRenewedAt := Some now,
       nodeRenewalClaimID := [], nodeRenewalClaimedAt := None\<rparr>"

text \<open>The loop runs over all nodes with the identifier and fails on the first that does not carry the claim.\<close>

definition renewable :: "string \<Rightarrow> string \<Rightarrow> time \<Rightarrow> Node \<Rightarrow> bool" where
  "renewable tokenHash claimID now node =
     (nodeStatus node = ''active'' \<and> nodeRenewalClaimID node = claimID \<and> fst (agentCredentialMatch node tokenHash now))"

definition advances :: "Node \<Rightarrow> bool" where
  "advances node = (wrap64 (nodeCertificateGeneration node + 1) > nodeCertificateGeneration node)"

definition renew_nodes ::
  "Environment \<Rightarrow> State \<Rightarrow> issued \<Rightarrow> string \<Rightarrow> string \<Rightarrow> time \<Rightarrow> string \<Rightarrow> Node list \<Rightarrow> Node list result" where
  "renew_nodes env state cert tokenHash claimID now ident nodes =
     map_result (\<lambda>n. if nodeID n \<noteq> ident then Inr n
       else guard_result (renewable tokenHash claimID now n) ErrUnauthorized
         (guard_result (advances n) ErrInternal (Inr (renewed_node env state cert now n)))) nodes"

definition renew_commit ::
  "Environment \<Rightarrow> string \<Rightarrow> time \<Rightarrow> string \<Rightarrow> string \<Rightarrow> issued \<Rightarrow> Node \<Rightarrow> State \<Rightarrow> (RenewalBundle \<times> State) result" where
  "renew_commit env eid now claimID tokenHash cert node state =
     (case findNetwork state (nodeNetworkID node) of
        None \<Rightarrow> Inl ErrUnauthorized
      | Some latest \<Rightarrow>
          guard_result (fst (networkSigningAuthority latest) = isdAuthority cert) ErrConflict
         (let cert = cert\<lparr>isdRenewAfter := renew_after latest (isdExpiresAt cert)\<rparr> in
          guard_result (renewal_metadata_ok now (isdExpiresAt cert) (isdRenewAfter cert)) ErrInternal
         (bind_result (renew_nodes env state cert tokenHash claimID now (nodeID node) (Nodes state)) (\<lambda>nodes.
          guard_result (nodeID node \<in> nodeID ` set nodes) ErrUnauthorized
         (let node' = last (filter (\<lambda>n. nodeID n = nodeID node) nodes);
              state1 = state\<lparr>Nodes := nodes, Issuances := Issuances state @
                [issuance_record node' (isdFingerprint cert) now (isdExpiresAt cert)]\<rparr>;
              config = renderConfig state1 latest node' in
          bind_result (signConfig (envSHA env) (envOpenFor env) (envSign env) latest node' config now) (\<lambda>ac.
          Inr (renewalBundle latest node' config ac,
               add_audit state1 (newAudit eid now ''node.certificate_renewed'' ''node'' (nodeID node')
                 (Some [(''fingerprint'', DStr (isdFingerprint cert)), (''config_revision'', DInt (netConfigRevision latest)),
                        (''certificate_generation'', DInt (nodeCertificateGeneration node'))])))))))))"

definition releaseRenewalClaim :: "string \<Rightarrow> string \<Rightarrow> State \<Rightarrow> State" where
  "releaseRenewalClaim ident claimID state =
     state\<lparr>Nodes := map (\<lambda>n. if nodeID n = ident \<and> nodeRenewalClaimID n = claimID
       then n\<lparr>nodeRenewalClaimID := [], nodeRenewalClaimedAt := None\<rparr> else n) (Nodes state)\<rparr>"

section \<open>The whole call\<close>

text \<open>The certificate is requested for the prefixes of the state the claim saw.\<close>

definition renew_issue :: "Environment \<Rightarrow> time \<Rightarrow> Node \<Rightarrow> Network \<Rightarrow> string \<Rightarrow> issued result" where
  "renew_issue env now node network publicKey =
     bind_result (issue_certificate env network node publicKey (certificateRoutedSubnets network node))
       (\<lambda>(certificate, fingerprint, expiresAt).
     guard_result (now < expiresAt) ErrInternal
     (Inr \<lparr>isdAuthority = fst (networkSigningAuthority network), isdCertificate = certificate,
           isdFingerprint = fingerprint, isdExpiresAt = expiresAt, isdRenewAfter = 0\<rparr>))"

definition Renew ::
  "Environment \<Rightarrow> string \<Rightarrow> string result \<Rightarrow> time \<Rightarrow> time \<Rightarrow> time \<Rightarrow> State \<Rightarrow> (State \<Rightarrow> State) \<Rightarrow> (State \<Rightarrow> State) \<Rightarrow>
    string \<Rightarrow> string \<Rightarrow> State \<Rightarrow> RenewalBundle result \<times> State" where
  "Renew env eid claim preflightAt claimedAt now viewed others later token publicKey state =
     (let token = TrimSpace token; tokenHash = HashToken (envSHA env) token in
      case guard_result (ValidBearerToken token) ErrUnauthorized
          (case canonicalNebulaPublicKeyPEM env publicKey of
             Inl e \<Rightarrow> Inl ErrUnauthorized
           | Inr publicKey \<Rightarrow>
               (case preflightAgentCredential tokenHash preflightAt viewed of
                  Inl e \<Rightarrow> Inl ErrUnauthorized
                | Inr preflightNode \<Rightarrow>
                    guard_result (TokenEqual (envSHA env) (nodePublicKeyHash preflightNode) publicKey) ErrUnauthorized
                    (bind_result claim (\<lambda>claimID.
                     bind_result (renew_claim env claimID claimedAt tokenHash publicKey state) (\<lambda>(outcome, state1).
                     Inr (publicKey, claimID, outcome, state1)))))) of
        Inl e \<Rightarrow> (Inl e, state)
      | Inr (publicKey, claimID, outcome, state1) \<Rightarrow>
          (case outcome of
             RenewReplay bundle \<Rightarrow> (Inr bundle, state1)
           | RenewClaimed node network \<Rightarrow>
               (let state2 = others state1 in
                case bind_result (renew_issue env now node network publicKey) (\<lambda>cert.
                     renew_commit env eid now claimID tokenHash cert node state2) of
                  Inl e \<Rightarrow> (Inl e, releaseRenewalClaim (nodeID node) claimID (later state2))
                | Inr (bundle, state3) \<Rightarrow> (Inr bundle, state3))))"

section \<open>What each transaction did\<close>

lemma renew_claim_ok:
  assumes "renew_claim env claimID at tokenHash publicKey s = Inr (out, s')"
  obtains (replay) b where "out = RenewReplay b" "s' = s"
  | (claim) i v network where
    "find_idx (agent_matches tokenHash at) (Nodes s) = Some i" "v = Nodes s ! i"
    "TokenEqual (envSHA env) (nodePublicKeyHash v) publicKey"
    "findNetwork s (nodeNetworkID v) = Some network"
    "out = RenewClaimed (v\<lparr>nodeRenewalClaimID := claimID, nodeRenewalClaimedAt := Some at\<rparr>) network"
    "s' = set_node s i (v\<lparr>nodeRenewalClaimID := claimID, nodeRenewalClaimedAt := Some at\<rparr>)"
proof -
  from assms obtain i network where i: "find_idx (agent_matches tokenHash at) (Nodes s) = Some i"
      "TokenEqual (envSHA env) (nodePublicKeyHash (Nodes s ! i)) publicKey" "findNetwork s (nodeNetworkID (Nodes s ! i)) = Some network"
    by (auto simp: renew_claim_def Let_def split: option.splits)
  let ?forced = "networkCARotationRequired network (Nodes s ! i) \<or> networkCertificateProfileRenewalRequired network (Nodes s ! i)"
  show thesis
  proof (cases "recently_renewed (Nodes s ! i) at \<and> \<not> ?forced")
    case True
    with assms i show thesis by (auto simp: renew_claim_def Let_def intro: replay)
  next
    case False
    with assms i show thesis by (intro claim [OF i(1) refl i(2,3)]) (auto simp: renew_claim_def Let_def split: if_splits)
  qed
qed

lemma renewed_nodes:
  assumes "renew_nodes env s cert tokenHash claimID now ident nodes = Inr nodes'" "distinct (map nodeID nodes)"
    and "ident \<in> nodeID ` set nodes'"
  obtains k where "find_idx (\<lambda>n. nodeID n = ident) nodes = Some k" "renewable tokenHash claimID now (nodes ! k)" "advances (nodes ! k)"
    "nodes' = nodes[k := renewed_node env s cert now (nodes ! k)]"
proof -
  let ?f = "\<lambda>n. if nodeID n \<noteq> ident then Inr n else guard_result (renewable tokenHash claimID now n) ErrUnauthorized
    (guard_result (advances n) ErrInternal (Inr (renewed_node env s cert now n)))"
  have all: "list_all2 (\<lambda>x y. ?f x = Inr y) nodes nodes'" using assms(1) by (simp add: renew_nodes_def map_result_Inr)
  have id: "nodeID y = nodeID x" if "?f x = Inr y" for x y
    using that by (auto simp: renewed_node_def set_certificate_def split: if_splits)
  have "map nodeID nodes' = map nodeID nodes" by (rule list_all2_map_same [OF all]) (rule id)
  then have "ident \<in> nodeID ` set nodes" using assms(3) by (metis image_set)
  then obtain k where k: "find_idx (\<lambda>n. nodeID n = ident) nodes = Some k"
    using find_idx_None [of "\<lambda>n. nodeID n = ident" nodes] by (cases "find_idx (\<lambda>n. nodeID n = ident) nodes") auto
  have kl: "k < length nodes" "nodeID (nodes ! k) = ident" using find_idx_lt [OF k] find_idx_P [OF k] by simp_all
  have fk: "?f (nodes ! k) = Inr (nodes' ! k)" by (rule list_all2_nthD [OF all kl(1)])
  have "nodes' ! j = nodes[k := renewed_node env s cert now (nodes ! k)] ! j" if "j < length nodes" for j
  proof (cases "j = k")
    case True
    with fk kl show ?thesis by simp
  next
    case False
    then have "nodeID (nodes ! j) \<noteq> ident"
      using assms(2) kl that by (auto simp: distinct_conv_nth)
    moreover have "?f (nodes ! j) = Inr (nodes' ! j)" by (rule list_all2_nthD [OF all that])
    ultimately show ?thesis using False by simp
  qed
  then have "nodes' = nodes[k := renewed_node env s cert now (nodes ! k)]"
    using list_all2_lengthD [OF all] by (intro nth_equalityI) simp_all
  with k fk kl show thesis by (intro that) simp_all
qed

lemma renew_commit_ok:
  assumes "renew_commit env eid now claimID tokenHash cert node s = Inr (b, s')" "distinct (map nodeID (Nodes s))"
  obtains latest k v v' ac ev where
    "findNetwork s (nodeNetworkID node) = Some latest" "fst (networkSigningAuthority latest) = isdAuthority cert"
    "renewal_metadata_ok now (isdExpiresAt cert) (renew_after latest (isdExpiresAt cert))"
    "find_node_idx s (nodeID node) = Some k" "v = Nodes s ! k" "renewable tokenHash claimID now v" "advances v"
    "v' = renewed_node env s (cert\<lparr>isdRenewAfter := renew_after latest (isdExpiresAt cert)\<rparr>) now v"
    "s' = add_audit (s\<lparr>Nodes := (Nodes s)[k := v'],
       Issuances := Issuances s @ [issuance_record v' (isdFingerprint cert) now (isdExpiresAt cert)]\<rparr>) ev"
    "signConfig (envSHA env) (envOpenFor env) (envSign env) latest v' (renderConfig (s\<lparr>Nodes := (Nodes s)[k := v'],
       Issuances := Issuances s @ [issuance_record v' (isdFingerprint cert) now (isdExpiresAt cert)]\<rparr>) latest v') now = Inr ac"
    "b = renewalBundle latest v' (renderConfig (s\<lparr>Nodes := (Nodes s)[k := v'],
       Issuances := Issuances s @ [issuance_record v' (isdFingerprint cert) now (isdExpiresAt cert)]\<rparr>) latest v') ac"
proof -
  from assms(1) obtain latest nodes where 1: "findNetwork s (nodeNetworkID node) = Some latest"
      "fst (networkSigningAuthority latest) = isdAuthority cert"
      "renewal_metadata_ok now (isdExpiresAt cert) (renew_after latest (isdExpiresAt cert))"
    and nodes: "renew_nodes env s (cert\<lparr>isdRenewAfter := renew_after latest (isdExpiresAt cert)\<rparr>) tokenHash claimID now (nodeID node) (Nodes s) = Inr nodes"
    and mem: "nodeID node \<in> nodeID ` set nodes"
    by (auto simp: renew_commit_def Let_def split: option.splits)
  from renewed_nodes [OF nodes assms(2) mem] obtain k where k: "find_node_idx s (nodeID node) = Some k"
      "renewable tokenHash claimID now (Nodes s ! k)" "advances (Nodes s ! k)"
      and n': "nodes = (Nodes s)[k := renewed_node env s (cert\<lparr>isdRenewAfter := renew_after latest (isdExpiresAt cert)\<rparr>) now (Nodes s ! k)]"
    by (auto simp: find_node_idx_def)
  let ?v' = "renewed_node env s (cert\<lparr>isdRenewAfter := renew_after latest (isdExpiresAt cert)\<rparr>) now (Nodes s ! k)"
  have kl: "k < length (Nodes s)" "nodeID (Nodes s ! k) = nodeID node"
    using k(1) find_idx_lt find_idx_P by (fastforce simp: find_node_idx_def)+
  have id: "nodeID ?v' = nodeID node" using kl(2) by (simp add: renewed_node_def set_certificate_def)
  have "filter (\<lambda>n. nodeID n = nodeID node) nodes = [nodes ! k]"
  proof (rule filter_unique_idx)
    have ids: "map nodeID nodes = map nodeID (Nodes s)" using kl id by (simp add: n' map_update_same)
    show k': "k < length nodes" "nodeID (nodes ! k) = nodeID node" using kl id by (simp_all add: n')
    have "distinct (map nodeID nodes)" unfolding ids by (rule assms(2))
    then show "j = k" if "j < length nodes" "nodeID (nodes ! j) = nodeID node" for j
      using that k' nth_eq_iff_index_eq [of "map nodeID nodes" j k] by simp
  qed
  then have last: "last (filter (\<lambda>n. nodeID n = nodeID node) nodes) = ?v'" using kl by (simp add: n')
  from assms(1) 1 nodes mem last show thesis
    by (auto simp: renew_commit_def Let_def n' intro: that [OF 1 k(1) refl k(2,3) refl])
qed

section \<open>Invariants\<close>

lemma renew_claim_frame: "renew_claim env claimID at tokenHash publicKey s = Inr (out, s') \<Longrightarrow> frame_step s s'"
proof (erule renew_claim_ok)
  fix i v network
  assume "find_idx (agent_matches tokenHash at) (Nodes s) = Some i" "v = Nodes s ! i"
    "s' = set_node s i (v\<lparr>nodeRenewalClaimID := claimID, nodeRenewalClaimedAt := Some at\<rparr>)"
  then show ?thesis
    by (auto simp: frame_step_def list_all2_refl same_credentials_def dest: find_idx_lt intro!: list_all2_update)
qed simp

lemma release_renewal_frame: "frame_step s (releaseRenewalClaim ident claimID s)"
  by (auto simp: frame_step_def list_all2_refl releaseRenewalClaim_def list_all2_conv_all_nth same_credentials_def)

lemma renewed_node_simps [simp]:
  "nodeID (renewed_node env s cert now v) = nodeID v" "nodeNetworkID (renewed_node env s cert now v) = nodeNetworkID v"
  "nodeStatus (renewed_node env s cert now v) = nodeStatus v" "node_hashes (renewed_node env s cert now v) = node_hashes v"
  "nodeCertificateGeneration (renewed_node env s cert now v) = wrap64 (nodeCertificateGeneration v + 1)"
  "nodePublicKeyHash (renewed_node env s cert now v) = nodePublicKeyHash v" "nodeRenewalClaimID (renewed_node env s cert now v) = []"
  "nodeRoutedSubnets (renewed_node env s cert now v) = nodeRoutedSubnets v" "nodeGroups (renewed_node env s cert now v) = nodeGroups v"
  "nodeCertificate (renewed_node env s cert now v) = isdCertificate cert"
  "nodeCertificateFingerprint (renewed_node env s cert now v) = isdFingerprint cert"
  "nodeCertificateExpiresAt (renewed_node env s cert now v) = Some (isdExpiresAt cert)"
  "agentCredentialMatch (renewed_node env s cert now v) = agentCredentialMatch v"
  "node_lifecycle_ok (renewed_node env s cert now v) = node_lifecycle_ok v"
  by (simp_all add: renewed_node_def set_certificate_def node_hashes_def fun_eq_iff agentCredentialMatch_def node_lifecycle_ok_def
      pending_shape_def active_shape_def revoked_shape_def)

lemma renewed_authority:
  "6 \<le> Version s \<Longrightarrow> nodeCertificateAuthoritySHA256 (renewed_node env s cert now v) = ConfigDigest (envSHA env) (isdAuthority cert)"
  by (simp add: renewed_node_def set_certificate_def)

lemma advances_iff:
  "- 9223372036854775808 \<le> nodeCertificateGeneration v \<Longrightarrow> nodeCertificateGeneration v \<le> MaxInt64 \<Longrightarrow>
     advances v \<longleftrightarrow> nodeCertificateGeneration v \<noteq> MaxInt64"
  "advances v \<Longrightarrow> nodeCertificateGeneration v \<le> MaxInt64 \<Longrightarrow> - 9223372036854775808 \<le> nodeCertificateGeneration v \<Longrightarrow>
     wrap64 (nodeCertificateGeneration v + 1) = nodeCertificateGeneration v + 1"
  by (auto simp: advances_def wrap64_def)

lemma renew_commit_inv:
  assumes "renew_commit env eid now claimID tokenHash cert node s = Inr (b, s')" "control_inv (envSHA env) s"
    and "claim_current node (nodeNetworkID node) s"
  shows "control_inv (envSHA env) s'"
proof -
  note inv = control_invD [OF assms(2)]
  from assms(1) inv(4) show ?thesis
  proof (rule renew_commit_ok)
    fix latest k v v' ac ev
    assume latest: "findNetwork s (nodeNetworkID node) = Some latest" "fst (networkSigningAuthority latest) = isdAuthority cert"
      and k: "find_node_idx s (nodeID node) = Some k" "v = Nodes s ! k"
      and v': "v' = renewed_node env s (cert\<lparr>isdRenewAfter := renew_after latest (isdExpiresAt cert)\<rparr>) now v"
      and s': "s' = add_audit (s\<lparr>Nodes := (Nodes s)[k := v'],
         Issuances := Issuances s @ [issuance_record v' (isdFingerprint cert) now (isdExpiresAt cert)]\<rparr>) ev"
    have kl: "k < length (Nodes s)" and kid: "nodeID v = nodeID node" and vin: "v \<in> set (Nodes s)"
      using k find_idx_lt find_idx_P by (fastforce simp: find_node_idx_def)+
    have net: "nodeNetworkID v = nodeNetworkID node" using assms(3) vin kid by (auto simp: claim_current_def)
    show ?thesis
    proof (rule node_update_inv [OF assms(2) kl, where v' = v' and H = "{#}"])
      show "\<forall>n \<in> set (Networks s). authority_ok (envSHA env) n v'"
        by (rule signed_authority_ok [OF inv(5) latest(1)]) (use net latest(2) inv(6) v' renewed_authority in simp_all)
    qed (use k lifecycle_nth [OF assms(2) kl] in \<open>simp_all add: s' v' list_all2_refl\<close>)
  qed
qed

section \<open>A renewal that overlaps the start of a route-profile edit\<close>

lemma start_edit_adds:
  assumes "startRouteProfileEdit sha eid now actor ident input s = Inr (d, s')" "s' \<noteq> s" "findNode s (TrimSpace ident) = Some v"
    and "findNetwork s' (nodeNetworkID v) = Some n'" "routeProfileEditAdditions (netRouteProfileEdit n') \<noteq> []"
  shows "Nodes s' = Nodes s" "pePhase (netRouteProfileEdit n') = RouteProfileEditPhasePreparingOwner" "peNodeID (netRouteProfileEdit n') = nodeID v"
    and "pePreparedCertificateGeneration (netRouteProfileEdit n') = nodeCertificateGeneration v + 1"
    and "peOriginalSubnets (netRouteProfileEdit n') = nodeRoutedSubnets v" "1 \<le> nodeCertificateGeneration v"
    and "routeTransferTerminal (netRouteTransfer n')" "nodeCertificateGeneration v \<noteq> MaxInt64"
    and "\<exists>n. findNetwork s (nodeNetworkID v) = Some n \<and> routeTransferTerminal (netRouteTransfer n) \<and> routeProfileEditTerminal (netRouteProfileEdit n)"
proof -
  have "Nodes s' = Nodes s \<and> pePhase (netRouteProfileEdit n') = RouteProfileEditPhasePreparingOwner \<and> peNodeID (netRouteProfileEdit n') = nodeID v \<and>
    pePreparedCertificateGeneration (netRouteProfileEdit n') = nodeCertificateGeneration v + 1 \<and>
    peOriginalSubnets (netRouteProfileEdit n') = nodeRoutedSubnets v \<and> 1 \<le> nodeCertificateGeneration v \<and>
    routeTransferTerminal (netRouteTransfer n') \<and> nodeCertificateGeneration v \<noteq> MaxInt64 \<and>
    (\<exists>n. findNetwork s (nodeNetworkID v) = Some n \<and> routeTransferTerminal (netRouteTransfer n) \<and> routeProfileEditTerminal (netRouteProfileEdit n))"
    using assms(1)
  proof (cases rule: startRouteProfileEdit_ok)
    case replay
    with assms(2) show ?thesis by simp
  next
    case (step desired v1 i s1 n1 ev)
    let ?n = "Networks s ! i" and ?e = "started_profile_edit desired now (TrimSpace (speRequestID input)) v"
    have v: "v1 = v" using step(2) assms(3) by simp
    note c = start_profile_checks_ok [OF step(7)]
    have il: "i < length (Networks s)" using find_network_idx_lt [OF step(3)] .
    have n1: "netRouteProfileEdit n1 = ?e \<and> netRouteTransfer n1 = netRouteTransfer ?n \<and> netID n1 = netID ?n \<and> Networks s1 = Networks s \<and>
        (routeProfileEditAdditions ?e \<noteq> [] \<longrightarrow> s1 = s)"
      using step(9) reconcile_change [of s1 ?n]
      by (auto simp: start_profile_effect_def Let_def v set_profile_def split: if_splits option.splits)
    let ?n' = "n1\<lparr>netConfigRevision := netConfigRevision ?n + 1, netConfigUpdatedAt := now\<rparr>"
    have "Networks s' = (Networks s)[i := ?n']" using step(10) n1 by simp
    then have "n' = ?n'"
      using set_network_find [OF step(3), of ?n' s'] n1 assms(4) v by (simp add: findNetwork_idx)
    moreover have "findNetwork s (nodeNetworkID v) = Some ?n" using step(3) v by (simp add: findNetwork_idx)
    ultimately show ?thesis
      using n1 assms(5) step(10) c v by (auto simp: started_profile_edit_def Let_def routeProfileEditAdditions_def split: if_splits)
  qed
  then show "Nodes s' = Nodes s" "pePhase (netRouteProfileEdit n') = RouteProfileEditPhasePreparingOwner" "peNodeID (netRouteProfileEdit n') = nodeID v"
    "pePreparedCertificateGeneration (netRouteProfileEdit n') = nodeCertificateGeneration v + 1"
    "peOriginalSubnets (netRouteProfileEdit n') = nodeRoutedSubnets v" "1 \<le> nodeCertificateGeneration v"
    "routeTransferTerminal (netRouteTransfer n')" "nodeCertificateGeneration v \<noteq> MaxInt64"
    "\<exists>n. findNetwork s (nodeNetworkID v) = Some n \<and> routeTransferTerminal (netRouteTransfer n) \<and> routeProfileEditTerminal (netRouteProfileEdit n)"
    by blast+
qed

text \<open>A member whose certificate is due, and an administrator who adds a prefix to it while the renewal is under way.\<close>

definition race_member :: Node where
  "race_member = life_member\<lparr>nodeAgentCredentialExpiresAt := Some (hour * 2000)\<rparr>"

definition race_state :: State where
  "race_state = life_state\<lparr>Nodes := [race_member], Enrollments := []\<rparr>"

abbreviation race_key :: string where "race_key \<equiv> [CHR 0x03]"

definition race_claimed :: Node where
  "race_claimed = race_member\<lparr>nodeRenewalClaimID := ''claim'', nodeRenewalClaimedAt := Some (1000 * hour)\<rparr>"

definition race_state1 :: State where
  "race_state1 = race_state\<lparr>Nodes := [race_claimed]\<rparr>"

abbreviation race_input :: StartRouteProfileEditInput where
  "race_input \<equiv> \<lparr>speRoutedSubnets = [''192.168.5.0/24''], speExpectedConfigRevision = 7, speRequestID = ''request-0123456789''\<rparr>"

definition race_network2 :: Network where
  "race_network2 = life_network\<lparr>netRouteProfileEdit := started_profile_edit [''192.168.5.0/24''] (1000 * hour) ''request-0123456789'' race_claimed,
     netConfigRevision := 8, netConfigUpdatedAt := 1000 * hour\<rparr>"

definition race_issued :: issued where
  "race_issued = life_issued\<lparr>isdRenewAfter := 0\<rparr>"

lemma race_simps [simp]:
  "Networks race_state = [life_network]" "Nodes race_state = [race_member]" "Enrollments race_state = []" "AgentRecoveries race_state = []"
  "nodeID race_member = ''member''" "nodeNetworkID race_member = ''net''" "nodeStatus race_member = ''active''" "Version race_state = 13"
  "Nodes race_state1 = [race_claimed]" "Networks race_state1 = [life_network]" "Version race_state1 = 13" "nodeID race_claimed = ''member''"
  "nodeNetworkID race_claimed = ''net''"
  by (simp_all add: race_state_def race_state1_def race_member_def race_claimed_def)

lemma race_inv: "control_inv wide_sha race_state"
proof (rule control_invI)
  show "credential_inv race_state"
    by (simp add: credential_inv_def credential_hashes_def node_hashes_def race_member_def life_member_def beat_node_def demo_member_def
        demo_node_def zero_node_def)
  show "trust_inv wide_sha race_state"
    by (simp add: trust_inv_def rotation_ok_def authority_ok_def life_network_def beat_network_def demo_network_def zero_network_def
        zero_ca_rotation_def race_member_def life_member_def)
  show "list_all node_lifecycle_ok (Nodes race_state)"
    by (simp add: node_lifecycle_ok_def active_shape_def race_member_def life_member_def beat_node_def demo_member_def demo_node_def zero_node_def)
qed simp_all

lemma race_claim: "renew_claim life_env ''claim'' (1000 * hour) (bearer 65) race_key race_state = Inr (RenewClaimed race_claimed life_network, race_state1)"
proof -
  have "agent_matches (bearer 65) (1000 * hour) race_member"
    by (simp add: agent_matches_iff live_slot_def race_member_def life_member_def beat_node_def)
  moreover have "TokenEqual wide_sha (nodePublicKeyHash race_member) race_key"
    by (simp add: TokenEqual_def race_member_def life_member_def beat_node_def DecodeString_bearer wide_sha_def)
  moreover have "\<not> networkCARotationRequired life_network race_member" "\<not> networkCertificateProfileRenewalRequired life_network race_member"
    by (simp_all add: networkCARotationRequired_def networkCertificateProfileRenewalRequired_def routeProfileCertificateRenewalRequired_def
        life_network_def beat_network_def demo_network_def zero_network_def zero_ca_rotation_def zero_route_transfer_def
        zero_route_profile_edit_def Let_def routeProfileEditDesiredGeneration_def)
  ultimately show ?thesis
    by (simp add: renew_claim_def Let_def findNetwork_def guard_result_def recently_renewed_def renewal_due_def recently_claimed_def race_claimed_def
        race_state1_def race_member_def life_member_def beat_node_def demo_member_def demo_node_def zero_node_def set_node_def)
qed


lemma race_start:
  "\<exists>d ev. startRouteProfileEdit wide_sha ''event'' (1000 * hour) None ''member'' race_input race_state1 =
     Inr (d, add_audit (set_network race_state1 0 race_network2) ev)"
proof -
  have 1: "normalizeRoutedSubnets [''192.168.5.0/24''] = Inr [''192.168.5.0/24'']" "TrimSpace ''member'' = ''member''" "validPersistedID ''member''"
    "TrimSpace ''request-0123456789'' = ''request-0123456789''" "validRouteTransferRequestID ''request-0123456789''"
    "start_profile_checks [''192.168.5.0/24''] race_input race_state1 life_network race_claimed = Inr ()"
    by code_simp+
  have 2: "routeProfileEditAdditions (started_profile_edit [''192.168.5.0/24''] (1000 * hour) ''request-0123456789'' race_claimed) \<noteq> []"
    by code_simp
  have 3: "peRequestID (netRouteProfileEdit life_network) = []" "netConfigRevision life_network = 7"
    by (simp_all add: life_network_def beat_network_def demo_network_def zero_network_def zero_route_profile_edit_def)
  have 4: "start_profile_effect [''192.168.5.0/24''] (1000 * hour) ''request-0123456789'' race_state1 life_network race_claimed =
      (race_state1, life_network\<lparr>netRouteProfileEdit := started_profile_edit [''192.168.5.0/24''] (1000 * hour) ''request-0123456789'' race_claimed\<rparr>)"
    using 2 by (simp add: start_profile_effect_def Let_def)
  show ?thesis
    using 1 3 4
    by (simp add: startRouteProfileEdit_def Let_def guard_result_def route_transition_schema_def findNode_def find_network_idx_def
        start_profile_commit_def nextConfigRevision_def profile_commit_def newOptionalAttributedAudit_def race_network2_def)
       (rule exI, rule refl)
qed

lemma race_commit:
  "\<exists>b s3. renew_commit life_env ''event'' (1000 * hour) ''claim'' (bearer 65) race_issued race_claimed
     (add_audit (set_network race_state1 0 race_network2) ev) = Inr (b, s3)"
proof -
  let ?s2 = "add_audit (set_network race_state1 0 race_network2) ev"
  let ?c = "race_issued\<lparr>isdRenewAfter := 1480 * hour\<rparr>"
  define v where "v = renewed_node life_env race_state1 ?c (1000 * hour) race_claimed"
  have v': "renewed_node life_env ?s2 ?c (1000 * hour) race_claimed = v" by (simp add: v_def renewed_node_def set_certificate_def)
  have net: "netID race_network2 = ''net''" "fst (networkSigningAuthority race_network2) = ''ca-one''" "netCertificateTTL race_network2 = 720"
    "quiet_network race_network2"
    using life_quiet(1) by (simp_all add: race_network2_def life_network_def beat_network_def demo_network_def zero_network_def
        networkSigningAuthority_def zero_ca_rotation_def quiet_network_def)
  have after: "renew_after race_network2 (1720 * hour) = 1480 * hour"
    by (simp add: renew_after_def certificate_ttl_def net renewalWindow_def wrap64_def)
  have node: "renewable (bearer 65) ''claim'' (1000 * hour) race_claimed" "advances race_claimed" "nodeID v = ''member''"
    by (simp_all add: renewable_def advances_def agentCredentialMatch_def live_slot_def race_claimed_def race_member_def life_member_def beat_node_def
        demo_member_def demo_node_def zero_node_def wrap64_def v_def)
  have quiet: "quiet_node v"
    by (simp add: quiet_node_def v_def renewed_node_def set_certificate_def race_claimed_def race_member_def life_member_def beat_node_def
        demo_member_def demo_node_def zero_node_def)
  have nodes: "renew_nodes life_env ?s2 ?c (bearer 65) ''claim'' (1000 * hour) ''member'' [race_claimed] = Inr [v]"
    using node v' by (simp add: renew_nodes_def guard_result_def)
  have meta: "validateConfigSignatureMetadata (config_metadata wide_sha race_network2 v (1000 * hour)) = Inr ()"
    unfolding v_def by code_simp
  have "\<exists>ac. signConfig wide_sha (envOpenFor life_env) (envSign life_env) race_network2 v (renderConfig s race_network2 v) (1000 * hour) = Inr ac"
    if "Nodes s = [v]" "Revocations s = []" for s
    using quiet_sign [OF net(4) _ that(2) quiet, of "envOpenFor life_env" "replicate 64 8" wide_sha "1000 * hour" "envSign life_env"]
      quiet that(1) meta by (auto simp: life_env_def)
  then show ?thesis
    using nodes after net
    by (simp add: renew_commit_def Let_def findNetwork_def race_issued_def life_issued_def guard_result_def renewal_metadata_ok_def node)
      (simp add: race_state1_def race_state_def life_state_def demo_state_def empty_state_def)
qed


section \<open>Properties\<close>

text \<open>C13. A committed renewal changes one node, the one that holds the claim and whose agent presents a live
  credential: the certificate generation advances by exactly one, the new certificate is signed by the
  authority the network signs with at the commit, expires after the instant of the commit and is renewable
  before it expires, and key, credential, groups and prefixes stay as they were.  The claim is gone, so of
  two renewals that overlap at most one commits.  The state invariant is kept.\<close>
theorem renewal_exclusive:
  assumes inv: "control_inv (envSHA env) s" "claim_current node (nodeNetworkID node) s"
    and run: "renew_commit env eid now claimID tokenHash cert node s = Inr (b, s')"
    and range: "\<forall>v \<in> set (Nodes s). 0 \<le> nodeCertificateGeneration v \<and> nodeCertificateGeneration v \<le> MaxInt64"
  shows "control_inv (envSHA env) s' \<and>
    (\<exists>k latest v'. find_node_idx s (nodeID node) = Some k \<and> Nodes s' = (Nodes s)[k := v'] \<and> Networks s' = Networks s \<and>
       nodeRenewalClaimID (Nodes s ! k) = claimID \<and> agent_matches tokenHash now (Nodes s ! k) \<and>
       findNetwork s (nodeNetworkID node) = Some latest \<and>
       nodeCertificateAuthoritySHA256 v' = ConfigDigest (envSHA env) (fst (networkSigningAuthority latest)) \<and>
       nodeCertificateGeneration v' = nodeCertificateGeneration (Nodes s ! k) + 1 \<and>
       nodeCertificateExpiresAt v' = Some (isdExpiresAt cert) \<and>
       renewal_metadata_ok now (isdExpiresAt cert) (valueOrZero (nodeCertificateRenewAfter v')) \<and>
       nodePublicKeyHash v' = nodePublicKeyHash (Nodes s ! k) \<and> node_hashes v' = node_hashes (Nodes s ! k) \<and>
       nodeGroups v' = nodeGroups (Nodes s ! k) \<and> nodeRoutedSubnets v' = nodeRoutedSubnets (Nodes s ! k)) \<and>
    (\<forall>env' eid' now' claimID' tokenHash' cert' r. claimID' \<noteq> [] \<longrightarrow>
       renew_commit env' eid' now' claimID' tokenHash' cert' node s' \<noteq> Inr r)"
proof -
  have after: "control_inv (envSHA env) s'" by (rule renew_commit_inv [OF run inv])
  from run control_invD(4) [OF inv(1)] show ?thesis
  proof (rule renew_commit_ok)
    fix latest k v v' ac ev
    assume latest: "findNetwork s (nodeNetworkID node) = Some latest" "fst (networkSigningAuthority latest) = isdAuthority cert"
        "renewal_metadata_ok now (isdExpiresAt cert) (renew_after latest (isdExpiresAt cert))"
      and k: "find_node_idx s (nodeID node) = Some k" "v = Nodes s ! k" and v: "renewable tokenHash claimID now v" "advances v"
      and v': "v' = renewed_node env s (cert\<lparr>isdRenewAfter := renew_after latest (isdExpiresAt cert)\<rparr>) now v"
      and s': "s' = add_audit (s\<lparr>Nodes := (Nodes s)[k := v'],
         Issuances := Issuances s @ [issuance_record v' (isdFingerprint cert) now (isdExpiresAt cert)]\<rparr>) ev"
    have kl: "k < length (Nodes s)" and kid: "nodeID v = nodeID node" and vin: "v \<in> set (Nodes s)"
      using k find_idx_lt find_idx_P by (fastforce simp: find_node_idx_def)+
    have gen: "nodeCertificateGeneration v' = nodeCertificateGeneration v + 1"
      using range vin v(2) advances_iff(2) [of v] unfolding v' by fastforce
    have "find_node_idx s' (nodeID node) = Some k"
      using k(1) kid find_idx_update_same [of _ "Nodes s" k v'] by (simp add: find_node_idx_def s' v')
    moreover have "Nodes s' ! k = v'" "nodeRenewalClaimID v' = []" using kl by (simp_all add: s' v')
    ultimately have none: "renew_commit env' eid' now' claimID' tokenHash' cert' node s' \<noteq> Inr r" if "claimID' \<noteq> []"
      for env' eid' now' claimID' tokenHash' cert' r
      using that control_invD(4) [OF after]
      by (cases r) (auto elim!: renew_commit_ok [of env' eid' now' claimID' tokenHash' cert' node s'] simp: renewable_def)
    have "nodeCertificateRenewAfter v' = Some (renew_after latest (isdExpiresAt cert))"
      by (simp add: v' renewed_node_def set_certificate_def)
    then show ?thesis
      using after none latest k v gen control_invD(6) [OF inv(1)]
      by (intro conjI exI [of _ k] exI [of _ latest] exI [of _ v'])
         (simp_all add: s' valueOrZero_def v' renewable_def agent_matches_def renewed_authority)
  qed
qed

theorem renewal_exclusive_witness:
  "\<exists>b s3. renew_commit life_env ''event'' (1000 * hour) ''claim'' (bearer 65) race_issued race_claimed
     (add_audit (set_network race_state1 0 race_network2) (newAudit [] 0 [] [] [] None)) = Inr (b, s3) \<and> control_inv wide_sha s3"
proof -
  let ?s2 = "add_audit (set_network race_state1 0 race_network2) (newAudit [] 0 [] [] [] None)"
  obtain b s3 where run: "renew_commit life_env ''event'' (1000 * hour) ''claim'' (bearer 65) race_issued race_claimed ?s2 = Inr (b, s3)"
    using race_commit by blast
  have f: "frame_step race_state race_state1"
    using renew_claim_frame [OF race_claim] .
  have "control_inv wide_sha ?s2"
  proof (rule frame_control_inv [OF frame_control_inv [OF race_inv f]])
    show "frame_step race_state1 ?s2"
      by (rule frame_set_network [of 0 _ race_network2]) (simp_all add: same_trust_def race_network2_def)
  qed
  then have "control_inv (envSHA life_env) ?s2" by simp
  moreover have "claim_current race_claimed (nodeNetworkID race_claimed) ?s2" by (simp add: claim_current_def)
  moreover have "\<forall>v \<in> set (Nodes ?s2). 0 \<le> nodeCertificateGeneration v \<and> nodeCertificateGeneration v \<le> MaxInt64"
    by (simp add: race_claimed_def race_member_def life_member_def)
  ultimately have "control_inv (envSHA life_env) s3" using renewal_exclusive [OF _ _ run] by blast
  with run show ?thesis by auto
qed

text \<open>C39. A renewal that is under way when a route-profile edit starts satisfies the edit with the wrong
  certificate.  The certificate is requested for the prefixes of the claim, without the added ones; the
  commit checks neither the revision nor the edit, and its generation is exactly the one the edit waits
  for.  The node then counts as staged: no further renewal is demanded of it, although its certificate does
  not carry the prefixes it is about to announce.\<close>
theorem renewal_overtakes_profile_edit:
  assumes "renew_claim env claimID at tokenHash publicKey s = Inr (RenewClaimed node network, s1)" "control_inv (envSHA env) s"
    and start: "startRouteProfileEdit sha eid now actor ident input s1 = Inr (d, s2)" "s2 \<noteq> s1" "TrimSpace ident = nodeID node"
    and adds: "findNetwork s2 (nodeNetworkID node) = Some network2" "routeProfileEditAdditions (netRouteProfileEdit network2) \<noteq> []"
    and commit: "renew_commit env eid' now' claimID tokenHash cert node s2 = Inr (b, s3)"
    and range: "\<forall>v \<in> set (Nodes s). nodeCertificateGeneration v \<le> MaxInt64"
  shows "certificateRoutedSubnets network node = peOriginalSubnets (netRouteProfileEdit network2) \<and>
    (\<exists>v. findNode s3 (nodeID node) = Some v \<and> findNetwork s3 (nodeNetworkID node) = Some network2 \<and>
       nodeCertificate v = isdCertificate cert \<and>
       nodeCertificateGeneration v = pePreparedCertificateGeneration (netRouteProfileEdit network2) \<and>
       \<not> networkCertificateProfileRenewalRequired network2 v)"
  using assms(1)
proof (cases rule: renew_claim_ok)
  case (claim i v0 net0)
  have node: "node = v0\<lparr>nodeRenewalClaimID := claimID, nodeRenewalClaimedAt := Some at\<rparr>" and net: "net0 = network"
    and s1: "s1 = set_node s i node" using claim by simp_all
  have il: "i < length (Nodes s)" using find_idx_lt [OF claim(1)] .
  have ids: "map nodeID (Nodes s1) = map nodeID (Nodes s)" using il claim(2) by (simp add: s1 node map_update_same)
  have dist: "distinct (map nodeID (Nodes s1))" unfolding ids by (rule control_invD(4) [OF assms(2)])
  have "node \<in> set (Nodes s1)" using il by (simp add: s1 set_update_memI)
  then have found: "findNode s1 (TrimSpace ident) = Some node" using findNode_member [OF dist] start(3) by simp
  note e = start_edit_adds [OF start(1,2) found adds]
  have nets: "findNetwork s1 (nodeNetworkID node) = Some network" using claim(4) net by (simp add: s1 node findNetwork_def)
  then have idle: "routeTransferTerminal (netRouteTransfer network)" "routeProfileEditTerminal (netRouteProfileEdit network)" using e(9) by simp_all
  have sub: "certificateRoutedSubnets network node = nodeRoutedSubnets node"
    using terminal_inactive(1) [OF idle(1)] terminal_inactive(2) [OF idle(2)]
    by (auto simp: certificateRoutedSubnets_def routeProfileCertificateRoutedSubnets_def Let_def routeTransferActive_def routeProfileEditActive_def)
  have gmax: "nodeCertificateGeneration node \<le> MaxInt64" using range claim(2) il by (simp add: node)
  have dist2: "distinct (map nodeID (Nodes s2))" using dist e(1) by simp
  from commit dist2 show ?thesis
  proof (rule renew_commit_ok)
    fix latest k v v' ac ev
    assume k: "find_node_idx s2 (nodeID node) = Some k" "v = Nodes s2 ! k"
      and v': "v' = renewed_node env s2 (cert\<lparr>isdRenewAfter := renew_after latest (isdExpiresAt cert)\<rparr>) now' v" and adv: "advances v"
      and s3: "s3 = add_audit (s2\<lparr>Nodes := (Nodes s2)[k := v'],
         Issuances := Issuances s2 @ [issuance_record v' (isdFingerprint cert) now' (isdExpiresAt cert)]\<rparr>) ev"
    have kl: "k < length (Nodes s2)" "nodeID v = nodeID node" using k find_idx_lt find_idx_P by (fastforce simp: find_node_idx_def)+
    have v: "v = node"
      using found k start(3) e(1) by (simp add: findNode_def find_node_idx_def find_find_idx)
    have gen: "nodeCertificateGeneration v' = nodeCertificateGeneration node + 1"
      using advances_iff(2) [OF adv] gmax e(6) by (simp add: v' v)
    have "find_idx (\<lambda>n. nodeID n = nodeID node) ((Nodes s2)[k := v']) = Some k"
      using k kl by (intro find_idx_update_same) (simp_all add: find_node_idx_def v')
    then have f3: "findNode s3 (nodeID node) = Some v'" using kl by (simp add: findNode_def find_find_idx s3)
    have n3: "findNetwork s3 (nodeNetworkID node) = Some network2" using adds(1) by (simp add: findNetwork_def s3)
    have "\<not> networkCertificateProfileRenewalRequired network2 v'"
      using terminal_inactive(1) [OF e(7)] gen e(2-4)
      by (auto simp: networkCertificateProfileRenewalRequired_def routeProfileCertificateRenewalRequired_def Let_def routeTransferActive_def
          routeProfileEditDesiredGeneration_def v' v)
    with f3 n3 gen e sub show ?thesis by (auto simp: v')
  qed
qed simp

theorem renewal_overtakes_profile_edit_witness:
  "\<exists>d s2 b s3 v. renew_claim life_env ''claim'' (1000 * hour) (bearer 65) race_key race_state = Inr (RenewClaimed race_claimed life_network, race_state1) \<and>
     startRouteProfileEdit wide_sha ''event'' (1000 * hour) None ''member'' race_input race_state1 = Inr (d, s2) \<and>
     renew_issue life_env (1000 * hour) race_claimed life_network race_key = Inr race_issued \<and>
     renew_commit life_env ''event'' (1000 * hour) ''claim'' (bearer 65) race_issued race_claimed s2 = Inr (b, s3) \<and>
     certificateRoutedSubnets life_network race_claimed = [] \<and> findNode s3 ''member'' = Some v \<and>
     \<not> networkCertificateProfileRenewalRequired race_network2 v"
proof -
  obtain d ev where start: "startRouteProfileEdit wide_sha ''event'' (1000 * hour) None ''member'' race_input race_state1 =
      Inr (d, add_audit (set_network race_state1 0 race_network2) ev)"
    using race_start by blast
  let ?s2 = "add_audit (set_network race_state1 0 race_network2) ev"
  obtain b s3 where commit: "renew_commit life_env ''event'' (1000 * hour) ''claim'' (bearer 65) race_issued race_claimed ?s2 = Inr (b, s3)"
    using race_commit by blast
  have issue: "renew_issue life_env (1000 * hour) race_claimed life_network race_key = Inr race_issued" by code_simp
  have trim: "TrimSpace ''member'' = nodeID race_claimed" by code_simp
  have "Audit ?s2 \<noteq> Audit race_state1" by simp
  then have ne: "?s2 \<noteq> race_state1" by metis
  have net2: "findNetwork ?s2 (nodeNetworkID race_claimed) = Some race_network2"
    by (simp add: findNetwork_def race_network2_def)
  have adds: "routeProfileEditAdditions (netRouteProfileEdit race_network2) \<noteq> []" by code_simp
  have range: "\<forall>v \<in> set (Nodes race_state). nodeCertificateGeneration v \<le> MaxInt64" by (simp add: race_member_def life_member_def)
  have inv: "control_inv (envSHA life_env) race_state" using race_inv by simp
  have "certificateRoutedSubnets life_network race_claimed = []" by code_simp
  with renewal_overtakes_profile_edit [OF race_claim inv start ne trim net2 adds commit range] start commit issue race_claim
  show ?thesis by auto
qed

end
