(* ===== verification/Mesh_Recovery.thy ===== *)
theory Mesh_Recovery
  imports Mesh_Renewal
begin

text \<open>
  Recovery of an agent that lost its credential (\<^verbatim>\<open>internal/control/service.go\<close>: \<^verbatim>\<open>issueAgentRecovery\<close>,
  \<^verbatim>\<open>RecoverAgent\<close>, \<^verbatim>\<open>preflightAgentRecovery\<close>, \<^verbatim>\<open>signRecoveryReceipt\<close>, \<^verbatim>\<open>releaseAgentRecoveryClaim\<close>).  An
  administrator issues a one-time token for an active node; the node exchanges it, together with the
  public key it enrolled with, for a new agent credential.  Like enrollment it is a claim and a commit,
  with a signed receipt that a lost response can replay.
\<close>

section \<open>Issue\<close>

record IssuedAgentRecovery =
  iaNode :: Node
  iaRecoveryToken :: string
  iaExpiresAt :: time

definition uniqueUnseenRecoveryBearer :: "sha256 \<Rightarrow> State \<Rightarrow> string result list \<Rightarrow> string result" where
  "uniqueUnseenRecoveryBearer sha state draws = unique_bearer sha state 16 draws"

definition live_enrolled :: "Node \<Rightarrow> bool" where
  "live_enrolled node = (nodeStatus node = ''active'' \<and> nodeEnrolledAt node \<noteq> None \<and> nodeRevokedAt node = None)"

definition new_recovery :: "string \<Rightarrow> string \<Rightarrow> string \<Rightarrow> time \<Rightarrow> time \<Rightarrow> AgentRecoveryToken" where
  "new_recovery ident node tokenHash now expiresAt =
     \<lparr>recID = ident, recNodeID = node, recTokenHash = tokenHash, recCreatedAt = now, recExpiresAt = expiresAt,
      recUsedAt = None, recClaimID = [], recClaimedAt = None, recClaimKeyHash = [], recClaimedCredentialGeneration = 0,
      recCredentialGeneration = 0, recCredentialExpiresAt = None, recResult = None\<rparr>"

definition issueAgentRecovery ::
  "sha256 \<Rightarrow> string result list \<Rightarrow> string result list \<Rightarrow> string \<Rightarrow> time \<Rightarrow> Actor option \<Rightarrow> string \<Rightarrow> State \<Rightarrow>
    (IssuedAgentRecovery \<times> State) result" where
  "issueAgentRecovery sha bearers idents eid now actor ident state =
     (let ident = TrimSpace ident; expiresAt = now + 30 * minute in
      case findNode state ident of
        None \<Rightarrow> Inl ErrNotFound
      | Some node \<Rightarrow>
          guard_result (live_enrolled node \<and> ValidTokenHash (nodePublicKeyHash node)) ErrConflict
         (bind_result (uniqueUnseenRecoveryBearer sha state bearers) (\<lambda>token.
          bind_result (uniqueAgentRecoveryID state idents) (\<lambda>recoveryID.
          let recs = AgentRecoveries state;
              kept = filter (\<lambda>r. \<not> (recNodeID r = ident \<and> recUsedAt r = None)) recs;
              invalidated = length (filter (\<lambda>r. recNodeID r = ident \<and> recUsedAt r = None) recs);
              retainedUsed = length (filter (\<lambda>r. recNodeID r = ident \<and> recUsedAt r \<noteq> None) recs) in
          bind_result (newOptionalAttributedAudit eid now ''node.agent_recovery_issued'' ''node'' ident
              (Some [(''expires_at'', DTime expiresAt), (''invalidated_tokens'', DInt (int invalidated)),
                     (''retained_used_results'', DInt (int retainedUsed))]) actor) (\<lambda>event.
            Inr (\<lparr>iaNode = node, iaRecoveryToken = token, iaExpiresAt = expiresAt\<rparr>,
                 add_audit (state\<lparr>AgentRecoveries := kept @ [new_recovery recoveryID ident (HashToken sha token) now expiresAt]\<rparr>)
                   event))))))"

definition IssueAgentRecoveryAs ::
  "sha256 \<Rightarrow> string result list \<Rightarrow> string result list \<Rightarrow> string \<Rightarrow> time \<Rightarrow> Actor \<Rightarrow> string \<Rightarrow> State \<Rightarrow>
    (IssuedAgentRecovery \<times> State) result" where
  "IssueAgentRecoveryAs sha bearers idents eid now actor ident state =
     bind_result (validateActor actor) (\<lambda>_. issueAgentRecovery sha bearers idents eid now (Some actor) ident state)"

section \<open>Claim\<close>

text \<open>A used record answers after its expiry, an unused one does not.\<close>

definition usable_recovery :: "time \<Rightarrow> AgentRecoveryToken \<Rightarrow> bool" where
  "usable_recovery at r = (recUsedAt r \<noteq> None \<or> at < recExpiresAt r)"

definition recovers :: "Node \<Rightarrow> string \<Rightarrow> bool" where
  "recovers node publicKeyHash = (live_enrolled node \<and> TokenHashEqual (nodePublicKeyHash node) publicKeyHash)"

definition preflightAgentRecovery :: "string \<Rightarrow> string \<Rightarrow> time \<Rightarrow> State \<Rightarrow> unit result" where
  "preflightAgentRecovery tokenHash publicKeyHash at state =
     guard_result (list_ex (\<lambda>r. TokenHashEqual (recTokenHash r) tokenHash \<and> usable_recovery at r \<and>
         (case findNode state (recNodeID r) of None \<Rightarrow> False | Some node \<Rightarrow> recovers node publicKeyHash)) (AgentRecoveries state))
       ErrUnauthorized (Inr ())"

type_synonym AgentRecoveryBundle = "EnrollmentBundle \<times> RecoveryReceipt"

datatype recover_outcome = RecoverReplay AgentRecoveryBundle | RecoverClaimed AgentRecoveryToken

definition recover_replay :: "string \<Rightarrow> string \<Rightarrow> Node \<Rightarrow> AgentRecoveryToken \<Rightarrow> AgentRecoveryBundle result" where
  "recover_replay requestHash newAgentTokenHash node candidate =
     (case recResult candidate of
        None \<Rightarrow> Inl ErrUnauthorized
      | Some result \<Rightarrow>
          guard_result (TokenHashEqual (recClaimKeyHash candidate) requestHash \<and>
              recCredentialGeneration candidate = nodeAgentCredentialGeneration node \<and>
              recCredentialExpiresAt candidate \<noteq> None \<and> recCredentialExpiresAt candidate = nodeAgentCredentialExpiresAt node \<and>
              TokenHashEqual (nodeAgentTokenHash node) newAgentTokenHash) ErrUnauthorized (Inr result))"

definition recover_claim ::
  "Environment \<Rightarrow> string \<Rightarrow> time \<Rightarrow> string \<Rightarrow> string \<Rightarrow> string \<Rightarrow> State \<Rightarrow> (recover_outcome \<times> State) result" where
  "recover_claim env claimID claimedAt token publicKey newAgentTokenHash state =
     (let sha = envSHA env; requestHash = request_hash sha publicKey newAgentTokenHash in
      case find_idx (\<lambda>r. TokenEqual sha (recTokenHash r) token \<and> usable_recovery claimedAt r) (AgentRecoveries state) of
        None \<Rightarrow> Inl ErrUnauthorized
      | Some i \<Rightarrow>
          (let candidate = AgentRecoveries state ! i in
           case findNode state (recNodeID candidate) of
             None \<Rightarrow> Inl ErrUnauthorized
           | Some node \<Rightarrow>
               guard_result (recovers node (HashToken sha publicKey)) ErrUnauthorized
               (if recUsedAt candidate \<noteq> None
                then bind_result (recover_replay requestHash newAgentTokenHash node candidate) (\<lambda>result.
                  Inr (RecoverReplay result, state))
                else guard_result (\<not> strictCredentialHashInUse state newAgentTokenHash) ErrConflict
                  (guard_result (\<not> recently_claimed (recClaimedAt candidate) claimedAt) ErrUnauthorized
                  (let claimed = candidate\<lparr>recClaimID := claimID, recClaimedAt := Some claimedAt, recClaimKeyHash := requestHash,
                         recClaimedCredentialGeneration := nodeAgentCredentialGeneration node\<rparr>
                   in Inr (RecoverClaimed claimed, state\<lparr>AgentRecoveries := (AgentRecoveries state)[i := claimed]\<rparr>))))))"

section \<open>Commit\<close>

text \<open>Recovery is a reset, not a grace rotation: the previous slot is emptied too.\<close>

definition recovered_node :: "string \<Rightarrow> time \<Rightarrow> Node \<Rightarrow> Node" where
  "recovered_node newAgentTokenHash now node =
     node\<lparr>nodeAgentTokenHash := newAgentTokenHash, nodePreviousAgentTokenHash := [], nodePreviousAgentTokenExpiresAt := None,
          nodeAgentCredentialExpiresAt := Some (now + 90 * 24 * hour),
          nodeAgentCredentialGeneration := nodeAgentCredentialGeneration node + 1, nodeAgentCredentialLastUsedAt := Some now\<rparr>"

definition signRecoveryReceipt :: "Environment \<Rightarrow> Network \<Rightarrow> RecoveryReceipt \<Rightarrow> string result" where
  "signRecoveryReceipt env network receipt =
     bind_result (envOpenFor env ''config-signing-key-v1'' (netEncryptedConfigSigningKey network)) (\<lambda>privateKey.
     SignRecoveryReceipt (envSign env) privateKey receipt)"

definition recovery_receipt :: "Node \<Rightarrow> string \<Rightarrow> time \<Rightarrow> EnrollmentBundle \<Rightarrow> RecoveryReceipt" where
  "recovery_receipt node newAgentTokenHash credentialExpiresAt bundle =
     \<lparr>rrNodeID = nodeID node, rrNetworkID = nodeNetworkID node, rrNewAgentTokenHash = newAgentTokenHash,
      rrAgentCredentialGeneration = nodeAgentCredentialGeneration node, rrAgentCredentialExpiresAt = credentialExpiresAt,
      rrConfigSHA256 = ebConfigSHA256 bundle, rrConfigSignature = ebConfigSignature bundle, rrSignature = []\<rparr>"

definition recovery_open :: "time \<Rightarrow> string \<Rightarrow> string \<Rightarrow> AgentRecoveryToken \<Rightarrow> bool" where
  "recovery_open now claimID requestHash r =
     (recUsedAt r = None \<and> now < recExpiresAt r \<and> recClaimID r = claimID \<and> TokenHashEqual (recClaimKeyHash r) requestHash)"

definition used_recovery :: "time \<Rightarrow> Node \<Rightarrow> AgentRecoveryBundle \<Rightarrow> AgentRecoveryToken \<Rightarrow> AgentRecoveryToken" where
  "used_recovery now node result r =
     r\<lparr>recUsedAt := Some now, recCredentialGeneration := nodeAgentCredentialGeneration node,
       recCredentialExpiresAt := Some (now + 90 * 24 * hour), recResult := Some result\<rparr>"

definition recover_commit ::
  "Environment \<Rightarrow> string \<Rightarrow> time \<Rightarrow> string \<Rightarrow> string \<Rightarrow> string \<Rightarrow> AgentRecoveryToken \<Rightarrow> State \<Rightarrow> (AgentRecoveryBundle \<times> State) result" where
  "recover_commit env eid now claimID publicKey newAgentTokenHash recovery state =
     (let sha = envSHA env; requestHash = request_hash sha publicKey newAgentTokenHash in
      case find_idx (\<lambda>r. recID r = recID recovery) (AgentRecoveries state) of
        None \<Rightarrow> Inl ErrUnauthorized
      | Some i \<Rightarrow>
          (let candidate = AgentRecoveries state ! i in
           guard_result (recovery_open now claimID requestHash candidate) ErrUnauthorized
           (case find_node_idx state (recNodeID candidate) of
              None \<Rightarrow> Inl ErrUnauthorized
            | Some k \<Rightarrow>
                (let node = Nodes state ! k in
                 guard_result (recovers node (HashToken sha publicKey) \<and>
                     nodeAgentCredentialGeneration node = recClaimedCredentialGeneration candidate) ErrUnauthorized
                (guard_result (\<not> strictCredentialHashInUse state newAgentTokenHash) ErrConflict
                (guard_result (1 \<le> nodeAgentCredentialGeneration node \<and> nodeAgentCredentialGeneration node \<noteq> MaxInt64) ErrConflict
                (let node' = recovered_node newAgentTokenHash now node; state1 = set_node state k node' in
                 case findNetwork state1 (nodeNetworkID node') of
                   None \<Rightarrow> Inl ErrUnauthorized
                 | Some network \<Rightarrow>
                     (let config = renderConfig state1 network node' in
                      bind_result (signConfig sha (envOpenFor env) (envSign env) network node' config now) (\<lambda>ac.
                      let bundle = enrollmentBundle network node' config ac;
                          receipt = recovery_receipt node' newAgentTokenHash (now + 90 * 24 * hour) bundle in
                      bind_result (signRecoveryReceipt env network receipt) (\<lambda>signature.
                      let result = (bundle, receipt\<lparr>rrSignature := signature\<rparr>);
                          records = (AgentRecoveries state)[i := used_recovery now node' result candidate];
                          kept = filter (\<lambda>r. recNodeID r \<noteq> nodeID node' \<or> recID r = recID candidate) records in
                      Inr (result, add_audit (state1\<lparr>AgentRecoveries := kept\<rparr>)
                        (newAudit eid now ''node.agent_recovered'' ''node'' (nodeID node')
                          (Some [(''credential_generation'', DInt (nodeAgentCredentialGeneration node')),
                                 (''recovery_id'', DStr (recID candidate))])))))))))))))"

definition releaseAgentRecoveryClaim :: "string \<Rightarrow> string \<Rightarrow> State \<Rightarrow> State" where
  "releaseAgentRecoveryClaim ident claimID state =
     state\<lparr>AgentRecoveries := map (\<lambda>r. if recID r = ident \<and> recUsedAt r = None \<and> recClaimID r = claimID
       then r\<lparr>recClaimID := [], recClaimedAt := None, recClaimKeyHash := [], recClaimedCredentialGeneration := 0\<rparr> else r)
       (AgentRecoveries state)\<rparr>"

section \<open>The whole call\<close>

definition RecoverAgent ::
  "Environment \<Rightarrow> string \<Rightarrow> string result \<Rightarrow> time \<Rightarrow> time \<Rightarrow> time \<Rightarrow> State \<Rightarrow> (State \<Rightarrow> State) \<Rightarrow> (State \<Rightarrow> State) \<Rightarrow>
    string \<Rightarrow> string \<Rightarrow> string \<Rightarrow> State \<Rightarrow> AgentRecoveryBundle result \<times> State" where
  "RecoverAgent env eid claim preflightAt claimedAt now viewed others later token publicKey newAgentTokenHash state =
     (let token = TrimSpace token; newAgentTokenHash = TrimSpace newAgentTokenHash in
      case guard_result (ValidBearerToken token \<and> ValidTokenHash newAgentTokenHash) ErrUnauthorized
          (case canonicalNebulaPublicKeyPEM env publicKey of
             Inl e \<Rightarrow> Inl ErrUnauthorized
           | Inr publicKey \<Rightarrow>
               bind_result (preflightAgentRecovery (HashToken (envSHA env) token) (HashToken (envSHA env) publicKey) preflightAt viewed) (\<lambda>_.
               bind_result claim (\<lambda>claimID.
               bind_result (recover_claim env claimID claimedAt token publicKey newAgentTokenHash state) (\<lambda>(outcome, state1).
               Inr (publicKey, claimID, outcome, state1))))) of
        Inl e \<Rightarrow> (Inl e, state)
      | Inr (publicKey, claimID, outcome, state1) \<Rightarrow>
          (case outcome of
             RecoverReplay result \<Rightarrow> (Inr result, state1)
           | RecoverClaimed recovery \<Rightarrow>
               (let state2 = others state1 in
                case recover_commit env eid now claimID publicKey newAgentTokenHash recovery state2 of
                  Inl e \<Rightarrow> (Inl e, releaseAgentRecoveryClaim (recID recovery) claimID (later state2))
                | Inr (result, state3) \<Rightarrow> (Inr result, state3))))"

section \<open>What each transaction did\<close>

lemma issueAgentRecovery_ok:
  assumes "issueAgentRecovery sha bearers idents eid now actor ident s = Inr (d, s')"
  obtains node token rid ev where "findNode s (TrimSpace ident) = Some node" "live_enrolled node"
    "unique_bearer sha s 16 bearers = Inr token" "unique_record_id s 16 idents = Inr rid"
    "d = \<lparr>iaNode = node, iaRecoveryToken = token, iaExpiresAt = now + 30 * minute\<rparr>"
    "s' = add_audit (s\<lparr>AgentRecoveries := filter (\<lambda>r. \<not> (recNodeID r = TrimSpace ident \<and> recUsedAt r = None)) (AgentRecoveries s) @
       [new_recovery rid (TrimSpace ident) (HashToken sha token) now (now + 30 * minute)]\<rparr>) ev"
  using assms
  by (auto simp: issueAgentRecovery_def Let_def uniqueUnseenRecoveryBearer_def uniqueAgentRecoveryID_def split: option.splits)

lemma recover_claim_ok:
  assumes "recover_claim env claimID at token publicKey hash s = Inr (out, s')"
  obtains (replay) i node result where
    "find_idx (\<lambda>r. TokenEqual (envSHA env) (recTokenHash r) token \<and> usable_recovery at r) (AgentRecoveries s) = Some i"
    "findNode s (recNodeID (AgentRecoveries s ! i)) = Some node" "recovers node (HashToken (envSHA env) publicKey)"
    "recUsedAt (AgentRecoveries s ! i) \<noteq> None" "out = RecoverReplay result" "s' = s"
    "recover_replay (request_hash (envSHA env) publicKey hash) hash node (AgentRecoveries s ! i) = Inr result"
  | (claim) i node claimed where
    "find_idx (\<lambda>r. TokenEqual (envSHA env) (recTokenHash r) token \<and> usable_recovery at r) (AgentRecoveries s) = Some i"
    "findNode s (recNodeID (AgentRecoveries s ! i)) = Some node" "recovers node (HashToken (envSHA env) publicKey)"
    "recUsedAt (AgentRecoveries s ! i) = None" "\<not> strictCredentialHashInUse s hash"
    "claimed = (AgentRecoveries s ! i)\<lparr>recClaimID := claimID, recClaimedAt := Some at,
       recClaimKeyHash := request_hash (envSHA env) publicKey hash,
       recClaimedCredentialGeneration := nodeAgentCredentialGeneration node\<rparr>"
    "out = RecoverClaimed claimed" "s' = s\<lparr>AgentRecoveries := (AgentRecoveries s)[i := claimed]\<rparr>"
proof -
  from assms obtain i node where i:
      "find_idx (\<lambda>r. TokenEqual (envSHA env) (recTokenHash r) token \<and> usable_recovery at r) (AgentRecoveries s) = Some i"
      "findNode s (recNodeID (AgentRecoveries s ! i)) = Some node" "recovers node (HashToken (envSHA env) publicKey)"
    by (auto simp: recover_claim_def Let_def split: option.splits)
  show thesis
  proof (cases "recUsedAt (AgentRecoveries s ! i) = None")
    case True
    with assms i show thesis by (auto simp: recover_claim_def Let_def intro: claim [OF i True])
  next
    case False
    with assms i show thesis by (auto simp: recover_claim_def Let_def intro: replay [OF i False])
  qed
qed

lemma recover_commit_ok:
  assumes "recover_commit env eid now claimID publicKey hash recovery s = Inr (result, s')"
  obtains i r k v v' ev where
    "find_idx (\<lambda>r. recID r = recID recovery) (AgentRecoveries s) = Some i" "r = AgentRecoveries s ! i"
    "recovery_open now claimID (request_hash (envSHA env) publicKey hash) r"
    "find_node_idx s (recNodeID r) = Some k" "v = Nodes s ! k" "recovers v (HashToken (envSHA env) publicKey)"
    "nodeAgentCredentialGeneration v = recClaimedCredentialGeneration r" "\<not> strictCredentialHashInUse s hash"
    "1 \<le> nodeAgentCredentialGeneration v" "nodeAgentCredentialGeneration v \<noteq> MaxInt64" "v' = recovered_node hash now v"
    "s' = add_audit (s\<lparr>Nodes := (Nodes s)[k := v'], AgentRecoveries :=
       filter (\<lambda>c. recNodeID c \<noteq> nodeID v \<or> recID c = recID r) ((AgentRecoveries s)[i := used_recovery now v' result r])\<rparr>) ev"
    "evAction ev = ''node.agent_recovered''"
proof -
  from assms obtain i k where i: "find_idx (\<lambda>r. recID r = recID recovery) (AgentRecoveries s) = Some i"
      "recovery_open now claimID (request_hash (envSHA env) publicKey hash) (AgentRecoveries s ! i)"
    and k: "find_node_idx s (recNodeID (AgentRecoveries s ! i)) = Some k" "recovers (Nodes s ! k) (HashToken (envSHA env) publicKey)"
      "nodeAgentCredentialGeneration (Nodes s ! k) = recClaimedCredentialGeneration (AgentRecoveries s ! i)"
      "\<not> strictCredentialHashInUse s hash" "1 \<le> nodeAgentCredentialGeneration (Nodes s ! k)"
      "nodeAgentCredentialGeneration (Nodes s ! k) \<noteq> MaxInt64"
    by (auto simp: recover_commit_def Let_def split: option.splits)
  let ?v = "recovered_node hash now (Nodes s ! k)"
  from assms i k obtain ev where "s' = add_audit ((set_node s k ?v)\<lparr>AgentRecoveries :=
       filter (\<lambda>c. recNodeID c \<noteq> nodeID ?v \<or> recID c = recID (AgentRecoveries s ! i))
         ((AgentRecoveries s)[i := used_recovery now ?v result (AgentRecoveries s ! i)])\<rparr>) ev" "evAction ev = ''node.agent_recovered''"
    by (auto simp: recover_commit_def Let_def newAudit_def split: option.splits)
  then show thesis
    by (intro that [OF i(1) refl i(2) k(1) refl k(2-6) refl]) (simp_all add: set_node_def recovered_node_def)
qed

section \<open>Invariants\<close>

lemma recover_claim_frame: "recover_claim env claimID at token publicKey hash s = Inr (out, s') \<Longrightarrow> frame_step s s'"
proof (erule recover_claim_ok)
  fix i node claimed
  assume i: "find_idx (\<lambda>r. TokenEqual (envSHA env) (recTokenHash r) token \<and> usable_recovery at r) (AgentRecoveries s) = Some i"
    and c: "claimed = (AgentRecoveries s ! i)\<lparr>recClaimID := claimID, recClaimedAt := Some at,
       recClaimKeyHash := request_hash (envSHA env) publicKey hash, recClaimedCredentialGeneration := nodeAgentCredentialGeneration node\<rparr>"
    and s': "s' = s\<lparr>AgentRecoveries := (AgentRecoveries s)[i := claimed]\<rparr>"
  have "map recTokenHash ((AgentRecoveries s)[i := claimed]) = map recTokenHash (AgentRecoveries s)"
    using find_idx_lt [OF i] by (simp add: c map_update_same)
  then show ?thesis by (simp add: frame_step_def list_all2_refl s' del: mset_map)
qed simp

lemma release_recovery_frame: "frame_step s (releaseAgentRecoveryClaim ident claimID s)"
proof -
  have "map recTokenHash (AgentRecoveries (releaseAgentRecoveryClaim ident claimID s)) = map recTokenHash (AgentRecoveries s)"
    by (simp add: releaseAgentRecoveryClaim_def)
  moreover have "Networks (releaseAgentRecoveryClaim ident claimID s) = Networks s" "Nodes (releaseAgentRecoveryClaim ident claimID s) = Nodes s"
    "Enrollments (releaseAgentRecoveryClaim ident claimID s) = Enrollments s" "Version (releaseAgentRecoveryClaim ident claimID s) = Version s"
    by (simp_all add: releaseAgentRecoveryClaim_def)
  ultimately show ?thesis by (simp add: frame_step_def list_all2_refl del: mset_map)
qed

lemma issue_recovery_inv:
  assumes "issueAgentRecovery sha bearers idents eid now actor ident s = Inr (d, s')" "sum_shape sha" "control_inv sha s"
  shows "control_inv sha s'"
  using assms(1)
proof (rule issueAgentRecovery_ok)
  fix node token rid ev
  assume u: "unique_bearer sha s 16 bearers = Inr token"
    and s': "s' = add_audit (s\<lparr>AgentRecoveries := filter (\<lambda>r. \<not> (recNodeID r = TrimSpace ident \<and> recUsedAt r = None)) (AgentRecoveries s) @
       [new_recovery rid (TrimSpace ident) (HashToken sha token) now (now + 30 * minute)]\<rparr>) ev"
  show ?thesis
    by (rule token_update_inv [OF assms(3), where H = "{#HashToken sha token#}"])
       (use unique_bearer_ok [OF u] ValidTokenHash_HashToken [OF assms(2)]
        in \<open>simp_all add: s' new_recovery_def image_mset_subseteq_mono multiset_filter_subset mset_filter\<close>)
qed

lemma recovered_node_simps [simp]:
  "nodeID (recovered_node hash now v) = nodeID v" "nodeNetworkID (recovered_node hash now v) = nodeNetworkID v"
  "nodeStatus (recovered_node hash now v) = nodeStatus v" "nodeAgentTokenHash (recovered_node hash now v) = hash"
  "nodePreviousAgentTokenHash (recovered_node hash now v) = []" "nodePreviousAgentTokenExpiresAt (recovered_node hash now v) = None"
  "nodeAgentCredentialExpiresAt (recovered_node hash now v) = Some (now + 90 * 24 * hour)"
  "nodeCertificateAuthoritySHA256 (recovered_node hash now v) = nodeCertificateAuthoritySHA256 v"
  "nodeAgentCredentialGeneration (recovered_node hash now v) = nodeAgentCredentialGeneration v + 1"
  by (simp_all add: recovered_node_def)

lemma kept_recoveries:
  assumes "i < length rs" "recTokenHash r' = recTokenHash (rs ! i)"
  shows "mset (map recTokenHash (filter P (rs[i := r']))) \<subseteq># mset (map recTokenHash rs)"
proof -
  have "map recTokenHash (rs[i := r']) = map recTokenHash rs" using assms by (simp add: map_update_same)
  then have "mset (map recTokenHash rs) = image_mset recTokenHash (mset (rs[i := r']))" by (metis mset_map)
  then show ?thesis by (simp add: image_mset_subseteq_mono multiset_filter_subset mset_filter)
qed

lemma recover_commit_inv:
  assumes "recover_commit env eid now claimID publicKey hash recovery s = Inr (result, s')" "ValidTokenHash hash" "control_inv (envSHA env) s"
  shows "control_inv (envSHA env) s'"
  using assms(1)
proof (rule recover_commit_ok)
  fix i r k v v' ev
  assume i: "find_idx (\<lambda>r. recID r = recID recovery) (AgentRecoveries s) = Some i" "r = AgentRecoveries s ! i"
    and k: "find_node_idx s (recNodeID r) = Some k" "v = Nodes s ! k" and v: "recovers v (HashToken (envSHA env) publicKey)"
      "\<not> strictCredentialHashInUse s hash" "1 \<le> nodeAgentCredentialGeneration v"
    and v': "v' = recovered_node hash now v"
    and s': "s' = add_audit (s\<lparr>Nodes := (Nodes s)[k := v'], AgentRecoveries :=
       filter (\<lambda>c. recNodeID c \<noteq> nodeID v \<or> recID c = recID r) ((AgentRecoveries s)[i := used_recovery now v' result r])\<rparr>) ev"
  have kl: "k < length (Nodes s)" using k find_idx_lt by (fastforce simp: find_node_idx_def)
  have act: "nodeStatus v = ''active''" using v(1) by (simp add: recovers_def live_enrolled_def)
  show ?thesis
  proof (rule node_update_inv [OF assms(3) kl, where v' = v' and H = "{#hash#}"])
    show "node_lifecycle_ok v'"
      using lifecycle_nth [OF assms(3) kl] act k(2) assms(2) v(3)
      by (simp add: v' node_lifecycle_ok_def active_shape_def) (simp add: recovered_node_def)
    show "\<forall>n \<in> set (Networks s). authority_ok (envSHA env) n v'"
      by (rule kept_authority_ok [OF control_invD(2) [OF assms(3)], of v]) (use kl k(2) in \<open>simp_all add: v'\<close>)
    show "mset (map recTokenHash (AgentRecoveries s')) \<subseteq># mset (map recTokenHash (AgentRecoveries s))"
      using kept_recoveries [OF find_idx_lt [OF i(1)], of "used_recovery now v' result r"] i(2) by (simp add: s' used_recovery_def)
  qed (use assms(2) v(2) k(2) in \<open>simp_all add: s' list_all2_refl v' node_hashes_def\<close>)
qed
section \<open>One recovery per token\<close>

lemma find_filter_first: "List.find P xs = Some x \<Longrightarrow> Q x \<Longrightarrow> List.find P (filter Q xs) = Some x"
  by (induction xs) (auto split: if_splits)

lemma used_recovery_fails:
  assumes "List.find (\<lambda>r. recID r = recID recovery) (AgentRecoveries s) = Some r" "recUsedAt r \<noteq> None"
  shows "recover_commit env eid now claimID publicKey hash recovery s \<noteq> Inr result"
proof
  assume "recover_commit env eid now claimID publicKey hash recovery s = Inr result"
  then show False using assms by (cases result) (auto elim!: recover_commit_ok simp: find_find_idx recovery_open_def)
qed

text \<open>A node that keeps a single credential answers to its hash only.\<close>

lemma single_slot_matches:
  assumes "nodeStatus v = ''active''" "nodeAgentTokenHash v = hash" "nodePreviousAgentTokenHash v = []"
    and "nodeAgentCredentialExpiresAt v = Some t"
  shows "agent_matches h at v \<longleftrightarrow> TokenHashEqual hash h \<and> at < t"
  using assms by (auto simp: agent_matches_iff live_slot_def)

lemma findAgent_one_node:
  assumes inv: "credential_inv s" "credential_inv s'" "distinct (map nodeID (Nodes s))" and k: "k < length (Nodes s)"
    and s': "Nodes s' = (Nodes s)[k := v']" "nodeID v' = nodeID (Nodes s ! k)"
  shows "map_option nodeID (findAgent s' h at) = Some (nodeID v') \<longleftrightarrow> agent_matches h at v'"
    and "map_option nodeID (findAgent s h at) \<noteq> Some (nodeID v') \<Longrightarrow> \<not> agent_matches h at v' \<Longrightarrow> findAgent s' h at = findAgent s h at"
proof -
  have v': "Nodes s' ! k = v'" "k < length (Nodes s')" using k by (simp_all add: s')
  have dist: "distinct (map nodeID (Nodes s'))" using inv(3) k s' by (simp add: map_update_same)
  have idx: "w \<in> set (Nodes s') \<Longrightarrow> nodeID w = nodeID v' \<Longrightarrow> w = v'" for w
    using dist v' by (metis distinct_map inj_on_def nth_mem)
  show "map_option nodeID (findAgent s' h at) = Some (nodeID v') \<longleftrightarrow> agent_matches h at v'"
    using findAgent_idx(1) [OF inv(2) v'(2)] v'(1) findAgent_Some [of s' h at] idx by (auto simp del: distinct_map)
  show "findAgent s' h at = findAgent s h at" if other: "map_option nodeID (findAgent s h at) \<noteq> Some (nodeID v')" "\<not> agent_matches h at v'"
  proof (cases "findAgent s h at")
    case None
    then have "\<forall>n \<in> set (Nodes s'). \<not> agent_matches h at n"
      using findAgent_None_iff [OF inv(1)] other(2) by (auto simp: s' dest!: set_update_subset_insert [THEN subsetD])
    with None show ?thesis using findAgent_None_iff [OF inv(2)] by metis
  next
    case (Some w)
    then obtain j where j: "j < length (Nodes s)" "Nodes s ! j = w" "agent_matches h at w"
      using findAgent_Some [OF Some] by (auto simp: in_set_conv_nth)
    with other(1) Some s'(2) have "j \<noteq> k" by auto
    with j have "Nodes s' ! j = w" "j < length (Nodes s')" by (simp_all add: s')
    with j Some show ?thesis using findAgent_idx(1) [OF inv(2)] by metis
  qed
qed

section \<open>A lost credential\<close>

definition rescue_token :: AgentRecoveryToken where
  "rescue_token = (new_recovery ''rec'' ''member'' (bearer 66) (999 * hour) (1001 * hour))\<lparr>recClaimID := ''claim'',
     recClaimedAt := Some (999 * hour), recClaimKeyHash := request_hash wide_sha race_key (bearer 70), recClaimedCredentialGeneration := 3\<rparr>"

definition rescue_state :: State where
  "rescue_state = race_state\<lparr>AgentRecoveries := [rescue_token]\<rparr>"

definition rescue_node :: Node where
  "rescue_node = recovered_node (bearer 70) (1000 * hour) race_member"

definition rescue_receipt :: RecoveryReceipt where
  "rescue_receipt = \<lparr>rrNodeID = ''member'', rrNetworkID = ''net'', rrNewAgentTokenHash = bearer 70, rrAgentCredentialGeneration = 4,
     rrAgentCredentialExpiresAt = 3160 * hour, rrConfigSHA256 = ConfigDigest wide_sha quiet_config,
     rrConfigSignature = EncodeToString (replicate 64 1), rrSignature = []\<rparr>"

lemma rescue_simps [simp]:
  "Networks rescue_state = [life_network]" "Nodes rescue_state = [race_member]" "Enrollments rescue_state = []"
  "AgentRecoveries rescue_state = [rescue_token]" "Version rescue_state = 13" "recID rescue_token = ''rec''"
  "recNodeID rescue_token = ''member''" "nodeID rescue_node = ''member''" "nodeNetworkID rescue_node = ''net''"
  by (simp_all add: rescue_state_def rescue_token_def new_recovery_def rescue_node_def)

lemma rescue_inv: "control_inv wide_sha rescue_state"
proof (rule token_update_inv [OF race_inv, where H = "{#bearer 66#}"])
  show "fresh_hashes race_state {#bearer 66#}"
    by (simp add: strictCredentialHashInUse_def race_member_def life_member_def beat_node_def demo_member_def demo_node_def zero_node_def)
qed (simp_all add: rescue_token_def new_recovery_def)

lemma rescue_metadata_ok: "validateConfigSignatureMetadata (config_metadata wide_sha life_network rescue_node (1000 * hour)) = Inr ()"
  by code_simp

lemma rescue_sign:
  "\<exists>ac. signConfig wide_sha (envOpenFor life_env) (envSign life_env) life_network rescue_node quiet_config (1000 * hour) = Inr ac \<and>
     acSHA256 ac = ConfigDigest wide_sha quiet_config \<and> acSignature ac = EncodeToString (replicate 64 1)"
  using quiet_config_ok rescue_metadata_ok
  by (simp add: signConfig_def SignConfig_def Let_def case_prod_beta guard_result_def fst_payload life_env_def)

lemma rescue_receipt_ok: "\<exists>p. recoveryReceiptPayload rescue_receipt = Inr p"
proof -
  have "validPersistedID ''member''" "validPersistedID ''net''" by code_simp+
  moreover have "fingerprintPattern (ConfigDigest wide_sha quiet_config)" by (simp add: ConfigDigest_def wide_sha_def) code_simp
  ultimately show ?thesis
    by (simp add: recoveryReceiptPayload_def rescue_receipt_def decode_signature_def DecodeString_EncodeToString guard_result_def)
qed

lemma rescue_commit_ok:
  "\<exists>result s'. recover_commit life_env ''event'' (1000 * hour) ''claim'' race_key (bearer 70) rescue_token rescue_state = Inr (result, s')"
proof -
  have render: "renderConfig (set_node rescue_state 0 rescue_node) life_network rescue_node = quiet_config"
    by (rule quiet_render) (simp_all add: life_quiet set_node_def rescue_node_def recovered_node_def race_member_def quiet_node_def
      life_member_def beat_node_def demo_member_def demo_node_def zero_node_def rescue_state_def race_state_def life_state_def demo_state_def empty_state_def)
  obtain ac where ac: "signConfig wide_sha (envOpenFor life_env) (envSign life_env) life_network rescue_node quiet_config (1000 * hour) = Inr ac"
      "acSHA256 ac = ConfigDigest wide_sha quiet_config" "acSignature ac = EncodeToString (replicate 64 1)"
    using rescue_sign by blast
  have "recovery_receipt rescue_node (bearer 70) (1000 * hour + 90 * 24 * hour) (enrollmentBundle life_network rescue_node quiet_config ac) = rescue_receipt"
    by (simp add: recovery_receipt_def enrollmentBundle_def rescue_receipt_def ac(2,3))
       (simp add: rescue_node_def race_member_def life_member_def beat_node_def)
  moreover obtain sig where "signRecoveryReceipt life_env life_network rescue_receipt = Inr sig"
    using rescue_receipt_ok by (auto simp: signRecoveryReceipt_def SignRecoveryReceipt_def life_env_def guard_result_def)
  moreover have "recovery_open (1000 * hour) ''claim'' (request_hash wide_sha race_key (bearer 70)) rescue_token"
    by (simp add: recovery_open_def rescue_token_def new_recovery_def request_hash_def TokenHashEqual_refl ValidTokenHash_HashToken wide_sha_shape)
  moreover have "recovers race_member (HashToken wide_sha race_key)"
    by (simp add: recovers_def live_enrolled_def race_member_def life_member_def beat_node_def demo_member_def demo_node_def zero_node_def) code_simp
  moreover have "\<not> strictCredentialHashInUse rescue_state (bearer 70)"
    by (simp add: strictCredentialHashInUse_def race_member_def life_member_def beat_node_def demo_member_def demo_node_def zero_node_def
        rescue_token_def new_recovery_def)
  moreover have "nodeAgentCredentialGeneration race_member = 3" "recClaimedCredentialGeneration rescue_token = 3"
    by (simp_all add: race_member_def life_member_def beat_node_def rescue_token_def)
  moreover have "recovered_node (bearer 70) (1000 * hour) race_member = rescue_node" by (simp add: rescue_node_def)
  ultimately show ?thesis
    using render ac(1)
    by (simp add: recover_commit_def Let_def find_node_idx_def guard_result_def findNetwork_def set_node_def)
qed

section \<open>Properties\<close>

text \<open>C6. A recovery is a reset.  Once it has committed, the node answers to the new credential, for ninety
  days, and to nothing else: neither the lost credential nor its grace slot survives.  Every other agent is
  authenticated as before, no second recovery can commit from the same record, and no other recovery record
  of the node is left.\<close>
theorem recovery_resets:
  assumes "control_inv (envSHA env) s" "ValidTokenHash hash"
    and commit: "recover_commit env eid now claimID publicKey hash recovery s = Inr (result, s')"
    and rec: "List.find (\<lambda>r. recID r = recID recovery) (AgentRecoveries s) = Some r"
  shows "(\<forall>h at. map_option nodeID (findAgent s' h at) = Some (recNodeID r) \<longleftrightarrow> TokenHashEqual hash h \<and> at < now + 90 * 24 * hour) \<and>
    (\<forall>h at. map_option nodeID (findAgent s h at) \<noteq> Some (recNodeID r) \<and> \<not> TokenHashEqual hash h \<longrightarrow> findAgent s' h at = findAgent s h at) \<and>
    (\<forall>env' eid' now' claimID' publicKey' hash' result'.
       recover_commit env' eid' now' claimID' publicKey' hash' recovery s' \<noteq> Inr result') \<and>
    (\<forall>c \<in> set (AgentRecoveries s'). recNodeID c = recNodeID r \<longrightarrow> recID c = recID r)"
  using commit
proof (rule recover_commit_ok)
  fix i r1 k v v' ev
  assume i: "find_idx (\<lambda>r. recID r = recID recovery) (AgentRecoveries s) = Some i" "r1 = AgentRecoveries s ! i"
    and k: "find_node_idx s (recNodeID r1) = Some k" "v = Nodes s ! k" and v: "recovers v (HashToken (envSHA env) publicKey)"
    and v': "v' = recovered_node hash now v"
    and s': "s' = add_audit (s\<lparr>Nodes := (Nodes s)[k := v'], AgentRecoveries :=
       filter (\<lambda>c. recNodeID c \<noteq> nodeID v \<or> recID c = recID r1) ((AgentRecoveries s)[i := used_recovery now v' result r1])\<rparr>) ev"
  have r: "r1 = r" using rec i by (simp add: find_find_idx)
  have inv: "control_inv (envSHA env) s'" by (rule recover_commit_inv [OF commit assms(2,1)])
  have kl: "k < length (Nodes s)" and kid: "nodeID v = recNodeID r"
    using k find_idx_lt find_idx_P r by (fastforce simp: find_node_idx_def)+
  have slot: "agent_matches h at v' \<longleftrightarrow> TokenHashEqual hash h \<and> at < now + 90 * 24 * hour" for h at
    using v assms(2) by (intro single_slot_matches) (simp_all add: v' recovers_def live_enrolled_def)
  have nodes: "Nodes s' = (Nodes s)[k := v']" "nodeID v' = nodeID (Nodes s ! k)" using k(2) by (simp_all add: s' v')
  note agents = findAgent_one_node [OF control_invD(1) [OF assms(1)] control_invD(1) [OF inv] control_invD(4) [OF assms(1)] kl nodes]
  let ?rs = "(AgentRecoveries s)[i := used_recovery now v' result r]"
  have ids: "recID (used_recovery now v' result r) = recID r" "recUsedAt (used_recovery now v' result r) \<noteq> None"
    "recID r = recID recovery"
    using find_idx_P [OF i(1)] i(2) r by (simp_all add: used_recovery_def)
  have "List.find (\<lambda>r. recID r = recID recovery) ?rs = Some (used_recovery now v' result r)"
    using find_idx_update_same [OF i(1), of "used_recovery now v' result r"] find_idx_lt [OF i(1)] ids by (simp add: find_find_idx)
  then have "List.find (\<lambda>r. recID r = recID recovery) (AgentRecoveries s') = Some (used_recovery now v' result r)"
    using find_filter_first ids(1) r by (fastforce simp: s')
  from used_recovery_fails [OF this ids(2)] agents slot kid k(2) show ?thesis
    by (auto simp: s' v' r)
qed

theorem recovery_resets_witness:
  "\<exists>result s'. recover_commit life_env ''event'' (1000 * hour) ''claim'' race_key (bearer 70) rescue_token rescue_state = Inr (result, s') \<and>
     map_option nodeID (findAgent s' (bearer 70) (1001 * hour)) = Some ''member'' \<and> findAgent s' (bearer 65) (1001 * hour) = None"
proof -
  obtain result s' where run: "recover_commit life_env ''event'' (1000 * hour) ''claim'' race_key (bearer 70) rescue_token rescue_state =
      Inr (result, s')"
    using rescue_commit_ok by blast
  have "control_inv (envSHA life_env) rescue_state" using rescue_inv by simp
  from recovery_resets [OF this _ run, of rescue_token]
  have new: "map_option nodeID (findAgent s' h at) = Some ''member'' \<longleftrightarrow> TokenHashEqual (bearer 70) h \<and> at < 3160 * hour" for h at
    by simp
  have "\<not> TokenHashEqual (bearer 70) (bearer 65)" by (simp add: TokenHashEqual_valid)
  moreover obtain v' where "Nodes s' = [v']" "nodeID v' = ''member''"
    by (rule recover_commit_ok [OF run]) (auto simp: find_node_idx_def)
  then have "nodeID v = ''member''" if "findAgent s' (bearer 65) (1001 * hour) = Some v" for v
    using findAgent_Some [OF that] by simp
  ultimately have "findAgent s' (bearer 65) (1001 * hour) = None"
    using new [of "bearer 65" "1001 * hour"] by (cases "findAgent s' (bearer 65) (1001 * hour)") simp_all
  moreover have "map_option nodeID (findAgent s' (bearer 70) (1001 * hour)) = Some ''member''" using new by (simp add: TokenHashEqual_refl)
  ultimately show ?thesis using run by blast
qed

end
