(* ===== verification/Mesh_AuditDetails.thy ===== *)
theory Mesh_AuditDetails
  imports Mesh_Encoding Mesh_Model
begin

text \<open>
  Reading back what an audit event records (\<^verbatim>\<open>internal/control/retirement.go\<close>: \<^verbatim>\<open>auditNonNegativeInteger\<close>;
  \<^verbatim>\<open>internal/control/node_archival.go\<close>: \<^verbatim>\<open>auditRFC3339Time\<close>).  The receipts of revocations, archived nodes and
  retired networks live in the details of audit events; the store and the replay paths parse them from there.
  The parser of instants is \<^verbatim>\<open>parseRFC3339\<close> of Go's \<^verbatim>\<open>time\<close> package, the path \<^verbatim>\<open>time.Parse\<close> takes for every text
  that \<^verbatim>\<open>RFC3339Nano\<close> produces.  The details of a decoded event are \<^verbatim>\<open>float64\<close> where the event was built with an
  integer; both are \<open>DInt\<close> here.
\<close>

section \<open>Details\<close>

definition detail :: "AuditEvent \<Rightarrow> string \<Rightarrow> Detail option" where
  "detail event key = map_of (elems (evDetails event)) key"

fun detail_string :: "Detail option \<Rightarrow> string option" where
  "detail_string (Some (DStr s)) = Some s"
| "detail_string _ = None"

fun detail_bool :: "Detail option \<Rightarrow> bool option" where
  "detail_bool (Some (DBool b)) = Some b"
| "detail_bool _ = None"

fun auditNonNegativeInteger :: "Detail option \<Rightarrow> int option" where
  "auditNonNegativeInteger (Some (DInt n)) = (if 0 \<le> n then Some n else None)"
| "auditNonNegativeInteger _ = None"

text \<open>No detail beside the required ones and the actor's, and every required one present.\<close>

definition details_exact :: "string list \<Rightarrow> AuditEvent \<Rightarrow> bool" where
  "details_exact required event =
     (list_all (\<lambda>(k, _). k \<in> set required \<or> k \<in> set actor_keys) (elems (evDetails event)) \<and>
      list_all (\<lambda>k. detail event k \<noteq> None) required)"

section \<open>Instants\<close>

definition parse_uint :: "string \<Rightarrow> int \<Rightarrow> int \<Rightarrow> int option" where
  "parse_uint s lo hi = (if list_all is_digit s \<and> lo \<le> dec_int s \<and> dec_int s \<le> hi then Some (dec_int s) else None)"

definition days_before_year :: "int \<Rightarrow> int" where
  "days_before_year y = 365 * (y - 1) + (y - 1) div 4 - (y - 1) div 100 + (y - 1) div 400"

definition date_days :: "int \<Rightarrow> int \<Rightarrow> int \<Rightarrow> int" where
  "date_days y mo d = days_before_year y + sum_list (take (nat (mo - 1)) (month_lengths (leap y))) + (d - 1)"

definition parse_date :: "string \<Rightarrow> int option" where
  "parse_date s =
     (case (parse_uint (take 4 s) 0 9999, parse_uint (take 2 (drop 5 s)) 1 12) of
        (Some y, Some mo) \<Rightarrow>
          (case parse_uint (take 2 (drop 8 s)) 1 (month_lengths (leap y) ! nat (mo - 1)) of
             None \<Rightarrow> None
           | Some d \<Rightarrow> if s ! 4 = CHR ''-'' \<and> s ! 7 = CHR ''-'' then Some (date_days y mo d) else None)
      | _ \<Rightarrow> None)"

definition parse_clock :: "string \<Rightarrow> int option" where
  "parse_clock s =
     (case (parse_uint (take 2 s) 0 23, parse_uint (take 2 (drop 3 s)) 0 59, parse_uint (take 2 (drop 6 s)) 0 59) of
        (Some h, Some mi, Some sec) \<Rightarrow>
          if s ! 2 = CHR '':'' \<and> s ! 5 = CHR '':'' then Some (h * 3600 + mi * 60 + sec) else None
      | _ \<Rightarrow> None)"

text \<open>At most nine digits of the fraction count.\<close>

definition parse_fraction :: "string \<Rightarrow> int \<times> string" where
  "parse_fraction s =
     (if 2 \<le> length s \<and> s ! 0 = CHR ''.'' \<and> is_digit (s ! 1)
      then let ds = take 9 (takeWhile is_digit (tl s))
           in (dec_int ds * 10 ^ (9 - length ds), dropWhile is_digit (tl s))
      else (0, s))"

definition parse_zone :: "string \<Rightarrow> int option" where
  "parse_zone s =
     (if s = ''Z'' then Some 0
      else if length s \<noteq> 6 then None
      else case (parse_uint (take 2 (drop 1 s)) 0 23, parse_uint (take 2 (drop 4 s)) 0 59) of
        (Some h, Some mi) \<Rightarrow>
          if (s ! 0 = CHR ''-'' \<or> s ! 0 = CHR ''+'') \<and> s ! 3 = CHR '':''
          then Some ((if s ! 0 = CHR ''-'' then -1 else 1) * (h * 3600 + mi * 60)) else None
      | _ \<Rightarrow> None)"

definition parseRFC3339 :: "string \<Rightarrow> time option" where
  "parseRFC3339 s =
     (if length s < 19 then None
      else case (parse_date (take 10 s), parse_clock (take 8 (drop 11 s))) of
        (Some days, Some sec) \<Rightarrow>
          if s ! 10 \<noteq> CHR ''T'' then None
          else let (nsec, zone) = parse_fraction (drop 19 s) in
            map_option (\<lambda>offset. days * (24 * hour) + (sec - offset) * second + nsec) (parse_zone zone)
      | _ \<Rightarrow> None)"

fun auditRFC3339Time :: "Detail option \<Rightarrow> time option" where
  "auditRFC3339Time (Some (DStr s)) =
     (case parseRFC3339 s of None \<Rightarrow> None | Some t \<Rightarrow> if t \<noteq> 0 then Some t else None)"
| "auditRFC3339Time (Some (DTime t)) = (if t \<noteq> 0 then Some t else None)"
| "auditRFC3339Time _ = None"

section \<open>Lemmas: the calendar\<close>

lemma days_before_civil:
  assumes "civil_year_day d = (y, yday)"
  shows "days_before_year y + yday = d"
proof -
  obtain a b c e where p: "civil_year_day d = (400 * a + 100 * b + 4 * c + e + 1, d - (146097 * a + 36524 * b + 1461 * c + 365 * e))"
    "0 \<le> b" "b \<le> 3" "0 \<le> c" "c \<le> 24" "0 \<le> e" "e \<le> 3" by (rule civil_year_day_parts)
  have y: "y - 1 = 400 * a + 100 * b + 4 * c + e" using assms p(1) by simp
  have "(y - 1) div 4 = 100 * a + 25 * b + c" "(y - 1) div 100 = 4 * a + b" "(y - 1) div 400 = a"
    using p(2-7) unfolding y by simp_all
  with assms p(1) y show ?thesis by (simp add: days_before_year_def)
qed

lemma yday_in_year:
  assumes "civil_year_day d = (y, yday)"
  shows "yday < sum_list (month_lengths (leap y))"
proof -
  define d1 where "d1 = d mod 146097"
  define b where "b = min 3 (d1 div 36524)"
  define d2 where "d2 = d1 - 36524 * b"
  define c where "c = d2 div 1461"
  define d3 where "d3 = d2 mod 1461"
  define e where "e = min 3 (d3 div 365)"
  have y: "y = 400 * (d div 146097) + (100 * b + 4 * c + e + 1)" and yd: "yday = d3 - 365 * e"
  proof -
    have "civil_year_day d = (400 * (d div 146097) + 100 * b + 4 * c + e + 1, d3 - 365 * e)"
      unfolding civil_year_day_def Let_def e_def d3_def c_def d2_def b_def d1_def by (rule refl)
    with assms show "y = 400 * (d div 146097) + (100 * b + 4 * c + e + 1)" "yday = d3 - 365 * e" by simp_all
  qed
  have d1: "0 \<le> d1" "d1 < 146097" by (simp_all add: d1_def)
  have b: "0 \<le> b" "b \<le> 3" "0 \<le> d2" "d2 \<le> 36524" "b < 3 \<longrightarrow> d2 < 36524" using d1 by (auto simp: b_def d2_def min_def)
  have c: "0 \<le> c" "c \<le> 24" "0 \<le> d3" "d3 < 1461" "d2 = 1461 * c + d3" using b by (auto simp: c_def d3_def)
  have e: "yday < 365 \<or> yday = 365 \<and> e = 3 \<and> d3 = 1460" using c by (auto simp: e_def yd min_def)
  show ?thesis
  proof (cases "yday < 365")
    case True
    then show ?thesis by (simp add: month_lengths_def)
  next
    case False
    with e c(5) b have last: "e = 3" "c < 24 \<or> c = 24 \<and> b = 3" "yday = 365" using c(2) by auto
    have "leap (100 * b + 4 * c + e + 1)"
    proof (cases "c < 24")
      case True
      have four: "(4 * (25 * b + c + 1)) mod 4 = 0" by simp
      have hundred: "(4 * c + 4 + b * 100) mod 100 = 4 * c + 4" using True c(1) by (simp add: mod_pos_pos_trivial)
      have "(100 * b + 4 * c + 4) mod 4 = 0" "(100 * b + 4 * c + 4) mod 100 = 4 * c + 4"
        using four hundred by (simp_all add: algebra_simps)
      with c(1) last(1) show ?thesis by (simp add: leap_def add.assoc)
    next
      case False
      with last show ?thesis by (simp add: leap_def)
    qed
    then show ?thesis using last(3) by (simp add: y leap_shift month_lengths_def)
  qed
qed

lemma split_month_days:
  assumes "split_month ls m d = (mo, day)" "0 \<le> d" "d < sum_list ls"
  shows "m \<le> mo \<and> nat (mo - m) < length ls \<and> 0 \<le> day \<and> day < ls ! nat (mo - m) \<and> d = sum_list (take (nat (mo - m)) ls) + day"
  using assms
proof (induction ls m d rule: split_month.induct)
  case (2 l ls m d)
  show ?case
  proof (cases "d < l")
    case False
    with 2 have ih: "m + 1 \<le> mo \<and> nat (mo - (m + 1)) < length ls \<and> 0 \<le> day \<and> day < ls ! nat (mo - (m + 1)) \<and>
        d - l = sum_list (take (nat (mo - (m + 1))) ls) + day" by simp
    then have "nat (mo - m) = Suc (nat (mo - (m + 1)))" by linarith
    with ih show ?thesis by simp
  qed (use 2 in auto)
qed simp

lemma date_days_civil:
  assumes "civil_year_day d = (y, yday)" "split_month (month_lengths (leap y)) 1 yday = (mo, day)"
  shows "date_days y mo (day + 1) = d" "1 \<le> mo" "mo \<le> 12" "0 \<le> day" "day < month_lengths (leap y) ! nat (mo - 1)"
proof -
  have m: "1 \<le> mo \<and> nat (mo - 1) < 12 \<and> 0 \<le> day \<and> day < month_lengths (leap y) ! nat (mo - 1) \<and>
      yday = sum_list (take (nat (mo - 1)) (month_lengths (leap y))) + day"
    using split_month_days [OF assms(2) yday_bounds(1) [OF assms(1)] yday_in_year [OF assms(1)]] by (simp add: month_lengths_def)
  then show "1 \<le> mo" "0 \<le> day" "day < month_lengths (leap y) ! nat (mo - 1)" by blast+
  from m show "mo \<le> 12" by linarith
  show "date_days y mo (day + 1) = d" using m days_before_civil [OF assms(1)] by (simp add: date_days_def)
qed
section \<open>Lemmas: reading a text back\<close>

lemma parse_uint_pad: "0 \<le> n \<Longrightarrow> lo \<le> n \<Longrightarrow> n \<le> hi \<Longrightarrow> parse_uint (pad k n) lo hi = Some n"
  by (simp add: parse_uint_def pad_digits dec_int_pad)

lemma month_length_le: "month_lengths l ! i \<le> 31" if "i < 12"
proof -
  have "list_all (\<lambda>x. x \<le> 31) (month_lengths l)" by (simp add: month_lengths_def)
  moreover have "i < length (month_lengths l)" using that by (simp add: month_lengths_def)
  ultimately show ?thesis by (simp add: list_all_length)
qed

lemma civil_year_range:
  assumes "civil_year_day d = (y, yday)" "0 \<le> d" "d < 3652059"
  shows "1 \<le> y" "y \<le> 9999"
proof -
  obtain a b c e where p: "civil_year_day d = (400 * a + 100 * b + 4 * c + e + 1, d - (146097 * a + 36524 * b + 1461 * c + 365 * e))"
    "0 \<le> b" "b \<le> 3" "0 \<le> c" "c \<le> 24" "0 \<le> e" "e \<le> 3" by (rule civil_year_day_parts)
  have y: "y = 400 * a + 100 * b + 4 * c + e + 1" and d: "d = 146097 * a + 36524 * b + 1461 * c + 365 * e + yday"
    and yd: "0 \<le> yday" "yday < 366"
    using assms(1) p(1) yday_bounds [OF assms(1)] by (simp_all add: month_lengths_def)
  have "0 \<le> a" using d yd p(2-7) assms(2) by linarith
  with y p show "1 \<le> y" by linarith
  show "y \<le> 9999"
  proof (cases "a \<le> 24")
    case True
    with y d yd p(2-7) assms(3) show ?thesis by linarith
  next
    case False
    with d yd p(2-7) assms(3) show ?thesis by linarith
  qed
qed

lemma parse_date_text:
  assumes "0 \<le> d" "d < 3652059"
  shows "length (date_text d) = 10" "parse_date (date_text d) = Some d"
proof -
  obtain y yday where c: "civil_year_day d = (y, yday)" by fastforce
  obtain mo day where m: "split_month (month_lengths (leap y)) 1 yday = (mo, day)" by fastforce
  note y = civil_year_range [OF c assms] and md = date_days_civil [OF c m]
  have len: "length (pad 4 y) = 4" "length (pad 2 mo) = 2" "length (pad 2 (day + 1)) = 2"
  proof -
    have "nat (mo - 1) < 12" using md(2,3) by linarith
    then have "day < 31" using month_length_le [of "nat (mo - 1)" "leap y"] md(5) by simp
    then show "length (pad 4 y) = 4" "length (pad 2 mo) = 2" "length (pad 2 (day + 1)) = 2"
      using y md(2-4) by (auto intro!: pad_length)
  qed
  have txt_eq: "date_text d = pad 4 y @ ''-'' @ pad 2 mo @ ''-'' @ pad 2 (day + 1)"
    using y by (simp add: date_text_def c m year_text_def)
  then show "length (date_text d) = 10" using len by simp
  have "take 4 (date_text d) = pad 4 y" "take 2 (drop 5 (date_text d)) = pad 2 mo" "take 2 (drop 8 (date_text d)) = pad 2 (day + 1)"
    "date_text d ! 4 = CHR ''-''" "date_text d ! 7 = CHR ''-''"
    using len by (simp_all add: txt_eq nth_append)
  moreover have "parse_uint (pad 4 y) 0 9999 = Some y" "parse_uint (pad 2 mo) 1 12 = Some mo"
    "parse_uint (pad 2 (day + 1)) 1 (month_lengths (leap y) ! nat (mo - 1)) = Some (day + 1)"
    using y md by (auto intro!: parse_uint_pad)
  ultimately show "parse_date (date_text d) = Some d" using md(1) by (simp add: parse_date_def)
qed

lemma parse_clock_groups:
  assumes "0 \<le> h" "h \<le> 23" "0 \<le> mi" "mi \<le> 59" "0 \<le> sec" "sec \<le> 59"
  shows "parse_clock (pad 2 h @ '':'' @ pad 2 mi @ '':'' @ pad 2 sec) = Some (h * 3600 + mi * 60 + sec)"
proof -
  have len: "length (pad 2 h) = 2" "length (pad 2 mi) = 2" "length (pad 2 sec) = 2" using assms by (auto intro!: pad_length)
  have "parse_uint (pad 2 h) 0 23 = Some h" "parse_uint (pad 2 mi) 0 59 = Some mi" "parse_uint (pad 2 sec) 0 59 = Some sec"
    using assms by (auto intro!: parse_uint_pad)
  then show ?thesis using len by (simp add: parse_clock_def nth_append)
qed

lemma parse_clock_text:
  assumes "0 \<le> r" "r < 24 * hour"
  shows "parse_clock (clock_text r) = Some (r div second)"
proof -
  define q where "q = r div second"
  have q: "0 \<le> q" "q < 86400" unfolding q_def using clock_range [OF assms] by simp_all
  have "q div 3600 \<le> 23" using q by linarith
  moreover have "q mod 3600 div 60 \<le> 59" using pos_mod_bound [of 3600 q] by linarith
  moreover have "q mod 60 \<le> 59" using pos_mod_bound [of 60 q] by linarith
  moreover note seconds_bounds(1,3,5) [OF q]
  ultimately have "parse_clock (clock_text r) = Some (q div 3600 * 3600 + q mod 3600 div 60 * 60 + q mod 60)"
    unfolding clock_text_def clock_seconds q_def [symmetric] by (intro parse_clock_groups)
  moreover have "q div 3600 * 3600 + q mod 3600 div 60 * 60 + q mod 60 = q"
  proof -
    have "q mod 3600 mod 60 = q mod 60" by (rule mod_mod_cancel) simp
    then have "q mod 3600 = q mod 3600 div 60 * 60 + q mod 60" using div_mult_mod_eq [of "q mod 3600" 60] by simp
    then show ?thesis using div_mult_mod_eq [of q 3600] by linarith
  qed
  ultimately show ?thesis by (simp only: q_def)
qed

lemma dec_int_shift: "dec_int (s @ replicate k (CHR ''0'')) = dec_int s * 10 ^ k"
proof (induction k)
  case (Suc k)
  have "dec_int (s @ replicate (Suc k) (CHR ''0'')) = dec_int (s @ replicate k (CHR ''0'')) * 10"
    by (simp add: dec_int_def replicate_append_same [symmetric] digit_val_def)
  with Suc show ?case by simp
qed simp

lemma parse_fraction_text:
  assumes "0 \<le> n" "n < second"
  shows "parse_fraction (fraction_text n @ ''Z'') = (n, ''Z'')"
proof (cases "n = 0")
  case True
  then show ?thesis by (simp add: fraction_text_def parse_fraction_def)
next
  case False
  define ds where "ds = rev (drop_zeros (rev (pad 9 n)))"
  have len: "length (pad 9 n) = 9" using pad_length [of n 9] assms by simp
  have "rev (pad 9 n) = replicate (length (rev (pad 9 n)) - length (drop_zeros (rev (pad 9 n)))) (CHR ''0'') @ drop_zeros (rev (pad 9 n))"
    by (rule drop_zeros_pad)
  from arg_cong [OF this, of rev] have whole: "pad 9 n = ds @ replicate (9 - length ds) (CHR ''0'')"
    by (simp add: ds_def len rev_replicate)
  have digits: "list_all is_digit ds" using pad_digits [OF assms(1), of 9] unfolding whole by simp
  have le: "length ds \<le> 9" using len whole by (metis le_add1 length_append)
  have ne: "ds \<noteq> []"
  proof
    assume "ds = []"
    then have "dec_int (pad 9 n) = dec_int (replicate 9 (CHR ''0'') @ [])" using whole by simp
    also have "\<dots> = 0" unfolding dec_int_zeros by (simp add: dec_int_def)
    finally show False using dec_int_pad [OF assms(1), of 9] False by simp
  qed
  have val_eq: "dec_int ds * 10 ^ (9 - length ds) = n"
    using dec_int_pad [OF assms(1), of 9] unfolding whole dec_int_shift .
  have run: "takeWhile is_digit (ds @ ''Z'') = ds" "dropWhile is_digit (ds @ ''Z'') = ''Z''"
    using digits by (simp_all add: takeWhile_append dropWhile_append list_all_iff is_digit_def)
  have "fraction_text n @ ''Z'' = CHR ''.'' # ds @ ''Z''" using False by (simp add: fraction_text_def ds_def)
  moreover have "is_digit ((ds @ ''Z'') ! 0)" using ne digits by (cases ds) auto
  ultimately show ?thesis using run val_eq le ne by (simp add: parse_fraction_def Let_def)
qed

text \<open>The texts the service writes are read back as the instant they were written for, up to the year 9999.\<close>

lemma parse_RFC3339Nano:
  assumes "0 \<le> t" "t < 3652059 * (24 * hour)"
  shows "parseRFC3339 (RFC3339Nano t) = Some t"
proof -
  define d r where "d = t div (24 * hour)" and "r = t mod (24 * hour)"
  have d: "0 \<le> d" "d < 3652059" unfolding d_def using assms by (simp_all add: pos_imp_zdiv_nonneg_iff)
  have r: "0 \<le> r" "r < 24 * hour" by (simp_all add: r_def)
  note date = parse_date_text [OF d] and clock = parse_clock_text [OF r] clock_text_length [OF r]
  let ?f = "fraction_text (r mod second) @ ''Z''"
  have frac: "parse_fraction ?f = (r mod second, ''Z'')" by (rule parse_fraction_text) simp_all
  have txt_eq: "RFC3339Nano t = date_text d @ CHR ''T'' # clock_text r @ ?f"
    by (simp add: RFC3339Nano_parts d_def r_def)
  have parts: "take 10 (RFC3339Nano t) = date_text d" "take 8 (drop 11 (RFC3339Nano t)) = clock_text r" "drop 19 (RFC3339Nano t) = ?f"
    "RFC3339Nano t ! 10 = CHR ''T''" "\<not> length (RFC3339Nano t) < 19"
    using date(1) clock(2) by (simp_all add: txt_eq nth_append)
  have "d * (24 * hour) + r div second * second + r mod second = t"
    using div_mult_mod_eq [of r second] div_mult_mod_eq [of t "24 * hour"] by (simp add: d_def r_def)
  then show ?thesis
    by (simp add: parseRFC3339_def parts date(2) clock(1) frac parse_zone_def)
qed

end
