(* ===== verification/Mesh_Revocation.thy ===== *)
theory Mesh_Revocation
  imports Mesh_Recovery Mesh_AuditDetails
begin

text \<open>
  The end of an identity: revocation of a node, its replacement by a fresh pending one, the receipt of a
  revocation and its replay, and the cancellation of a node that never enrolled
  (\<^verbatim>\<open>internal/control/service.go\<close>: \<^verbatim>\<open>revokeNode\<close>, \<^verbatim>\<open>replaceNode\<close>, \<^verbatim>\<open>revokeOrReplaceNode\<close>, \<^verbatim>\<open>appendRevocation\<close>;
  \<^verbatim>\<open>internal/control/node_revocation.go\<close>; \<^verbatim>\<open>internal/control/pending_cancellation.go\<close>).  Audit identifiers are the
  argument \<open>eids\<close>: 0 for the node's event, 1 for the replacement's, \<open>k + 2\<close> for the rollout event of the
  network at position \<open>k\<close>.
\<close>

section \<open>Requests and receipts\<close>

record RevokeNodeInput =
  rniExpectedConfigRevision :: int
  rniConfirmationName :: string
  rniRequestID :: string

record RevokedNodeReceipt =
  rcRequestID :: string
  rcNodeID :: string
  rcNetworkID :: string
  rcName :: string
  rcIP :: string
  rcRole :: string
  rcRevokedAt :: time
  rcWasEnrolled :: bool
  rcEnrollmentRecordsInvalidated :: int
  rcAgentRecoveryRecordsInvalidated :: int
  rcBlocklistEntriesAdded :: int
  rcRelayAssignmentRemoved :: bool
  rcFirewallCanaryRemoved :: bool
  rcFirewallRolloutAutoRolledBack :: bool
  rcCredentialsInvalidated :: bool
  rcRoutedSubnetReservationsReleased :: int
  rcConfigRevision :: int

record ReplacedNode =
  rnRevokedNodeID :: string
  rnNode :: Node
  rnEnrollmentToken :: string
  rnExpiresAt :: time
  rnConfigRevision :: int

definition validNodeRevocationRequestID :: "string \<Rightarrow> bool" where
  "validNodeRevocationRequestID v = (16 \<le> length v \<and> validPersistedID v)"

definition nodeRevocationAuditDetails :: "RevokedNodeReceipt \<Rightarrow> int \<Rightarrow> details" where
  "nodeRevocationAuditDetails r expectedRevision =
     Some [(''request_id'', DStr (rcRequestID r)), (''network_id'', DStr (rcNetworkID r)), (''name'', DStr (rcName r)),
           (''ip'', DStr (rcIP r)), (''role'', DStr (rcRole r)), (''revoked_at'', DStr (RFC3339Nano (rcRevokedAt r))),
           (''was_enrolled'', DBool (rcWasEnrolled r)), (''expected_config_revision'', DInt expectedRevision),
           (''config_revision'', DInt (rcConfigRevision r)),
           (''enrollment_records_invalidated'', DInt (rcEnrollmentRecordsInvalidated r)),
           (''agent_recovery_records_invalidated'', DInt (rcAgentRecoveryRecordsInvalidated r)),
           (''blocklist_entries_added'', DInt (rcBlocklistEntriesAdded r)),
           (''relay_assignment_removed'', DBool (rcRelayAssignmentRemoved r)),
           (''firewall_canary_removed'', DBool (rcFirewallCanaryRemoved r)),
           (''firewall_rollout_auto_rolled_back'', DBool (rcFirewallRolloutAutoRolledBack r)),
           (''credentials_invalidated'', DBool (rcCredentialsInvalidated r)),
           (''routed_subnet_reservations_released'', DInt (rcRoutedSubnetReservationsReleased r))]"

definition revocation_keys :: "string list" where
  "revocation_keys =
     [''request_id'', ''network_id'', ''name'', ''ip'', ''role'', ''revoked_at'', ''was_enrolled'', ''expected_config_revision'',
      ''config_revision'', ''enrollment_records_invalidated'', ''agent_recovery_records_invalidated'', ''blocklist_entries_added'',
      ''relay_assignment_removed'', ''firewall_canary_removed'', ''firewall_rollout_auto_rolled_back'', ''credentials_invalidated'',
      ''routed_subnet_reservations_released'']"

definition canonical_ipv4 :: "string \<Rightarrow> bool" where
  "canonical_ipv4 ip = (case ParseIP_To4 ip of None \<Rightarrow> False | Some b \<Rightarrow> IP_String b = ip)"

definition node_role :: "string \<Rightarrow> bool" where
  "node_role role = (role = ''member'' \<or> role = ''lighthouse'')"

definition revocation_fields_ok :: "RevokedNodeReceipt \<Rightarrow> int \<Rightarrow> bool" where
  "revocation_fields_ok r expectedRevision =
     (validNodeRevocationRequestID (rcRequestID r) \<and> validPersistedID (rcNetworkID r) \<and> namePattern (rcName r) \<and>
      canonical_ipv4 (rcIP r) \<and> node_role (rcRole r) \<and> 1 \<le> expectedRevision \<and>
      rcConfigRevision r = wrap64 (expectedRevision + 1) \<and> (rcWasEnrolled r \<longrightarrow> 1 \<le> rcBlocklistEntriesAdded r) \<and>
      (\<not> rcWasEnrolled r \<longrightarrow> rcBlocklistEntriesAdded r = 0) \<and>
      (rcFirewallRolloutAutoRolledBack r \<longrightarrow> rcFirewallCanaryRemoved r) \<and> rcCredentialsInvalidated r)"

definition parseNodeRevocationEvent :: "AuditEvent \<Rightarrow> (RevokedNodeReceipt \<times> int) result" where
  "parseNodeRevocationEvent event =
     (let s = (\<lambda>k. detail_string (detail event k)); b = (\<lambda>k. detail_bool (detail event k));
          n = (\<lambda>k. auditNonNegativeInteger (detail event k)) in
      guard_result (details_exact revocation_keys event) ErrInternal
     (guard_result (evResource event = ''node'' \<and> validPersistedID (evResourceID event)) ErrInternal
      (case (s ''request_id'', s ''network_id'', s ''name'', s ''ip'', s ''role'', auditRFC3339Time (detail event ''revoked_at'')) of
         (Some requestID, Some networkID, Some name, Some ip, Some role, Some revokedAt) \<Rightarrow>
           (case (b ''was_enrolled'', b ''relay_assignment_removed'', b ''firewall_canary_removed'',
                  b ''firewall_rollout_auto_rolled_back'', b ''credentials_invalidated'') of
              (Some wasEnrolled, Some relayRemoved, Some canaryRemoved, Some autoRolledBack, Some credentialsInvalidated) \<Rightarrow>
                (case (n ''expected_config_revision'', n ''config_revision'', n ''enrollment_records_invalidated'',
                       n ''agent_recovery_records_invalidated'', n ''blocklist_entries_added'', n ''routed_subnet_reservations_released'') of
                   (Some expectedRevision, Some configRevision, Some enrollments, Some recoveries, Some blocklist, Some routesReleased) \<Rightarrow>
                     (let receipt = \<lparr>rcRequestID = requestID, rcNodeID = evResourceID event, rcNetworkID = networkID, rcName = name,
                            rcIP = ip, rcRole = role, rcRevokedAt = revokedAt, rcWasEnrolled = wasEnrolled,
                            rcEnrollmentRecordsInvalidated = enrollments, rcAgentRecoveryRecordsInvalidated = recoveries,
                            rcBlocklistEntriesAdded = blocklist, rcRelayAssignmentRemoved = relayRemoved,
                            rcFirewallCanaryRemoved = canaryRemoved, rcFirewallRolloutAutoRolledBack = autoRolledBack,
                            rcCredentialsInvalidated = credentialsInvalidated,
                            rcRoutedSubnetReservationsReleased = routesReleased, rcConfigRevision = configRevision\<rparr>
                      in guard_result (revocation_fields_ok receipt expectedRevision \<and> evAt event = revokedAt) ErrInternal
                           (Inr (receipt, expectedRevision)))
                 | _ \<Rightarrow> Inl ErrInternal)
            | _ \<Rightarrow> Inl ErrInternal)
       | _ \<Rightarrow> Inl ErrInternal)))"

definition revocation_event :: "string \<Rightarrow> AuditEvent \<Rightarrow> bool" where
  "revocation_event requestID event =
     (evAction event = ''node.revocation_committed'' \<and> detail_string (detail event ''request_id'') = Some requestID)"

definition findNodeRevocationReplay :: "State \<Rightarrow> string \<Rightarrow> RevokeNodeInput \<Rightarrow> RevokedNodeReceipt option result" where
  "findNodeRevocationReplay state ident input =
     (case List.find (revocation_event (rniRequestID input)) (Audit state) of
        None \<Rightarrow> Inr None
      | Some event \<Rightarrow>
          bind_result (parseNodeRevocationEvent event) (\<lambda>(receipt, expectedRevision).
          guard_result (evResourceID event = ident \<and> rcName receipt = rniConfirmationName input \<and>
              expectedRevision = rniExpectedConfigRevision input) ErrConflict
            (Inr (Some receipt))))"

fun revocation_audits_ok :: "string list \<Rightarrow> AuditEvent list \<Rightarrow> unit result" where
  "revocation_audits_ok seen [] = Inr ()"
| "revocation_audits_ok seen (event # events) =
     (if evAction event \<noteq> ''node.revocation_committed'' then revocation_audits_ok seen events
      else bind_result (parseNodeRevocationEvent event) (\<lambda>(receipt, _).
        guard_result (rcRequestID receipt \<notin> set seen) ErrInternal (revocation_audits_ok (rcRequestID receipt # seen) events)))"

definition validateNodeRevocationAudits :: "State \<Rightarrow> unit result" where
  "validateNodeRevocationAudits state = revocation_audits_ok [] (Audit state)"

section \<open>Cutting a node off\<close>

definition appendRevocation :: "string \<Rightarrow> string \<Rightarrow> string \<Rightarrow> time \<Rightarrow> time option \<Rightarrow> State \<Rightarrow> State" where
  "appendRevocation ident fingerprint reason at expiresAt state =
     (if fingerprint = [] \<or> list_ex (\<lambda>r. rvFingerprint r = fingerprint) (Revocations state) then state
      else state\<lparr>Revocations := Revocations state @
        [\<lparr>rvFingerprint = fingerprint, rvNodeID = ident,
          rvNetworkID = (case findNode state ident of None \<Rightarrow> [] | Some node \<Rightarrow> nodeNetworkID node),
          rvReason = reason, rvAt = at, rvExpiresAt = expiresAt\<rparr>]\<rparr>)"

definition revoked_node :: "time \<Rightarrow> Node \<Rightarrow> Node" where
  "revoked_node now node =
     node\<lparr>nodeStatus := ''revoked'', nodeRevokedAt := Some now, nodeAgentTokenHash := [], nodePreviousAgentTokenHash := [],
          nodePreviousAgentTokenExpiresAt := None, nodeAgentCredentialExpiresAt := None, nodeRenewalClaimID := [],
          nodeRenewalClaimedAt := None, nodeAgentStatus := ''revoked''\<rparr>"

definition revoke_issuance :: "Node \<Rightarrow> time \<Rightarrow> CertificateIssuance \<Rightarrow> State \<Rightarrow> State" where
  "revoke_issuance node now i state =
     (if isNodeID i = nodeID node \<and> now < isExpiresAt i
      then appendRevocation (nodeID node) (isFingerprint i) ''node revoked'' now (Some (isExpiresAt i)) state else state)"

definition revoke_certificates :: "Node \<Rightarrow> time \<Rightarrow> State \<Rightarrow> State" where
  "revoke_certificates node now state =
     (let state1 = fold (revoke_issuance node now) (Issuances state) state
      in if nodeCertificateFingerprint node \<noteq> []
         then appendRevocation (nodeID node) (nodeCertificateFingerprint node) ''node revoked'' now (nodeCertificateExpiresAt node) state1
         else state1)"

definition uses_relay :: "string \<Rightarrow> Network \<Rightarrow> bool" where
  "uses_relay ident n = (ident \<in> set (elems (relayNodeIDs (netRelaySettings n))))"

definition drop_relay :: "string \<Rightarrow> Network \<Rightarrow> Network" where
  "drop_relay ident n =
     (if uses_relay ident n
      then let ids = filter (\<lambda>c. c \<noteq> ident) (elems (relayNodeIDs (netRelaySettings n)))
           in n\<lparr>netRelaySettings := \<lparr>relayEnabled = (ids \<noteq> [] \<and> relayEnabled (netRelaySettings n)), relayNodeIDs = Some ids\<rparr>\<rparr>
      else n)"

definition uses_canary :: "int \<Rightarrow> string \<Rightarrow> Network \<Rightarrow> bool" where
  "uses_canary version ident n =
     (let r = netFirewallRollout n in
      ControlStateVersionFirewallRollout \<le> version \<and> (roPhase r = ''canary'' \<or> roPhase r = ''paused'') \<and> ident \<in> set (elems (roCanaryNodeIDs r)))"

definition remaining_canaries :: "string \<Rightarrow> Network \<Rightarrow> string list" where
  "remaining_canaries ident n = filter (\<lambda>c. c \<noteq> ident) (elems (roCanaryNodeIDs (netFirewallRollout n)))"

definition drop_canary :: "int \<Rightarrow> string \<Rightarrow> Network \<Rightarrow> Network" where
  "drop_canary version ident n =
     (if uses_canary version ident n
      then n\<lparr>netFirewallRollout :=
             (if remaining_canaries ident n = [] then zero_rollout
              else (netFirewallRollout n)\<lparr>roCanaryNodeIDs := Some (remaining_canaries ident n)\<rparr>)\<rparr>
      else n)"
text \<open>What the loop over the networks noticed, from version 5 on.\<close>

record detached =
  dtRelay :: bool
  dtCanary :: bool
  dtRolledBack :: bool
  dtPreviousCanaries :: int
  dtDiscardedSHA256 :: string

definition detach_network :: "int \<Rightarrow> Node \<Rightarrow> Network \<Rightarrow> Network" where
  "detach_network version node n =
     (if ControlStateVersionNetworkRelays \<le> version \<and> netID n = nodeNetworkID node
      then drop_canary version (nodeID node) (drop_relay (nodeID node) n) else n)"

definition detachment :: "sha256 \<Rightarrow> int \<Rightarrow> Node \<Rightarrow> Network list \<Rightarrow> detached" where
  "detachment sha version node networks =
     (let own = filter (\<lambda>n. ControlStateVersionNetworkRelays \<le> version \<and> netID n = nodeNetworkID node) networks;
          trials = filter (uses_canary version (nodeID node)) own in
      \<lparr>dtRelay = list_ex (uses_relay (nodeID node)) own, dtCanary = (trials \<noteq> []),
       dtRolledBack = list_ex (\<lambda>n. remaining_canaries (nodeID node) n = []) trials,
       dtPreviousCanaries = (if trials = [] then 0 else int (length (elems (roCanaryNodeIDs (netFirewallRollout (last trials)))))),
       dtDiscardedSHA256 = (if trials = [] then [] else firewallPolicySHA256 sha (roTargetPolicy (netFirewallRollout (last trials))))\<rparr>)"

definition rollout_event ::
  "sha256 \<Rightarrow> string \<Rightarrow> time \<Rightarrow> Actor option \<Rightarrow> Node \<Rightarrow> detached \<Rightarrow> Network \<Rightarrow> AuditEvent list result" where
  "rollout_event sha eid now actor node d n =
     (if \<not> dtCanary d then Inr []
      else bind_result (newOptionalAttributedAudit eid now
          (if dtRolledBack d then ''network.firewall_rollout_auto_rolled_back'' else ''network.firewall_rollout_canary_removed'')
          ''network'' (netID n)
          (Some ([(''node_id'', DStr (nodeID node)), (''previous_canary_nodes'', DInt (dtPreviousCanaries d)),
                  (''remaining_canary_nodes'', DInt (dtPreviousCanaries d - 1)), (''config_revision'', DInt (netConfigRevision n))] @
                 (if dtRolledBack d
                  then [(''discarded_sha256'', DStr (dtDiscardedSHA256 d)),
                        (''retained_sha256'', DStr (firewallPolicySHA256 sha (netFirewallPolicy n))),
                        (''reason_code'', DStr ''last_canary_revoked'')] else []))) actor) (\<lambda>event. Inr [event]))"

text \<open>The second loop: the next revision of every network with the node's network ID, and its last value.\<close>

fun advance_networks ::
  "sha256 \<Rightarrow> (nat \<Rightarrow> string) \<Rightarrow> time \<Rightarrow> Actor option \<Rightarrow> State \<Rightarrow> Node \<Rightarrow> detached \<Rightarrow> nat \<Rightarrow> int \<Rightarrow> Network list \<Rightarrow>
    (Network list \<times> AuditEvent list \<times> int) result" where
  "advance_networks sha eids now actor state node d k revision [] = Inr ([], [], revision)"
| "advance_networks sha eids now actor state node d k revision (n # ns) =
     (if netID n \<noteq> nodeNetworkID node
      then bind_result (advance_networks sha eids now actor state node d (Suc k) revision ns) (\<lambda>(ns', evs, r). Inr (n # ns', evs, r))
      else bind_result (nextConfigRevision (netConfigRevision n) True) (\<lambda>nextRevision.
        let n' = reconcileNetworkRoutePolicies state (n\<lparr>netConfigRevision := nextRevision, netConfigUpdatedAt := now\<rparr>) in
        bind_result (rollout_event sha (eids (k + 2)) now actor node d n') (\<lambda>ev.
        bind_result (advance_networks sha eids now actor state node d (Suc k) nextRevision ns) (\<lambda>(ns', evs, r).
        Inr (n' # ns', ev @ evs, r)))))"

section \<open>Revocation\<close>

definition revocation_checks :: "string \<Rightarrow> RevokeNodeInput \<Rightarrow> Node \<Rightarrow> State \<Rightarrow> unit result" where
  "revocation_checks ident input source state =
     guard_result (\<not> (nodeStatus source = ''revoked'' \<or> nodeRevokedAt source \<noteq> None)) ErrConflict
    (guard_result (nodeName source = rniConfirmationName input) ErrConflict
    (guard_result (case findNetwork state (nodeNetworkID source) of None \<Rightarrow> False
        | Some network \<Rightarrow> netConfigRevision network = rniExpectedConfigRevision input) ErrConflict (Inr ())))"

definition replacement_checks :: "int \<Rightarrow> Node \<Rightarrow> State \<Rightarrow> unit result" where
  "replacement_checks expectedConfigRevision source state =
     guard_result (live_enrolled source) ErrConflict
    (guard_result (case findNetwork state (nodeNetworkID source) of None \<Rightarrow> False
        | Some network \<Rightarrow> netConfigRevision network = expectedConfigRevision \<and> roPhase (netFirewallRollout network) = []) ErrConflict (Inr ()))"

definition in_transition :: "State \<Rightarrow> Node \<Rightarrow> string \<Rightarrow> bool" where
  "in_transition state source ident =
     (case findNetwork state (nodeNetworkID source) of
        None \<Rightarrow> False
      | Some network \<Rightarrow> routeTransferIncludesNode (netRouteTransfer network) ident \<or>
          routeProfileEditIncludesNode (netRouteProfileEdit network) ident)"

text \<open>
  The part every variant shares: the node loses its credentials, its recoveries, its roles and, on the
  receipted path, its enrollments; its live certificates enter the blocklist; its network advances.
  The result is the revoked node, the receipt and the state before the node's own event.
\<close>

definition cut_off ::
  "sha256 \<Rightarrow> (nat \<Rightarrow> string) \<Rightarrow> time \<Rightarrow> Actor option \<Rightarrow> string \<Rightarrow> RevokeNodeInput option \<Rightarrow> State \<Rightarrow>
    (Node \<times> detached \<times> RevokedNodeReceipt \<times> State) result" where
  "cut_off sha eids now actor ident input state =
     guard_result (\<not> list_ex (\<lambda>n. nodeID n = ident \<and> nodeStatus n = ''revoked'') (Nodes state)) ErrConflict
     (let nodes = map (\<lambda>n. if nodeID n = ident then revoked_node now n else n) (Nodes state);
          node = last (filter (\<lambda>n. nodeID n = ident) nodes);
          recoveries = filter (\<lambda>r. recNodeID r \<noteq> nodeID node) (AgentRecoveries state);
          enrollments = (if input = None then Enrollments state else filter (\<lambda>e. enrNodeID e \<noteq> nodeID node) (Enrollments state));
          state1 = revoke_certificates node now (state\<lparr>Nodes := nodes, AgentRecoveries := recoveries, Enrollments := enrollments\<rparr>);
          d = detachment sha (Version state) node (Networks state) in
      bind_result (advance_networks sha eids now actor state1 node d 0 0
          (map (detach_network (Version state) node) (Networks state))) (\<lambda>(networks, events, configRevision).
      guard_result (1 \<le> configRevision) ErrInternal
      (Inr (node, d,
        \<lparr>rcRequestID = (case input of None \<Rightarrow> [] | Some i \<Rightarrow> rniRequestID i), rcNodeID = nodeID node, rcNetworkID = nodeNetworkID node,
         rcName = nodeName node, rcIP = nodeIP node, rcRole = nodeRole node, rcRevokedAt = now, rcWasEnrolled = (nodeEnrolledAt node \<noteq> None),
         rcEnrollmentRecordsInvalidated = int (length (Enrollments state) - length enrollments),
         rcAgentRecoveryRecordsInvalidated = int (length (AgentRecoveries state) - length recoveries),
         rcBlocklistEntriesAdded = int (length (Revocations state1)) - int (length (Revocations state)),
         rcRelayAssignmentRemoved = dtRelay d, rcFirewallCanaryRemoved = dtCanary d, rcFirewallRolloutAutoRolledBack = dtRolledBack d,
         rcCredentialsInvalidated = True, rcRoutedSubnetReservationsReleased = int (length (nodeRoutedSubnets node)),
         rcConfigRevision = configRevision\<rparr>,
        state1\<lparr>Networks := networks, Audit := Audit state @ events\<rparr>))))"

definition revocation_audit ::
  "(nat \<Rightarrow> string) \<Rightarrow> time \<Rightarrow> Actor option \<Rightarrow> string \<Rightarrow> RevokeNodeInput option \<Rightarrow> Node \<times> detached \<times> RevokedNodeReceipt \<times> State \<Rightarrow>
    State result" where
  "revocation_audit eids now actor ident input = (\<lambda>(node, d, receipt, state).
     bind_result (case input of
         None \<Rightarrow> newOptionalAttributedAudit (eids 0) now ''node.revoked'' ''node'' ident
           (Some [(''fingerprint'', DStr (nodeCertificateFingerprint node)), (''relay_assignment_removed'', DBool (dtRelay d)),
                  (''firewall_canary_removed'', DBool (dtCanary d)), (''firewall_rollout_auto_rolled_back'', DBool (dtRolledBack d))]) actor
       | Some i \<Rightarrow> newOptionalAttributedAudit (eids 0) now ''node.revocation_committed'' ''node'' ident
           (nodeRevocationAuditDetails receipt (rniExpectedConfigRevision i)) actor) (\<lambda>event.
     Inr (add_audit state event)))"

section \<open>Replacement\<close>

definition replacement_node :: "string \<Rightarrow> string \<Rightarrow> time \<Rightarrow> Node \<Rightarrow> Node" where
  "replacement_node ident address now source =
     zero_node\<lparr>nodeID := ident, nodeNetworkID := nodeNetworkID source, nodeName := nodeName source, nodeIP := address,
       nodeRoutedSubnets := nodeRoutedSubnets source, nodeSite := nodeSite source, nodeFailureDomain := nodeFailureDomain source,
       nodeGroups := nodeGroups source, nodeRole := nodeRole source, nodePublicEndpoint := nodePublicEndpoint source,
       nodeStatus := ''pending'', nodeCreatedAt := now\<rparr>"

text \<open>\<^verbatim>\<open>findNetwork\<close> copies the network but not the arrays behind its rules: the references are replaced in
  the state as well.\<close>

definition create_replacement ::
  "sha256 \<Rightarrow> string result \<Rightarrow> string result list \<Rightarrow> string result list \<Rightarrow> (nat \<Rightarrow> string) \<Rightarrow> time \<Rightarrow> Actor option \<Rightarrow> Node \<Rightarrow> State \<Rightarrow>
    (ReplacedNode \<times> State) result" where
  "create_replacement sha fresh idents bearers eids now actor source state =
     (case find_network_idx state (nodeNetworkID source) of
        None \<Rightarrow> Inl ErrInternal
      | Some i \<Rightarrow>
          (let network = Networks state ! i; expiresAt = now + 30 * minute in
           bind_result (validateRoutedSubnetsForNode state (nodeID source) (nodeRoutedSubnets source)) (\<lambda>_.
           bind_result (nextAddress network (Nodes state)) (\<lambda>address.
           bind_result fresh (\<lambda>replacementID.
           bind_result (uniqueEnrollmentID state idents) (\<lambda>enrollmentID.
           bind_result (uniqueUnseenEnrollmentBearer sha state bearers) (\<lambda>token.
           let created = replacement_node replacementID address now source;
               (policy, transferred) = replaceFirewallPolicyNodeReferences (netFirewallPolicy network) (nodeID source) replacementID in
           bind_result (newOptionalAttributedAudit (eids 1) now ''node.identity_replacement_created'' ''node'' replacementID
               (Some [(''revoked_node_id'', DStr (nodeID source)), (''name'', DStr (nodeName created)), (''ip'', DStr (nodeIP created)),
                      (''role'', DStr (nodeRole created)), (''config_revision'', DInt (netConfigRevision network)),
                      (''expires_at'', DTime expiresAt), (''firewall_references_transferred'', DInt (int transferred))]) actor) (\<lambda>event.
           Inr (\<lparr>rnRevokedNodeID = nodeID source, rnNode = created, rnEnrollmentToken = token, rnExpiresAt = expiresAt,
                 rnConfigRevision = netConfigRevision network\<rparr>,
             add_audit ((set_network state i (network\<lparr>netFirewallPolicy := policy\<rparr>))\<lparr>Nodes := Nodes state @ [created],
               Enrollments := Enrollments state @ [new_enrollment enrollmentID replacementID (HashToken sha token) now expiresAt]\<rparr>) event)))))))))"

definition revokeOrReplaceNode ::
  "sha256 \<Rightarrow> string result \<Rightarrow> string result list \<Rightarrow> string result list \<Rightarrow> (nat \<Rightarrow> string) \<Rightarrow> time \<Rightarrow> Actor option \<Rightarrow> string \<Rightarrow>
    bool \<Rightarrow> int \<Rightarrow> RevokeNodeInput option \<Rightarrow> State \<Rightarrow>
    (Node option \<times> ReplacedNode option \<times> RevokedNodeReceipt option \<times> State) result" where
  "revokeOrReplaceNode sha fresh idents bearers eids now actor ident replace expectedConfigRevision input state =
     (case findNode state ident of
        None \<Rightarrow> Inl ErrNotFound
      | Some source \<Rightarrow>
          guard_result (\<not> in_transition state source ident) ErrConflict
         (bind_result (case input of None \<Rightarrow> Inr None | Some i \<Rightarrow> findNodeRevocationReplay state ident i) (\<lambda>replayed.
          if replayed \<noteq> None then Inr (None, None, replayed, state)
          else
          bind_result (case input of None \<Rightarrow> Inr () | Some i \<Rightarrow> revocation_checks ident i source state) (\<lambda>_.
          bind_result (if replace then replacement_checks expectedConfigRevision source state else Inr ()) (\<lambda>_.
          bind_result (cut_off sha eids now actor ident input state) (\<lambda>(node, d, receipt, state1).
          bind_result (revocation_audit eids now actor ident input (node, d, receipt, state1)) (\<lambda>state2.
          if replace
          then bind_result (create_replacement sha fresh idents bearers eids now actor source state2) (\<lambda>(replacement, state3).
            Inr (Some node, Some replacement, map_option (\<lambda>_. receipt) input, state3))
          else Inr (Some node, None, map_option (\<lambda>_. receipt) input, state2))))))))"

definition revokeNode :: "sha256 \<Rightarrow> (nat \<Rightarrow> string) \<Rightarrow> time \<Rightarrow> Actor option \<Rightarrow> string \<Rightarrow> State \<Rightarrow> (Node \<times> State) result" where
  "revokeNode sha eids now actor ident state =
     bind_result (revokeOrReplaceNode sha (Inl ErrInternal) [] [] eids now actor ident False 0 None state) (\<lambda>(node, _, _, state').
     Inr (case node of None \<Rightarrow> zero_node | Some n \<Rightarrow> n, state'))"

definition RevokeNodeAs :: "sha256 \<Rightarrow> (nat \<Rightarrow> string) \<Rightarrow> time \<Rightarrow> Actor \<Rightarrow> string \<Rightarrow> State \<Rightarrow> (Node \<times> State) result" where
  "RevokeNodeAs sha eids now actor ident state =
     bind_result (validateActor actor) (\<lambda>_. revokeNode sha eids now (Some actor) ident state)"

definition replaceNode ::
  "sha256 \<Rightarrow> string result \<Rightarrow> string result list \<Rightarrow> string result list \<Rightarrow> (nat \<Rightarrow> string) \<Rightarrow> time \<Rightarrow> Actor option \<Rightarrow> string \<Rightarrow>
    int \<Rightarrow> State \<Rightarrow> (ReplacedNode \<times> State) result" where
  "replaceNode sha fresh idents bearers eids now actor ident expectedConfigRevision state =
     guard_result (validPersistedID ident \<and> 1 \<le> expectedConfigRevision) ErrInvalid
    (bind_result (revokeOrReplaceNode sha fresh idents bearers eids now actor ident True expectedConfigRevision None state)
      (\<lambda>(_, replacement, _, state'). case replacement of None \<Rightarrow> Inl ErrInternal | Some r \<Rightarrow> Inr (r, state')))"

definition ReplaceNodeAs ::
  "sha256 \<Rightarrow> string result \<Rightarrow> string result list \<Rightarrow> string result list \<Rightarrow> (nat \<Rightarrow> string) \<Rightarrow> time \<Rightarrow> Actor \<Rightarrow> string \<Rightarrow>
    int \<Rightarrow> State \<Rightarrow> (ReplacedNode \<times> State) result" where
  "ReplaceNodeAs sha fresh idents bearers eids now actor ident expectedConfigRevision state =
     bind_result (validateActor actor) (\<lambda>_.
     replaceNode sha fresh idents bearers eids now (Some actor) ident expectedConfigRevision state)"

definition revokeNodeWithReceipt ::
  "sha256 \<Rightarrow> (nat \<Rightarrow> string) \<Rightarrow> time \<Rightarrow> Actor option \<Rightarrow> string \<Rightarrow> RevokeNodeInput \<Rightarrow> State \<Rightarrow> (RevokedNodeReceipt \<times> State) result" where
  "revokeNodeWithReceipt sha eids now actor ident input state =
     (let ident = TrimSpace ident in
      guard_result (validPersistedID ident \<and> 1 \<le> rniExpectedConfigRevision input \<and> namePattern (rniConfirmationName input) \<and>
          validNodeRevocationRequestID (rniRequestID input)) ErrInvalid
     (bind_result (revokeOrReplaceNode sha (Inl ErrInternal) [] [] eids now actor ident False (rniExpectedConfigRevision input) (Some input) state)
      (\<lambda>(_, _, receipt, state'). case receipt of None \<Rightarrow> Inl ErrInternal | Some r \<Rightarrow> Inr (r, state'))))"

definition RevokeNodeWithReceiptAs ::
  "sha256 \<Rightarrow> (nat \<Rightarrow> string) \<Rightarrow> time \<Rightarrow> Actor \<Rightarrow> string \<Rightarrow> RevokeNodeInput \<Rightarrow> State \<Rightarrow> (RevokedNodeReceipt \<times> State) result" where
  "RevokeNodeWithReceiptAs sha eids now actor ident input state =
     bind_result (validateActor actor) (\<lambda>_. revokeNodeWithReceipt sha eids now (Some actor) ident input state)"

section \<open>Cancellation of a pending node\<close>

record CancelledPendingNode =
  cpNodeID :: string
  cpNetworkID :: string
  cpName :: string
  cpIP :: string
  cpRole :: string
  cpCancelledAt :: time
  cpEnrollmentRecordsInvalidated :: int
  cpRelayAssignmentRemoved :: bool
  cpRoutedSubnetReservationsReleased :: int
  cpConfigRevision :: int

definition remove_nth :: "nat \<Rightarrow> 'a list \<Rightarrow> 'a list" where
  "remove_nth k xs = take k xs @ drop (Suc k) xs"

definition cancelled_network :: "int \<Rightarrow> string \<Rightarrow> time \<Rightarrow> Network \<Rightarrow> Network result" where
  "cancelled_network version ident now n =
     (if ControlStateVersionNetworkRelays \<le> version \<and> uses_relay ident n
      then bind_result (nextConfigRevision (netConfigRevision n) True) (\<lambda>nextRevision.
        Inr ((drop_relay ident n)\<lparr>netConfigRevision := nextRevision, netConfigUpdatedAt := now\<rparr>))
      else Inr n)"

definition cancelPendingNode ::
  "string \<Rightarrow> time \<Rightarrow> Actor option \<Rightarrow> string \<Rightarrow> string \<Rightarrow> State \<Rightarrow> (CancelledPendingNode \<times> State) result" where
  "cancelPendingNode eid now actor ident confirmationName state =
     (let ident = TrimSpace ident in
      guard_result (validPersistedID ident \<and> namePattern confirmationName) ErrInvalid
     (guard_result (now \<noteq> 0) ErrInvalid
      (case find_node_idx state ident of
         None \<Rightarrow> Inl ErrNotFound
       | Some k \<Rightarrow>
           (let node = Nodes state ! k in
            guard_result (nodeStatus node = ''pending'' \<and> nodeEnrolledAt node = None \<and> nodeCertificate node = [] \<and>
                nodeCertificateFingerprint node = []) ErrConflict
           (guard_result (nodeName node = confirmationName) ErrConflict
            (case find_network_idx state (nodeNetworkID node) of
               None \<Rightarrow> Inl ErrNotFound
             | Some i \<Rightarrow>
                 (let old = Networks state ! i; kept = filter (\<lambda>e. enrNodeID e \<noteq> nodeID node) (Enrollments state);
                      invalidated = int (length (Enrollments state) - length kept);
                      relayRemoved = (ControlStateVersionNetworkRelays \<le> Version state \<and> uses_relay (nodeID node) old) in
                  bind_result (cancelled_network (Version state) (nodeID node) now old) (\<lambda>network.
                  bind_result (newOptionalAttributedAudit eid now ''node.pending_cancelled'' ''node'' (nodeID node)
                      (Some [(''network_id'', DStr (nodeNetworkID node)), (''name'', DStr (nodeName node)), (''ip'', DStr (nodeIP node)),
                             (''role'', DStr (nodeRole node)), (''enrollment_records_invalidated'', DInt invalidated),
                             (''relay_assignment_removed'', DBool relayRemoved),
                             (''routed_subnet_reservations_released'', DInt (int (length (nodeRoutedSubnets node)))),
                             (''config_revision'', DInt (netConfigRevision network))]) actor) (\<lambda>event.
                  Inr (\<lparr>cpNodeID = nodeID node, cpNetworkID = nodeNetworkID node, cpName = nodeName node, cpIP = nodeIP node,
                        cpRole = nodeRole node, cpCancelledAt = now, cpEnrollmentRecordsInvalidated = invalidated,
                        cpRelayAssignmentRemoved = relayRemoved,
                        cpRoutedSubnetReservationsReleased = int (length (nodeRoutedSubnets node)), cpConfigRevision = netConfigRevision network\<rparr>,
                    add_audit ((set_network state i network)\<lparr>Enrollments := kept, Nodes := remove_nth k (Nodes state)\<rparr>) event))))))))))"

definition CancelPendingNodeAs ::
  "string \<Rightarrow> time \<Rightarrow> Actor \<Rightarrow> string \<Rightarrow> string \<Rightarrow> State \<Rightarrow> (CancelledPendingNode \<times> State) result" where
  "CancelPendingNodeAs eid now actor ident confirmationName state =
     bind_result (validateActor actor) (\<lambda>_. cancelPendingNode eid now (Some actor) ident confirmationName state)"
section \<open>What a committed call did\<close>

lemma map_update_unique:
  assumes "distinct (map f xs)" "k < length xs" "f (xs ! k) = a"
  shows "map (\<lambda>x. if f x = a then g x else x) xs = xs[k := g (xs ! k)]"
  using assms by (intro nth_equalityI) (auto simp: nth_list_update nth_eq_iff_index_eq [of "map f xs", simplified] distinct_conv_nth)

lemma filter_unique:
  assumes "distinct (map f xs)" "k < length xs" "f (xs ! k) = a"
  shows "filter (\<lambda>x. f x = a) xs = [xs ! k]"
proof (rule filter_unique_idx)
  show "j = k" if "j < length xs" "f (xs ! j) = a" for j
    using that assms nth_eq_iff_index_eq [of "map f xs" j k] by simp
qed (use assms in simp_all)

lemma revokeOrReplaceNode_ok:
  assumes "revokeOrReplaceNode sha fresh idents bearers eids now actor ident replace expected input s = Inr (n, repl, rc, s')"
  obtains (replay) i where "input = Some i" "findNodeRevocationReplay s ident i = Inr rc" "rc \<noteq> None" "n = None" "repl = None" "s' = s"
  | (revoked) source node d receipt s1 where "findNode s ident = Some source" "\<not> in_transition s source ident"
    "cut_off sha eids now actor ident input s = Inr (node, d, receipt, s1)"
    "revocation_audit eids now actor ident input (node, d, receipt, s1) = Inr s'" "\<not> replace" "n = Some node" "repl = None"
    "rc = map_option (\<lambda>_. receipt) input" "\<forall>i. input = Some i \<longrightarrow> findNodeRevocationReplay s ident i = Inr None \<and> revocation_checks ident i source s = Inr ()"
  | (replaced) source node d receipt s1 s2 r where "findNode s ident = Some source" "\<not> in_transition s source ident"
    "cut_off sha eids now actor ident input s = Inr (node, d, receipt, s1)"
    "revocation_audit eids now actor ident input (node, d, receipt, s1) = Inr s2" "replace" "n = Some node" "repl = Some r"
    "replacement_checks expected source s = Inr ()" "create_replacement sha fresh idents bearers eids now actor source s2 = Inr (r, s')"
    "rc = map_option (\<lambda>_. receipt) input" "\<forall>i. input = Some i \<longrightarrow> findNodeRevocationReplay s ident i = Inr None \<and> revocation_checks ident i source s = Inr ()"
proof -
  from assms obtain source replayed where src: "findNode s ident = Some source" "\<not> in_transition s source ident"
    and rep: "(case input of None \<Rightarrow> Inr None | Some i \<Rightarrow> findNodeRevocationReplay s ident i) = Inr replayed"
    by (auto simp: revokeOrReplaceNode_def split: option.splits)
  show thesis
  proof (cases replayed)
    case (Some r)
    with rep obtain i where "input = Some i" "findNodeRevocationReplay s ident i = Inr (Some r)" by (auto split: option.splits)
    moreover have "n = None \<and> repl = None \<and> rc = Some r \<and> s' = s"
      using assms src rep Some by (simp add: revokeOrReplaceNode_def guard_result_def)
    ultimately show thesis by (intro replay [of i]) simp_all
  next
    case None
    from assms src rep None obtain node d receipt s1 s2 where
        chk: "(case input of None \<Rightarrow> Inr () | Some i \<Rightarrow> revocation_checks ident i source s) = Inr ()"
        and chk2: "(if replace then replacement_checks expected source s else Inr ()) = Inr ()"
        and cut: "cut_off sha eids now actor ident input s = Inr (node, d, receipt, s1)"
          "revocation_audit eids now actor ident input (node, d, receipt, s1) = Inr s2"
        and rest: "(if replace then bind_result (create_replacement sha fresh idents bearers eids now actor source s2)
            (\<lambda>(replacement, state3). Inr (Some node, Some replacement, map_option (\<lambda>_. receipt) input, state3))
          else Inr (Some node, None, map_option (\<lambda>_. receipt) input, s2)) = Inr (n, repl, rc, s')"
      by (auto simp: revokeOrReplaceNode_def split: prod.splits)
    have "\<forall>i. input = Some i \<longrightarrow> findNodeRevocationReplay s ident i = Inr None \<and> revocation_checks ident i source s = Inr ()"
      using chk rep None by auto
    with rest chk2 cut src show thesis
      by (cases replace) (auto intro: revoked replaced split: prod.splits)
  qed
qed

section \<open>The blocklist\<close>

lemma appendRevocation_same [simp]:
  "Nodes (appendRevocation ident fp reason at ex s) = Nodes s" "Networks (appendRevocation ident fp reason at ex s) = Networks s"
  "Enrollments (appendRevocation ident fp reason at ex s) = Enrollments s" "Version (appendRevocation ident fp reason at ex s) = Version s"
  "AgentRecoveries (appendRevocation ident fp reason at ex s) = AgentRecoveries s" "Audit (appendRevocation ident fp reason at ex s) = Audit s"
  "Issuances (appendRevocation ident fp reason at ex s) = Issuances s"
  by (simp_all add: appendRevocation_def)

definition grown_blocklist :: "Node \<Rightarrow> State \<Rightarrow> State \<Rightarrow> bool" where
  "grown_blocklist node s s' \<longleftrightarrow>
     (\<exists>xs. s' = s\<lparr>Revocations := Revocations s @ xs\<rparr> \<and> (\<forall>r \<in> set xs. rvNodeID r = nodeID node \<and> rvNetworkID r = nodeNetworkID node))"

lemma grown_refl: "grown_blocklist node s s"
  unfolding grown_blocklist_def by (intro exI [of _ "[]"]) simp

lemma grown_trans:
  assumes "grown_blocklist node a b" "grown_blocklist node b c"
  shows "grown_blocklist node a c"
proof -
  from assms obtain xs ys where "b = a\<lparr>Revocations := Revocations a @ xs\<rparr>" "c = b\<lparr>Revocations := Revocations b @ ys\<rparr>"
    "\<forall>r \<in> set xs. rvNodeID r = nodeID node \<and> rvNetworkID r = nodeNetworkID node"
    "\<forall>r \<in> set ys. rvNodeID r = nodeID node \<and> rvNetworkID r = nodeNetworkID node"
    unfolding grown_blocklist_def by blast
  then show ?thesis unfolding grown_blocklist_def by (intro exI [of _ "xs @ ys"]) auto
qed

lemma grown_findNode: "grown_blocklist node s s' \<Longrightarrow> findNode s' = findNode s"
  by (auto simp: grown_blocklist_def findNode_def)

lemma append_grows:
  assumes "findNode s (nodeID node) = Some node"
  shows "grown_blocklist node s (appendRevocation (nodeID node) fp reason at ex s)"
proof (cases "fp = [] \<or> list_ex (\<lambda>r. rvFingerprint r = fp) (Revocations s)")
  case True
  then show ?thesis by (simp add: appendRevocation_def grown_refl)
next
  case False
  with assms show ?thesis
    unfolding grown_blocklist_def appendRevocation_def
    by (intro exI [of _ "[\<lparr>rvFingerprint = fp, rvNodeID = nodeID node, rvNetworkID = nodeNetworkID node, rvReason = reason,
      rvAt = at, rvExpiresAt = ex\<rparr>]"]) simp
qed

lemma append_blocks: "fp \<noteq> [] \<Longrightarrow> fp \<in> rvFingerprint ` set (Revocations (appendRevocation ident fp reason at ex s))"
  by (auto simp: appendRevocation_def list_ex_iff)

definition to_block :: "Node \<Rightarrow> time \<Rightarrow> CertificateIssuance \<Rightarrow> bool" where
  "to_block node now i \<longleftrightarrow> isNodeID i = nodeID node \<and> now < isExpiresAt i \<and> isFingerprint i \<noteq> []"

lemma issuance_grows:
  assumes "findNode s (nodeID node) = Some node"
  shows "grown_blocklist node s (revoke_issuance node now i s)"
  using append_grows [OF assms] by (simp add: grown_refl revoke_issuance_def)

lemma grown_keeps: "grown_blocklist node s s' \<Longrightarrow> fp \<in> rvFingerprint ` set (Revocations s) \<Longrightarrow> fp \<in> rvFingerprint ` set (Revocations s')"
  by (auto simp: grown_blocklist_def)

lemma issuances_grow:
  assumes "findNode s (nodeID node) = Some node"
  shows "grown_blocklist node s (fold (revoke_issuance node now) js s) \<and>
    (\<forall>i \<in> set js. to_block node now i \<longrightarrow> isFingerprint i \<in> rvFingerprint ` set (Revocations (fold (revoke_issuance node now) js s)))"
  using assms
proof (induction js arbitrary: s)
  case Nil
  then show ?case by (simp add: grown_refl)
next
  case (Cons i js)
  let ?s = "revoke_issuance node now i s"
  have g: "grown_blocklist node s ?s" using Cons.prems by (rule issuance_grows)
  then have "findNode ?s (nodeID node) = Some node" using Cons.prems by (simp add: grown_findNode)
  note rest = Cons.IH [OF this]
  have "isFingerprint i \<in> rvFingerprint ` set (Revocations (fold (revoke_issuance node now) js ?s))" if "to_block node now i"
  proof (rule grown_keeps [OF conjunct1 [OF rest]])
    show "isFingerprint i \<in> rvFingerprint ` set (Revocations ?s)"
      unfolding revoke_issuance_def using that append_blocks unfolding to_block_def by presburger
  qed
  with rest grown_trans [OF g] show ?case by (simp only: fold_simps list.set ball_simps) blast
qed

lemma revoke_certificates_grows:
  assumes "findNode s (nodeID node) = Some node"
  shows "grown_blocklist node s (revoke_certificates node now s)"
    and "\<forall>i \<in> set (Issuances s). to_block node now i \<longrightarrow>
      isFingerprint i \<in> rvFingerprint ` set (Revocations (revoke_certificates node now s))"
proof -
  let ?t = "fold (revoke_issuance node now) (Issuances s) s"
  note f = issuances_grow [OF assms, of now "Issuances s"]
  then have "findNode ?t (nodeID node) = Some node" using assms grown_findNode by metis
  then have add: "grown_blocklist node ?t (revoke_certificates node now s)"
    by (simp add: revoke_certificates_def grown_refl append_grows Let_def)
  with f show "grown_blocklist node s (revoke_certificates node now s)"
    "\<forall>i \<in> set (Issuances s). to_block node now i \<longrightarrow>
      isFingerprint i \<in> rvFingerprint ` set (Revocations (revoke_certificates node now s))"
    using grown_trans grown_keeps [OF add] by blast+
qed
section \<open>The networks\<close>

definition advanced :: "State \<Rightarrow> time \<Rightarrow> string \<Rightarrow> Network \<Rightarrow> Network \<Rightarrow> bool" where
  "advanced s now ident n n' \<longleftrightarrow>
     (if netID n = ident
      then netConfigRevision n \<noteq> MaxInt64 \<and>
        n' = reconcileNetworkRoutePolicies s (n\<lparr>netConfigRevision := netConfigRevision n + 1, netConfigUpdatedAt := now\<rparr>)
      else n' = n)"

lemma advance_networks_ok:
  "advance_networks sha eids now actor s node d k revision ns = Inr (ns', evs, r) \<Longrightarrow>
    list_all2 (advanced s now (nodeNetworkID node)) ns ns' \<and>
    (\<forall>ev \<in> set evs. evAction ev = ''network.firewall_rollout_auto_rolled_back'' \<or> evAction ev = ''network.firewall_rollout_canary_removed'') \<and>
    (distinct (map netID ns) \<longrightarrow> r = (case List.find (\<lambda>n. netID n = nodeNetworkID node) ns of None \<Rightarrow> revision | Some n \<Rightarrow> netConfigRevision n + 1))"
proof (induction ns arbitrary: k revision ns' evs r)
  case (Cons n ns)
  have ev: "\<forall>ev \<in> set e. evAction ev = ''network.firewall_rollout_auto_rolled_back'' \<or> evAction ev = ''network.firewall_rollout_canary_removed''"
    if "rollout_event sha eid now actor node d m = Inr e" for eid m e
    using that by (auto simp: rollout_event_def newOptionalAttributedAudit_def newAttributedAudit_def newAudit_def
        split: if_splits option.splits sum.splits)
  show ?case
  proof (cases "netID n = nodeNetworkID node")
    case False
    with Cons.prems obtain ms where "advance_networks sha eids now actor s node d (Suc k) revision ns = Inr (ms, evs, r)" "ns' = n # ms"
      by (auto split: prod.splits)
    with Cons.IH [of "Suc k" revision ms evs r] False show ?thesis by (auto simp: advanced_def)
  next
    case True
    with Cons.prems obtain ms e es where rest: "advance_networks sha eids now actor s node d (Suc k) (netConfigRevision n + 1) ns = Inr (ms, es, r)"
      and e: "rollout_event sha (eids (k + 2)) now actor node d
        (reconcileNetworkRoutePolicies s (n\<lparr>netConfigRevision := netConfigRevision n + 1, netConfigUpdatedAt := now\<rparr>)) = Inr e"
      and out: "netConfigRevision n \<noteq> MaxInt64" "evs = e @ es"
        "ns' = reconcileNetworkRoutePolicies s (n\<lparr>netConfigRevision := netConfigRevision n + 1, netConfigUpdatedAt := now\<rparr>) # ms"
      by (auto simp: nextConfigRevision_Inr Let_def split: prod.splits)
    have "List.find (\<lambda>n. netID n = nodeNetworkID node) ns = None" if "distinct (map netID (n # ns))"
      using that True by (auto simp: find_None_iff image_iff)
    with Cons.IH [OF rest] ev [OF e] out True show ?thesis by (auto simp: advanced_def)
  qed
qed auto

lemma reconcile_simps [simp]:
  "netID (reconcileNetworkRoutePolicies s n) = netID n" "netCACertificate (reconcileNetworkRoutePolicies s n) = netCACertificate n"
  "netCARotation (reconcileNetworkRoutePolicies s n) = netCARotation n"
  "netConfigRevision (reconcileNetworkRoutePolicies s n) = netConfigRevision n"
  "netRelaySettings (reconcileNetworkRoutePolicies s n) = netRelaySettings n"
  "netFirewallRollout (reconcileNetworkRoutePolicies s n) = netFirewallRollout n"
  by (simp_all add: reconcileNetworkRoutePolicies_def)

lemma detach_simps [simp]:
  "netID (detach_network v node n) = netID n" "netCACertificate (detach_network v node n) = netCACertificate n"
  "netCARotation (detach_network v node n) = netCARotation n" "netConfigRevision (detach_network v node n) = netConfigRevision n"
  by (simp_all add: detach_network_def drop_canary_def drop_relay_def Let_def)

lemma detached_roles:
  assumes "5 \<le> v" "netID n = nodeNetworkID node"
  shows "\<not> uses_relay (nodeID node) (detach_network v node n)" "\<not> uses_canary v (nodeID node) (detach_network v node n)"
proof -
  have "\<not> uses_relay x (drop_relay x m)" for x m by (simp add: drop_relay_def uses_relay_def Let_def elems_def)
  moreover have "uses_relay x (drop_canary v y m) = uses_relay x m" for x y m by (simp add: drop_canary_def uses_relay_def)
  moreover have "\<not> uses_canary v x (drop_canary v x m)" for x m
    by (simp add: drop_canary_def uses_canary_def remaining_canaries_def Let_def zero_rollout_def elems_def)
  ultimately show "\<not> uses_relay (nodeID node) (detach_network v node n)" "\<not> uses_canary v (nodeID node) (detach_network v node n)"
    using assms by (simp_all add: detach_network_def)
qed

section \<open>Cutting off\<close>

lemma last_filter_map_update:
  assumes "distinct (map f xs)" "k < length xs" "f (xs ! k) = a" "f y = a"
  shows "last (filter (\<lambda>x. f x = a) (xs[k := y])) = y"
proof -
  have "map f (xs[k := y]) = map f xs" using assms by (simp add: map_update_same)
  then have "filter (\<lambda>x. f x = a) (xs[k := y]) = [xs[k := y] ! k]" using assms by (intro filter_unique) simp_all
  with assms(2) show ?thesis by simp
qed

lemma revoked_node_simps [simp]:
  "nodeID (revoked_node now v) = nodeID v" "nodeNetworkID (revoked_node now v) = nodeNetworkID v"
  "nodeStatus (revoked_node now v) = ''revoked''" "nodeAgentTokenHash (revoked_node now v) = []"
  "nodePreviousAgentTokenHash (revoked_node now v) = []" "nodeRevokedAt (revoked_node now v) = Some now"
  "nodeCertificateFingerprint (revoked_node now v) = nodeCertificateFingerprint v"
  "nodeName (revoked_node now v) = nodeName v" "nodeEnrolledAt (revoked_node now v) = nodeEnrolledAt v"
  by (simp_all add: revoked_node_def)

lemma cut_off_ok:
  assumes "cut_off sha eids now actor ident input s = Inr (node, d, receipt, s1)"
    and "distinct (map nodeID (Nodes s))" "find_node_idx s ident = Some k"
  obtains evs xs where "node = revoked_node now (Nodes s ! k)" "nodeStatus (Nodes s ! k) \<noteq> ''revoked''"
    "Nodes s1 = (Nodes s)[k := node]" "AgentRecoveries s1 = filter (\<lambda>r. recNodeID r \<noteq> ident) (AgentRecoveries s)"
    "Enrollments s1 = (if input = None then Enrollments s else filter (\<lambda>e. enrNodeID e \<noteq> ident) (Enrollments s))"
    "Revocations s1 = Revocations s @ xs" "\<forall>r \<in> set xs. rvNodeID r = ident \<and> rvNetworkID r = nodeNetworkID node"
    "\<forall>i \<in> set (Issuances s). to_block node now i \<longrightarrow> isFingerprint i \<in> rvFingerprint ` set (Revocations s1)"
    "list_all2 (\<lambda>n n'. advanced s1 now (nodeNetworkID node) (detach_network (Version s) node n) n') (Networks s) (Networks s1)"
    "Version s1 = Version s" "Issuances s1 = Issuances s" "Audit s1 = Audit s @ evs"
    "\<forall>ev \<in> set evs. evAction ev = ''network.firewall_rollout_auto_rolled_back'' \<or> evAction ev = ''network.firewall_rollout_canary_removed''"
    "1 \<le> rcConfigRevision receipt" "rcRevokedAt receipt = now" "rcNodeID receipt = ident" "rcName receipt = nodeName (Nodes s ! k)"
    "rcRequestID receipt = (case input of None \<Rightarrow> [] | Some i \<Rightarrow> rniRequestID i)"
    "distinct (map netID (Networks s)) \<longrightarrow> (\<exists>n. findNetwork s (nodeNetworkID node) = Some n \<and> rcConfigRevision receipt = netConfigRevision n + 1)"
proof -
  let ?v = "Nodes s ! k"
  have kl: "k < length (Nodes s)" and kid: "nodeID ?v = ident"
    using assms(3) find_idx_lt find_idx_P by (fastforce simp: find_node_idx_def)+
  define node1 where "node1 = revoked_node now ?v"
  have nodes: "map (\<lambda>n. if nodeID n = ident then revoked_node now n else n) (Nodes s) = (Nodes s)[k := node1]"
    unfolding node1_def by (rule map_update_unique [OF assms(2) kl kid])
  have last: "last (filter (\<lambda>n. nodeID n = ident) ((Nodes s)[k := node1])) = node1"
    by (rule last_filter_map_update [OF assms(2) kl kid]) (simp add: node1_def kid)
  have nid: "nodeID node1 = ident" by (simp add: node1_def kid)
  define enrs where "enrs = (if input = None then Enrollments s else filter (\<lambda>e. enrNodeID e \<noteq> ident) (Enrollments s))"
  define s0 where "s0 = s\<lparr>Nodes := (Nodes s)[k := node1], AgentRecoveries := filter (\<lambda>r. recNodeID r \<noteq> ident) (AgentRecoveries s), Enrollments := enrs\<rparr>"
  define t where "t = revoke_certificates node1 now s0"
  have "\<not> list_ex (\<lambda>n. nodeID n = ident \<and> nodeStatus n = ''revoked'') (Nodes s)"
    using assms(1) unfolding cut_off_def by (simp only: guard_result_Inr) blast
  then have st: "nodeStatus ?v \<noteq> ''revoked''" using kl kid by (auto simp: list_ex_iff)
  have enr: "(if input = None then Enrollments s else filter (\<lambda>e. enrNodeID e \<noteq> nodeID node1) (Enrollments s)) = enrs"
    by (simp add: enrs_def nid)
  from assms(1) obtain nets evs rev where nd: "node = node1" and rv: "1 \<le> rev" "rcConfigRevision receipt = rev"
      and rc: "rcRevokedAt receipt = now" "rcNodeID receipt = ident" "rcName receipt = nodeName node1"
        "rcRequestID receipt = (case input of None \<Rightarrow> [] | Some i \<Rightarrow> rniRequestID i)"
      and adv: "advance_networks sha eids now actor t node1 (detachment sha (Version s) node1 (Networks s)) 0 0
        (map (detach_network (Version s) node1) (Networks s)) = Inr (nets, evs, rev)"
      and s1: "s1 = t\<lparr>Networks := nets, Audit := Audit s @ evs\<rparr>"
    unfolding cut_off_def Let_def nodes last enr unfolding nid s0_def [symmetric] t_def [symmetric] by (auto split: prod.splits)
  have found: "findNode s0 (nodeID node1) = Some node1"
    using find_idx_update_same [of "\<lambda>n. nodeID n = ident" "Nodes s" k node1] assms(3) kl nid
    by (simp add: findNode_def find_find_idx s0_def find_node_idx_def)
  note grow = revoke_certificates_grows [OF found, of now, folded t_def]
  then obtain xs where t: "t = s0\<lparr>Revocations := Revocations s @ xs\<rparr>" and xs: "\<forall>r \<in> set xs. rvNodeID r = ident \<and> rvNetworkID r = nodeNetworkID node1"
    unfolding grown_blocklist_def nid by (auto simp: s0_def)
  note a = advance_networks_ok [OF adv]
  have "advanced t now x n n' = advanced s1 now x n n'" for x n n'
    by (simp add: advanced_def s1 reconcileNetworkRoutePolicies_def activeRouteOwners_def)
  then have nets: "list_all2 (\<lambda>n n'. advanced s1 now (nodeNetworkID node1) (detach_network (Version s) node1 n) n') (Networks s) nets"
    using a by (simp add: list_all2_map1)
  have "\<exists>n. findNetwork s (nodeNetworkID node1) = Some n \<and> rcConfigRevision receipt = netConfigRevision n + 1"
    if "distinct (map netID (Networks s))"
    using a that rv by (auto simp: find_map findNetwork_def o_def split: option.splits)
  with nets a st xs grow(2) rv rc show thesis
    by (intro that [of xs evs]) (simp_all add: nd node1_def s1 t s0_def enrs_def)
qed
section \<open>Nodes that come and go\<close>

text \<open>A transaction that only removes nodes, networks and tokens.\<close>

lemma node_hash_mset_mono: "mset xs \<subseteq># mset ys \<Longrightarrow> node_hash_mset xs \<subseteq># node_hash_mset ys"
  by (auto simp: node_hash_mset_def mset_subset_eq_exists_conv)

lemma shrink_inv:
  assumes inv: "control_inv sha s" and nodes: "mset (Nodes s') \<subseteq># mset (Nodes s)"
    and nets: "\<forall>n' \<in> set (Networks s'). \<exists>n \<in> set (Networks s). same_trust n n'" "distinct (map netID (Networks s'))"
    and ver: "Version s' = Version s"
    and enr: "mset (map enrTokenHash (Enrollments s')) \<subseteq># mset (map enrTokenHash (Enrollments s))"
    and rec: "mset (map recTokenHash (AgentRecoveries s')) \<subseteq># mset (map recTokenHash (AgentRecoveries s))"
  shows "control_inv sha s'"
proof (rule control_invI)
  note old = control_invD [OF inv]
  have sub: "set (Nodes s') \<subseteq> set (Nodes s)" using set_mset_mono [OF nodes] by simp
  have "mset (credential_hashes s') \<subseteq># mset (credential_hashes s)"
    unfolding credential_mset using node_hash_mset_mono [OF nodes] enr rec by (intro subset_mset.add_mono) simp_all
  then show "credential_inv s'" using old(1) by (rule credential_inv_less [rotated])
  show "trust_inv sha s'"
    by (rule trust_inv_step [OF old(2) nets(1)]) (use sub in \<open>auto intro: same_refl\<close>)
  show "list_all node_lifecycle_ok (Nodes s')" using old(3) sub by (auto simp: list_all_iff)
  show "distinct (map nodeID (Nodes s'))"
    using distinct_mset_mono [of "map nodeID (Nodes s')" "map nodeID (Nodes s)"] old(4) image_mset_subseteq_mono [OF nodes, of nodeID] by simp
  show "6 \<le> Version s'" using old(6) ver by simp
qed (fact nets(2))

text \<open>A transaction that adds one node without credentials.\<close>

lemma node_add_inv:
  assumes inv: "control_inv sha s" and nodes: "Nodes s' = Nodes s @ [v]"
    and v: "nodeID v \<notin> nodeID ` set (Nodes s)" "node_lifecycle_ok v" "nodeStatus v = ''pending''" "node_hashes v = []"
    and nets: "list_all2 same_trust (Networks s) (Networks s')" and ver: "Version s' = Version s" and H: "fresh_hashes s H"
    and sub: "mset (map enrTokenHash (Enrollments s')) + mset (map recTokenHash (AgentRecoveries s')) \<subseteq>#
      mset (map enrTokenHash (Enrollments s)) + mset (map recTokenHash (AgentRecoveries s)) + H"
  shows "control_inv sha s'"
proof (rule control_invI)
  note old = control_invD [OF inv]
  have "node_hash_mset (Nodes s') = node_hash_mset (Nodes s)" using v(4) by (simp add: nodes node_hash_mset_def)
  then show "credential_inv s'"
    using sub by (intro credential_inv_step [OF old(1) H]) (simp add: credential_mset ac_simps)
  show "trust_inv sha s'"
    by (rule trust_inv_step [OF old(2) frame_networks(2) [OF nets]]) (use v(3) in \<open>auto simp: nodes inactive_authority_ok intro: same_refl\<close>)
  show "list_all node_lifecycle_ok (Nodes s')" using old(3) v(2) by (simp add: nodes)
  show "distinct (map nodeID (Nodes s'))" using old(4) v(1) by (simp add: nodes)
  show "distinct (map netID (Networks s'))" using old(5) frame_networks(1) [OF nets] by simp
  show "6 \<le> Version s'" using old(6) ver by simp
qed

section \<open>Invariants\<close>

lemma advanced_trust: "advanced s1 now x (detach_network v node n) n' \<Longrightarrow> same_trust n n'"
  by (auto simp: advanced_def same_trust_def split: if_splits)

lemma filter_mset_map: "mset (map f (filter P xs)) \<subseteq># mset (map f xs)"
  by (simp add: image_mset_subseteq_mono multiset_filter_subset mset_filter)

lemma cut_off_inv:
  assumes "cut_off sha eids now actor ident input s = Inr (node, d, receipt, s1)" "control_inv sha s" "find_node_idx s ident = Some k"
  shows "control_inv sha s1"
  using assms(1) control_invD(4) [OF assms(2)] assms(3)
proof (rule cut_off_ok)
  assume n: "node = revoked_node now (Nodes s ! k)" "Nodes s1 = (Nodes s)[k := node]"
    and tok: "AgentRecoveries s1 = filter (\<lambda>r. recNodeID r \<noteq> ident) (AgentRecoveries s)"
      "Enrollments s1 = (if input = None then Enrollments s else filter (\<lambda>e. enrNodeID e \<noteq> ident) (Enrollments s))"
    and nets: "list_all2 (\<lambda>n n'. advanced s1 now (nodeNetworkID node) (detach_network (Version s) node n) n') (Networks s) (Networks s1)"
    and ver: "Version s1 = Version s"
  have kl: "k < length (Nodes s)" using assms(3) by (simp add: find_node_idx_def find_idx_lt)
  show ?thesis
  proof (rule node_update_inv [OF assms(2) kl n(2), where H = "{#}"])
    show "list_all2 same_trust (Networks s) (Networks s1)" using nets advanced_trust by (rule list_all2_mono)
    show "node_lifecycle_ok node" by (simp add: n(1) node_lifecycle_ok_def revoked_shape_def) (simp add: revoked_node_def)
    show "\<forall>n \<in> set (Networks s). authority_ok sha n node" by (simp add: n(1) inactive_authority_ok)
    show "mset (map enrTokenHash (Enrollments s1)) \<subseteq># mset (map enrTokenHash (Enrollments s))"
      "mset (map recTokenHash (AgentRecoveries s1)) \<subseteq># mset (map recTokenHash (AgentRecoveries s))"
      unfolding tok by (simp_all add: filter_mset_map del: mset_map)
  qed (simp_all add: n(1) ver node_hashes_def)
qed

lemma revocation_audit_ok:
  assumes "revocation_audit eids now actor ident input (node, d, receipt, s) = Inr s'"
  obtains ev where "s' = add_audit s ev"
  using assms by (auto simp: revocation_audit_def)

lemma create_replacement_ok:
  assumes "create_replacement sha fresh idents bearers eids now actor source s = Inr (r, s')"
  obtains i rid eid address token ev policy where "find_network_idx s (nodeNetworkID source) = Some i" "fresh = Inr rid"
    "nextAddress (Networks s ! i) (Nodes s) = Inr address" "unique_record_id s 16 idents = Inr eid" "unique_bearer sha s 16 bearers = Inr token"
    "policy = fst (replaceFirewallPolicyNodeReferences (netFirewallPolicy (Networks s ! i)) (nodeID source) rid)"
    "s' = add_audit (s\<lparr>Networks := (Networks s)[i := (Networks s ! i)\<lparr>netFirewallPolicy := policy\<rparr>],
       Nodes := Nodes s @ [replacement_node rid address now source],
       Enrollments := Enrollments s @ [new_enrollment eid rid (HashToken sha token) now (now + 30 * minute)]\<rparr>) ev"
    "rnNode r = replacement_node rid address now source" "rnEnrollmentToken r = token"
  using assms
  by (auto simp: create_replacement_def Let_def case_prod_beta uniqueEnrollmentID_def uniqueUnseenEnrollmentBearer_def set_network_def
      split: option.splits)

lemma replacement_inv:
  assumes "create_replacement sha fresh idents bearers eids now actor source s = Inr (r, s')" "sum_shape sha" "control_inv sha s"
    and "\<forall>rid. fresh = Inr rid \<longrightarrow> rid \<notin> nodeID ` set (Nodes s)"
  shows "control_inv sha s'"
  using assms(1)
proof (rule create_replacement_ok)
  fix i rid eid address token ev policy
  assume i: "find_network_idx s (nodeNetworkID source) = Some i" and rid: "fresh = Inr rid" and u: "unique_bearer sha s 16 bearers = Inr token"
    and s': "s' = add_audit (s\<lparr>Networks := (Networks s)[i := (Networks s ! i)\<lparr>netFirewallPolicy := policy\<rparr>],
       Nodes := Nodes s @ [replacement_node rid address now source],
       Enrollments := Enrollments s @ [new_enrollment eid rid (HashToken sha token) now (now + 30 * minute)]\<rparr>) ev"
  show ?thesis
  proof (rule node_add_inv [OF assms(3), where v = "replacement_node rid address now source" and H = "{#HashToken sha token#}"])
    show "list_all2 same_trust (Networks s) (Networks s')"
      using find_network_idx_lt [OF i] by (auto simp: s' same_trust_def list_all2_refl intro!: list_all2_update)
    show "nodeID (replacement_node rid address now source) \<notin> nodeID ` set (Nodes s)" using assms(4) rid by (simp add: replacement_node_def)
    show "fresh_hashes s {#HashToken sha token#}" using unique_bearer_ok [OF u] ValidTokenHash_HashToken [OF assms(2)] by simp
  qed (simp_all add: s' new_enrollment_def replacement_node_def zero_node_def node_lifecycle_ok_def pending_shape_def node_hashes_def)
qed

lemma audit_inv: "control_inv sha (add_audit s ev) \<longleftrightarrow> control_inv sha s"
  by (simp add: control_inv_def credential_inv_def credential_hashes_def trust_inv_def)

lemma revoke_or_replace_inv:
  assumes run: "revokeOrReplaceNode sha fresh idents bearers eids now actor ident replace expected input s = Inr (n, repl, rc, s')"
    and "sum_shape sha" "control_inv sha s" "replace \<longrightarrow> (\<forall>rid. fresh = Inr rid \<longrightarrow> rid \<notin> nodeID ` set (Nodes s))"
  shows "control_inv sha s'"
proof -
  have cut: "control_inv sha s1 \<and> nodeID ` set (Nodes s1) = nodeID ` set (Nodes s)"
    if "findNode s ident = Some source" "cut_off sha eids now actor ident input s = Inr (node, d, receipt, s1)" for source node d receipt s1
  proof -
    from that(1) obtain k where k: "find_node_idx s ident = Some k" by (auto simp: findNode_def find_find_idx find_node_idx_def)
    have kl: "k < length (Nodes s)" using k by (simp add: find_node_idx_def find_idx_lt)
    have "map nodeID (Nodes s1) = map nodeID (Nodes s)"
      by (rule cut_off_ok [OF that(2) control_invD(4) [OF assms(3)] k]) (use kl in \<open>simp add: map_update_same\<close>)
    then have "nodeID ` set (Nodes s1) = nodeID ` set (Nodes s)" by (metis set_map)
    with cut_off_inv [OF that(2) assms(3) k] show ?thesis by simp
  qed
  from run show ?thesis
  proof (cases rule: revokeOrReplaceNode_ok)
    case replay
    with assms(3) show ?thesis by simp
  next
    case (revoked source node d receipt s1)
    from revoked(4) obtain ev where "s' = add_audit s1 ev" by (rule revocation_audit_ok)
    with cut [OF revoked(1,3)] show ?thesis by (simp add: audit_inv)
  next
    case (replaced source node d receipt s1 s2 r)
    from replaced(4) obtain ev where s2: "s2 = add_audit s1 ev" by (rule revocation_audit_ok)
    with cut [OF replaced(1,3)] show ?thesis
      using replacement_inv [OF replaced(9) assms(2)] assms(4) replaced(5) by (simp add: audit_inv)
  qed
qed

lemma set_remove_nth: "k < length xs \<Longrightarrow> mset (remove_nth k xs) \<subseteq># mset xs"
proof -
  assume "k < length xs"
  then have "mset xs = mset (take k xs @ xs ! k # drop (Suc k) xs)" by (metis id_take_nth_drop)
  then show ?thesis by (simp add: remove_nth_def)
qed

lemma cancelPendingNode_ok:
  assumes "cancelPendingNode eid now actor ident confirmationName s = Inr (r, s')"
  obtains k i n ev where "find_node_idx s (TrimSpace ident) = Some k" "nodeStatus (Nodes s ! k) = ''pending''" "nodeEnrolledAt (Nodes s ! k) = None"
    "find_network_idx s (nodeNetworkID (Nodes s ! k)) = Some i"
    "cancelled_network (Version s) (nodeID (Nodes s ! k)) now (Networks s ! i) = Inr n"
    "s' = add_audit (s\<lparr>Networks := (Networks s)[i := n], Enrollments := filter (\<lambda>e. enrNodeID e \<noteq> nodeID (Nodes s ! k)) (Enrollments s),
       Nodes := remove_nth k (Nodes s)\<rparr>) ev"
  using assms by (auto simp: cancelPendingNode_def Let_def set_network_def split: option.splits)

lemma cancelled_trust: "cancelled_network v ident now n = Inr n' \<Longrightarrow> same_trust n n'"
  by (auto simp: cancelled_network_def same_trust_def drop_relay_def Let_def split: if_splits)

lemma cancel_inv:
  assumes "cancelPendingNode eid now actor ident confirmationName s = Inr (r, s')" "control_inv sha s"
  shows "control_inv sha s'"
  using assms(1)
proof (rule cancelPendingNode_ok)
  fix k i n ev
  assume k: "find_node_idx s (TrimSpace ident) = Some k" and i: "find_network_idx s (nodeNetworkID (Nodes s ! k)) = Some i"
    and n: "cancelled_network (Version s) (nodeID (Nodes s ! k)) now (Networks s ! i) = Inr n"
    and s': "s' = add_audit (s\<lparr>Networks := (Networks s)[i := n], Enrollments := filter (\<lambda>e. enrNodeID e \<noteq> nodeID (Nodes s ! k)) (Enrollments s),
       Nodes := remove_nth k (Nodes s)\<rparr>) ev"
  have nets: "list_all2 same_trust (Networks s) ((Networks s)[i := n])"
    using cancelled_trust [OF n] find_network_idx_lt [OF i] by (intro list_all2_update) (simp_all add: list_all2_refl)
  show ?thesis
  proof (rule shrink_inv [OF assms(2)])
    show "\<forall>n' \<in> set (Networks s'). \<exists>n \<in> set (Networks s). same_trust n n'" using list_all2_ex1 [OF nets] by (simp add: s')
    have "map netID ((Networks s)[i := n]) = map netID (Networks s)"
      using list_all2_map_same [OF nets, of netID] by (simp add: same_trust_def)
    then show "distinct (map netID (Networks s'))" using control_invD(5) [OF assms(2)] by (simp add: s')
    show "mset (Nodes s') \<subseteq># mset (Nodes s)"
      using set_remove_nth [OF find_idx_lt [OF k [unfolded find_node_idx_def]]] by (simp add: s')
  qed (simp_all add: s' filter_mset_map del: mset_map)
qed
section \<open>The state after a revocation\<close>

lemma revocation_effect:
  assumes run: "revokeOrReplaceNode sha fresh idents bearers eids now actor ident replace expected input s = Inr (Some node, repl, rc, s')"
    and dist: "distinct (map nodeID (Nodes s))" and k: "find_node_idx s ident = Some k"
  obtains d receipt s1 vs where "cut_off sha eids now actor ident input s = Inr (node, d, receipt, s1)"
    "Nodes s' = Nodes s1 @ vs" "\<forall>v \<in> set vs. nodeStatus v = ''pending''" "AgentRecoveries s' = AgentRecoveries s1"
    "Revocations s' = Revocations s1" "Version s' = Version s1" "Issuances s' = Issuances s1"
    "list_all2 (\<lambda>n n'. netID n' = netID n \<and> netConfigRevision n' = netConfigRevision n \<and> netRelaySettings n' = netRelaySettings n \<and>
       netFirewallRollout n' = netFirewallRollout n) (Networks s1) (Networks s')"
  using run
proof (cases rule: revokeOrReplaceNode_ok)
  case (revoked source node' d receipt s1)
  from revoked(4) obtain ev where "s' = add_audit s1 ev" by (rule revocation_audit_ok)
  with revoked show thesis by (intro that [of d receipt s1 "[]"]) (simp_all add: list_all2_refl)
next
  case (replaced source node' d receipt s1 s2 r)
  from replaced(4) obtain ev where s2: "s2 = add_audit s1 ev" by (rule revocation_audit_ok)
  from replaced(9) show thesis
  proof (rule create_replacement_ok)
    fix i rid eid address token ev' policy
    assume i: "find_network_idx s2 (nodeNetworkID source) = Some i"
      and s': "s' = add_audit (s2\<lparr>Networks := (Networks s2)[i := (Networks s2 ! i)\<lparr>netFirewallPolicy := policy\<rparr>],
       Nodes := Nodes s2 @ [replacement_node rid address now source],
       Enrollments := Enrollments s2 @ [new_enrollment eid rid (HashToken sha token) now (now + 30 * minute)]\<rparr>) ev'"
    show thesis
      using replaced(3,6) find_network_idx_lt [OF i]
      by (intro that [of d receipt s1 "[replacement_node rid address now source]"])
         (auto simp: s' s2 replacement_node_def list_all2_refl intro!: list_all2_update)
  qed
qed simp

definition live_fingerprint :: "State \<Rightarrow> Node \<Rightarrow> time \<Rightarrow> string \<Rightarrow> bool" where
  "live_fingerprint s v now fp \<longleftrightarrow> fp \<noteq> [] \<and>
     (fp = nodeCertificateFingerprint v \<or> (\<exists>i \<in> set (Issuances s). isNodeID i = nodeID v \<and> now < isExpiresAt i \<and> isFingerprint i = fp))"

lemma revoked_blocklist:
  assumes s1: "Nodes s1 = (Nodes s)[k := revoked_node now v]" "k < length (Nodes s)" "Nodes s ! k = v"
    and rv: "Revocations s1 = Revocations s @ xs" "\<forall>r \<in> set xs. rvNodeID r = nodeID v \<and> rvNetworkID r = nodeNetworkID v"
    and blk: "\<forall>i \<in> set (Issuances s). to_block (revoked_node now v) now i \<longrightarrow> isFingerprint i \<in> rvFingerprint ` set (Revocations s1)"
    and net: "nodeNetworkID v \<noteq> []" "netID n = nodeNetworkID v"
    and old: "\<forall>r \<in> set (Revocations s). live_fingerprint s v now (rvFingerprint r) \<longrightarrow> rvNetworkID r = nodeNetworkID v"
    and s': "Nodes s' = Nodes s1 @ vs" "Revocations s' = Revocations s1" and fp: "live_fingerprint s v now fp"
  shows "fp \<in> set (config_blocklist s' n)"
proof (cases "fp = nodeCertificateFingerprint v")
  case True
  have "revoked_node now v \<in> set (Nodes s')" using s1(2) by (simp add: s'(1) s1(1) set_update_memI)
  moreover have "nodeNetworkID (revoked_node now v) = netID n" "nodeStatus (revoked_node now v) = ''revoked''"
    "nodeCertificateFingerprint (revoked_node now v) = fp" "fp \<noteq> []"
    using True fp net(2) by (simp_all add: live_fingerprint_def)
  ultimately show ?thesis unfolding config_blocklist_set by blast
next
  case False
  with fp blk have "fp \<in> rvFingerprint ` set (Revocations s1)" by (auto simp: live_fingerprint_def to_block_def)
  then obtain r where r: "r \<in> set (Revocations s1)" "rvFingerprint r = fp" by auto
  with rv old fp have "rvNetworkID r = nodeNetworkID v" by auto
  with r net s'(2) show ?thesis by (auto simp: config_blocklist_set revocation_network_def)
qed

lemma list_all2_find_rel:
  assumes "list_all2 R xs ys" "\<And>a b. R a b \<Longrightarrow> P b = P a"
  shows "rel_option R (List.find P xs) (List.find P ys)"
  using assms by (induction xs ys rule: list_all2_induct) auto

lemma revoked_network:
  assumes nets: "list_all2 (\<lambda>n n'. advanced s1 now (nodeNetworkID node) (detach_network (Version s) node n) n') (Networks s) (Networks s1)"
    and s': "list_all2 (\<lambda>n n'. netID n' = netID n \<and> netConfigRevision n' = netConfigRevision n \<and> netRelaySettings n' = netRelaySettings n \<and>
       netFirewallRollout n' = netFirewallRollout n) (Networks s1) (Networks s')"
    and find: "findNetwork s' (nodeNetworkID node) = Some n'" and ver: "6 \<le> Version s"
  shows "\<not> uses_relay (nodeID node) n' \<and> \<not> uses_canary (Version s) (nodeID node) n' \<and>
    map_option (\<lambda>n. netConfigRevision n + 1) (findNetwork s (nodeNetworkID node)) = Some (netConfigRevision n')"
proof -
  let ?P = "\<lambda>n. netID n = nodeNetworkID node"
  have 1: "rel_option (\<lambda>n n'. advanced s1 now (nodeNetworkID node) (detach_network (Version s) node n) n') (List.find ?P (Networks s)) (List.find ?P (Networks s1))"
    by (rule list_all2_find_rel [OF nets]) (auto simp: advanced_def split: if_splits)
  have 2: "rel_option (\<lambda>n n'. netID n' = netID n \<and> netConfigRevision n' = netConfigRevision n \<and> netRelaySettings n' = netRelaySettings n \<and>
       netFirewallRollout n' = netFirewallRollout n) (List.find ?P (Networks s1)) (List.find ?P (Networks s'))"
    by (rule list_all2_find_rel [OF s']) auto
  from 2 find obtain m where m: "List.find ?P (Networks s1) = Some m" "netConfigRevision n' = netConfigRevision m"
      "netRelaySettings n' = netRelaySettings m" "netFirewallRollout n' = netFirewallRollout m"
    by (auto simp: findNetwork_def option_rel_Some2)
  from 1 m(1) obtain n where n: "List.find ?P (Networks s) = Some n" "advanced s1 now (nodeNetworkID node) (detach_network (Version s) node n) m"
    by (auto simp: option_rel_Some2)
  have id: "netID n = nodeNetworkID node" using n(1) by (auto simp: find_Some_iff)
  with n(2) have "netRelaySettings m = netRelaySettings (detach_network (Version s) node n)"
    "netFirewallRollout m = netFirewallRollout (detach_network (Version s) node n)" "netConfigRevision m = netConfigRevision n + 1"
    by (simp_all add: advanced_def)
  with m detached_roles [of "Version s" n node] id ver n(1) show ?thesis
    by (simp add: uses_relay_def uses_canary_def findNetwork_def)
qed


section \<open>Receipts\<close>

lemma audits_parse:
  "revocation_audits_ok seen events = Inr () \<Longrightarrow> ev \<in> set events \<Longrightarrow> evAction ev = ''node.revocation_committed'' \<Longrightarrow>
    \<exists>p. parseNodeRevocationEvent ev = Inr p"
  by (induction seen events rule: revocation_audits_ok.induct) (auto split: if_splits prod.splits)

lemma receipt_details:
  assumes "evDetails ev = Some (elems (nodeRevocationAuditDetails r expected) @ extra)"
  shows "detail ev ''request_id'' = Some (DStr (rcRequestID r))" "detail ev ''network_id'' = Some (DStr (rcNetworkID r))"
    "detail ev ''name'' = Some (DStr (rcName r))" "detail ev ''ip'' = Some (DStr (rcIP r))" "detail ev ''role'' = Some (DStr (rcRole r))"
    "detail ev ''was_enrolled'' = Some (DBool (rcWasEnrolled r))" "detail ev ''expected_config_revision'' = Some (DInt expected)"
    "detail ev ''config_revision'' = Some (DInt (rcConfigRevision r))"
    "detail ev ''enrollment_records_invalidated'' = Some (DInt (rcEnrollmentRecordsInvalidated r))"
    "detail ev ''agent_recovery_records_invalidated'' = Some (DInt (rcAgentRecoveryRecordsInvalidated r))"
    "detail ev ''blocklist_entries_added'' = Some (DInt (rcBlocklistEntriesAdded r))"
    "detail ev ''relay_assignment_removed'' = Some (DBool (rcRelayAssignmentRemoved r))"
    "detail ev ''firewall_canary_removed'' = Some (DBool (rcFirewallCanaryRemoved r))"
    "detail ev ''firewall_rollout_auto_rolled_back'' = Some (DBool (rcFirewallRolloutAutoRolledBack r))"
    "detail ev ''credentials_invalidated'' = Some (DBool (rcCredentialsInvalidated r))"
    "detail ev ''routed_subnet_reservations_released'' = Some (DInt (rcRoutedSubnetReservationsReleased r))"
  by (simp_all add: detail_def assms nodeRevocationAuditDetails_def elems_def)

text \<open>What a receipt's event parses to, when the store accepts it, is the receipt.\<close>

lemma receipt_round_trip:
  assumes "parseNodeRevocationEvent ev = Inr (r', expected')" "evDetails ev = Some (elems (nodeRevocationAuditDetails r expected) @ extra)"
    and "evAt ev = rcRevokedAt r" "evResourceID ev = rcNodeID r"
  shows "r' = r \<and> expected' = expected"
  using assms(1) unfolding parseNodeRevocationEvent_def Let_def receipt_details [OF assms(2)]
  by (auto simp: assms(3,4) split: option.splits if_splits)

lemma attributed_details:
  assumes "newOptionalAttributedAudit eid now action resource ident ds actor = Inr ev" "ds \<noteq> None"
  obtains extra where "evDetails ev = Some (elems ds @ extra)" "evAction ev = action" "evResourceID ev = ident" "evAt ev = now"
proof (cases actor)
  case None
  with assms have "ev = newAudit eid now action resource ident ds" by (simp add: newOptionalAttributedAudit_def)
  with assms(2) show thesis by (intro that [of "[]"]) (auto simp: newAudit_def elems_def)
next
  case (Some a)
  with assms(1) obtain extra where "ev = newAudit eid now action resource ident (Some (elems ds @ extra))"
    by (auto simp: newOptionalAttributedAudit_def newAttributedAudit_def split: sum.splits if_splits)
  then show thesis by (intro that [of extra]) (simp_all add: newAudit_def)
qed

lemma find_append_None: "List.find P xs = None \<Longrightarrow> List.find P (xs @ ys) = List.find P ys"
  by (induction xs) (auto split: if_splits)

lemma find_append_Some: "List.find P xs = Some x \<Longrightarrow> List.find P (xs @ ys) = Some x"
  by (induction xs) (auto split: if_splits)

text \<open>The event that answers a repeated request.\<close>

lemma receipt_recorded:
  assumes run: "revokeOrReplaceNode sha fresh idents bearers eids now actor ident False expected (Some input) s = Inr (n, repl, Some receipt, s')"
    and dist: "distinct (map nodeID (Nodes s))" and store: "validateNodeRevocationAudits s' = Inr ()"
  obtains ev where "List.find (revocation_event (rniRequestID input)) (Audit s') = Some ev"
    "parseNodeRevocationEvent ev = Inr (receipt, rniExpectedConfigRevision input)" "evResourceID ev = ident"
    "rcName receipt = rniConfirmationName input"
  using run
proof (cases rule: revokeOrReplaceNode_ok)
  case (replay i)
  then show thesis by (auto simp: findNodeRevocationReplay_def intro: that split: option.splits)
next
  case (revoked source node d rc s1)
  from revoked(1) obtain k where k: "find_node_idx s ident = Some k" "Nodes s ! k = source"
    by (auto simp: findNode_def find_find_idx find_node_idx_def)
  have none: "List.find (revocation_event (rniRequestID input)) (Audit s) = None"
    using revoked(9) by (auto simp: findNodeRevocationReplay_def split: option.splits)
  have cut: "rcRevokedAt rc = now \<and> rcNodeID rc = ident \<and> rcRequestID rc = rniRequestID input \<and> rcName rc = nodeName (Nodes s ! k)"
    by (rule cut_off_ok [OF revoked(3) dist k(1)]) simp
  have rc: "rc = receipt" using revoked(8) by simp
  from revoked(4) obtain ev where ev: "newOptionalAttributedAudit (eids 0) now ''node.revocation_committed'' ''node'' ident
      (nodeRevocationAuditDetails receipt (rniExpectedConfigRevision input)) actor = Inr ev" and s': "s' = add_audit s1 ev"
    by (auto simp: revocation_audit_def rc)
  from ev obtain extra where d: "evDetails ev = Some (elems (nodeRevocationAuditDetails receipt (rniExpectedConfigRevision input)) @ extra)"
      "evAction ev = ''node.revocation_committed''" "evResourceID ev = ident" "evAt ev = now"
    by (rule attributed_details) (auto simp: nodeRevocationAuditDetails_def)
  have this_one: "revocation_event (rniRequestID input) ev"
    using cut rc by (simp add: revocation_event_def d(2) receipt_details(1) [OF d(1)])
  obtain evs where evs: "Audit s1 = Audit s @ evs" "\<forall>e \<in> set evs. \<not> revocation_event (rniRequestID input) e"
    by (rule cut_off_ok [OF revoked(3) dist k(1)]) (force simp: revocation_event_def)
  then have "List.find (revocation_event (rniRequestID input)) evs = None" by (simp add: find_None_iff)
  then have "List.find (revocation_event (rniRequestID input)) (Audit s1) = None" using none evs(1) by (simp add: find_append_None)
  then have found: "List.find (revocation_event (rniRequestID input)) (Audit s') = Some ev"
    using this_one by (simp add: s' find_append_None)
  obtain p where "parseNodeRevocationEvent ev = Inr p"
    using audits_parse [OF store [unfolded validateNodeRevocationAudits_def], of ev] d(2) by (auto simp: s')
  then have "parseNodeRevocationEvent ev = Inr (receipt, rniExpectedConfigRevision input)"
    using receipt_round_trip [OF _ d(1)] cut rc d(3,4) by (cases p) auto
  moreover have "rcName receipt = rniConfirmationName input"
    using revoked(9) cut rc k(2) by (auto simp: revocation_checks_def)
  ultimately show thesis using that found d(3) by blast
qed simp

section \<open>A stolen laptop\<close>

definition theft_issuance :: CertificateIssuance where
  "theft_issuance = \<lparr>isFingerprint = hex_string (replicate 32 9), isNodeID = ''member'', isNetworkID = ''net'', isIssuedAt = 900 * hour,
     isExpiresAt = 1100 * hour\<rparr>"

definition theft_state :: State where
  "theft_state = rescue_state\<lparr>Issuances := [theft_issuance]\<rparr>"

abbreviation theft_input :: RevokeNodeInput where
  "theft_input \<equiv> \<lparr>rniExpectedConfigRevision = 7, rniConfirmationName = ''member'', rniRequestID = ''request-0123456789''\<rparr>"

lemma theft_inv: "control_inv wide_sha theft_state"
  using rescue_inv by (simp add: theft_state_def control_inv_def credential_inv_def credential_hashes_def trust_inv_def)

definition theft_cut where
  "theft_cut = cut_off wide_sha (\<lambda>_. ''event'') (1000 * hour) None ''member'' (Some theft_input) theft_state"

definition theft_receipt :: RevokedNodeReceipt where
  "theft_receipt = \<lparr>rcRequestID = ''request-0123456789'', rcNodeID = ''member'', rcNetworkID = ''net'', rcName = ''member'', rcIP = ''10.9.8.11'',
     rcRole = ''member'', rcRevokedAt = 1000 * hour, rcWasEnrolled = True, rcEnrollmentRecordsInvalidated = 0,
     rcAgentRecoveryRecordsInvalidated = 1, rcBlocklistEntriesAdded = 2, rcRelayAssignmentRemoved = False, rcFirewallCanaryRemoved = False,
     rcFirewallRolloutAutoRolledBack = False, rcCredentialsInvalidated = True, rcRoutedSubnetReservationsReleased = 0, rcConfigRevision = 8\<rparr>"

definition theft_event :: AuditEvent where
  "theft_event = newAudit ''event'' (1000 * hour) ''node.revocation_committed'' ''node'' ''member'' (nodeRevocationAuditDetails theft_receipt 7)"

lemma theft_event_ok: "case parseNodeRevocationEvent theft_event of Inr p \<Rightarrow> True | _ \<Rightarrow> False"
  by code_simp

lemma theft_cut_ok: "case theft_cut of Inr (node, d, rc, s1) \<Rightarrow>
    findNetwork s1 ''net'' \<noteq> None \<and> Audit s1 = [] \<and> \<not> in_transition s1 node ''member'' \<and> map nodeID (Nodes s1) = [''member''] | _ \<Rightarrow> False"
  by code_simp

lemma theft_cut_receipt: "case theft_cut of Inr (node, d, rc, s1) \<Rightarrow> rc = theft_receipt | _ \<Rightarrow> False"
  by code_simp

lemma theft_ok:
  "\<exists>node s'. revokeOrReplaceNode wide_sha (Inl ErrInternal) [] [] (\<lambda>_. ''event'') (1000 * hour) None ''member'' False 7 (Some theft_input)
     theft_state = Inr (Some node, None, Some theft_receipt, s') \<and> findNetwork s' ''net'' \<noteq> None \<and> validateNodeRevocationAudits s' = Inr () \<and>
     (\<exists>v. findNode s' ''member'' = Some v \<and> \<not> in_transition s' v ''member'')"
proof -
  obtain node d s1 where cut: "cut_off wide_sha (\<lambda>_. ''event'') (1000 * hour) None ''member'' (Some theft_input) theft_state =
      Inr (node, d, theft_receipt, s1)"
    and s1: "findNetwork s1 ''net'' \<noteq> None" "Audit s1 = []" "\<not> in_transition s1 node ''member''"
    using theft_cut_ok theft_cut_receipt unfolding theft_cut_def by (auto split: sum.splits prod.splits)
  have src: "findNode theft_state ''member'' = Some race_member" by (simp add: findNode_def theft_state_def)
  have idx: "find_node_idx theft_state ''member'' = Some 0" by (simp add: find_node_idx_def theft_state_def)
  have "Nodes s1 = [node] \<and> nodeID node = ''member''"
    by (rule cut_off_ok [OF cut control_invD(4) [OF theft_inv] idx]) (simp add: theft_state_def)
  then have node: "findNode s1 ''member'' = Some node" by (simp add: findNode_def)
  have pre: "\<not> in_transition theft_state race_member ''member''" "findNodeRevocationReplay theft_state ''member'' theft_input = Inr None"
    "revocation_checks ''member'' theft_input race_member theft_state = Inr ()"
    by code_simp+
  have audit: "revocation_audit (\<lambda>_. ''event'') (1000 * hour) None ''member'' (Some theft_input) (node, d, theft_receipt, s1) =
      Inr (add_audit s1 theft_event)"
    by (simp add: revocation_audit_def newOptionalAttributedAudit_def theft_event_def)
  have same: "findNetwork (add_audit s1 theft_event) x = findNetwork s1 x" "in_transition (add_audit s1 theft_event) v x = in_transition s1 v x" for v x
    by (simp_all add: findNetwork_def in_transition_def)
  have "validateNodeRevocationAudits (add_audit s1 theft_event) = Inr ()"
    using theft_event_ok s1(2) by (auto simp: validateNodeRevocationAudits_def guard_result_def theft_event_def newAudit_def split: sum.splits)
  then show ?thesis
    using src pre cut audit s1 node same by (simp add: revokeOrReplaceNode_def guard_result_def)
qed

section \<open>Properties\<close>

text \<open>C3. A revocation, with or without a replacement, cuts the node off at once.  No bearer authenticates as
  it any longer and no recovery record of it is left; every unexpired certificate it was issued is on the
  blocklist that every configuration of its network carries; it is no relay and no canary; and the network
  moves to the next revision, so that every agent sees the change.  The fingerprints of the node's certificates
  are assumed not to be recorded for another network.\<close>
theorem revocation_cuts_off:
  assumes inv: "control_inv sha s"
    and run: "revokeOrReplaceNode sha fresh idents bearers eids now actor ident replace expected input s = Inr (Some node, repl, rc, s')"
    and v: "findNode s ident = Some v" "nodeNetworkID v \<noteq> []"
    and old: "\<forall>r \<in> set (Revocations s). live_fingerprint s v now (rvFingerprint r) \<longrightarrow> rvNetworkID r = nodeNetworkID v"
    and n: "findNetwork s' (nodeNetworkID v) = Some n"
  shows "(\<forall>h at w. findAgent s' h at = Some w \<longrightarrow> nodeID w \<noteq> ident) \<and>
    (\<forall>r \<in> set (AgentRecoveries s'). recNodeID r \<noteq> ident) \<and>
    (\<forall>fp. live_fingerprint s v now fp \<longrightarrow> fp \<in> set (config_blocklist s' n)) \<and>
    \<not> uses_relay ident n \<and> \<not> uses_canary (Version s') ident n \<and>
    map_option (\<lambda>m. netConfigRevision m + 1) (findNetwork s (nodeNetworkID v)) = Some (netConfigRevision n)"
proof -
  from v(1) obtain k where k: "find_node_idx s ident = Some k" "Nodes s ! k = v"
    by (auto simp: findNode_def find_find_idx find_node_idx_def)
  have kl: "k < length (Nodes s)" and kid: "nodeID v = ident"
    using find_idx_lt [OF k(1) [unfolded find_node_idx_def]] findNode_SomeD [OF v(1)] by simp_all
  from run control_invD(4) [OF inv] k(1) show ?thesis
  proof (rule revocation_effect)
    fix d receipt s1 vs
    assume cut: "cut_off sha eids now actor ident input s = Inr (node, d, receipt, s1)"
      and vs: "Nodes s' = Nodes s1 @ vs" "\<forall>v \<in> set vs. nodeStatus v = ''pending''"
      and same: "AgentRecoveries s' = AgentRecoveries s1" "Revocations s' = Revocations s1" "Version s' = Version s1"
      and nets': "list_all2 (\<lambda>n n'. netID n' = netID n \<and> netConfigRevision n' = netConfigRevision n \<and> netRelaySettings n' = netRelaySettings n \<and>
       netFirewallRollout n' = netFirewallRollout n) (Networks s1) (Networks s')"
    from cut control_invD(4) [OF inv] k(1) show ?thesis
    proof (rule cut_off_ok)
      fix evs xs
      assume nd: "node = revoked_node now (Nodes s ! k)" "Nodes s1 = (Nodes s)[k := node]"
        and tok: "AgentRecoveries s1 = filter (\<lambda>r. recNodeID r \<noteq> ident) (AgentRecoveries s)"
        and rv: "Revocations s1 = Revocations s @ xs" "\<forall>r \<in> set xs. rvNodeID r = ident \<and> rvNetworkID r = nodeNetworkID node"
          "\<forall>i \<in> set (Issuances s). to_block node now i \<longrightarrow> isFingerprint i \<in> rvFingerprint ` set (Revocations s1)"
        and nets: "list_all2 (\<lambda>n n'. advanced s1 now (nodeNetworkID node) (detach_network (Version s) node n) n') (Networks s) (Networks s1)"
        and ver: "Version s1 = Version s"
      have nv: "node = revoked_node now v" using nd(1) k(2) by simp
      have agent: "nodeID w \<noteq> ident" if "findAgent s' h at = Some w" for h at w
      proof
        assume w: "nodeID w = ident"
        from findAgent_Some [OF that] have "w \<in> set (Nodes s')" "nodeStatus w = ''active''" by (auto simp: agent_matches_def)
        with vs have "w \<in> set (Nodes s1)" by auto
        moreover have "distinct (map nodeID (Nodes s1))" using control_invD(4) [OF inv] nd kl by (simp add: map_update_same)
        moreover have "node \<in> set (Nodes s1)" using nd(2) kl by (simp add: set_update_memI)
        ultimately have "w = node" using w nv kid by (metis distinct_map inj_on_def revoked_node_simps(1))
        with \<open>nodeStatus w = ''active''\<close> nv show False by simp
      qed
      have nid: "netID n = nodeNetworkID v" using n by (auto simp: findNetwork_def find_Some_iff)
      have "fp \<in> set (config_blocklist s' n)" if "live_fingerprint s v now fp" for fp
        by (rule revoked_blocklist [OF nd(2) [unfolded nv] kl k(2) rv(1) _ rv(3) [unfolded nv] v(2) nid old vs(1) same(2) that])
           (use rv(2) nv kid in simp)
      moreover have "\<not> uses_relay ident n \<and> \<not> uses_canary (Version s') ident n \<and>
          map_option (\<lambda>m. netConfigRevision m + 1) (findNetwork s (nodeNetworkID v)) = Some (netConfigRevision n)"
        using revoked_network [OF nets nets'] n control_invD(6) [OF inv] nv kid same(3) ver by simp
      ultimately show ?thesis using agent tok same(1) by simp
    qed
  qed
qed

theorem revocation_cuts_off_witness:
  "\<exists>node s' n. revokeOrReplaceNode wide_sha (Inl ErrInternal) [] [] (\<lambda>_. ''event'') (1000 * hour) None ''member'' False 7 (Some theft_input)
     theft_state = Inr (Some node, None, Some theft_receipt, s') \<and> findNetwork s' ''net'' = Some n \<and>
     hex_string (replicate 32 9) \<in> set (config_blocklist s' n) \<and> (\<forall>r \<in> set (AgentRecoveries s'). recNodeID r \<noteq> ''member'')"
proof -
  obtain node s' n where run: "revokeOrReplaceNode wide_sha (Inl ErrInternal) [] [] (\<lambda>_. ''event'') (1000 * hour) None ''member'' False 7
      (Some theft_input) theft_state = Inr (Some node, None, Some theft_receipt, s')" and n: "findNetwork s' ''net'' = Some n"
    using theft_ok by blast
  have v: "findNode theft_state ''member'' = Some race_member" by (simp add: findNode_def theft_state_def)
  have net: "nodeNetworkID race_member \<noteq> []" "findNetwork s' (nodeNetworkID race_member) = Some n" using n by simp_all
  have "Revocations theft_state = []"
    by (simp add: theft_state_def rescue_state_def race_state_def life_state_def demo_state_def empty_state_def)
  moreover have "live_fingerprint theft_state race_member (1000 * hour) (hex_string (replicate 32 9))"
    by (simp add: live_fingerprint_def theft_state_def theft_issuance_def hex_string_def)
  ultimately have "hex_string (replicate 32 9) \<in> set (config_blocklist s' n)" "\<forall>r \<in> set (AgentRecoveries s'). recNodeID r \<noteq> ''member''"
    using revocation_cuts_off [OF theft_inv run v net(1) _ net(2)] by simp_all
  with run n show ?thesis by blast
qed

text \<open>C16. A revocation with a receipt is idempotent.  Once the store has accepted it, the same request, repeated at
  any later time while the node is still recorded, returns the same receipt and changes nothing; the request
  identifier cannot be used for another name or revision.  The receipt is read back from the audit log alone.\<close>
theorem revocation_replay:
  assumes "control_inv sha s" and run: "revokeNodeWithReceipt sha eids now actor ident input s = Inr (receipt, s')"
    and store: "validateNodeRevocationAudits s' = Inr ()" and later: "Audit s'' = Audit s' @ evs"
    and node: "findNode s'' (TrimSpace ident) = Some v" "\<not> in_transition s'' v (TrimSpace ident)"
  shows "revokeNodeWithReceipt sha' eids' now' actor' ident input s'' = Inr (receipt, s'') \<and>
    (\<forall>input' r. rniRequestID input' = rniRequestID input \<and> input' \<noteq> input \<longrightarrow>
       revokeNodeWithReceipt sha' eids' now' actor' ident input' s'' \<noteq> Inr r)"
proof -
  from run obtain n repl where ok: "validPersistedID (TrimSpace ident) \<and> 1 \<le> rniExpectedConfigRevision input \<and> namePattern (rniConfirmationName input) \<and>
      validNodeRevocationRequestID (rniRequestID input)"
    and call: "revokeOrReplaceNode sha (Inl ErrInternal) [] [] eids now actor (TrimSpace ident) False (rniExpectedConfigRevision input) (Some input) s =
      Inr (n, repl, Some receipt, s')"
    by (auto simp: revokeNodeWithReceipt_def Let_def split: option.splits prod.splits)
  from call control_invD(4) [OF assms(1)] store show ?thesis
  proof (rule receipt_recorded)
    fix ev
    assume ev: "List.find (revocation_event (rniRequestID input)) (Audit s') = Some ev"
      "parseNodeRevocationEvent ev = Inr (receipt, rniExpectedConfigRevision input)" "evResourceID ev = TrimSpace ident"
      "rcName receipt = rniConfirmationName input"
    have find: "List.find (revocation_event (rniRequestID input)) (Audit s'') = Some ev" using ev(1) by (simp add: later find_append_Some)
    have same: "findNodeRevocationReplay s'' (TrimSpace ident) input = Inr (Some receipt)"
      using find ev(2-4) by (simp add: findNodeRevocationReplay_def guard_result_def)
    have "findNodeRevocationReplay s'' (TrimSpace ident) input' = Inl ErrConflict"
      if "rniRequestID input' = rniRequestID input" "input' \<noteq> input" for input' :: RevokeNodeInput
      using that find ev(2-4) by (auto simp: findNodeRevocationReplay_def guard_result_def)
    with same ok node show ?thesis
      by (auto simp: revokeNodeWithReceipt_def revokeOrReplaceNode_def Let_def guard_result_def)
  qed
qed

theorem revocation_replay_witness:
  "\<exists>receipt s'. revokeNodeWithReceipt wide_sha (\<lambda>_. ''event'') (1000 * hour) None ''member'' theft_input theft_state = Inr (receipt, s') \<and>
     revokeNodeWithReceipt wide_sha (\<lambda>_. ''other'') (1001 * hour) None ''member'' theft_input s' = Inr (receipt, s')"
proof -
  obtain node s' v where run: "revokeOrReplaceNode wide_sha (Inl ErrInternal) [] [] (\<lambda>_. ''event'') (1000 * hour) None ''member'' False 7
      (Some theft_input) theft_state = Inr (Some node, None, Some theft_receipt, s')" and store: "validateNodeRevocationAudits s' = Inr ()"
    and v: "findNode s' ''member'' = Some v" "\<not> in_transition s' v ''member''"
    using theft_ok by blast
  have id: "TrimSpace ''member'' = ''member''" "validPersistedID ''member''" "namePattern ''member''"
    "validNodeRevocationRequestID ''request-0123456789''" by code_simp+
  have call: "revokeNodeWithReceipt wide_sha (\<lambda>_. ''event'') (1000 * hour) None ''member'' theft_input theft_state = Inr (theft_receipt, s')"
    using run id by (simp add: revokeNodeWithReceipt_def guard_result_def)
  have "revokeNodeWithReceipt wide_sha (\<lambda>_. ''other'') (1001 * hour) None ''member'' theft_input s' = Inr (theft_receipt, s')"
    using revocation_replay [OF theft_inv call store, of s' "[]" v wide_sha "\<lambda>_. ''other''" "1001 * hour" None] id(1) v by simp
  with call show ?thesis by blast
qed

end
