(* ===== verification/Mesh_Archival.thy ===== *)
theory Mesh_Archival
  imports Mesh_Revocation
begin

text \<open>
  Removal of what is over: archiving a revoked node once every certificate it ever had has expired
  (\<^verbatim>\<open>internal/control/node_archival.go\<close>) and retiring a network, whose name and address range stay reserved
  through the audit log (\<^verbatim>\<open>internal/control/retirement.go\<close>).
\<close>

section \<open>Archiving a node\<close>

record ArchivedNode =
  anNodeID :: string
  anNetworkID :: string
  anName :: string
  anIP :: string
  anRole :: string
  anRevokedAt :: time
  anArchivedAt :: time
  anLastCertificateExpiredAt :: "time option"
  anEnrollmentRecordsRemoved :: int
  anAgentRecoveryRecordsRemoved :: int
  anCertificateIssuancesRemoved :: int
  anRevocationsRemoved :: int
  anBlocklistEntriesRemoved :: int
  anRoutedSubnetReservationsReleased :: int
  anConfigRevision :: int

abbreviation (input) nodeArchiveCertificateSafetyMargin :: int where "nodeArchiveCertificateSafetyMargin \<equiv> 5 * minute"

definition deleteIssuancesForNode :: "CertificateIssuance list \<Rightarrow> string \<Rightarrow> CertificateIssuance list" where
  "deleteIssuancesForNode xs ident = filter (\<lambda>x. isNodeID x \<noteq> ident) xs"

definition deleteRevocationsForNode :: "CertificateRevocation list \<Rightarrow> string \<Rightarrow> CertificateRevocation list" where
  "deleteRevocationsForNode xs ident = filter (\<lambda>x. rvNodeID x \<noteq> ident) xs"

definition deleteEnrollmentsForNodes :: "EnrollmentToken list \<Rightarrow> string list \<Rightarrow> EnrollmentToken list" where
  "deleteEnrollmentsForNodes xs ids = filter (\<lambda>x. enrNodeID x \<notin> set ids) xs"

definition deleteRecoveriesForNodes :: "AgentRecoveryToken list \<Rightarrow> string list \<Rightarrow> AgentRecoveryToken list" where
  "deleteRecoveriesForNodes xs ids = filter (\<lambda>x. recNodeID x \<notin> set ids) xs"

text \<open>The zero time stands for no expiry; the loops keep the latest.\<close>

definition later_of :: "time \<Rightarrow> time \<Rightarrow> time" where
  "later_of a b = (if a < b then b else a)"

definition last_expiry :: "Node \<Rightarrow> CertificateIssuance list \<Rightarrow> CertificateRevocation list \<Rightarrow> time" where
  "last_expiry node issuances revocations =
     fold (\<lambda>r t. later_of t (valueOrZero (rvExpiresAt r))) revocations
       (fold (\<lambda>i t. later_of t (isExpiresAt i)) issuances (valueOrZero (nodeCertificateExpiresAt node)))"

definition archive_allowed :: "time \<Rightarrow> Node \<Rightarrow> CertificateIssuance list \<Rightarrow> CertificateRevocation list \<Rightarrow> bool" where
  "archive_allowed now node issuances revocations =
     (let lastExpiry = last_expiry node issuances revocations in
      list_all (\<lambda>r. rvExpiresAt r \<noteq> None) revocations \<and>
      (if nodeEnrolledAt node \<noteq> None
       then issuances \<noteq> [] \<and> revocations \<noteq> [] \<and> lastExpiry \<noteq> 0 \<and> lastExpiry + nodeArchiveCertificateSafetyMargin \<le> now
       else issuances = [] \<and> revocations = [] \<and> lastExpiry = 0))"

definition archive_details :: "Node \<Rightarrow> time \<Rightarrow> int \<Rightarrow> int \<Rightarrow> int \<Rightarrow> int \<Rightarrow> int \<Rightarrow> details" where
  "archive_details node lastExpiry enrollmentRecords recoveryRecords issuanceRecords revocationRecords revision =
     Some [(''network_id'', DStr (nodeNetworkID node)), (''name'', DStr (nodeName node)), (''ip'', DStr (nodeIP node)), (''role'', DStr (nodeRole node)),
           (''revoked_at'', DStr (RFC3339Nano (valueOrZero (nodeRevokedAt node)))), (''enrolled'', DBool (nodeEnrolledAt node \<noteq> None)),
           (''last_certificate_expired_at'', DStr (if lastExpiry = 0 then [] else RFC3339Nano lastExpiry)),
           (''enrollment_records_removed'', DInt enrollmentRecords), (''agent_recovery_records_removed'', DInt recoveryRecords),
           (''certificate_issuances_removed'', DInt issuanceRecords), (''revocations_removed'', DInt revocationRecords),
           (''blocklist_entries_removed'', DInt revocationRecords),
           (''routed_subnet_reservations_released'', DInt (int (length (nodeRoutedSubnets node)))),
           (''certificate_material_removed'', DBool True), (''agent_credentials_invalidated'', DBool True),
           (''all_certificate_records_expired'', DBool True), (''config_revision'', DInt revision)]"

definition archiveNode ::
  "string \<Rightarrow> time \<Rightarrow> Actor option \<Rightarrow> string \<Rightarrow> int \<Rightarrow> string \<Rightarrow> State \<Rightarrow> (ArchivedNode \<times> State) result" where
  "archiveNode eid now actor ident expectedConfigRevision confirmationName state =
     (let ident = TrimSpace ident in
      guard_result (validPersistedID ident \<and> 1 \<le> expectedConfigRevision \<and> namePattern confirmationName) ErrInvalid
     (guard_result (now \<noteq> 0) ErrInvalid
      (case find_node_idx state ident of
         None \<Rightarrow> Inl ErrNotFound
       | Some k \<Rightarrow>
           (let node = Nodes state ! k in
            guard_result (nodeStatus node = ''revoked'' \<and> nodeRevokedAt node \<noteq> None) ErrConflict
           (guard_result (nodeName node = confirmationName) ErrConflict
            (case find_network_idx state (nodeNetworkID node) of
               None \<Rightarrow> Inl ErrNotFound
             | Some i \<Rightarrow>
                 (let network = Networks state ! i;
                      issuances = filter (\<lambda>x. isNodeID x = nodeID node) (Issuances state);
                      revocations = filter (\<lambda>x. rvNodeID x = nodeID node) (Revocations state);
                      lastExpiry = last_expiry node issuances revocations;
                      enrollmentRecords = int (length (filter (\<lambda>x. enrNodeID x = nodeID node) (Enrollments state)));
                      recoveryRecords = int (length (filter (\<lambda>x. recNodeID x = nodeID node) (AgentRecoveries state))) in
                  guard_result (netConfigRevision network = expectedConfigRevision) ErrConflict
                 (guard_result (\<not> (firewallPolicyReferencesNode (netFirewallPolicy network) (nodeID node) \<or>
                     roPhase (netFirewallRollout network) \<noteq> [] \<and>
                     firewallPolicyReferencesNode (roTargetPolicy (netFirewallRollout network)) (nodeID node))) ErrConflict
                 (guard_result (archive_allowed now node issuances revocations) ErrConflict
                 (bind_result (nextConfigRevision (netConfigRevision network) (revocations \<noteq> [])) (\<lambda>revision.
                  let network' = (if revocations = [] then network
                        else network\<lparr>netConfigRevision := revision, netConfigUpdatedAt := now\<rparr>) in
                  bind_result (newOptionalAttributedAudit eid now ''node.archived'' ''node'' (nodeID node)
                      (archive_details node lastExpiry enrollmentRecords recoveryRecords (int (length issuances)) (int (length revocations)) revision)
                      actor) (\<lambda>event.
                  Inr (\<lparr>anNodeID = nodeID node, anNetworkID = nodeNetworkID node, anName = nodeName node, anIP = nodeIP node,
                        anRole = nodeRole node, anRevokedAt = valueOrZero (nodeRevokedAt node), anArchivedAt = now,
                        anLastCertificateExpiredAt = (if lastExpiry = 0 then None else Some lastExpiry),
                        anEnrollmentRecordsRemoved = enrollmentRecords, anAgentRecoveryRecordsRemoved = recoveryRecords,
                        anCertificateIssuancesRemoved = int (length issuances), anRevocationsRemoved = int (length revocations),
                        anBlocklistEntriesRemoved = int (length revocations),
                        anRoutedSubnetReservationsReleased = int (length (nodeRoutedSubnets node)), anConfigRevision = revision\<rparr>,
                    add_audit ((set_network state i network')\<lparr>Enrollments := deleteEnrollmentsForNodes (Enrollments state) [nodeID node],
                      AgentRecoveries := deleteRecoveriesForNodes (AgentRecoveries state) [nodeID node],
                      Issuances := deleteIssuancesForNode (Issuances state) (nodeID node),
                      Revocations := deleteRevocationsForNode (Revocations state) (nodeID node),
                      Nodes := remove_nth k (Nodes state)\<rparr>) event)))))))))))))"

definition ArchiveNodeAs ::
  "string \<Rightarrow> time \<Rightarrow> Actor \<Rightarrow> string \<Rightarrow> int \<Rightarrow> string \<Rightarrow> State \<Rightarrow> (ArchivedNode \<times> State) result" where
  "ArchiveNodeAs eid now actor ident expectedConfigRevision confirmationName state =
     bind_result (validateActor actor) (\<lambda>_. archiveNode eid now (Some actor) ident expectedConfigRevision confirmationName state)"

definition or_default :: "'a \<Rightarrow> 'a option \<Rightarrow> 'a" where
  "or_default d v = (case v of None \<Rightarrow> d | Some x \<Rightarrow> x)"

definition archive_keys :: "string list" where
  "archive_keys =
     [''network_id'', ''name'', ''ip'', ''role'', ''revoked_at'', ''enrolled'', ''last_certificate_expired_at'', ''enrollment_records_removed'',
      ''agent_recovery_records_removed'', ''certificate_issuances_removed'', ''revocations_removed'', ''blocklist_entries_removed'',
      ''routed_subnet_reservations_released'', ''certificate_material_removed'', ''agent_credentials_invalidated'',
      ''all_certificate_records_expired'', ''config_revision'']"

definition tombstone_identity_ok :: "AuditEvent \<Rightarrow> bool" where
  "tombstone_identity_ok event =
     ((case detail_string (detail event ''network_id'') of None \<Rightarrow> False | Some v \<Rightarrow> validPersistedID v) \<and>
      (case detail_string (detail event ''name'') of None \<Rightarrow> False | Some v \<Rightarrow> namePattern v) \<and>
      (case detail_string (detail event ''ip'') of None \<Rightarrow> False | Some v \<Rightarrow> canonical_ipv4 v) \<and>
      (case detail_string (detail event ''role'') of None \<Rightarrow> False | Some v \<Rightarrow> node_role v) \<and>
      (case auditRFC3339Time (detail event ''revoked_at'') of None \<Rightarrow> False | Some t \<Rightarrow> t \<le> evAt event) \<and>
      detail_string (detail event ''last_certificate_expired_at'') \<noteq> None \<and> detail_bool (detail event ''enrolled'') \<noteq> None \<and>
      (case auditNonNegativeInteger (detail event ''config_revision'') of None \<Rightarrow> False | Some n \<Rightarrow> 1 \<le> n))"

definition validateArchivedNodeTombstone :: "AuditEvent \<Rightarrow> unit result" where
  "validateArchivedNodeTombstone event =
     (let n = (\<lambda>k. auditNonNegativeInteger (detail event k));
          counts = [''enrollment_records_removed'', ''agent_recovery_records_removed'', ''certificate_issuances_removed'',
            ''revocations_removed'', ''blocklist_entries_removed'', ''routed_subnet_reservations_released''];
          lastExpiryText = or_default [] (detail_string (detail event ''last_certificate_expired_at'')) in
      guard_result (details_exact archive_keys event) ErrInternal
     (guard_result (tombstone_identity_ok event) ErrInternal
     (guard_result (list_all (\<lambda>k. n k \<noteq> None) counts) ErrInternal
     (guard_result (n ''blocklist_entries_removed'' = n ''revocations_removed'' \<and> or_default 0 (n ''routed_subnet_reservations_released'') \<le> 8) ErrInternal
     (guard_result (list_all (\<lambda>k. detail_bool (detail event k) = Some True)
         [''certificate_material_removed'', ''agent_credentials_invalidated'', ''all_certificate_records_expired'']) ErrInternal
     (if detail_bool (detail event ''enrolled'') \<noteq> Some True
      then guard_result (lastExpiryText = [] \<and> n ''certificate_issuances_removed'' = Some 0 \<and> n ''revocations_removed'' = Some 0) ErrInternal (Inr ())
      else guard_result (case parseRFC3339 lastExpiryText of None \<Rightarrow> False
          | Some lastExpiry \<Rightarrow> 1 \<le> or_default 0 (n ''certificate_issuances_removed'') \<and> 1 \<le> or_default 0 (n ''revocations_removed'') \<and>
              lastExpiry + nodeArchiveCertificateSafetyMargin \<le> evAt event) ErrInternal (Inr ())))))))"

fun tombstones_ok :: "State \<Rightarrow> string list \<Rightarrow> AuditEvent list \<Rightarrow> unit result" where
  "tombstones_ok state archived [] = Inr ()"
| "tombstones_ok state archived (event # events) =
     (if evAction event \<noteq> ''node.archived'' then tombstones_ok state archived events
      else guard_result (evResource event = ''node'' \<and> validPersistedID (evResourceID event)) ErrInternal
          (guard_result (evResourceID event \<notin> set archived) ErrInternal
          (guard_result (findNode state (evResourceID event) = None) ErrInternal
          (bind_result (validateArchivedNodeTombstone event) (\<lambda>_.
           tombstones_ok state (evResourceID event # archived) events)))))"

definition validateArchivedNodeTombstones :: "State \<Rightarrow> unit result" where
  "validateArchivedNodeTombstones state = tombstones_ok state [] (Audit state)"

section \<open>Retiring a network\<close>

record RetiredNetwork =
  rtNetworkID :: string
  rtName :: string
  rtCIDR :: string
  rtConfigRevision :: int
  rtRetiredAt :: time
  rtNodeCount :: int
  rtPendingNodes :: int
  rtActiveNodes :: int
  rtRevokedNodes :: int
  rtCredentialsInvalidated :: bool
  rtEncryptedKeyMaterialRemoved :: bool
  rtNameCIDRPermanentlyReserved :: bool
  rtNodeIDs :: "string list"

record retiredNetworkReservation =
  rsvID :: string
  rsvName :: string
  rsvCIDR :: string
  rsvConfigRevision :: int
  rsvNodeCount :: int
  rsvPendingNodes :: int
  rsvActiveNodes :: int
  rsvRevokedNodes :: int

definition deleteNodesForNetwork :: "Node list \<Rightarrow> string \<Rightarrow> Node list" where
  "deleteNodesForNetwork xs network = filter (\<lambda>x. nodeNetworkID x \<noteq> network) xs"

definition deleteIssuancesForNetwork :: "CertificateIssuance list \<Rightarrow> string \<Rightarrow> CertificateIssuance list" where
  "deleteIssuancesForNetwork xs network = filter (\<lambda>x. isNetworkID x \<noteq> network) xs"

definition deleteRevocationsForNetwork :: "CertificateRevocation list \<Rightarrow> string \<Rightarrow> CertificateRevocation list" where
  "deleteRevocationsForNetwork xs network = filter (\<lambda>x. rvNetworkID x \<noteq> network) xs"

definition retire_details :: "Network \<Rightarrow> int \<Rightarrow> int \<Rightarrow> int \<Rightarrow> int \<Rightarrow> int \<Rightarrow> int \<Rightarrow> int \<Rightarrow> int \<Rightarrow> details" where
  "retire_details network nodeCount pendingNodes activeNodes revokedNodes enrollmentRecords recoveryRecords issuanceRecords revocationRecords =
     Some [(''name'', DStr (netName network)), (''cidr'', DStr (netCIDR network)), (''config_revision'', DInt (netConfigRevision network)),
           (''node_count'', DInt nodeCount), (''pending_nodes'', DInt pendingNodes), (''active_nodes'', DInt activeNodes),
           (''revoked_nodes'', DInt revokedNodes), (''enrollment_records_removed'', DInt enrollmentRecords),
           (''agent_recovery_records_removed'', DInt recoveryRecords), (''certificate_issuances_removed'', DInt issuanceRecords),
           (''revocations_removed'', DInt revocationRecords), (''credentials_invalidated'', DBool True),
           (''encrypted_key_material_removed'', DBool True), (''name_cidr_permanently_reserved'', DBool True)]"

definition retireNetwork ::
  "string \<Rightarrow> time \<Rightarrow> Actor option \<Rightarrow> string \<Rightarrow> int \<Rightarrow> string \<Rightarrow> State \<Rightarrow> (RetiredNetwork \<times> State) result" where
  "retireNetwork eid now actor ident expectedConfigRevision confirmationName state =
     guard_result (validPersistedID ident \<and> 1 \<le> expectedConfigRevision \<and> namePattern confirmationName) ErrInvalid
    (guard_result (now \<noteq> 0) ErrInvalid
     (case find_network_idx state ident of
        None \<Rightarrow> Inl ErrNotFound
      | Some i \<Rightarrow>
          (let network = Networks state ! i; own = filter (\<lambda>n. nodeNetworkID n = ident) (Nodes state);
               nodeIDs = sort (remdups (map nodeID own));
               count = (\<lambda>status. int (length (filter (\<lambda>n. nodeStatus n = status) own))) in
           guard_result (netName network = confirmationName) ErrConflict
          (guard_result (netConfigRevision network = expectedConfigRevision) ErrConflict
          (bind_result (newOptionalAttributedAudit eid now ''network.retired'' ''network'' ident
              (retire_details network (int (length nodeIDs)) (count ''pending'') (count ''active'') (count ''revoked'')
                (int (length (filter (\<lambda>e. enrNodeID e \<in> set nodeIDs) (Enrollments state))))
                (int (length (filter (\<lambda>r. recNodeID r \<in> set nodeIDs) (AgentRecoveries state))))
                (int (length (filter (\<lambda>x. isNetworkID x = ident) (Issuances state))))
                (int (length (filter (\<lambda>x. rvNetworkID x = ident) (Revocations state))))) actor) (\<lambda>event.
           Inr (\<lparr>rtNetworkID = netID network, rtName = netName network, rtCIDR = netCIDR network, rtConfigRevision = netConfigRevision network,
                 rtRetiredAt = now, rtNodeCount = int (length nodeIDs), rtPendingNodes = count ''pending'', rtActiveNodes = count ''active'',
                 rtRevokedNodes = count ''revoked'', rtCredentialsInvalidated = True, rtEncryptedKeyMaterialRemoved = True,
                 rtNameCIDRPermanentlyReserved = True, rtNodeIDs = nodeIDs\<rparr>,
             add_audit (state\<lparr>Networks := remove_nth i (Networks state), Nodes := deleteNodesForNetwork (Nodes state) ident,
               Enrollments := deleteEnrollmentsForNodes (Enrollments state) nodeIDs,
               AgentRecoveries := deleteRecoveriesForNodes (AgentRecoveries state) nodeIDs,
               Issuances := deleteIssuancesForNetwork (Issuances state) ident,
               Revocations := deleteRevocationsForNetwork (Revocations state) ident\<rparr>) event)))))))"

definition RetireNetworkAs ::
  "string \<Rightarrow> time \<Rightarrow> Actor \<Rightarrow> string \<Rightarrow> int \<Rightarrow> string \<Rightarrow> State \<Rightarrow> (RetiredNetwork \<times> State) result" where
  "RetireNetworkAs eid now actor ident expectedConfigRevision confirmationName state =
     bind_result (validateActor actor) (\<lambda>_. retireNetwork eid now (Some actor) ident expectedConfigRevision confirmationName state)"

section \<open>Reservations\<close>

text \<open>\<^verbatim>\<open>IPNet.String()\<close> of a parsed IPv4 network.\<close>

definition IPNet_String :: "IPNet \<Rightarrow> string" where
  "IPNet_String n = IP_String (ipnetIP n) @ ''/'' @ itoa (fst (mask_size (ipnetMask n)))"

definition network_prefix_ok :: "IPNet \<Rightarrow> bool" where
  "network_prefix_ok n = (let (ones, bits) = mask_size (ipnetMask n) in bits = 32 \<and> 16 \<le> ones \<and> ones \<le> 28)"

definition validRetiredNetworkCIDR :: "string \<Rightarrow> bool" where
  "validRetiredNetworkCIDR v =
     (case ParseCIDR v of
        None \<Rightarrow> False
      | Some (ip, cidr) \<Rightarrow> To4 ip \<noteq> None \<and> IPNet_String cidr = v \<and> network_prefix_ok cidr)"

definition parseRetiredNetworkReservation :: "AuditEvent \<Rightarrow> retiredNetworkReservation option result" where
  "parseRetiredNetworkReservation event =
     (if evAction event \<noteq> ''network.retired'' then Inr None
      else let n = (\<lambda>k. auditNonNegativeInteger (detail event k)) in
        guard_result (evResource event = ''network'') ErrInternal
        (case (detail_string (detail event ''name''), detail_string (detail event ''cidr'')) of
           (Some name, Some cidr) \<Rightarrow>
             guard_result (namePattern name \<and> validRetiredNetworkCIDR cidr) ErrInternal
            (guard_result (list_all (\<lambda>k. n k \<noteq> None)
                [''enrollment_records_removed'', ''agent_recovery_records_removed'', ''certificate_issuances_removed'', ''revocations_removed'']) ErrInternal
             (case (n ''config_revision'', n ''node_count'', n ''pending_nodes'', n ''active_nodes'', n ''revoked_nodes'') of
                (Some configRevision, Some nodeCount, Some pendingNodes, Some activeNodes, Some revokedNodes) \<Rightarrow>
                  guard_result (1 \<le> configRevision \<and> wrap64 (pendingNodes + activeNodes + revokedNodes) = nodeCount) ErrInternal
                 (guard_result (list_all (\<lambda>k. detail_bool (detail event k) = Some True)
                     [''credentials_invalidated'', ''encrypted_key_material_removed'', ''name_cidr_permanently_reserved'']) ErrInternal
                  (Inr (Some \<lparr>rsvID = evResourceID event, rsvName = name, rsvCIDR = cidr, rsvConfigRevision = configRevision,
                     rsvNodeCount = nodeCount, rsvPendingNodes = pendingNodes, rsvActiveNodes = activeNodes, rsvRevokedNodes = revokedNodes\<rparr>)))
              | _ \<Rightarrow> Inl ErrInternal))
         | _ \<Rightarrow> Inl ErrInternal))"

fun reservation_conflict :: "string \<Rightarrow> string \<Rightarrow> AuditEvent list \<Rightarrow> bool result" where
  "reservation_conflict name cidr [] = Inr False"
| "reservation_conflict name cidr (event # events) =
     bind_result (parseRetiredNetworkReservation event) (\<lambda>found.
       case found of
         Some r \<Rightarrow> if EqualFold (rsvName r) name \<or> cidrsOverlap (rsvCIDR r) cidr then Inr True
                   else reservation_conflict name cidr events
       | None \<Rightarrow> reservation_conflict name cidr events)"

definition retiredNetworkReservationConflict :: "State \<Rightarrow> string \<Rightarrow> string \<Rightarrow> bool result" where
  "retiredNetworkReservationConflict state name cidr = reservation_conflict name cidr (Audit state)"

definition reservation_clash :: "retiredNetworkReservation \<Rightarrow> string \<Rightarrow> string \<Rightarrow> string \<Rightarrow> bool" where
  "reservation_clash r ident name cidr = (ident = rsvID r \<or> EqualFold name (rsvName r) \<or> cidrsOverlap cidr (rsvCIDR r))"

fun reservations_ok :: "Network list \<Rightarrow> retiredNetworkReservation list \<Rightarrow> AuditEvent list \<Rightarrow> unit result" where
  "reservations_ok networks seen [] = Inr ()"
| "reservations_ok networks seen (event # events) =
     bind_result (parseRetiredNetworkReservation event) (\<lambda>found.
       case found of
         None \<Rightarrow> reservations_ok networks seen events
       | Some r \<Rightarrow>
           guard_result (\<not> list_ex (\<lambda>n. reservation_clash r (netID n) (netName n) (netCIDR n)) networks) ErrInternal
          (guard_result (\<not> list_ex (\<lambda>p. reservation_clash r (rsvID p) (rsvName p) (rsvCIDR p)) seen) ErrInternal
           (reservations_ok networks (seen @ [r]) events)))"

definition validateRetiredNetworkReservations :: "State \<Rightarrow> unit result" where
  "validateRetiredNetworkReservations state = reservations_ok (Networks state) [] (Audit state)"
section \<open>What a committed call did\<close>

lemma archiveNode_ok:
  assumes "archiveNode eid now actor ident expected name s = Inr (r, s')"
  obtains k v i n ev where "find_node_idx s (TrimSpace ident) = Some k" "v = Nodes s ! k" "nodeStatus v = ''revoked''"
    "find_network_idx s (nodeNetworkID v) = Some i" "same_trust (Networks s ! i) n"
    "archive_allowed now v (filter (\<lambda>x. isNodeID x = nodeID v) (Issuances s)) (filter (\<lambda>x. rvNodeID x = nodeID v) (Revocations s))"
    "s' = add_audit (s\<lparr>Networks := (Networks s)[i := n], Enrollments := filter (\<lambda>x. enrNodeID x \<noteq> nodeID v) (Enrollments s),
       AgentRecoveries := filter (\<lambda>x. recNodeID x \<noteq> nodeID v) (AgentRecoveries s),
       Issuances := filter (\<lambda>x. isNodeID x \<noteq> nodeID v) (Issuances s), Revocations := filter (\<lambda>x. rvNodeID x \<noteq> nodeID v) (Revocations s),
       Nodes := remove_nth k (Nodes s)\<rparr>) ev"
    "evAction ev = ''node.archived''" "evResourceID ev = nodeID v"
    "n = (if filter (\<lambda>x. rvNodeID x = nodeID v) (Revocations s) = [] then Networks s ! i
       else (Networks s ! i)\<lparr>netConfigRevision := netConfigRevision (Networks s ! i) + 1, netConfigUpdatedAt := now\<rparr>)"
proof -
  from assms obtain k i where k: "find_node_idx s (TrimSpace ident) = Some k" "nodeStatus (Nodes s ! k) = ''revoked''"
    and i: "find_network_idx s (nodeNetworkID (Nodes s ! k)) = Some i"
    by (auto simp: archiveNode_def Let_def split: option.splits)
  let ?v = "Nodes s ! k" and ?n = "Networks s ! i"
  let ?is = "filter (\<lambda>x. isNodeID x = nodeID ?v) (Issuances s)" and ?rs = "filter (\<lambda>x. rvNodeID x = nodeID ?v) (Revocations s)"
  from assms k(1) i obtain rev ev ds where ok: "archive_allowed now ?v ?is ?rs"
    and ev: "newOptionalAttributedAudit eid now ''node.archived'' ''node'' (nodeID ?v) (Some ds) actor = Inr ev"
    and s': "s' = add_audit ((set_network s i (if ?rs = [] then ?n else ?n\<lparr>netConfigRevision := rev, netConfigUpdatedAt := now\<rparr>))\<lparr>
        Enrollments := deleteEnrollmentsForNodes (Enrollments s) [nodeID ?v], AgentRecoveries := deleteRecoveriesForNodes (AgentRecoveries s) [nodeID ?v],
        Issuances := deleteIssuancesForNode (Issuances s) (nodeID ?v), Revocations := deleteRevocationsForNode (Revocations s) (nodeID ?v),
        Nodes := remove_nth k (Nodes s)\<rparr>) ev" and rev: "nextConfigRevision (netConfigRevision ?n) (?rs \<noteq> []) = Inr rev"
    by (auto simp: archiveNode_def Let_def archive_details_def)
  have rev': "?rs \<noteq> [] \<Longrightarrow> rev = netConfigRevision ?n + 1" using rev by (simp add: nextConfigRevision_def split: if_splits)
  from ev have "evAction ev = ''node.archived''" "evResourceID ev = nodeID ?v" by (rule attributed_details; simp)+
  with ok s' rev' show thesis
    by (intro that [OF k(1) refl k(2) i, of "if ?rs = [] then ?n else ?n\<lparr>netConfigRevision := rev, netConfigUpdatedAt := now\<rparr>" ev])
       (simp_all add: set_network_def deleteEnrollmentsForNodes_def deleteRecoveriesForNodes_def deleteIssuancesForNode_def
         deleteRevocationsForNode_def same_trust_def)
qed

lemma retireNetwork_ok:
  assumes "retireNetwork eid now actor ident expected name s = Inr (r, s')"
  obtains i ids ev ds where "find_network_idx s ident = Some i" "netName (Networks s ! i) = name"
    "set ids = nodeID ` {n \<in> set (Nodes s). nodeNetworkID n = ident}"
    "s' = add_audit (s\<lparr>Networks := remove_nth i (Networks s), Nodes := filter (\<lambda>n. nodeNetworkID n \<noteq> ident) (Nodes s),
       Enrollments := filter (\<lambda>x. enrNodeID x \<notin> set ids) (Enrollments s), AgentRecoveries := filter (\<lambda>x. recNodeID x \<notin> set ids) (AgentRecoveries s),
       Issuances := filter (\<lambda>x. isNetworkID x \<noteq> ident) (Issuances s), Revocations := filter (\<lambda>x. rvNetworkID x \<noteq> ident) (Revocations s)\<rparr>) ev"
    "evAction ev = ''network.retired''" "evResourceID ev = ident"
    "evDetails ev = Some ((''name'', DStr name) # (''cidr'', DStr (netCIDR (Networks s ! i))) # ds)"
proof -
  from assms obtain i where i: "find_network_idx s ident = Some i" "netName (Networks s ! i) = name"
    by (auto simp: retireNetwork_def Let_def split: option.splits)
  let ?ids = "sort (remdups (map nodeID (filter (\<lambda>n. nodeNetworkID n = ident) (Nodes s))))"
  from assms i obtain ev a b c d e f g h where
      ev: "newOptionalAttributedAudit eid now ''network.retired'' ''network'' ident (retire_details (Networks s ! i) a b c d e f g h) actor = Inr ev"
    and s': "s' = add_audit (s\<lparr>Networks := remove_nth i (Networks s), Nodes := filter (\<lambda>n. nodeNetworkID n \<noteq> ident) (Nodes s),
       Enrollments := filter (\<lambda>x. enrNodeID x \<notin> set ?ids) (Enrollments s), AgentRecoveries := filter (\<lambda>x. recNodeID x \<notin> set ?ids) (AgentRecoveries s),
       Issuances := filter (\<lambda>x. isNetworkID x \<noteq> ident) (Issuances s), Revocations := filter (\<lambda>x. rvNetworkID x \<noteq> ident) (Revocations s)\<rparr>) ev"
    by (auto simp: retireNetwork_def Let_def deleteNodesForNetwork_def deleteEnrollmentsForNodes_def deleteRecoveriesForNodes_def
        deleteIssuancesForNetwork_def deleteRevocationsForNetwork_def simp del: set_sort set_remdups set_map)
  obtain extra where x: "evDetails ev = Some (elems (retire_details (Networks s ! i) a b c d e f g h) @ extra)"
      "evAction ev = ''network.retired''" "evResourceID ev = ident"
    by (rule attributed_details [OF ev]) (simp_all add: retire_details_def)
  then obtain ds where "evDetails ev = Some ((''name'', DStr name) # (''cidr'', DStr (netCIDR (Networks s ! i))) # ds)"
    using i(2) by (simp add: retire_details_def elems_def)
  then show thesis by (intro that [OF i _ s' x(2,3)]) auto
qed

section \<open>Invariants\<close>

lemma archive_inv:
  assumes "archiveNode eid now actor ident expected name s = Inr (r, s')" "control_inv sha s"
  shows "control_inv sha s'"
  using assms(1)
proof (rule archiveNode_ok)
  fix k v i n ev
  assume k: "find_node_idx s (TrimSpace ident) = Some k" and i: "find_network_idx s (nodeNetworkID v) = Some i" "same_trust (Networks s ! i) n"
    and s': "s' = add_audit (s\<lparr>Networks := (Networks s)[i := n], Enrollments := filter (\<lambda>x. enrNodeID x \<noteq> nodeID v) (Enrollments s),
       AgentRecoveries := filter (\<lambda>x. recNodeID x \<noteq> nodeID v) (AgentRecoveries s),
       Issuances := filter (\<lambda>x. isNodeID x \<noteq> nodeID v) (Issuances s), Revocations := filter (\<lambda>x. rvNodeID x \<noteq> nodeID v) (Revocations s),
       Nodes := remove_nth k (Nodes s)\<rparr>) ev"
  have nets: "list_all2 same_trust (Networks s) ((Networks s)[i := n])"
    using i find_network_idx_lt by (intro list_all2_update) (simp_all add: list_all2_refl)
  show ?thesis
  proof (rule shrink_inv [OF assms(2)])
    show "\<forall>n' \<in> set (Networks s'). \<exists>n \<in> set (Networks s). same_trust n n'" using list_all2_ex1 [OF nets] by (simp add: s')
    have "map netID ((Networks s)[i := n]) = map netID (Networks s)" using list_all2_map_same [OF nets, of netID] by (simp add: same_trust_def)
    then show "distinct (map netID (Networks s'))" using control_invD(5) [OF assms(2)] by (simp add: s')
    show "mset (Nodes s') \<subseteq># mset (Nodes s)" using set_remove_nth [OF find_idx_lt [OF k [unfolded find_node_idx_def]]] by (simp add: s')
  qed (simp_all add: s' filter_mset_map del: mset_map)
qed

lemma retire_inv:
  assumes "retireNetwork eid now actor ident expected name s = Inr (r, s')" "control_inv sha s"
  shows "control_inv sha s'"
  using assms(1)
proof (rule retireNetwork_ok)
  fix i ids ev ds
  assume i: "find_network_idx s ident = Some i"
    and s': "s' = add_audit (s\<lparr>Networks := remove_nth i (Networks s), Nodes := filter (\<lambda>n. nodeNetworkID n \<noteq> ident) (Nodes s),
       Enrollments := filter (\<lambda>x. enrNodeID x \<notin> set ids) (Enrollments s), AgentRecoveries := filter (\<lambda>x. recNodeID x \<notin> set ids) (AgentRecoveries s),
       Issuances := filter (\<lambda>x. isNetworkID x \<noteq> ident) (Issuances s), Revocations := filter (\<lambda>x. rvNetworkID x \<noteq> ident) (Revocations s)\<rparr>) ev"
  have sub: "mset (remove_nth i (Networks s)) \<subseteq># mset (Networks s)" using find_network_idx_lt [OF i] by (rule set_remove_nth)
  show ?thesis
  proof (rule shrink_inv [OF assms(2)])
    show "\<forall>n' \<in> set (Networks s'). \<exists>n \<in> set (Networks s). same_trust n n'"
      using set_mset_mono [OF sub] by (auto simp: s' intro: same_refl)
    show "distinct (map netID (Networks s'))"
      using distinct_mset_mono [of "map netID (remove_nth i (Networks s))" "map netID (Networks s)"] control_invD(5) [OF assms(2)]
        image_mset_subseteq_mono [OF sub, of netID] by (simp add: s')
    show "mset (Nodes s') \<subseteq># mset (Nodes s)" by (simp add: s' mset_filter multiset_filter_subset)
  qed (simp_all add: s' filter_mset_map del: mset_map)
qed

section \<open>Expiry\<close>

lemma later_of_ge: "a \<le> later_of a b" "b \<le> later_of a b"
  by (simp_all add: later_of_def)

lemma fold_later: "t \<le> fold (\<lambda>x t. later_of t (f x)) xs t \<and> (\<forall>x \<in> set xs. f x \<le> fold (\<lambda>x t. later_of t (f x)) xs t)"
proof (induction xs arbitrary: t)
  case (Cons x xs)
  from Cons [of "later_of t (f x)"] later_of_ge(1) [of t "f x"] later_of_ge(2) [of "f x" t] show ?case by (auto intro: order_trans)
qed simp

lemma archive_expired:
  assumes "archive_allowed now v issuances revocations"
  shows "\<forall>i \<in> set issuances. isExpiresAt i + 5 * minute \<le> now"
    and "\<forall>r \<in> set revocations. \<exists>t. rvExpiresAt r = Some t \<and> t + 5 * minute \<le> now"
    and "nodeEnrolledAt v \<noteq> None \<Longrightarrow> valueOrZero (nodeCertificateExpiresAt v) + 5 * minute \<le> now"
proof -
  let ?t = "fold (\<lambda>i t. later_of t (isExpiresAt i)) issuances (valueOrZero (nodeCertificateExpiresAt v))"
  let ?l = "last_expiry v issuances revocations"
  have i: "\<forall>i \<in> set issuances. isExpiresAt i \<le> ?l" and c: "valueOrZero (nodeCertificateExpiresAt v) \<le> ?l" and r: "\<forall>r \<in> set revocations. valueOrZero (rvExpiresAt r) \<le> ?l"
    using fold_later [of ?t "\<lambda>r. valueOrZero (rvExpiresAt r)" revocations]
      fold_later [of "valueOrZero (nodeCertificateExpiresAt v)" isExpiresAt issuances] unfolding last_expiry_def by (auto intro: order_trans)
  have bound: "issuances = [] \<and> revocations = [] \<or> ?l + 5 * minute \<le> now" and some: "\<forall>r \<in> set revocations. rvExpiresAt r \<noteq> None"
    using assms by (auto simp: archive_allowed_def Let_def list_all_iff split: if_splits)
  show "\<forall>i \<in> set issuances. isExpiresAt i + 5 * minute \<le> now" using i bound by auto
  show "valueOrZero (nodeCertificateExpiresAt v) + 5 * minute \<le> now" if "nodeEnrolledAt v \<noteq> None"
    using that assms c by (auto simp: archive_allowed_def Let_def)
  show "\<forall>r \<in> set revocations. \<exists>t. rvExpiresAt r = Some t \<and> t + 5 * minute \<le> now"
  proof
    fix q assume q: "q \<in> set revocations"
    with some obtain t where t: "rvExpiresAt q = Some t" by blast
    with r q have "t \<le> ?l" by (auto simp: valueOrZero_def)
    with bound q t show "\<exists>t. rvExpiresAt q = Some t \<and> t + 5 * minute \<le> now" by auto
  qed
qed

lemma remove_nth_filter:
  assumes "distinct (map f xs)" "k < length xs"
  shows "remove_nth k xs = filter (\<lambda>x. f x \<noteq> f (xs ! k)) xs"
proof -
  have split: "xs = take k xs @ xs ! k # drop (Suc k) xs" using assms(2) by (rule id_take_nth_drop)
  have "f (xs ! k) \<notin> f ` set (take k xs)" "f (xs ! k) \<notin> f ` set (drop (Suc k) xs)"
    using assms(1) by (subst (asm) (1) split, simp add: distinct_map)+
  then have "filter (\<lambda>x. f x \<noteq> f (xs ! k)) (take k xs) = take k xs" "filter (\<lambda>x. f x \<noteq> f (xs ! k)) (drop (Suc k) xs) = drop (Suc k) xs"
    by (auto simp: filter_id_conv image_iff)
  moreover have "filter (\<lambda>x. f x \<noteq> f (xs ! k)) xs =
      filter (\<lambda>x. f x \<noteq> f (xs ! k)) (take k xs) @ filter (\<lambda>x. f x \<noteq> f (xs ! k)) (drop (Suc k) xs)"
    by (subst split, subst filter_append) simp
  ultimately show ?thesis by (simp add: remove_nth_def)
qed

lemma update_as_map:
  assumes "distinct (map f xs)" "i < length xs"
  shows "xs[i := g (xs ! i)] = map (\<lambda>x. if f x = f (xs ! i) then g x else x) xs"
proof (rule nth_equalityI)
  fix j assume "j < length (xs[i := g (xs ! i)])"
  then have j: "j < length xs" by simp
  have "f (xs ! j) = f (xs ! i) \<longleftrightarrow> j = i" using nth_eq_iff_index_eq [OF assms(1), of j i] j assms(2) by simp
  with j show "xs[i := g (xs ! i)] ! j = map (\<lambda>x. if f x = f (xs ! i) then g x else x) xs ! j" by (simp add: nth_list_update)
qed simp

section \<open>A certificate long expired\<close>

definition gone_node :: Node where
  "gone_node = revoked_node (300 * hour) race_member"

definition gone_state :: State where
  "gone_state = race_state\<lparr>Nodes := [gone_node],
     Issuances := [\<lparr>isFingerprint = hex_string (replicate 32 5), isNodeID = ''member'', isNetworkID = ''net'', isIssuedAt = 100 * hour, isExpiresAt = 400 * hour\<rparr>],
     Revocations := [\<lparr>rvFingerprint = hex_string (replicate 32 5), rvNodeID = ''member'', rvNetworkID = ''net'', rvReason = ''node revoked'',
       rvAt = 300 * hour, rvExpiresAt = Some (400 * hour)\<rparr>]\<rparr>"

lemma gone_inv: "control_inv wide_sha gone_state"
proof (rule node_update_inv [OF race_inv, where k = 0 and v' = gone_node and H = "{#}"])
  show "node_lifecycle_ok gone_node" by (simp add: gone_node_def node_lifecycle_ok_def revoked_shape_def) (simp add: revoked_node_def)
qed (simp_all add: gone_state_def gone_node_def inactive_authority_ok node_hashes_def list_all2_refl)

lemma gone_ok: "\<exists>r s'. archiveNode ''event'' (1000 * hour) None ''member'' 7 ''member'' gone_state = Inr (r, s')"
proof -
  have "case archiveNode ''event'' (1000 * hour) None ''member'' 7 ''member'' gone_state of Inr p \<Rightarrow> True | _ \<Rightarrow> False" by code_simp
  then show ?thesis by (auto split: sum.splits)
qed

section \<open>Properties\<close>

text \<open>C17. Archiving never shortens a blocklist that still matters and touches nobody else.  A node is removed only when
  it is revoked and its certificate, every certificate it was ever issued and every revocation recorded for it
  expired at least five minutes ago.  The new state is the old one without the node and without its
  enrollments, recoveries, issuances and revocations, with one more audit event; the network of the
  node moves to its next revision exactly if entries left the blocklist; all other records are as they were.\<close>
theorem archival_safe:
  assumes inv: "control_inv sha s" and run: "archiveNode eid now actor ident expected name s = Inr (r, s')"
  shows "\<exists>v ev. findNode s (TrimSpace ident) = Some v \<and> nodeStatus v = ''revoked'' \<and>
    (nodeEnrolledAt v \<noteq> None \<longrightarrow> valueOrZero (nodeCertificateExpiresAt v) + 5 * minute \<le> now) \<and>
    (\<forall>i \<in> set (Issuances s). isNodeID i = nodeID v \<longrightarrow> isExpiresAt i + 5 * minute \<le> now) \<and>
    (\<forall>r \<in> set (Revocations s). rvNodeID r = nodeID v \<longrightarrow> (\<exists>t. rvExpiresAt r = Some t \<and> t + 5 * minute \<le> now)) \<and>
    s' = s\<lparr>Nodes := filter (\<lambda>x. nodeID x \<noteq> nodeID v) (Nodes s), Enrollments := filter (\<lambda>x. enrNodeID x \<noteq> nodeID v) (Enrollments s),
      AgentRecoveries := filter (\<lambda>x. recNodeID x \<noteq> nodeID v) (AgentRecoveries s),
      Issuances := filter (\<lambda>x. isNodeID x \<noteq> nodeID v) (Issuances s), Revocations := filter (\<lambda>x. rvNodeID x \<noteq> nodeID v) (Revocations s),
      Networks := map (\<lambda>n. if netID n = nodeNetworkID v \<and> (\<exists>x \<in> set (Revocations s). rvNodeID x = nodeID v)
        then n\<lparr>netConfigRevision := netConfigRevision n + 1, netConfigUpdatedAt := now\<rparr> else n) (Networks s),
      Audit := Audit s @ [ev]\<rparr>"
  using run
proof (rule archiveNode_ok)
  fix k v i n ev
  assume k: "find_node_idx s (TrimSpace ident) = Some k" "v = Nodes s ! k" "nodeStatus v = ''revoked''"
    and i: "find_network_idx s (nodeNetworkID v) = Some i"
    and ok: "archive_allowed now v (filter (\<lambda>x. isNodeID x = nodeID v) (Issuances s)) (filter (\<lambda>x. rvNodeID x = nodeID v) (Revocations s))"
    and s': "s' = add_audit (s\<lparr>Networks := (Networks s)[i := n], Enrollments := filter (\<lambda>x. enrNodeID x \<noteq> nodeID v) (Enrollments s),
       AgentRecoveries := filter (\<lambda>x. recNodeID x \<noteq> nodeID v) (AgentRecoveries s),
       Issuances := filter (\<lambda>x. isNodeID x \<noteq> nodeID v) (Issuances s), Revocations := filter (\<lambda>x. rvNodeID x \<noteq> nodeID v) (Revocations s),
       Nodes := remove_nth k (Nodes s)\<rparr>) ev"
    and n: "n = (if filter (\<lambda>x. rvNodeID x = nodeID v) (Revocations s) = [] then Networks s ! i
       else (Networks s ! i)\<lparr>netConfigRevision := netConfigRevision (Networks s ! i) + 1, netConfigUpdatedAt := now\<rparr>)"
  note idx = k(1) [unfolded find_node_idx_def]
  have "remove_nth k (Nodes s) = filter (\<lambda>x. nodeID x \<noteq> nodeID v) (Nodes s)"
    unfolding k(2) by (rule remove_nth_filter [OF control_invD(4) [OF inv] find_idx_lt [OF idx]])
  moreover have "(Networks s)[i := n] = map (\<lambda>n. if netID n = nodeNetworkID v \<and> (\<exists>x \<in> set (Revocations s). rvNodeID x = nodeID v)
        then n\<lparr>netConfigRevision := netConfigRevision n + 1, netConfigUpdatedAt := now\<rparr> else n) (Networks s)"
    using update_as_map [OF control_invD(5) [OF inv] find_network_idx_lt [OF i]] find_network_idx_ID [OF i]
    by (auto simp: n filter_empty_conv map_idI)
  moreover have "findNode s (TrimSpace ident) = Some v" using idx k(2) by (simp add: findNode_def find_find_idx)
  ultimately show ?thesis using archive_expired [OF ok] k(3) by (intro exI [of _ v] exI [of _ ev]) (simp add: s' add_audit_def)
qed

theorem archival_safe_witness:
  "\<exists>r s'. archiveNode ''event'' (1000 * hour) None ''member'' 7 ''member'' gone_state = Inr (r, s') \<and> findNode s' ''member'' = None"
proof -
  obtain r s' where run: "archiveNode ''event'' (1000 * hour) None ''member'' 7 ''member'' gone_state = Inr (r, s')" using gone_ok by blast
  have "TrimSpace ''member'' = ''member''" by code_simp
  with archival_safe [OF gone_inv run] obtain v where v: "findNode gone_state ''member'' = Some v"
      "Nodes s' = filter (\<lambda>x. nodeID x \<noteq> nodeID v) (Nodes gone_state)"
    by auto
  then have "findNode s' ''member'' = None" using findNode_SomeD [OF v(1)] by (auto simp: findNode_def find_None_iff)
  with run show ?thesis by blast
qed

end
