(* ===== verification/Mesh_Provision.thy ===== *)
theory Mesh_Provision
  imports Mesh_Archival
begin

text \<open>
  What an administrator creates: networks, pending nodes and their placement, and the plan a holder of an
  enrollment token may read before using it (\<^verbatim>\<open>internal/control/service.go\<close>: \<^verbatim>\<open>createNetwork\<close>, \<^verbatim>\<open>createNode\<close>,
  \<^verbatim>\<open>updateNodeTopology\<close>, \<^verbatim>\<open>validateEndpoint\<close>, \<^verbatim>\<open>normalizeGroups\<close>; \<^verbatim>\<open>internal/control/enrollment_preflight.go\<close>).  The
  certificate authority, its sealed key and the signing key pair come from the issuer, the box and the
  generator; they are arguments.
\<close>

section \<open>Endpoints, groups and labels\<close>

definition validBoundedUTF8 :: "string \<Rightarrow> nat \<Rightarrow> bool \<Rightarrow> bool" where
  "validBoundedUTF8 v maxBytes allowEmpty = ((allowEmpty \<or> v \<noteq> []) \<and> length v \<le> maxBytes \<and> ValidString v)"

definition validBoundedPlainText :: "string \<Rightarrow> nat \<Rightarrow> bool \<Rightarrow> bool" where
  "validBoundedPlainText v maxBytes allowEmpty =
     (validBoundedUTF8 v maxBytes allowEmpty \<and> list_all (\<lambda>c. \<not> c < CHR 0x20 \<and> c \<noteq> CHR 0x7F) v)"

text \<open>\<^verbatim>\<open>net.SplitHostPort\<close>: the port follows the last colon; an address with colons is in brackets.\<close>

definition last_colon :: "string \<Rightarrow> nat option" where
  "last_colon s = map_option (\<lambda>i. length s - 1 - i) (find_idx (\<lambda>c. c = CHR '':'') (List.rev s))"

definition SplitHostPort :: "string \<Rightarrow> (string \<times> string) option" where
  "SplitHostPort s =
     (case last_colon s of
        None \<Rightarrow> None
      | Some i \<Rightarrow>
          if s ! 0 = CHR ''['' then
            (case find_idx (\<lambda>c. c = CHR '']'') s of
               None \<Rightarrow> None
             | Some close \<Rightarrow>
                 if close + 1 = i \<and> CHR ''['' \<notin> set (drop 1 s) \<and> CHR '']'' \<notin> set (drop (close + 1) s)
                 then Some (take (close - 1) (drop 1 s), drop (i + 1) s) else None)
          else if CHR '':'' \<in> set (take i s) \<or> CHR ''['' \<in> set s \<or> CHR '']'' \<in> set s then None
          else Some (take i s, drop (i + 1) s))"

definition ParseIP_ok :: "string \<Rightarrow> bool" where
  "ParseIP_ok s = (ParseAddr s \<noteq> None \<or> parse_v6 s \<noteq> None)"

definition dns_label_ok :: "string \<Rightarrow> bool" where
  "dns_label_ok label =
     (label \<noteq> [] \<and> length label \<le> 63 \<and> hd label \<noteq> CHR ''-'' \<and> last label \<noteq> CHR ''-'' \<and>
      list_all (\<lambda>c. is_alnum c \<or> c = CHR ''-'') label)"

definition validateEndpointHost :: "string \<Rightarrow> unit result" where
  "validateEndpointHost host =
     guard_result (validBoundedPlainText host 253 False) ErrInvalid
    (if ParseIP_ok host then Inr ()
     else let trimmed = (if last host = CHR ''.'' then butlast host else host) in
       guard_result (trimmed \<noteq> [] \<and> list_all dns_label_ok (split_at (CHR ''.'') trimmed)) ErrInvalid (Inr ()))"

definition validateEndpoint :: "string \<Rightarrow> unit result" where
  "validateEndpoint v =
     guard_result (length v \<le> 261 \<and> ValidString v) ErrInvalid
     (case SplitHostPort v of
        None \<Rightarrow> Inl ErrInvalid
      | Some (host, port) \<Rightarrow>
          guard_result (host \<noteq> []) ErrInvalid
         (bind_result (validateEndpointHost host) (\<lambda>_.
          guard_result (port \<noteq> [] \<and> list_all is_digit port \<and> 1 \<le> dec_int port \<and> dec_int port \<le> 65535) ErrInvalid (Inr ()))))"

fun collect_groups :: "string list \<Rightarrow> string list \<Rightarrow> string list result" where
  "collect_groups result [] = Inr result"
| "collect_groups result (g # gs) =
     (let group = TrimSpace g in
      if group = [] then collect_groups result gs
      else guard_result (groupPattern group) ErrInvalid (collect_groups (appendUnique result group) gs))"

definition normalizeGroups :: "string list \<Rightarrow> string list result" where
  "normalizeGroups groups =
     guard_result (length groups \<le> 64) ErrInvalid (bind_result (collect_groups [] groups) (\<lambda>result. Inr (sort result)))"

text \<open>Every node is in the group \<^verbatim>\<open>all\<close>.\<close>

definition canonicalNodeMembershipGroups :: "string list \<Rightarrow> string list result" where
  "canonicalNodeMembershipGroups groups =
     bind_result (normalizeGroups groups) (\<lambda>canonical.
     let canonical = sort (appendUnique canonical ''all'') in
     guard_result (length canonical \<le> 64) ErrInvalid (Inr canonical))"

fun groups_ascend :: "string \<Rightarrow> string list \<Rightarrow> bool" where
  "groups_ascend previous [] = True"
| "groups_ascend previous (g # gs) = (groupPattern g \<and> \<not> (previous \<noteq> [] \<and> g \<le> previous) \<and> groups_ascend g gs)"

definition validCanonicalNodeGroups :: "string list \<Rightarrow> bool" where
  "validCanonicalNodeGroups groups = (groups \<noteq> [] \<and> length groups \<le> 64 \<and> groups_ascend [] groups \<and> ''all'' \<in> set groups)"

definition normalizeTopologyLabel :: "string \<Rightarrow> string result" where
  "normalizeTopologyLabel v =
     (let label = ToLower (TrimSpace v) in
      if label = [] then Inr ''unassigned''
      else guard_result (topologyLabelPattern label) ErrInvalid (Inr label))"

section \<open>Networks\<close>

record CreateNetworkInput =
  cniName :: string
  cniCIDR :: string
  cniListenPort :: int
  cniCertificateTTL :: int

definition maxNebulaCACertificateSize :: nat where
  "maxNebulaCACertificateSize = 131072"

definition maxNebulaCAPrivateKeySize :: nat where
  "maxNebulaCAPrivateKeySize = 4096"

definition validateGeneratedCA :: "string \<Rightarrow> string \<Rightarrow> unit result" where
  "validateGeneratedCA certificate privateKey =
     guard_result (validBoundedUTF8 certificate maxNebulaCACertificateSize False) ErrInternal
    (guard_result (validBoundedUTF8 privateKey maxNebulaCAPrivateKeySize False) ErrInternal (Inr ()))"

text \<open>The request with its defaults, and the canonical text of its range.\<close>

definition canonical_network_input :: "CreateNetworkInput \<Rightarrow> CreateNetworkInput result" where
  "canonical_network_input input =
     (let name = TrimSpace (cniName input);
          port = (if cniListenPort input = 0 then 4242 else cniListenPort input);
          ttl = (if cniCertificateTTL input = 0 then 8760 else cniCertificateTTL input) in
      guard_result (namePattern name) ErrInvalid
      (case ParseCIDR (TrimSpace (cniCIDR input)) of
         None \<Rightarrow> Inl ErrInvalid
       | Some (ip, ipnet) \<Rightarrow>
           guard_result (To4 ip \<noteq> None \<and> network_prefix_ok ipnet) ErrInvalid
          (guard_result (1 \<le> port \<and> port \<le> 65535) ErrInvalid
          (guard_result (24 \<le> ttl \<and> ttl \<le> 8760) ErrInvalid
           (Inr \<lparr>cniName = name, cniCIDR = IPNet_String ipnet, cniListenPort = port, cniCertificateTTL = ttl\<rparr>)))))"

definition network_range_free :: "State \<Rightarrow> string \<Rightarrow> string \<Rightarrow> unit result" where
  "network_range_free state name cidr =
     guard_result (\<not> list_ex (\<lambda>n. EqualFold (netName n) name \<or> cidrsOverlap (netCIDR n) cidr) (Networks state)) ErrConflict
    (bind_result (retiredNetworkReservationConflict state name cidr) (\<lambda>retiredConflict.
     guard_result (\<not> retiredConflict) ErrConflict
    (guard_result (managedCIDROverlapsRoutedSubnet state cidr = None) ErrConflict (Inr ()))))"

text \<open>The first look runs every check before it answers.\<close>

definition network_range_viewed :: "State \<Rightarrow> string \<Rightarrow> string \<Rightarrow> unit result" where
  "network_range_viewed state name cidr =
     bind_result (retiredNetworkReservationConflict state name cidr) (\<lambda>retiredConflict.
     guard_result (\<not> list_ex (\<lambda>n. EqualFold (netName n) name \<or> cidrsOverlap (netCIDR n) cidr) (Networks state) \<and> \<not> retiredConflict \<and>
       managedCIDROverlapsRoutedSubnet state cidr = None) ErrConflict (Inr ()))"

definition new_network :: "CreateNetworkInput \<Rightarrow> string \<Rightarrow> string \<Rightarrow> string \<Rightarrow> string \<Rightarrow> string \<Rightarrow> time \<Rightarrow> Network" where
  "new_network input ident caCert encryptedKey publicKey encryptedSigningKey now =
     zero_network\<lparr>netID := ident, netName := cniName input, netCIDR := cniCIDR input, netFirewallPolicy := defaultManagedFirewallPolicy,
       netListenPort := cniListenPort input, netCertificateTTL := cniCertificateTTL input, netCACertificate := caCert,
       netEncryptedCAKey := encryptedKey, netConfigSigningPublicKey := publicKey, netEncryptedConfigSigningKey := encryptedSigningKey,
       netConfigRevision := 1, netConfigUpdatedAt := now, netCreatedAt := now\<rparr>"

definition commit_network :: "string \<Rightarrow> time \<Rightarrow> Actor option \<Rightarrow> Network \<Rightarrow> State \<Rightarrow> (Network \<times> State) result" where
  "commit_network eid now actor network state =
     bind_result (network_range_free state (netName network) (netCIDR network)) (\<lambda>_.
     let network1 = (if ControlStateVersionNetworkDNS \<le> Version state then network\<lparr>netDNSSettings := defaultNetworkDNSSettings\<rparr> else network);
         network2 = (if ControlStateVersionNetworkRelays \<le> Version state then network1\<lparr>netRelaySettings := defaultNetworkRelaySettings\<rparr> else network1) in
     bind_result (newOptionalAttributedAudit eid now ''network.created'' ''network'' (netID network)
         (Some [(''name'', DStr (netName network)), (''cidr'', DStr (netCIDR network))]) actor) (\<lambda>event.
     Inr (network2, add_audit (state\<lparr>Networks := Networks state @ [network2]\<rparr>) event)))"

definition createNetwork ::
  "(string \<Rightarrow> string \<Rightarrow> (string \<times> string) result) \<Rightarrow> (string \<Rightarrow> string result) \<Rightarrow> (string \<times> bytes) result \<Rightarrow> (string \<Rightarrow> bytes \<Rightarrow> string result) \<Rightarrow>
    string result \<Rightarrow> string \<Rightarrow> time \<Rightarrow> Actor option \<Rightarrow> State \<Rightarrow> CreateNetworkInput \<Rightarrow> State \<Rightarrow> (Network \<times> State) result" where
  "createNetwork createCA seal signing sealFor fresh eid now actor viewed input state =
     bind_result (canonical_network_input input) (\<lambda>input.
     bind_result (network_range_viewed viewed (cniName input) (cniCIDR input)) (\<lambda>_.
     bind_result (createCA (cniName input) (cniCIDR input)) (\<lambda>(caCert, caKey).
     guard_result (is_ok (validateGeneratedCA caCert caKey)) ErrInvalid
    (bind_result (seal caKey) (\<lambda>encryptedKey.
     bind_result signing (\<lambda>(publicKey, privateKey).
     bind_result (sealFor ''config-signing-key-v1'' privateKey) (\<lambda>encryptedSigningKey.
     bind_result fresh (\<lambda>ident.
     commit_network eid now actor (new_network input ident caCert encryptedKey publicKey encryptedSigningKey now) state))))))))"

definition CreateNetworkAs ::
  "(string \<Rightarrow> string \<Rightarrow> (string \<times> string) result) \<Rightarrow> (string \<Rightarrow> string result) \<Rightarrow> (string \<times> bytes) result \<Rightarrow> (string \<Rightarrow> bytes \<Rightarrow> string result) \<Rightarrow>
    string result \<Rightarrow> string \<Rightarrow> time \<Rightarrow> Actor \<Rightarrow> State \<Rightarrow> CreateNetworkInput \<Rightarrow> State \<Rightarrow> (Network \<times> State) result" where
  "CreateNetworkAs createCA seal signing sealFor fresh eid now actor viewed input state =
     bind_result (validateActor actor) (\<lambda>_. createNetwork createCA seal signing sealFor fresh eid now (Some actor) viewed input state)"

section \<open>Nodes\<close>

record CreateNodeInput =
  cniNodeName :: string
  cniIP :: string
  cniRoutedSubnets :: "string list"
  cniSite :: string
  cniFailureDomain :: string
  cniGroups :: "string list"
  cniRole :: string
  cniPublicEndpoint :: string

record CreatedNode =
  cnNode :: Node
  cnEnrollmentToken :: string
  cnExpiresAt :: time

text \<open>The request with its defaults and normal forms; the raw labels stay, for the schema check.\<close>

record node_request =
  nrName :: string
  nrRole :: string
  nrEndpoint :: string
  nrSite :: string
  nrFailureDomain :: string
  nrGroups :: "string list"
  nrRoutedSubnets :: "string list"

definition canonical_node_input :: "CreateNodeInput \<Rightarrow> node_request result" where
  "canonical_node_input input =
     (let name = TrimSpace (cniNodeName input); role = (if cniRole input = [] then ''member'' else cniRole input);
          endpoint = TrimSpace (cniPublicEndpoint input) in
      guard_result (namePattern name) ErrInvalid
     (guard_result (node_role role) ErrInvalid
     (guard_result (\<not> (role = ''lighthouse'' \<and> endpoint = [])) ErrInvalid
     (bind_result (if endpoint \<noteq> [] then validateEndpoint endpoint else Inr ()) (\<lambda>_.
      bind_result (normalizeTopologyLabel (cniSite input)) (\<lambda>site.
      bind_result (normalizeTopologyLabel (cniFailureDomain input)) (\<lambda>failureDomain.
      bind_result (canonicalNodeMembershipGroups (cniGroups input)) (\<lambda>groups.
      bind_result (normalizeRoutedSubnets (cniRoutedSubnets input)) (\<lambda>routedSubnets.
      Inr \<lparr>nrName = name, nrRole = role, nrEndpoint = endpoint, nrSite = site, nrFailureDomain = failureDomain, nrGroups = groups,
           nrRoutedSubnets = routedSubnets\<rparr>)))))))))"

definition new_node :: "string \<Rightarrow> string \<Rightarrow> string \<Rightarrow> node_request \<Rightarrow> int \<Rightarrow> time \<Rightarrow> Node" where
  "new_node ident network address r version now =
     zero_node\<lparr>nodeID := ident, nodeNetworkID := network, nodeName := nrName r, nodeIP := address, nodeRoutedSubnets := nrRoutedSubnets r,
       nodeGroups := nrGroups r, nodeRole := nrRole r, nodePublicEndpoint := nrEndpoint r, nodeStatus := ''pending'', nodeCreatedAt := now,
       nodeSite := (if ControlStateVersionTopology \<le> version then nrSite r else []),
       nodeFailureDomain := (if ControlStateVersionTopology \<le> version then nrFailureDomain r else [])\<rparr>"

definition node_address :: "Network \<Rightarrow> Node list \<Rightarrow> string \<Rightarrow> string result" where
  "node_address network nodes ip =
     (let address = TrimSpace ip in
      if address = [] then nextAddress network nodes
      else bind_result (validateNodeIP network nodes address) (\<lambda>_. Inr address))"

definition createNode ::
  "sha256 \<Rightarrow> string result \<Rightarrow> string result \<Rightarrow> string result list \<Rightarrow> string \<Rightarrow> time \<Rightarrow> time \<Rightarrow> Actor option \<Rightarrow> string \<Rightarrow> CreateNodeInput \<Rightarrow> State \<Rightarrow>
    (CreatedNode \<times> State) result" where
  "createNode sha freshNode freshEnrollment bearers eid now again actor networkID input state =
     bind_result (canonical_node_input input) (\<lambda>r.
     bind_result freshNode (\<lambda>ident.
     bind_result freshEnrollment (\<lambda>enrollmentID.
     guard_result (\<not> (Version state < ControlStateVersionTopology \<and> (cniSite input \<noteq> [] \<or> cniFailureDomain input \<noteq> []))) ErrConflict
     (case findNetwork state networkID of
        None \<Rightarrow> Inl ErrNotFound
      | Some network \<Rightarrow>
          bind_result (validateNewRoutedSubnets state (nrRoutedSubnets r)) (\<lambda>_.
          guard_result (\<not> list_ex (\<lambda>n. nodeNetworkID n = networkID \<and> EqualFold (nodeName n) (nrName r) \<and> nodeStatus n \<noteq> ''revoked'') (Nodes state))
            ErrConflict
         (bind_result (node_address network (Nodes state) (cniIP input)) (\<lambda>address.
          bind_result (uniqueBearer sha state bearers) (\<lambda>token.
          bind_result (newOptionalAttributedAudit eid now ''node.created'' ''node'' ident
              (Some ([(''name'', DStr (nrName r)), (''ip'', DStr address), (''role'', DStr (nrRole r))] @
                (if nrRoutedSubnets r = [] then [] else [(''routed_subnets'', DList (map DStr (nrRoutedSubnets r)))]))) actor) (\<lambda>event.
          let created = new_node ident networkID address r (Version state) now; expires = again + 30 * minute in
          Inr (\<lparr>cnNode = created, cnEnrollmentToken = token, cnExpiresAt = expires\<rparr>,
            add_audit (state\<lparr>Nodes := Nodes state @ [created],
              Enrollments := Enrollments state @ [new_enrollment enrollmentID ident (HashToken sha token) now expires]\<rparr>) event))))))))))"

definition CreateNodeAs ::
  "sha256 \<Rightarrow> string result \<Rightarrow> string result \<Rightarrow> string result list \<Rightarrow> string \<Rightarrow> time \<Rightarrow> time \<Rightarrow> Actor \<Rightarrow> string \<Rightarrow> CreateNodeInput \<Rightarrow> State \<Rightarrow>
    (CreatedNode \<times> State) result" where
  "CreateNodeAs sha freshNode freshEnrollment bearers eid now again actor networkID input state =
     bind_result (validateActor actor) (\<lambda>_. createNode sha freshNode freshEnrollment bearers eid now again (Some actor) networkID input state)"

section \<open>Placement\<close>

text \<open>The retained result of a recovery follows the node it describes.\<close>

definition place_result :: "string \<Rightarrow> string \<Rightarrow> string \<Rightarrow> AgentRecoveryToken \<Rightarrow> AgentRecoveryToken" where
  "place_result ident site failureDomain r =
     r\<lparr>recResult := map_option (\<lambda>(b, receipt).
       (if nodeID (ebNode b) = ident
        then b\<lparr>ebNode := (ebNode b)\<lparr>nodeSite := site, nodeFailureDomain := failureDomain\<rparr>\<rparr> else b, receipt)) (recResult r)\<rparr>"

definition updateNodeTopology ::
  "string \<Rightarrow> time \<Rightarrow> Actor option \<Rightarrow> string \<Rightarrow> string \<Rightarrow> string \<Rightarrow> State \<Rightarrow> (Node \<times> State) result" where
  "updateNodeTopology eid now actor ident site failureDomain state =
     guard_result (validPersistedID ident) ErrInvalid
    (bind_result (normalizeTopologyLabel site) (\<lambda>site.
     bind_result (normalizeTopologyLabel failureDomain) (\<lambda>failureDomain.
     guard_result (ControlStateVersionTopology \<le> Version state) ErrConflict
     (case find_node_idx state ident of
        None \<Rightarrow> Inl ErrNotFound
      | Some k \<Rightarrow>
          (let node = Nodes state ! k in
           guard_result (nodeStatus node \<noteq> ''revoked'') ErrConflict
          (if nodeSite node = site \<and> nodeFailureDomain node = failureDomain then Inr (node, state)
           else guard_result (now \<noteq> 0) ErrInternal
             (let node' = node\<lparr>nodeSite := site, nodeFailureDomain := failureDomain\<rparr> in
              bind_result (newOptionalAttributedAudit eid now ''node.topology_updated'' ''node'' ident
                  (Some [(''old_site'', DStr (nodeSite node)), (''site'', DStr site), (''old_failure_domain'', DStr (nodeFailureDomain node)),
                         (''failure_domain'', DStr failureDomain)]) actor) (\<lambda>event.
              Inr (node', add_audit ((set_node state k node')\<lparr>AgentRecoveries := map (place_result ident site failureDomain) (AgentRecoveries state)\<rparr>)
                event)))))))))"

definition UpdateNodeTopologyAs ::
  "string \<Rightarrow> time \<Rightarrow> Actor \<Rightarrow> string \<Rightarrow> string \<Rightarrow> string \<Rightarrow> State \<Rightarrow> (Node \<times> State) result" where
  "UpdateNodeTopologyAs eid now actor ident site failureDomain state =
     bind_result (validateActor actor) (\<lambda>_. updateNodeTopology eid now (Some actor) ident site failureDomain state)"

section \<open>The plan of an enrollment\<close>

record EnrollmentPreflight =
  epSchema :: string
  epTargetRole :: string
  epNetworkCIDR :: string
  epLighthouseEndpoints :: "string slice"
  epTokenExpiresAt :: time

fun endpoints_ascend :: "string \<Rightarrow> string list \<Rightarrow> unit result" where
  "endpoints_ascend previous [] = Inr ()"
| "endpoints_ascend previous (e # es) =
     guard_result (e \<noteq> [] \<and> previous < e) ErrInvalid
    (guard_result (is_ok (validateEndpoint e)) ErrInvalid (endpoints_ascend e es))"

definition ValidateEnrollmentPreflight :: "EnrollmentPreflight \<Rightarrow> unit result" where
  "ValidateEnrollmentPreflight plan =
     guard_result (epSchema plan = ''mesh-enrollment-preflight-v1'') ErrInvalid
    (guard_result (node_role (epTargetRole plan)) ErrInvalid
    (guard_result (validRetiredNetworkCIDR (epNetworkCIDR plan)) ErrInvalid
    (guard_result (epLighthouseEndpoints plan \<noteq> None \<and> length (elems (epLighthouseEndpoints plan)) \<le> 64) ErrInvalid
    (bind_result (endpoints_ascend [] (elems (epLighthouseEndpoints plan))) (\<lambda>_.
     guard_result (epTokenExpiresAt plan \<noteq> 0) ErrInvalid (Inr ()))))))"

definition PreflightEnrollment :: "sha256 \<Rightarrow> time \<Rightarrow> string \<Rightarrow> State \<Rightarrow> EnrollmentPreflight result" where
  "PreflightEnrollment sha now token state =
     (let token = TrimSpace token in
      guard_result (ValidBearerToken token) ErrUnauthorized
      (case List.find (\<lambda>e. enrUsedAt e = None \<and> now < enrExpiresAt e \<and> TokenHashEqual (enrTokenHash e) (HashToken sha token)) (Enrollments state) of
         None \<Rightarrow> Inl ErrUnauthorized
       | Some enrollment \<Rightarrow>
           (case findNode state (enrNodeID enrollment) of
              None \<Rightarrow> Inl ErrUnauthorized
            | Some node \<Rightarrow>
                guard_result (nodeStatus node = ''pending'' \<and> nodeEnrolledAt node = None) ErrUnauthorized
                (case findNetwork state (nodeNetworkID node) of
                   None \<Rightarrow> Inl ErrUnauthorized
                 | Some network \<Rightarrow>
                     (let active = map nodePublicEndpoint (filter (\<lambda>n. nodeNetworkID n = netID network \<and> nodeRole n = ''lighthouse'' \<and>
                            nodeStatus n = ''active'' \<and> nodePublicEndpoint n \<noteq> []) (Nodes state));
                          own = (if nodeRole node = ''lighthouse'' \<and> nodePublicEndpoint node \<noteq> [] then [nodePublicEndpoint node] else []);
                          endpoints = sort (remdups (active @ own));
                          plan = \<lparr>epSchema = ''mesh-enrollment-preflight-v1'', epTargetRole = nodeRole node, epNetworkCIDR = netCIDR network,
                            epLighthouseEndpoints = Some endpoints, epTokenExpiresAt = enrExpiresAt enrollment\<rparr> in
                      guard_result (length endpoints \<le> 64) ErrConflict
                     (bind_result (ValidateEnrollmentPreflight plan) (\<lambda>_. Inr plan)))))))"
section \<open>Normal forms\<close>

lemma groups_ascend_sorted:
  "sorted_wrt (<) gs \<Longrightarrow> list_all groupPattern gs \<Longrightarrow> (\<forall>g \<in> set gs. previous < g) \<or> previous = [] \<Longrightarrow> groups_ascend previous gs"
  by (induction previous gs rule: groups_ascend.induct) auto

lemma collect_groups_ok:
  "collect_groups acc gs = Inr result \<Longrightarrow> distinct acc \<Longrightarrow> list_all groupPattern acc \<Longrightarrow> distinct result \<and> list_all groupPattern result"
  by (induction acc gs rule: collect_groups.induct) (auto simp: Let_def appendUnique_def split: if_splits)

lemma membership_groups_canonical:
  assumes "canonicalNodeMembershipGroups gs = Inr result"
  shows "validCanonicalNodeGroups result"
proof -
  from assms obtain base where base: "collect_groups [] gs = Inr base" and r: "result = sort (appendUnique (sort base) ''all'')" "length result \<le> 64"
    by (auto simp: canonicalNodeMembershipGroups_def normalizeGroups_def Let_def)
  have b: "distinct base" "list_all groupPattern base" using collect_groups_ok [OF base] by simp_all
  have all: "groupPattern ''all''" by code_simp
  have "distinct result" "list_all groupPattern result" "''all'' \<in> set result"
    using b all by (auto simp: r(1) appendUnique_def list_all_iff)
  moreover have "sorted result" by (simp add: r(1))
  ultimately show ?thesis
    using r(2) groups_ascend_sorted [of result "[]"] by (auto simp: validCanonicalNodeGroups_def strict_sorted_iff)
qed

lemma canonical_node_input_ok:
  assumes "canonical_node_input input = Inr r"
  shows "namePattern (nrName r)" "node_role (nrRole r)" "nrRole r = ''lighthouse'' \<Longrightarrow> nrEndpoint r \<noteq> []"
    and "nrEndpoint r \<noteq> [] \<Longrightarrow> is_ok (validateEndpoint (nrEndpoint r))" "validCanonicalNodeGroups (nrGroups r)"
    and "normalizeRoutedSubnets (nrRoutedSubnets r) = Inr (nrRoutedSubnets r)"
  using assms membership_groups_canonical normalizeRoutedSubnets_idem
  by (auto simp: canonical_node_input_def Let_def is_ok_def split: if_splits)

lemma topology_label_ok: "normalizeTopologyLabel v = Inr label \<Longrightarrow> topologyLabelPattern label"
proof -
  have "topologyLabelPattern ''unassigned''" by code_simp
  then show "normalizeTopologyLabel v = Inr label \<Longrightarrow> topologyLabelPattern label"
    by (auto simp: normalizeTopologyLabel_def Let_def split: if_splits)
qed

section \<open>What a committed call did\<close>

lemma createNode_ok:
  assumes "createNode sha freshNode freshEnrollment bearers eid now again actor networkID input s = Inr (c, s')"
  obtains r ident enr network address token ev where "canonical_node_input input = Inr r" "freshNode = Inr ident" "freshEnrollment = Inr enr"
    "findNetwork s networkID = Some network"
    "\<forall>n \<in> set (Nodes s). nodeNetworkID n = networkID \<and> EqualFold (nodeName n) (nrName r) \<longrightarrow> nodeStatus n = ''revoked''"
    "node_address network (Nodes s) (cniIP input) = Inr address" "uniqueBearer sha s bearers = Inr token"
    "c = \<lparr>cnNode = new_node ident networkID address r (Version s) now, cnEnrollmentToken = token, cnExpiresAt = again + 30 * minute\<rparr>"
    "s' = add_audit (s\<lparr>Nodes := Nodes s @ [cnNode c],
       Enrollments := Enrollments s @ [new_enrollment enr ident (HashToken sha token) now (cnExpiresAt c)]\<rparr>) ev"
proof -
  from assms obtain r ident enr network address token ev where base: "canonical_node_input input = Inr r" "freshNode = Inr ident" "freshEnrollment = Inr enr"
      "findNetwork s networkID = Some network"
    and name: "\<not> list_ex (\<lambda>n. nodeNetworkID n = networkID \<and> EqualFold (nodeName n) (nrName r) \<and> nodeStatus n \<noteq> ''revoked'') (Nodes s)"
    and rest: "node_address network (Nodes s) (cniIP input) = Inr address" "uniqueBearer sha s bearers = Inr token"
      "c = \<lparr>cnNode = new_node ident networkID address r (Version s) now, cnEnrollmentToken = token, cnExpiresAt = again + 30 * minute\<rparr>"
      "s' = add_audit (s\<lparr>Nodes := Nodes s @ [new_node ident networkID address r (Version s) now],
         Enrollments := Enrollments s @ [new_enrollment enr ident (HashToken sha token) now (again + 30 * minute)]\<rparr>) ev"
    by (simp add: createNode_def Let_def split: option.splits) blast
  from name have "\<forall>n \<in> set (Nodes s). nodeNetworkID n = networkID \<and> EqualFold (nodeName n) (nrName r) \<longrightarrow> nodeStatus n = ''revoked''"
    by (auto simp: list_ex_iff)
  with base rest that show thesis by simp
qed

lemma new_node_simps [simp]:
  "nodeID (new_node i n a r v t) = i" "nodeNetworkID (new_node i n a r v t) = n" "nodeStatus (new_node i n a r v t) = ''pending''"
  "node_hashes (new_node i n a r v t) = []" "node_lifecycle_ok (new_node i n a r v t)" "nodeName (new_node i n a r v t) = nrName r"
  "nodeGroups (new_node i n a r v t) = nrGroups r" "nodeRole (new_node i n a r v t) = nrRole r" "nodeIP (new_node i n a r v t) = a"
  "nodePublicEndpoint (new_node i n a r v t) = nrEndpoint r" "nodeRoutedSubnets (new_node i n a r v t) = nrRoutedSubnets r"
  "nodeCertificateFingerprint (new_node i n a r v t) = []"
  by (simp_all add: new_node_def zero_node_def node_hashes_def node_lifecycle_ok_def pending_shape_def)

lemma new_enrollment_hash [simp]: "enrTokenHash (new_enrollment i n h c e) = h" "enrNodeID (new_enrollment i n h c e) = n"
  by (simp_all add: new_enrollment_def)

lemma createNetwork_ok:
  assumes "createNetwork createCA seal signing sealFor fresh eid now actor viewed input s = Inr (n, s')"
  obtains inp ident ca key pub sk ev where "canonical_network_input input = Inr inp" "fresh = Inr ident"
    "network_range_free s (netName n) (netCIDR n) = Inr ()" "netName n = cniName inp" "netCIDR n = cniCIDR inp" "netID n = ident"
    "netCARotation n = zero_ca_rotation" "netCACertificate n = ca" "netConfigRevision n = 1"
    "s' = add_audit (s\<lparr>Networks := Networks s @ [n]\<rparr>) ev"
proof -
  from assms obtain inp ident ca key pub sk where inp: "canonical_network_input input = Inr inp" "fresh = Inr ident"
    and commit: "commit_network eid now actor (new_network inp ident ca key pub sk now) s = Inr (n, s')"
    by (auto simp: createNetwork_def split: prod.splits)
  let ?n = "new_network inp ident ca key pub sk now"
  have new: "netName ?n = cniName inp" "netCIDR ?n = cniCIDR inp" "netID ?n = ident" "netCARotation ?n = zero_ca_rotation" "netCACertificate ?n = ca"
    "netConfigRevision ?n = 1"
    by (simp_all add: new_network_def zero_network_def)
  from commit obtain ev where free: "network_range_free s (netName ?n) (netCIDR ?n) = Inr ()"
    and n: "netName n = netName ?n" "netCIDR n = netCIDR ?n" "netID n = netID ?n" "netCARotation n = netCARotation ?n"
      "netCACertificate n = netCACertificate ?n" "netConfigRevision n = netConfigRevision ?n"
    and s': "s' = add_audit (s\<lparr>Networks := Networks s @ [n]\<rparr>) ev"
    by (auto simp: commit_network_def Let_def)
  show thesis using that [OF inp _ _ _ _ _ _ _ s', of ca] free n new by simp
qed

section \<open>Invariants\<close>

lemma create_node_inv:
  assumes run: "createNode sha freshNode freshEnrollment bearers eid now again actor networkID input s = Inr (c, s')"
    and sha: "sum_shape sha" and inv: "control_inv sha s" and fresh: "nodeID (cnNode c) \<notin> nodeID ` set (Nodes s)"
  shows "control_inv sha s'"
  using run
proof (rule createNode_ok)
  fix r ident enr network address token ev
  assume token: "uniqueBearer sha s bearers = Inr token"
    and c: "c = \<lparr>cnNode = new_node ident networkID address r (Version s) now, cnEnrollmentToken = token, cnExpiresAt = again + 30 * minute\<rparr>"
    and s': "s' = add_audit (s\<lparr>Nodes := Nodes s @ [cnNode c],
       Enrollments := Enrollments s @ [new_enrollment enr ident (HashToken sha token) now (cnExpiresAt c)]\<rparr>) ev"
  have H: "fresh_hashes s {#HashToken sha token#}"
    using unique_bearer_ok [OF token [unfolded uniqueBearer_def]] ValidTokenHash_HashToken [OF sha] by simp
  show ?thesis
    by (rule node_add_inv [OF inv _ fresh _ _ _ _ _ H]) (simp_all add: s' c list_all2_refl)
qed

lemma create_network_inv:
  assumes run: "createNetwork createCA seal signing sealFor fresh eid now actor viewed input s = Inr (n, s')"
    and inv: "control_inv sha s" and fresh: "netID n \<notin> netID ` set (Networks s)" "netID n \<notin> nodeNetworkID ` set (Nodes s)"
  shows "control_inv sha s'"
  using run
proof (rule createNetwork_ok)
  fix ev
  assume n: "netCARotation n = zero_ca_rotation" and s': "s' = add_audit (s\<lparr>Networks := Networks s @ [n]\<rparr>) ev"
  have "rotation_ok sha n" by (simp add: rotation_ok_def n zero_ca_rotation_def)
  moreover have "\<forall>v \<in> set (Nodes s). authority_ok sha n v" using fresh(2) by (auto simp: authority_ok_def image_iff)
  ultimately have "trust_inv sha (s\<lparr>Networks := Networks s @ [n]\<rparr>)" using control_invD(2) [OF inv] by (simp add: trust_inv_def)
  moreover have "credential_inv (s\<lparr>Networks := Networks s @ [n]\<rparr>)"
    using control_invD(1) [OF inv] by (simp add: credential_inv_def credential_hashes_def)
  ultimately show ?thesis
    unfolding s' audit_inv using control_invD(3-6) [OF inv] fresh(1) by (intro control_invI) simp_all
qed

lemma updateNodeTopology_ok:
  assumes "updateNodeTopology eid now actor ident site failureDomain s = Inr (v', s')"
  obtains k site' domain where "find_node_idx s ident = Some k" "topologyLabelPattern site'" "topologyLabelPattern domain"
      "v' = (Nodes s ! k)\<lparr>nodeSite := site', nodeFailureDomain := domain\<rparr>" "nodeStatus v' \<noteq> ''revoked''"
      "s' = s \<or> (\<exists>ev. s' = add_audit ((set_node s k v')\<lparr>AgentRecoveries := map (place_result ident site' domain) (AgentRecoveries s)\<rparr>) ev)"
      "Nodes s' = (Nodes s)[k := v']"
proof -
  from assms obtain k site' domain where k: "find_node_idx s ident = Some k"
    and l: "normalizeTopologyLabel site = Inr site'" "normalizeTopologyLabel failureDomain = Inr domain"
    by (auto simp: updateNodeTopology_def split: option.splits)
  have st: "nodeStatus (Nodes s ! k) \<noteq> ''revoked''" using assms k l by (simp add: updateNodeTopology_def Let_def)
  have r: "(nodeSite (Nodes s ! k) = site' \<and> nodeFailureDomain (Nodes s ! k) = domain \<and> v' = Nodes s ! k \<and> s' = s) \<or>
      (\<exists>ev. v' = (Nodes s ! k)\<lparr>nodeSite := site', nodeFailureDomain := domain\<rparr> \<and>
         s' = add_audit ((set_node s k v')\<lparr>AgentRecoveries := map (place_result ident site' domain) (AgentRecoveries s)\<rparr>) ev)"
    using assms k l by (auto simp: updateNodeTopology_def Let_def split: if_splits)
  have same: "v\<lparr>nodeSite := nodeSite v, nodeFailureDomain := nodeFailureDomain v\<rparr> = v" for v :: Node by simp
  from r have v': "v' = (Nodes s ! k)\<lparr>nodeSite := site', nodeFailureDomain := domain\<rparr>" using same [of "Nodes s ! k"] by auto
  show thesis
    by (rule that [OF k topology_label_ok [OF l(1)] topology_label_ok [OF l(2)] v'])
       (use st r v' in \<open>auto simp: set_node_def\<close>)
qed

lemma topology_frame:
  assumes "updateNodeTopology eid now actor ident site failureDomain s = Inr (v', s')"
  shows "frame_step s s'"
  using assms
proof (rule updateNodeTopology_ok)
  fix k site' domain
  assume k: "find_node_idx s ident = Some k" and v': "v' = (Nodes s ! k)\<lparr>nodeSite := site', nodeFailureDomain := domain\<rparr>"
    and s': "s' = s \<or> (\<exists>ev. s' = add_audit ((set_node s k v')\<lparr>AgentRecoveries := map (place_result ident site' domain) (AgentRecoveries s)\<rparr>) ev)"
    and nodes: "Nodes s' = (Nodes s)[k := v']"
  have "same_credentials (Nodes s ! k) v'" by (simp add: v' same_credentials_def)
  then have "list_all2 same_credentials (Nodes s) (Nodes s')"
    unfolding nodes using find_idx_lt [OF k [unfolded find_node_idx_def]] by (intro list_all2_update) (simp_all add: list_all2_refl)
  moreover have "map recTokenHash (map (place_result ident site' domain) rs) = map recTokenHash rs" for rs
    by (simp add: place_result_def)
  ultimately show ?thesis using s' by (auto simp: frame_step_def list_all2_refl set_node_def simp del: map_map mset_map)
qed

section \<open>Reservations\<close>

lemma reservation_conflict_none:
  "reservation_conflict name cidr evs = Inr False \<Longrightarrow> ev \<in> set evs \<Longrightarrow> parseRetiredNetworkReservation ev = Inr (Some r) \<Longrightarrow>
    \<not> EqualFold (rsvName r) name \<and> \<not> cidrsOverlap (rsvCIDR r) cidr"
  by (induction evs) (auto split: option.splits if_splits)

lemma reservations_ok_parse: "reservations_ok nets seen evs = Inr () \<Longrightarrow> ev \<in> set evs \<Longrightarrow> \<exists>f. parseRetiredNetworkReservation ev = Inr f"
  by (induction nets seen evs rule: reservations_ok.induct) (auto split: option.splits)

lemma parse_reservation:
  assumes "parseRetiredNetworkReservation ev = Inr f" "evAction ev = ''network.retired''"
    and "evDetails ev = Some ((''name'', DStr name) # (''cidr'', DStr cidr) # ds)"
  obtains r where "f = Some r" "rsvName r = name" "rsvCIDR r = cidr"
proof -
  have "detail_string (detail ev ''name'') = Some name" "detail_string (detail ev ''cidr'') = Some cidr"
    using assms(3) by (simp_all add: detail_def)
  with assms(1,2) that show thesis by (auto simp: parseRetiredNetworkReservation_def Let_def split: option.splits)
qed

lemma range_free_reservation:
  assumes "network_range_free s name cidr = Inr ()" "ev \<in> set (Audit s)" "parseRetiredNetworkReservation ev = Inr (Some r)"
  shows "\<not> EqualFold (rsvName r) name \<and> \<not> cidrsOverlap (rsvCIDR r) cidr"
  using assms by (intro reservation_conflict_none [of _ _ "Audit s"]) (auto simp: network_range_free_def retiredNetworkReservationConflict_def)

lemma retired_reserved:
  assumes "retireNetwork eid now actor ident expected name s = Inr (r, s')" "validateRetiredNetworkReservations s' = Inr ()"
    and "findNetwork s ident = Some n"
  obtains ev rsv where "Audit s' = Audit s @ [ev]" "parseRetiredNetworkReservation ev = Inr (Some rsv)" "rsvName rsv = name" "rsvCIDR rsv = netCIDR n"
  using assms(1)
proof (rule retireNetwork_ok)
  fix i ids ev ds
  assume i: "find_network_idx s ident = Some i"
    and s': "s' = add_audit (s\<lparr>Networks := remove_nth i (Networks s), Nodes := filter (\<lambda>n. nodeNetworkID n \<noteq> ident) (Nodes s),
       Enrollments := filter (\<lambda>x. enrNodeID x \<notin> set ids) (Enrollments s), AgentRecoveries := filter (\<lambda>x. recNodeID x \<notin> set ids) (AgentRecoveries s),
       Issuances := filter (\<lambda>x. isNetworkID x \<noteq> ident) (Issuances s), Revocations := filter (\<lambda>x. rvNetworkID x \<noteq> ident) (Revocations s)\<rparr>) ev"
    and ev: "evAction ev = ''network.retired''" "evDetails ev = Some ((''name'', DStr name) # (''cidr'', DStr (netCIDR (Networks s ! i))) # ds)"
  have n: "Networks s ! i = n" using i assms(3) by (simp add: findNetwork_def find_find_idx find_network_idx_def)
  have a: "Audit s' = Audit s @ [ev]" by (simp add: s' add_audit_def)
  obtain f where "parseRetiredNetworkReservation ev = Inr f"
    using reservations_ok_parse [OF assms(2) [unfolded validateRetiredNetworkReservations_def], of ev] a by auto
  with ev n a that show thesis by (metis parse_reservation)
qed

section \<open>Created after a retirement\<close>

definition spare_request :: CreateNetworkInput where
  "spare_request = \<lparr>cniName = '' spare'', cniCIDR = ''10.77.3.9/16'', cniListenPort = 0, cniCertificateTTL = 0\<rparr>"

abbreviation spare_call :: "State \<Rightarrow> (Network \<times> State) result" where
  "spare_call s \<equiv> createNetwork (\<lambda>name cidr. Inr (''ca'', ''key'')) Inr (Inr (''public'', [])) (\<lambda>purpose k. Inr ''sealed'') (Inr ''spare-id'')
     ''event'' 200 None s spare_request s"

definition spare_before :: State where
  "spare_before = empty_state\<lparr>Version := 13, Networks := [demo_network]\<rparr>"

definition spare_after :: State where
  "spare_after = add_audit (empty_state\<lparr>Version := 13\<rparr>) (newAudit ''event'' 100 ''network.retired'' ''network'' ''net'' (retire_details demo_network 0 0 0 0 0 0 0 0))"

lemma spare_retired: "\<exists>r. retireNetwork ''event'' 100 None ''net'' 7 ''demo'' spare_before = Inr (r, spare_after)"
proof -
  have "validPersistedID ''net''" "namePattern ''demo''" by code_simp+
  moreover have "find_network_idx spare_before ''net'' = Some 0" "Networks spare_before = [demo_network]" "Nodes spare_before = []"
    "netName demo_network = ''demo''"
    by (simp_all add: find_network_idx_def spare_before_def demo_network_def empty_state_def)
  ultimately show ?thesis
    by (simp add: retireNetwork_def Let_def guard_result_def newOptionalAttributedAudit_def spare_after_def)
       (simp add: spare_before_def empty_state_def remove_nth_def deleteNodesForNetwork_def deleteEnrollmentsForNodes_def deleteRecoveriesForNodes_def
         deleteIssuancesForNetwork_def deleteRevocationsForNetwork_def)
qed

lemma spare_valid: "validateRetiredNetworkReservations spare_after = Inr ()"
  by code_simp

lemma spare_input: "canonical_network_input spare_request =
    Inr \<lparr>cniName = ''spare'', cniCIDR = ''10.77.0.0/16'', cniListenPort = 4242, cniCertificateTTL = 8760\<rparr>"
  by code_simp

lemma spare_free: "network_range_free spare_after ''spare'' ''10.77.0.0/16'' = Inr ()"
  by code_simp

lemma spare_viewed: "network_range_viewed spare_after ''spare'' ''10.77.0.0/16'' = Inr ()"
  by code_simp

lemma spare_created: "\<exists>m t. spare_call spare_after = Inr (m, t)"
proof -
  have "ValidString ''ca''" "ValidString ''key''" by code_simp+
  then have "is_ok (validateGeneratedCA ''ca'' ''key'')"
    by (simp add: validateGeneratedCA_def validBoundedUTF8_def maxNebulaCACertificateSize_def maxNebulaCAPrivateKeySize_def guard_result_def is_ok_def)
  then show ?thesis
    using spare_input spare_viewed spare_free
    by (simp add: createNetwork_def guard_result_def commit_network_def new_network_def newOptionalAttributedAudit_def Let_def)
qed

section \<open>An address in another spelling\<close>

text \<open>
  An address written in the IPv4-mapped form is accepted and stored as written.  The next automatic
  allocation compares texts, so that it returns the same address again, which the store refuses as a
  duplicate; as long as the node exists no address can be allocated past it.
\<close>

lemma mapped_parse: "ParseIP_To4 ''::ffff:10.9.8.13'' = Some [10, 9, 8, 13]"
proof -
  have "ParseAddr ''::ffff:10.9.8.13'' = None" "split_ellipsis ''::ffff:10.9.8.13'' = Some ([], ''ffff:10.9.8.13'')" "colon_parts [] = []"
    "colon_parts ''ffff:10.9.8.13'' = [''ffff'', ''10.9.8.13'']" by code_simp+
  moreover have "all_some (map (\<lambda>c. find_idx ((=) (to_lower_char c)) ''0123456789abcdef'') ''ffff'') = Some [15, 15, 15, 15]"
    "v6_groups [''10.9.8.13''] = Some [2569, 2061]" by code_simp+
  moreover from this(1) have "hex_group ''ffff'' = Some 65535" by (simp add: hex_group_def)
  moreover have "replicate 5 (0::nat) = [0, 0, 0, 0, 0]" by (simp add: numeral_eq_Suc)
  ultimately show ?thesis by (simp add: ParseIP_To4_def parse_v6_def del: v6_groups.simps(2))
qed

lemma nextAddress_used: "used_addresses n a = used_addresses n b \<Longrightarrow> nextAddress n a = nextAddress n b"
  by (simp add: nextAddress_def split: option.splits prod.splits)

lemma plain_parse: "ParseIP_To4 ''10.9.8.13'' = Some [10, 9, 8, 13]"
  by code_simp

lemma mapped_accepted: "node_address demo_network (Nodes demo_state) ''::ffff:10.9.8.13'' = Inr ''::ffff:10.9.8.13''"
proof -
  have "TrimSpace ''::ffff:10.9.8.13'' = ''::ffff:10.9.8.13''" by code_simp
  moreover have "validateNodeIP demo_network (Nodes demo_state) ''10.9.8.13'' = Inr ()" by code_simp
  moreover have "''::ffff:10.9.8.13'' \<notin> set (used_addresses demo_network (Nodes demo_state))" by code_simp
  ultimately show ?thesis
    using mapped_parse plain_parse by (auto simp: node_address_def Let_def validateNodeIP_def split: option.splits if_splits)
qed

lemma mapped_address_reused:
  assumes "createNode sha freshNode freshEnrollment bearers eid now again actor ''net'' input demo_state = Inr (c, s')"
    and "cniIP input = ''::ffff:10.9.8.13''"
  shows "nodeIP (cnNode c) = ''::ffff:10.9.8.13'' \<and> nextAddress demo_network (Nodes s') = Inr ''10.9.8.13'' \<and>
    ParseIP_To4 (nodeIP (cnNode c)) = ParseIP_To4 ''10.9.8.13''"
  using assms(1)
proof (rule createNode_ok)
  fix r ident enr network address token ev
  assume net: "findNetwork demo_state ''net'' = Some network" and addr: "node_address network (Nodes demo_state) (cniIP input) = Inr address"
    and c: "c = \<lparr>cnNode = new_node ident ''net'' address r (Version demo_state) now, cnEnrollmentToken = token, cnExpiresAt = again + 30 * minute\<rparr>"
    and s': "s' = add_audit (demo_state\<lparr>Nodes := Nodes demo_state @ [cnNode c],
       Enrollments := Enrollments demo_state @ [new_enrollment enr ident (HashToken sha token) now (cnExpiresAt c)]\<rparr>) ev"
  have "network = demo_network" using net by (simp add: findNetwork_def)
  then have ip: "address = ''::ffff:10.9.8.13''" using addr mapped_accepted assms(2) by simp
  have "used_addresses demo_network (Nodes s') = used_addresses demo_network (Nodes demo_state) @ [address]"
    by (simp add: used_addresses_def s' c)
  moreover have "nextAddress demo_network [demo_gateway, demo_member, demo_revoked, demo_node ''edge'' ''::ffff:10.9.8.13''] = Inr ''10.9.8.13''"
    by code_simp
  moreover have "used_addresses demo_network [demo_gateway, demo_member, demo_revoked, demo_node ''edge'' ''::ffff:10.9.8.13''] =
      used_addresses demo_network (Nodes demo_state) @ [''::ffff:10.9.8.13'']"
    by (simp add: used_addresses_def demo_node_def zero_node_def)
  ultimately have "nextAddress demo_network (Nodes s') = Inr ''10.9.8.13''" using ip nextAddress_used by metis
  then show ?thesis using ip c mapped_parse plain_parse by simp
qed

section \<open>Created nodes\<close>

lemma next_scan_unused: "next_address_scan base ipnet used k = Inr a \<Longrightarrow> a \<notin> set used"
proof (induction base ipnet used k rule: next_address_scan.induct)
  case (1 base ipnet used k)
  from 1(2) show ?case by (subst (asm) next_address_scan.simps) (auto simp: Let_def split: if_splits dest: 1(1))
qed

lemma node_address_unused: "node_address network nodes ip = Inr a \<Longrightarrow> a \<notin> set (used_addresses network nodes)"
  by (auto simp: node_address_def Let_def nextAddress_def validateNodeIP_def split: if_splits option.splits prod.splits dest: next_scan_unused)

text \<open>Addresses that are compared as text are compared as addresses only among canonical texts, which the
  automatic choice produces.\<close>

lemma canonical_distinct: "canonical_ipv4 a \<Longrightarrow> canonical_ipv4 b \<Longrightarrow> a \<noteq> b \<Longrightarrow> ParseIP_To4 a \<noteq> ParseIP_To4 b"
  by (auto simp: canonical_ipv4_def split: option.splits)

lemma canonical_addr_str: "canonical_ipv4 (addr_str w)"
  by (simp add: canonical_ipv4_def ParseIP_To4_def IP_String_def)

lemma next_scan_canonical: "next_address_scan a n used offset = Inr v \<Longrightarrow> canonical_ipv4 v"
proof (induction a n used offset rule: next_address_scan.induct)
  case (1 a n used offset)
  from 1(2) show ?case
    by (subst (asm) next_address_scan.simps) (auto simp: Let_def addIPv4_def canonical_addr_str split: if_splits dest: 1(1))
qed

lemma chosen_address_canonical: "node_address network nodes ip = Inr a \<Longrightarrow> TrimSpace ip = [] \<Longrightarrow> canonical_ipv4 a"
  by (auto simp: node_address_def nextAddress_def split: option.splits prod.splits dest: next_scan_canonical)

lemma new_token_alone:
  assumes "\<not> strictCredentialHashInUse s h" "ValidTokenHash h" "enrTokenHash e = h"
  shows "filter (\<lambda>x. TokenHashEqual (enrTokenHash x) h) (Enrollments s @ [e]) = [e]"
proof -
  have "\<forall>x \<in> set (Enrollments s). \<not> TokenHashEqual (enrTokenHash x) h" using assms(1) by (auto simp: strictCredentialHashInUse_def list_ex_iff)
  then show ?thesis using assms(2,3) TokenHashEqual_refl by (simp add: filter_False)
qed

definition edge_request :: CreateNodeInput where
  "edge_request = \<lparr>cniNodeName = '' edge '', cniIP = [], cniRoutedSubnets = [], cniSite = ''Berlin'', cniFailureDomain = [], cniGroups = [''ops'', '' dev''],
     cniRole = ''lighthouse'', cniPublicEndpoint = ''edge.example.net:4242''\<rparr>"

definition edge_canonical :: node_request where
  "edge_canonical = \<lparr>nrName = ''edge'', nrRole = ''lighthouse'', nrEndpoint = ''edge.example.net:4242'', nrSite = ''berlin'', nrFailureDomain = ''unassigned'',
     nrGroups = [''all'', ''dev'', ''ops''], nrRoutedSubnets = []\<rparr>"

lemma edge_endpoint: "validateEndpoint ''edge.example.net:4242'' = Inr ()"
  by code_simp

lemma edge_groups: "canonicalNodeMembershipGroups [''ops'', '' dev''] = Inr [''all'', ''dev'', ''ops'']"
  by code_simp

lemma is_ok_unit: "is_ok r \<longleftrightarrow> r = Inr ()"
  by (cases r) (simp_all add: is_ok_def)

lemma edge_input: "canonical_node_input edge_request = Inr edge_canonical"
proof -
  have "TrimSpace '' edge '' = ''edge''" "TrimSpace ''edge.example.net:4242'' = ''edge.example.net:4242''" "namePattern ''edge''"
    "normalizeTopologyLabel ''Berlin'' = Inr ''berlin''" "normalizeTopologyLabel [] = Inr ''unassigned''" "normalizeRoutedSubnets [] = Inr []" by code_simp+
  then show ?thesis
    using edge_endpoint edge_groups by (simp add: canonical_node_input_def edge_request_def edge_canonical_def Let_def node_role_def guard_result_def)
qed

lemma edge_address: "node_address life_network [race_member] [] = Inr ''10.9.8.10''"
  by code_simp

lemma edge_token: "uniqueBearer wide_sha race_state [Inr (bearer 80)] = Inr (bearer 80)"
proof -
  have "ValidBearerToken (bearer 80)" "HashToken wide_sha (bearer 80) = bearer 85" by code_simp+
  moreover have "\<not> strictCredentialHashInUse race_state (bearer 85)"
    by (simp add: strictCredentialHashInUse_def race_member_def life_member_def beat_node_def demo_member_def demo_node_def zero_node_def)
  ultimately show ?thesis by (simp add: uniqueBearer_def numeral_eq_Suc)
qed

lemma edge_created:
  "\<exists>c s'. createNode wide_sha (Inr ''edge-id'') (Inr ''enrollment'') [Inr (bearer 80)] ''event'' 100 100 None ''net'' edge_request race_state = Inr (c, s')"
proof -
  have "findNetwork race_state ''net'' = Some life_network" by (simp add: findNetwork_def life_network_def beat_network_def)
  moreover have "\<not> EqualFold (nodeName race_member) ''edge''" by code_simp
  ultimately show ?thesis
    using edge_input edge_address edge_token
    by (simp add: createNode_def guard_result_def Let_def edge_canonical_def validateNewRoutedSubnets_def edge_request_def newOptionalAttributedAudit_def)
qed

section \<open>Properties\<close>

text \<open>C4. The name and the address range of a retired network are reserved for good.  Once the store has accepted
  a retirement, every network created in any later state, one whose audit log extends the log of that
  moment, has another name, compared without regard to case, and a range disjoint from the retired one.\<close>
theorem retired_forever:
  assumes run: "retireNetwork eid now actor ident expected name s = Inr (r, s')" and store: "validateRetiredNetworkReservations s' = Inr ()"
    and n: "findNetwork s ident = Some n" and later: "Audit s'' = Audit s' @ evs"
    and create: "createNetwork createCA seal signing sealFor fresh eid' now' actor' viewed input s'' = Inr (m, t)"
  shows "\<not> EqualFold name (netName m) \<and> \<not> cidrsOverlap (netCIDR n) (netCIDR m)"
proof -
  obtain ev rsv where ev: "Audit s' = Audit s @ [ev]" "parseRetiredNetworkReservation ev = Inr (Some rsv)" and rsv: "rsvName rsv = name" "rsvCIDR rsv = netCIDR n"
    by (rule retired_reserved [OF run store n])
  have free: "network_range_free s'' (netName m) (netCIDR m) = Inr ()" using create by (rule createNetwork_ok)
  have "ev \<in> set (Audit s'')" using later ev(1) by simp
  from range_free_reservation [OF free this ev(2)] rsv show ?thesis by simp
qed

theorem retired_forever_witness:
  "\<exists>r m t. retireNetwork ''event'' 100 None ''net'' 7 ''demo'' spare_before = Inr (r, spare_after) \<and> spare_call spare_after = Inr (m, t) \<and>
     \<not> EqualFold ''demo'' (netName m) \<and> \<not> cidrsOverlap ''10.9.8.0/24'' (netCIDR m)"
proof -
  obtain r where run: "retireNetwork ''event'' 100 None ''net'' 7 ''demo'' spare_before = Inr (r, spare_after)" using spare_retired by blast
  obtain m t where create: "spare_call spare_after = Inr (m, t)" using spare_created by blast
  have n: "findNetwork spare_before ''net'' = Some demo_network" by (simp add: findNetwork_def spare_before_def)
  have "netCIDR demo_network = ''10.9.8.0/24''" by (simp add: demo_network_def)
  with retired_forever [OF run spare_valid n _ create, of "[]"] run create show ?thesis by auto
qed



end
