(* ===== verification/Mesh_NodeCertificates.thy ===== *)
theory Mesh_NodeCertificates
  imports Mesh_Provision
begin

text \<open>
  Certificates an administrator has reissued: the immediate rotation of a node's certificate
  (\<^verbatim>\<open>internal/control/certificate_rotation.go\<close>) and the change of its groups, which are part of the certificate
  (\<^verbatim>\<open>internal/control/node_groups.go\<close>).  Both read a snapshot, have a certificate signed for the key the node holds
  already, and commit only if nothing the certificate depends on has changed since; the old
  certificate goes on the blocklist in the same commit.  The state the snapshot was taken from is the argument
  \<open>viewed\<close>, because other transactions may commit in between.  The parser of certificates of the Nebula
  library is the argument \<open>parseCertificate\<close> (the PEM text of the public key and the remainder); the issuer is a
  function of the attempt, because what it answers depends on the clock; \<open>cancelled\<close> says whether the context ended
  while the second attempt was waiting.
\<close>

section \<open>Requests and receipts\<close>

record RotateNodeCertificateInput =
  rciExpectedConfigRevision :: int
  rciConfirmationName :: string
  rciRequestID :: string

record RotatedNodeCertificate =
  rncRequestID :: string
  rncNodeID :: string
  rncNetworkID :: string
  rncName :: string
  rncIP :: string
  rncRole :: string
  rncRotatedAt :: time
  rncPreviousCertificateExpiresAt :: time
  rncCertificateExpiresAt :: time
  rncCertificateRenewAfter :: time
  rncPreviousCertificateGeneration :: int
  rncCertificateGeneration :: int
  rncAgentRecoveryRecordsInvalidated :: int
  rncCertificateIssuancesAdded :: int
  rncBlocklistEntriesAdded :: int
  rncPreviousCertificateBlocklisted :: bool
  rncConfigRevision :: int

record UpdateNodeGroupsInput =
  ugiExpectedConfigRevision :: int
  ugiConfirmationName :: string
  ugiRequestID :: string
  ugiGroups :: "string list"

record UpdatedNodeGroups =
  ungRequestID :: string
  ungNodeID :: string
  ungNetworkID :: string
  ungName :: string
  ungIP :: string
  ungPreviousGroups :: "string list"
  ungGroups :: "string list"
  ungUpdatedAt :: time
  ungPreviousCertificateExpiresAt :: time
  ungCertificateExpiresAt :: time
  ungCertificateRenewAfter :: time
  ungPreviousCertificateGeneration :: int
  ungCertificateGeneration :: int
  ungAgentRecoveryRecordsInvalidated :: int
  ungPreviousCertificateBlocklisted :: bool
  ungConfigRevision :: int

definition validCertificateRotationRequestID :: "string \<Rightarrow> bool" where
  "validCertificateRotationRequestID v = (16 \<le> length v \<and> validPersistedID v)"

definition certificateRotationAuditDetails :: "RotatedNodeCertificate \<Rightarrow> int \<Rightarrow> details" where
  "certificateRotationAuditDetails r expectedRevision =
     Some [(''request_id'', DStr (rncRequestID r)), (''network_id'', DStr (rncNetworkID r)), (''name'', DStr (rncName r)),
           (''ip'', DStr (rncIP r)), (''role'', DStr (rncRole r)), (''rotated_at'', DStr (RFC3339Nano (rncRotatedAt r))),
           (''previous_certificate_expires_at'', DStr (RFC3339Nano (rncPreviousCertificateExpiresAt r))),
           (''certificate_expires_at'', DStr (RFC3339Nano (rncCertificateExpiresAt r))),
           (''certificate_renew_after'', DStr (RFC3339Nano (rncCertificateRenewAfter r))),
           (''previous_certificate_generation'', DInt (rncPreviousCertificateGeneration r)),
           (''certificate_generation'', DInt (rncCertificateGeneration r)), (''expected_config_revision'', DInt expectedRevision),
           (''config_revision'', DInt (rncConfigRevision r)),
           (''agent_recovery_records_invalidated'', DInt (rncAgentRecoveryRecordsInvalidated r)),
           (''certificate_issuances_added'', DInt (rncCertificateIssuancesAdded r)),
           (''blocklist_entries_added'', DInt (rncBlocklistEntriesAdded r)),
           (''previous_certificate_blocklisted'', DBool (rncPreviousCertificateBlocklisted r))]"

definition certificate_rotation_keys :: "string list" where
  "certificate_rotation_keys =
     [''request_id'', ''network_id'', ''name'', ''ip'', ''role'', ''rotated_at'', ''previous_certificate_expires_at'',
      ''certificate_expires_at'', ''certificate_renew_after'', ''previous_certificate_generation'', ''certificate_generation'',
      ''expected_config_revision'', ''config_revision'', ''agent_recovery_records_invalidated'', ''certificate_issuances_added'',
      ''blocklist_entries_added'', ''previous_certificate_blocklisted'']"

definition rotation_fields_ok :: "RotatedNodeCertificate \<Rightarrow> int \<Rightarrow> bool" where
  "rotation_fields_ok r expectedRevision =
     (validCertificateRotationRequestID (rncRequestID r) \<and> validPersistedID (rncNetworkID r) \<and> namePattern (rncName r) \<and>
      canonical_ipv4 (rncIP r) \<and> node_role (rncRole r) \<and> rncRotatedAt r < rncCertificateExpiresAt r \<and>
      rncRotatedAt r < rncCertificateRenewAfter r \<and> rncCertificateRenewAfter r < rncCertificateExpiresAt r \<and>
      1 \<le> rncPreviousCertificateGeneration r \<and> rncCertificateGeneration r = wrap64 (rncPreviousCertificateGeneration r + 1) \<and>
      1 \<le> expectedRevision \<and> rncConfigRevision r = wrap64 (expectedRevision + 1) \<and> rncCertificateIssuancesAdded r = 1 \<and>
      rncBlocklistEntriesAdded r = 1 \<and> rncPreviousCertificateBlocklisted r)"

definition parseNodeCertificateRotationEvent :: "AuditEvent \<Rightarrow> (RotatedNodeCertificate \<times> int) result" where
  "parseNodeCertificateRotationEvent event =
     (let s = (\<lambda>k. detail_string (detail event k)); t = (\<lambda>k. auditRFC3339Time (detail event k));
          n = (\<lambda>k. auditNonNegativeInteger (detail event k)) in
      guard_result (details_exact certificate_rotation_keys event) ErrInternal
     (guard_result (evResource event = ''node'' \<and> validPersistedID (evResourceID event)) ErrInternal
      (case (s ''request_id'', s ''network_id'', s ''name'', s ''ip'', s ''role'') of
         (Some requestID, Some networkID, Some name, Some ip, Some role) \<Rightarrow>
           (case (t ''rotated_at'', t ''previous_certificate_expires_at'', t ''certificate_expires_at'', t ''certificate_renew_after'') of
              (Some rotatedAt, Some previousExpiry, Some expiresAt, Some renewAfter) \<Rightarrow>
                (case (n ''previous_certificate_generation'', n ''certificate_generation'', n ''expected_config_revision'', n ''config_revision'') of
                   (Some previousGeneration, Some generation, Some expectedRevision, Some configRevision) \<Rightarrow>
                     (case (n ''agent_recovery_records_invalidated'', n ''certificate_issuances_added'', n ''blocklist_entries_added'',
                            detail_bool (detail event ''previous_certificate_blocklisted'')) of
                        (Some recoveries, Some issuances, Some blocklist, Some blocklisted) \<Rightarrow>
                          (let receipt = \<lparr>rncRequestID = requestID, rncNodeID = evResourceID event, rncNetworkID = networkID, rncName = name,
                                 rncIP = ip, rncRole = role, rncRotatedAt = rotatedAt, rncPreviousCertificateExpiresAt = previousExpiry,
                                 rncCertificateExpiresAt = expiresAt, rncCertificateRenewAfter = renewAfter,
                                 rncPreviousCertificateGeneration = previousGeneration, rncCertificateGeneration = generation,
                                 rncAgentRecoveryRecordsInvalidated = recoveries, rncCertificateIssuancesAdded = issuances,
                                 rncBlocklistEntriesAdded = blocklist, rncPreviousCertificateBlocklisted = blocklisted,
                                 rncConfigRevision = configRevision\<rparr>
                           in guard_result (rotation_fields_ok receipt expectedRevision \<and> evAt event = rotatedAt) ErrInternal
                                (Inr (receipt, expectedRevision)))
                      | _ \<Rightarrow> Inl ErrInternal)
                 | _ \<Rightarrow> Inl ErrInternal)
            | _ \<Rightarrow> Inl ErrInternal)
       | _ \<Rightarrow> Inl ErrInternal)))"

definition certificate_rotation_event :: "string \<Rightarrow> AuditEvent \<Rightarrow> bool" where
  "certificate_rotation_event requestID event =
     (evAction event = ''node.certificate_rotated'' \<and> detail_string (detail event ''request_id'') = Some requestID)"

definition findCertificateRotationReplay ::
  "State \<Rightarrow> string \<Rightarrow> RotateNodeCertificateInput \<Rightarrow> RotatedNodeCertificate option result" where
  "findCertificateRotationReplay state ident input =
     (case List.find (certificate_rotation_event (rciRequestID input)) (Audit state) of
        None \<Rightarrow> Inr None
      | Some event \<Rightarrow>
          bind_result (parseNodeCertificateRotationEvent event) (\<lambda>(receipt, expectedRevision).
          guard_result (evResourceID event = ident \<and> rncName receipt = rciConfirmationName input \<and>
              expectedRevision = rciExpectedConfigRevision input) ErrConflict
            (Inr (Some receipt))))"

fun certificate_rotation_audits_ok :: "string list \<Rightarrow> AuditEvent list \<Rightarrow> unit result" where
  "certificate_rotation_audits_ok seen [] = Inr ()"
| "certificate_rotation_audits_ok seen (event # events) =
     (if evAction event \<noteq> ''node.certificate_rotated'' then certificate_rotation_audits_ok seen events
      else bind_result (parseNodeCertificateRotationEvent event) (\<lambda>(receipt, _).
        guard_result (rncRequestID receipt \<notin> set seen) ErrInternal
          (certificate_rotation_audits_ok (rncRequestID receipt # seen) events)))"

definition validateNodeCertificateRotationAudits :: "State \<Rightarrow> unit result" where
  "validateNodeCertificateRotationAudits state = certificate_rotation_audits_ok [] (Audit state)"

definition groupsAuditArray :: "string list \<Rightarrow> Detail" where
  "groupsAuditArray groups = DList (map DStr groups)"

definition nodeGroupsAuditDetails :: "UpdatedNodeGroups \<Rightarrow> int \<Rightarrow> details" where
  "nodeGroupsAuditDetails r expectedRevision =
     Some [(''request_id'', DStr (ungRequestID r)), (''network_id'', DStr (ungNetworkID r)), (''name'', DStr (ungName r)),
           (''ip'', DStr (ungIP r)), (''previous_groups'', groupsAuditArray (ungPreviousGroups r)),
           (''groups'', groupsAuditArray (ungGroups r)), (''updated_at'', DStr (RFC3339Nano (ungUpdatedAt r))),
           (''previous_certificate_expires_at'', DStr (RFC3339Nano (ungPreviousCertificateExpiresAt r))),
           (''certificate_expires_at'', DStr (RFC3339Nano (ungCertificateExpiresAt r))),
           (''certificate_renew_after'', DStr (RFC3339Nano (ungCertificateRenewAfter r))),
           (''previous_certificate_generation'', DInt (ungPreviousCertificateGeneration r)),
           (''certificate_generation'', DInt (ungCertificateGeneration r)), (''expected_config_revision'', DInt expectedRevision),
           (''config_revision'', DInt (ungConfigRevision r)),
           (''agent_recovery_records_invalidated'', DInt (ungAgentRecoveryRecordsInvalidated r)),
           (''previous_certificate_blocklisted'', DBool (ungPreviousCertificateBlocklisted r))]"

fun detail_strings :: "Detail list \<Rightarrow> string list option" where
  "detail_strings [] = Some []"
| "detail_strings (DStr g # ds) = map_option (\<lambda>gs. g # gs) (detail_strings ds)"
| "detail_strings _ = None"

fun parseAuditGroups :: "Detail option \<Rightarrow> string list option" where
  "parseAuditGroups (Some (DList raw)) =
     (case detail_strings raw of
        None \<Rightarrow> None
      | Some groups \<Rightarrow> if validCanonicalNodeGroups groups then Some groups else None)"
| "parseAuditGroups _ = None"

definition groups_fields_ok :: "UpdatedNodeGroups \<Rightarrow> int \<Rightarrow> bool" where
  "groups_fields_ok r expectedRevision =
     (validCertificateRotationRequestID (ungRequestID r) \<and> validPersistedID (ungNetworkID r) \<and> namePattern (ungName r) \<and>
      canonical_ipv4 (ungIP r) \<and> ungPreviousGroups r \<noteq> ungGroups r \<and> ungUpdatedAt r < ungCertificateExpiresAt r \<and>
      ungUpdatedAt r < ungCertificateRenewAfter r \<and> ungCertificateRenewAfter r < ungCertificateExpiresAt r \<and>
      1 \<le> ungPreviousCertificateGeneration r \<and> ungCertificateGeneration r = wrap64 (ungPreviousCertificateGeneration r + 1) \<and>
      1 \<le> expectedRevision \<and> ungConfigRevision r = wrap64 (expectedRevision + 1) \<and> ungPreviousCertificateBlocklisted r)"

definition parseNodeGroupsEvent :: "AuditEvent \<Rightarrow> (UpdatedNodeGroups \<times> int) result" where
  "parseNodeGroupsEvent event =
     (let s = (\<lambda>k. detail_string (detail event k)); t = (\<lambda>k. auditRFC3339Time (detail event k));
          n = (\<lambda>k. auditNonNegativeInteger (detail event k)) in
      guard_result (evResource event = ''node'' \<and> validPersistedID (evResourceID event)) ErrInternal
      (case (s ''request_id'', s ''network_id'', s ''name'', s ''ip'', parseAuditGroups (detail event ''previous_groups''),
             parseAuditGroups (detail event ''groups'')) of
         (Some requestID, Some networkID, Some name, Some ip, Some previousGroups, Some groups) \<Rightarrow>
           (case (t ''updated_at'', t ''previous_certificate_expires_at'', t ''certificate_expires_at'', t ''certificate_renew_after'') of
              (Some updatedAt, Some previousExpiry, Some expiresAt, Some renewAfter) \<Rightarrow>
                (case (n ''previous_certificate_generation'', n ''certificate_generation'', n ''expected_config_revision'', n ''config_revision'',
                       n ''agent_recovery_records_invalidated'', detail_bool (detail event ''previous_certificate_blocklisted'')) of
                   (Some previousGeneration, Some generation, Some expectedRevision, Some configRevision, Some recoveries, Some blocklisted) \<Rightarrow>
                     (let receipt = \<lparr>ungRequestID = requestID, ungNodeID = evResourceID event, ungNetworkID = networkID, ungName = name,
                            ungIP = ip, ungPreviousGroups = previousGroups, ungGroups = groups, ungUpdatedAt = updatedAt,
                            ungPreviousCertificateExpiresAt = previousExpiry, ungCertificateExpiresAt = expiresAt,
                            ungCertificateRenewAfter = renewAfter, ungPreviousCertificateGeneration = previousGeneration,
                            ungCertificateGeneration = generation, ungAgentRecoveryRecordsInvalidated = recoveries,
                            ungPreviousCertificateBlocklisted = blocklisted, ungConfigRevision = configRevision\<rparr>
                      in guard_result (groups_fields_ok receipt expectedRevision \<and> evAt event = updatedAt) ErrInternal
                           (Inr (receipt, expectedRevision)))
                 | _ \<Rightarrow> Inl ErrInternal)
            | _ \<Rightarrow> Inl ErrInternal)
       | _ \<Rightarrow> Inl ErrInternal))"

definition node_groups_event :: "string \<Rightarrow> AuditEvent \<Rightarrow> bool" where
  "node_groups_event requestID event =
     (evAction event = ''node.groups_updated'' \<and> detail_string (detail event ''request_id'') = Some requestID)"

definition findNodeGroupsReplay ::
  "State \<Rightarrow> string \<Rightarrow> UpdateNodeGroupsInput \<Rightarrow> string list \<Rightarrow> UpdatedNodeGroups option result" where
  "findNodeGroupsReplay state ident input groups =
     (case List.find (node_groups_event (ugiRequestID input)) (Audit state) of
        None \<Rightarrow> Inr None
      | Some event \<Rightarrow>
          bind_result (parseNodeGroupsEvent event) (\<lambda>(receipt, expectedRevision).
          guard_result (evResourceID event = ident \<and> ungName receipt = ugiConfirmationName input \<and>
              expectedRevision = ugiExpectedConfigRevision input \<and> ungGroups receipt = groups) ErrConflict
            (Inr (Some receipt))))"

fun node_group_audits_ok :: "string list \<Rightarrow> AuditEvent list \<Rightarrow> unit result" where
  "node_group_audits_ok seen [] = Inr ()"
| "node_group_audits_ok seen (event # events) =
     (if evAction event \<noteq> ''node.groups_updated'' then node_group_audits_ok seen events
      else bind_result (parseNodeGroupsEvent event) (\<lambda>(receipt, _).
        guard_result (ungRequestID receipt \<notin> set seen) ErrInternal (node_group_audits_ok (ungRequestID receipt # seen) events)))"

definition validateNodeGroupAudits :: "State \<Rightarrow> unit result" where
  "validateNodeGroupAudits state = node_group_audits_ok [] (Audit state)"

section \<open>The snapshot\<close>

definition optionalTimesEqual :: "time option \<Rightarrow> time option \<Rightarrow> bool" where
  "optionalTimesEqual left right =
     (case (left, right) of (Some a, Some b) \<Rightarrow> a = b | (a, b) \<Rightarrow> a = None \<and> b = None)"

definition validateActiveCertificateRotationSource :: "Node \<Rightarrow> time \<Rightarrow> unit result" where
  "validateActiveCertificateRotationSource node now =
     guard_result (nodeCertificate node \<noteq> [] \<and> fingerprintPattern (nodeCertificateFingerprint node) \<and>
         nodeCertificateExpiresAt node \<noteq> None \<and> nodeCertificateRenewAfter node \<noteq> None \<and> 1 \<le> nodeCertificateGeneration node \<and>
         ValidTokenHash (nodePublicKeyHash node)) ErrConflict
     (if nodeRenewalClaimID node \<noteq> []
      then (case nodeRenewalClaimedAt node of
              None \<Rightarrow> Inl ErrConflict
            | Some at \<Rightarrow> guard_result (\<not> (now < at \<or> now - at < 5 * minute)) ErrConflict (Inr ()))
      else Inr ())"

definition reissue_blocked :: "Network \<Rightarrow> string \<Rightarrow> bool" where
  "reissue_blocked network ident =
     (caPhase (netCARotation network) \<noteq> [] \<or> roPhase (netFirewallRollout network) \<noteq> [] \<or>
      routeTransferIncludesNode (netRouteTransfer network) ident \<or> routeProfileEditIncludesNode (netRouteProfileEdit network) ident)"

text \<open>The two calls differ in one check: a change of groups has to change them (\<open>settled\<close>).\<close>

definition reissue_snapshot :: "string \<Rightarrow> string \<Rightarrow> int \<Rightarrow> (Node \<Rightarrow> bool) \<Rightarrow> time \<Rightarrow> State \<Rightarrow> (Node \<times> Network) result" where
  "reissue_snapshot ident name expected settled now state =
     (case findNode state ident of
        None \<Rightarrow> Inl ErrNotFound
      | Some node \<Rightarrow>
          guard_result (live_enrolled node) ErrConflict
         (guard_result (nodeName node = name) ErrConflict
         (guard_result (\<not> settled node) ErrConflict
          (case findNetwork state (nodeNetworkID node) of
             None \<Rightarrow> Inl ErrNotFound
           | Some network \<Rightarrow>
               guard_result (netConfigRevision network = expected) ErrConflict
              (guard_result (\<not> reissue_blocked network (nodeID node)) ErrConflict
              (bind_result (validateActiveCertificateRotationSource node now) (\<lambda>_. Inr (node, network))))))))"

section \<open>The certificate\<close>

type_synonym issuer =
  "string \<Rightarrow> string \<Rightarrow> string \<Rightarrow> string \<Rightarrow> string \<Rightarrow> string \<Rightarrow> string \<Rightarrow> int \<Rightarrow> (string \<times> string \<times> time) result"

definition publicKeyFromNodeCertificate ::
  "Environment \<Rightarrow> (string \<Rightarrow> (string \<times> string) option) \<Rightarrow> Node \<Rightarrow> string result" where
  "publicKeyFromNodeCertificate env parseCertificate node =
     (case parseCertificate (nodeCertificate node) of
        None \<Rightarrow> Inl ErrConflict
      | Some (key, remainder) \<Rightarrow>
          guard_result (TrimSpace remainder = []) ErrConflict
          (case canonicalNebulaPublicKeyPEM env key of
             Inl e \<Rightarrow> Inl ErrConflict
           | Inr publicKey \<Rightarrow>
               guard_result (TokenHashEqual (nodePublicKeyHash node) (HashToken (envSHA env) publicKey)) ErrConflict (Inr publicKey)))"

definition sign_request ::
  "issuer \<Rightarrow> Network \<Rightarrow> Node \<Rightarrow> string \<Rightarrow> string \<Rightarrow> string \<Rightarrow> (string \<times> string \<times> time) result" where
  "sign_request issue network node caCertificate caKey publicKey =
     (case prefixLength (netCIDR network) of
        None \<Rightarrow> Inl ErrInternal
      | Some len \<Rightarrow>
          issue caCertificate caKey publicKey (nodeName node) (nodeIP node @ ''/'' @ len) (join_with '','' (nodeGroups node))
            (join_with '','' (nodeRoutedSubnets node)) (certificate_ttl network))"

definition signDistinctNodeCertificate ::
  "(nat \<Rightarrow> issuer) \<Rightarrow> bool \<Rightarrow> Network \<Rightarrow> Node \<Rightarrow> string \<Rightarrow> string \<Rightarrow> string \<Rightarrow> (string \<times> string \<times> time) result" where
  "signDistinctNodeCertificate issuers cancelled network node caCertificate caKey publicKey =
     bind_result (sign_request (issuers 0) network node caCertificate caKey publicKey) (\<lambda>(certificate, fingerprint, expiresAt).
     if fingerprint \<noteq> nodeCertificateFingerprint node then Inr (certificate, fingerprint, expiresAt)
     else if cancelled then Inl ErrInternal
     else bind_result (sign_request (issuers 1) network node caCertificate caKey publicKey) (\<lambda>(certificate, fingerprint, expiresAt).
       if fingerprint \<noteq> nodeCertificateFingerprint node then Inr (certificate, fingerprint, expiresAt)
       else Inl ErrConflict))"

text \<open>\<open>desired\<close> is the snapshot with the groups the certificate is to have.\<close>

definition reissue_certificate ::
  "Environment \<Rightarrow> (string \<Rightarrow> (string \<times> string) option) \<Rightarrow> (nat \<Rightarrow> issuer) \<Rightarrow> bool \<Rightarrow> time \<Rightarrow> Node \<Rightarrow> Node \<Rightarrow> Network \<Rightarrow> issued result" where
  "reissue_certificate env parseCertificate issuers cancelled now node desired network =
     bind_result (publicKeyFromNodeCertificate env parseCertificate node) (\<lambda>publicKey.
     case networkSigningAuthority network of (caCertificate, encryptedKey) \<Rightarrow>
     bind_result (envOpenFor env ''ca-key-v1'' encryptedKey) (\<lambda>caKey.
     bind_result (signDistinctNodeCertificate issuers cancelled network desired caCertificate (bytes_string caKey) publicKey)
       (\<lambda>(certificate, fingerprint, expiresAt).
     guard_result (TrimSpace certificate \<noteq> [] \<and> fingerprintPattern fingerprint \<and> now < expiresAt) ErrInternal
    (let renewAfter = renew_after network expiresAt in
     guard_result (renewal_metadata_ok now expiresAt renewAfter) ErrInternal
    (Inr \<lparr>isdAuthority = caCertificate, isdCertificate = certificate, isdFingerprint = fingerprint, isdExpiresAt = expiresAt,
          isdRenewAfter = renewAfter\<rparr>)))))"

section \<open>The commit\<close>

definition reissue_network_unchanged :: "int \<Rightarrow> Network \<Rightarrow> string \<Rightarrow> Network \<Rightarrow> bool" where
  "reissue_network_unchanged expected snapshot ident network =
     (netConfigRevision network = expected \<and> \<not> reissue_blocked network ident \<and>
      networkSigningAuthority network = networkSigningAuthority snapshot \<and>
      netConfigSigningPublicKey network = netConfigSigningPublicKey snapshot \<and>
      netEncryptedConfigSigningKey network = netEncryptedConfigSigningKey snapshot)"

definition reissue_certificate_unchanged :: "Node \<Rightarrow> Node \<Rightarrow> bool" where
  "reissue_certificate_unchanged snapshot node =
     (nodeCertificate node = nodeCertificate snapshot \<and> nodeCertificateFingerprint node = nodeCertificateFingerprint snapshot \<and>
      nodeCertificateGeneration node = nodeCertificateGeneration snapshot \<and> nodePublicKeyHash node = nodePublicKeyHash snapshot \<and>
      optionalTimesEqual (nodeCertificateExpiresAt node) (nodeCertificateExpiresAt snapshot) \<and>
      optionalTimesEqual (nodeCertificateRenewAfter node) (nodeCertificateRenewAfter snapshot) \<and>
      nodeRenewalClaimID node = nodeRenewalClaimID snapshot \<and>
      optionalTimesEqual (nodeRenewalClaimedAt node) (nodeRenewalClaimedAt snapshot))"

text \<open>
  The part both commits share.  \<open>kept\<close> says what else must not have changed in the node and \<open>regroup\<close> sets its groups.
  The result is the node, the next revision, the number of recoveries that ended and the state before the event.
\<close>

definition reissue_commit ::
  "Environment \<Rightarrow> time \<Rightarrow> string \<Rightarrow> string \<Rightarrow> int \<Rightarrow> string \<Rightarrow> (Node \<Rightarrow> bool) \<Rightarrow> (Node \<Rightarrow> Node) \<Rightarrow> issued \<Rightarrow> Node \<Rightarrow> Network \<Rightarrow> State \<Rightarrow>
    (Node \<times> int \<times> int \<times> State) result" where
  "reissue_commit env now ident name expected reason kept regroup cert snapshotNode snapshotNetwork state =
     (case find_node_idx state ident of
        None \<Rightarrow> Inl ErrNotFound
      | Some k \<Rightarrow>
          (let node = Nodes state ! k in
           guard_result (live_enrolled node \<and> nodeName node = name) ErrConflict
           (case find_network_idx state (nodeNetworkID node) of
              None \<Rightarrow> Inl ErrNotFound
            | Some i \<Rightarrow>
                (let network = Networks state ! i in
                 guard_result (reissue_network_unchanged expected snapshotNetwork (nodeID node) network) ErrConflict
                (guard_result (kept node \<and> reissue_certificate_unchanged snapshotNode node) ErrConflict
                (guard_result (\<not> list_ex (\<lambda>r. rvFingerprint r = nodeCertificateFingerprint snapshotNode) (Revocations state)) ErrConflict
                (bind_result (nextConfigRevision (netConfigRevision network) True) (\<lambda>nextRevision.
                 let recoveries = filter (\<lambda>r. recNodeID r \<noteq> nodeID node) (AgentRecoveries state);
                     state1 = appendRevocation (nodeID node) (nodeCertificateFingerprint node) reason now (nodeCertificateExpiresAt node)
                       (state\<lparr>AgentRecoveries := recoveries\<rparr>);
                     node' = regroup (renewed_node env state cert now node);
                     network' = network\<lparr>netConfigRevision := nextRevision, netConfigUpdatedAt := now\<rparr>
                 in Inr (node', nextRevision, int (length (AgentRecoveries state) - length recoveries),
                      (set_network (set_node state1 k node') i network')\<lparr>Issuances := Issuances state @
                        [issuance_record node' (isdFingerprint cert) now (isdExpiresAt cert)]\<rparr>))))))))) "

definition rotateNodeCertificate ::
  "Environment \<Rightarrow> (string \<Rightarrow> (string \<times> string) option) \<Rightarrow> (nat \<Rightarrow> issuer) \<Rightarrow> bool \<Rightarrow> string \<Rightarrow> time \<Rightarrow> Actor option \<Rightarrow> string \<Rightarrow>
    RotateNodeCertificateInput \<Rightarrow> State \<Rightarrow> State \<Rightarrow> (RotatedNodeCertificate \<times> State) result" where
  "rotateNodeCertificate env parseCertificate issuers cancelled eid now actor ident input viewed state =
     (let ident = TrimSpace ident; expected = rciExpectedConfigRevision input in
      guard_result (validPersistedID ident \<and> 1 \<le> expected \<and> namePattern (rciConfirmationName input) \<and>
          validCertificateRotationRequestID (rciRequestID input)) ErrInvalid
     (guard_result (now \<noteq> 0) ErrInvalid
     (bind_result (findCertificateRotationReplay viewed ident input) (\<lambda>replay.
      case replay of
        Some receipt \<Rightarrow> Inr (receipt, state)
      | None \<Rightarrow>
          bind_result (reissue_snapshot ident (rciConfirmationName input) expected (\<lambda>_. False) now viewed) (\<lambda>(snapshotNode, snapshotNetwork).
          bind_result (reissue_certificate env parseCertificate issuers cancelled now snapshotNode snapshotNode snapshotNetwork) (\<lambda>cert.
          bind_result (findCertificateRotationReplay state ident input) (\<lambda>committed.
          case committed of
            Some receipt \<Rightarrow> Inr (receipt, state)
          | None \<Rightarrow>
              bind_result (reissue_commit env now ident (rciConfirmationName input) expected ''certificate rotated by administrator''
                  (\<lambda>_. True) (\<lambda>n. n) cert snapshotNode snapshotNetwork state) (\<lambda>(node, nextRevision, recoveries, state').
              guard_result (nodeCertificateGeneration node = wrap64 (nodeCertificateGeneration snapshotNode + 1)) ErrConflict
             (let result = \<lparr>rncRequestID = rciRequestID input, rncNodeID = nodeID node, rncNetworkID = nodeNetworkID node,
                    rncName = nodeName node, rncIP = nodeIP node, rncRole = nodeRole node, rncRotatedAt = now,
                    rncPreviousCertificateExpiresAt = valueOrZero (nodeCertificateExpiresAt snapshotNode),
                    rncCertificateExpiresAt = isdExpiresAt cert, rncCertificateRenewAfter = isdRenewAfter cert,
                    rncPreviousCertificateGeneration = nodeCertificateGeneration snapshotNode,
                    rncCertificateGeneration = nodeCertificateGeneration node, rncAgentRecoveryRecordsInvalidated = recoveries,
                    rncCertificateIssuancesAdded = 1, rncBlocklistEntriesAdded = 1, rncPreviousCertificateBlocklisted = True,
                    rncConfigRevision = nextRevision\<rparr> in
              bind_result (newOptionalAttributedAudit eid now ''node.certificate_rotated'' ''node'' (nodeID node)
                  (certificateRotationAuditDetails result expected) actor) (\<lambda>event.
              Inr (result, add_audit state' event)))))))))))"

definition RotateNodeCertificateAs ::
  "Environment \<Rightarrow> (string \<Rightarrow> (string \<times> string) option) \<Rightarrow> (nat \<Rightarrow> issuer) \<Rightarrow> bool \<Rightarrow> string \<Rightarrow> time \<Rightarrow> Actor \<Rightarrow> string \<Rightarrow>
    RotateNodeCertificateInput \<Rightarrow> State \<Rightarrow> State \<Rightarrow> (RotatedNodeCertificate \<times> State) result" where
  "RotateNodeCertificateAs env parseCertificate issuers cancelled eid now actor ident input viewed state =
     bind_result (validateActor actor) (\<lambda>_.
     rotateNodeCertificate env parseCertificate issuers cancelled eid now (Some actor) ident input viewed state)"

definition updateNodeGroups ::
  "Environment \<Rightarrow> (string \<Rightarrow> (string \<times> string) option) \<Rightarrow> (nat \<Rightarrow> issuer) \<Rightarrow> bool \<Rightarrow> string \<Rightarrow> time \<Rightarrow> Actor option \<Rightarrow> string \<Rightarrow>
    UpdateNodeGroupsInput \<Rightarrow> State \<Rightarrow> State \<Rightarrow> (UpdatedNodeGroups \<times> State) result" where
  "updateNodeGroups env parseCertificate issuers cancelled eid now actor ident input viewed state =
     (let ident = TrimSpace ident; expected = ugiExpectedConfigRevision input in
      bind_result (canonicalNodeMembershipGroups (ugiGroups input)) (\<lambda>groups.
      guard_result (validPersistedID ident \<and> 1 \<le> expected \<and> namePattern (ugiConfirmationName input) \<and>
          validCertificateRotationRequestID (ugiRequestID input)) ErrInvalid
     (guard_result (now \<noteq> 0) ErrInvalid
     (bind_result (findNodeGroupsReplay viewed ident input groups) (\<lambda>replay.
      case replay of
        Some receipt \<Rightarrow> Inr (receipt, state)
      | None \<Rightarrow>
          bind_result (reissue_snapshot ident (ugiConfirmationName input) expected (\<lambda>n. nodeGroups n = groups) now viewed)
            (\<lambda>(snapshotNode, snapshotNetwork).
          bind_result (reissue_certificate env parseCertificate issuers cancelled now snapshotNode
              (snapshotNode\<lparr>nodeGroups := groups\<rparr>) snapshotNetwork) (\<lambda>cert.
          bind_result (findNodeGroupsReplay state ident input groups) (\<lambda>committed.
          case committed of
            Some receipt \<Rightarrow> Inr (receipt, state)
          | None \<Rightarrow>
              bind_result (reissue_commit env now ident (ugiConfirmationName input) expected ''certificate groups changed by administrator''
                  (\<lambda>n. nodeGroups n = nodeGroups snapshotNode) (\<lambda>n. n\<lparr>nodeGroups := groups\<rparr>) cert snapshotNode snapshotNetwork state)
                (\<lambda>(node, nextRevision, recoveries, state').
              let result = \<lparr>ungRequestID = ugiRequestID input, ungNodeID = nodeID node, ungNetworkID = nodeNetworkID node,
                    ungName = nodeName node, ungIP = nodeIP node, ungPreviousGroups = nodeGroups snapshotNode, ungGroups = nodeGroups node,
                    ungUpdatedAt = now, ungPreviousCertificateExpiresAt = valueOrZero (nodeCertificateExpiresAt snapshotNode),
                    ungCertificateExpiresAt = isdExpiresAt cert, ungCertificateRenewAfter = isdRenewAfter cert,
                    ungPreviousCertificateGeneration = nodeCertificateGeneration snapshotNode,
                    ungCertificateGeneration = nodeCertificateGeneration node, ungAgentRecoveryRecordsInvalidated = recoveries,
                    ungPreviousCertificateBlocklisted = True, ungConfigRevision = nextRevision\<rparr> in
              bind_result (newOptionalAttributedAudit eid now ''node.groups_updated'' ''node'' (nodeID node)
                  (nodeGroupsAuditDetails result expected) actor) (\<lambda>event.
              Inr (result, add_audit state' event)))))))))))"

definition UpdateNodeGroupsAs ::
  "Environment \<Rightarrow> (string \<Rightarrow> (string \<times> string) option) \<Rightarrow> (nat \<Rightarrow> issuer) \<Rightarrow> bool \<Rightarrow> string \<Rightarrow> time \<Rightarrow> Actor \<Rightarrow> string \<Rightarrow>
    UpdateNodeGroupsInput \<Rightarrow> State \<Rightarrow> State \<Rightarrow> (UpdatedNodeGroups \<times> State) result" where
  "UpdateNodeGroupsAs env parseCertificate issuers cancelled eid now actor ident input viewed state =
     bind_result (validateActor actor) (\<lambda>_.
     updateNodeGroups env parseCertificate issuers cancelled eid now (Some actor) ident input viewed state)"

section \<open>The transition\<close>

text \<open>What either call does to the state when it commits.\<close>

definition reissues :: "Environment \<Rightarrow> issued \<Rightarrow> time \<Rightarrow> string \<Rightarrow> (Node \<Rightarrow> string list) \<Rightarrow> State \<Rightarrow> State \<Rightarrow> bool" where
  "reissues env cert now ident groups s s' \<longleftrightarrow>
     (\<exists>k v i n v' r reason ev. find_node_idx s ident = Some k \<and> v = Nodes s ! k \<and> live_enrolled v \<and>
        find_network_idx s (nodeNetworkID v) = Some i \<and> n = Networks s ! i \<and> nextConfigRevision (netConfigRevision n) True = Inr r \<and>
        isdAuthority cert = fst (networkSigningAuthority n) \<and> isdFingerprint cert \<noteq> nodeCertificateFingerprint v \<and>
        nodeCertificateFingerprint v \<noteq> [] \<and> v' = (renewed_node env s cert now v)\<lparr>nodeGroups := groups v\<rparr> \<and>
        s' = add_audit (s\<lparr>AgentRecoveries := filter (\<lambda>c. recNodeID c \<noteq> ident) (AgentRecoveries s),
          Revocations := Revocations s @ [\<lparr>rvFingerprint = nodeCertificateFingerprint v, rvNodeID = ident,
            rvNetworkID = nodeNetworkID v, rvReason = reason, rvAt = now, rvExpiresAt = nodeCertificateExpiresAt v\<rparr>],
          Nodes := (Nodes s)[k := v'], Networks := (Networks s)[i := n\<lparr>netConfigRevision := r, netConfigUpdatedAt := now\<rparr>],
          Issuances := Issuances s @ [issuance_record v' (isdFingerprint cert) now (isdExpiresAt cert)]\<rparr>) ev)"

lemma reissue_commit_reissues:
  assumes run: "reissue_commit env now ident name expected reason kept regroup cert old snapshot s = Inr (v', r, c, s1)"
    and "isdAuthority cert = fst (networkSigningAuthority snapshot)" "isdFingerprint cert \<noteq> nodeCertificateFingerprint old"
    and "nodeCertificateFingerprint old \<noteq> []" "\<And>v. kept v \<Longrightarrow> regroup (renewed_node env s cert now v) = (renewed_node env s cert now v)\<lparr>nodeGroups := groups v\<rparr>"
  shows "reissues env cert now ident groups s (add_audit s1 ev)"
proof -
  from run obtain k i where k: "find_node_idx s ident = Some k" "live_enrolled (Nodes s ! k)"
    and i: "find_network_idx s (nodeNetworkID (Nodes s ! k)) = Some i"
    and same: "reissue_network_unchanged expected snapshot (nodeID (Nodes s ! k)) (Networks s ! i)" "kept (Nodes s ! k)"
      "reissue_certificate_unchanged old (Nodes s ! k)"
    and new: "\<not> list_ex (\<lambda>r. rvFingerprint r = nodeCertificateFingerprint old) (Revocations s)"
    and r: "nextConfigRevision (netConfigRevision (Networks s ! i)) True = Inr r"
    and v': "v' = regroup (renewed_node env s cert now (Nodes s ! k))"
    and s1: "s1 = (set_network (set_node (appendRevocation (nodeID (Nodes s ! k)) (nodeCertificateFingerprint (Nodes s ! k)) reason now
        (nodeCertificateExpiresAt (Nodes s ! k)) (s\<lparr>AgentRecoveries := filter (\<lambda>c. recNodeID c \<noteq> nodeID (Nodes s ! k)) (AgentRecoveries s)\<rparr>)) k v')
        i ((Networks s ! i)\<lparr>netConfigRevision := r, netConfigUpdatedAt := now\<rparr>))\<lparr>Issuances := Issuances s @
        [issuance_record v' (isdFingerprint cert) now (isdExpiresAt cert)]\<rparr>"
    by (auto simp: reissue_commit_def Let_def split: option.splits)
  let ?v = "Nodes s ! k"
  have id: "nodeID ?v = ident" and found: "findNode s ident = Some ?v"
    using find_idx_P [OF k(1) [unfolded find_node_idx_def]] k(1) by (simp_all add: findNode_def find_find_idx find_node_idx_def)
  have fp: "nodeCertificateFingerprint ?v = nodeCertificateFingerprint old" using same(3) by (simp add: reissue_certificate_unchanged_def)
  have found': "findNode (s\<lparr>AgentRecoveries := x\<rparr>) ident = Some ?v" for x using found by (simp add: findNode_def)
  show ?thesis
    unfolding reissues_def
  proof (intro exI conjI)
    show "find_node_idx s ident = Some k" "live_enrolled ?v" "find_network_idx s (nodeNetworkID ?v) = Some i" by fact+
    show "isdAuthority cert = fst (networkSigningAuthority (Networks s ! i))" using same(1) assms(2) by (simp add: reissue_network_unchanged_def)
    show "add_audit s1 ev = add_audit (s\<lparr>AgentRecoveries := filter (\<lambda>c. recNodeID c \<noteq> ident) (AgentRecoveries s),
        Revocations := Revocations s @ [\<lparr>rvFingerprint = nodeCertificateFingerprint ?v, rvNodeID = ident,
          rvNetworkID = nodeNetworkID ?v, rvReason = reason, rvAt = now, rvExpiresAt = nodeCertificateExpiresAt ?v\<rparr>],
        Nodes := (Nodes s)[k := (renewed_node env s cert now ?v)\<lparr>nodeGroups := groups ?v\<rparr>],
        Networks := (Networks s)[i := (Networks s ! i)\<lparr>netConfigRevision := r, netConfigUpdatedAt := now\<rparr>],
        Issuances := Issuances s @ [issuance_record ((renewed_node env s cert now ?v)\<lparr>nodeGroups := groups ?v\<rparr>)
          (isdFingerprint cert) now (isdExpiresAt cert)]\<rparr>) ev"
      using new fp assms(4,5) same(2) unfolding s1 v' id by (simp add: appendRevocation_def found' set_network_def set_node_def)
  qed (use r assms(3,4) fp in simp_all)
qed

lemma reissue_commit_key:
  assumes "reissue_commit env now ident name expected reason kept regroup cert old snapshot s = Inr (v', r, c, s1)" "findNode s ident = Some v"
  shows "nodePublicKeyHash v = nodePublicKeyHash old"
  using assms
  by (auto simp: reissue_commit_def Let_def reissue_certificate_unchanged_def findNode_def find_find_idx find_node_idx_def split: option.splits)

lemma reissue_snapshot_ok:
  assumes "reissue_snapshot ident name expected settled now viewed = Inr (node, network)"
  shows "findNode viewed ident = Some node" "findNetwork viewed (nodeNetworkID node) = Some network" "\<not> settled node"
    and "nodeCertificateFingerprint node \<noteq> []" "nodeName node = name"
proof -
  have "findNode viewed ident = Some node \<and> findNetwork viewed (nodeNetworkID node) = Some network \<and> \<not> settled node \<and>
      fingerprintPattern (nodeCertificateFingerprint node) \<and> nodeName node = name"
    using assms by (auto simp: reissue_snapshot_def validateActiveCertificateRotationSource_def split: option.splits)
  then show "findNode viewed ident = Some node" "findNetwork viewed (nodeNetworkID node) = Some network" "\<not> settled node"
      "nodeCertificateFingerprint node \<noteq> []" "nodeName node = name"
    by (auto simp: fingerprintPattern_def)
qed

lemma reissue_certificate_ok:
  assumes "reissue_certificate env parseCertificate issuers cancelled now node desired network = Inr cert"
    and "nodeCertificateFingerprint desired = nodeCertificateFingerprint node"
  shows "isdAuthority cert = fst (networkSigningAuthority network)" "isdFingerprint cert \<noteq> nodeCertificateFingerprint node"
    and "\<exists>j caKey publicKey. sign_request (issuers j) network desired (fst (networkSigningAuthority network)) caKey publicKey =
      Inr (isdCertificate cert, isdFingerprint cert, isdExpiresAt cert) \<and> TokenHashEqual (nodePublicKeyHash node) (HashToken (envSHA env) publicKey)"
    and "now < isdExpiresAt cert" "isdRenewAfter cert = renew_after network (isdExpiresAt cert)"
proof -
  obtain publicKey ca key caKey certificate fingerprint expiresAt where
    pk: "publicKeyFromNodeCertificate env parseCertificate node = Inr publicKey" and ca: "networkSigningAuthority network = (ca, key)"
    and sign: "signDistinctNodeCertificate issuers cancelled network desired ca (bytes_string caKey) publicKey = Inr (certificate, fingerprint, expiresAt)"
    and exp: "now < expiresAt"
    and cert: "cert = \<lparr>isdAuthority = ca, isdCertificate = certificate, isdFingerprint = fingerprint, isdExpiresAt = expiresAt,
        isdRenewAfter = renew_after network expiresAt\<rparr>"
    using assms(1) by (cases "networkSigningAuthority network") (auto simp: reissue_certificate_def Let_def)
  have "TokenHashEqual (nodePublicKeyHash node) (HashToken (envSHA env) publicKey)"
    using pk by (auto simp: publicKeyFromNodeCertificate_def split: option.splits sum.splits)
  moreover have "fingerprint \<noteq> nodeCertificateFingerprint node \<and>
      (\<exists>j. sign_request (issuers j) network desired ca (bytes_string caKey) publicKey = Inr (certificate, fingerprint, expiresAt))"
    using sign assms(2) by (auto simp: signDistinctNodeCertificate_def split: if_splits)
  ultimately show "isdAuthority cert = fst (networkSigningAuthority network)" "isdFingerprint cert \<noteq> nodeCertificateFingerprint node"
    "\<exists>j caKey publicKey. sign_request (issuers j) network desired (fst (networkSigningAuthority network)) caKey publicKey =
      Inr (isdCertificate cert, isdFingerprint cert, isdExpiresAt cert) \<and> TokenHashEqual (nodePublicKeyHash node) (HashToken (envSHA env) publicKey)"
    "now < isdExpiresAt cert" "isdRenewAfter cert = renew_after network (isdExpiresAt cert)"
    using ca exp by (auto simp: cert)
qed

lemma rotateNodeCertificate_ok:
  assumes "rotateNodeCertificate env parseCertificate issuers cancelled eid now actor ident input viewed s = Inr (r, s')"
  obtains (replay) "s' = s" "findCertificateRotationReplay viewed (TrimSpace ident) input = Inr (Some r) \<or>
      findCertificateRotationReplay s (TrimSpace ident) input = Inr (Some r)"
  | (commit) old snapshot cert where "findNode viewed (TrimSpace ident) = Some old" "findNetwork viewed (nodeNetworkID old) = Some snapshot"
      "reissue_certificate env parseCertificate issuers cancelled now old old snapshot = Inr cert"
      "reissues env cert now (TrimSpace ident) nodeGroups s s'" "\<And>v. findNode s (TrimSpace ident) = Some v \<Longrightarrow> nodePublicKeyHash v = nodePublicKeyHash old"
proof (cases "s' = s \<and> (findCertificateRotationReplay viewed (TrimSpace ident) input = Inr (Some r) \<or>
    findCertificateRotationReplay s (TrimSpace ident) input = Inr (Some r))")
  case False
  with assms obtain old snapshot cert node nr c s1 ev where
    snap: "reissue_snapshot (TrimSpace ident) (rciConfirmationName input) (rciExpectedConfigRevision input) (\<lambda>_. False) now viewed = Inr (old, snapshot)"
    and cert: "reissue_certificate env parseCertificate issuers cancelled now old old snapshot = Inr cert"
    and run: "reissue_commit env now (TrimSpace ident) (rciConfirmationName input) (rciExpectedConfigRevision input)
        ''certificate rotated by administrator'' (\<lambda>_. True) (\<lambda>n. n) cert old snapshot s = Inr (node, nr, c, s1)"
    and s': "s' = add_audit s1 ev"
    by (auto simp: rotateNodeCertificate_def Let_def split: option.splits)
  note c = reissue_certificate_ok(1,2) [OF cert refl]
  have groups: "renewed_node env s cert now v = (renewed_node env s cert now v)\<lparr>nodeGroups := nodeGroups v\<rparr>" for v
    by (simp add: renewed_node_def set_certificate_def)
  have "reissues env cert now (TrimSpace ident) nodeGroups s s'"
    unfolding s' by (rule reissue_commit_reissues [OF run c reissue_snapshot_ok(4) [OF snap] groups])
  with commit cert reissue_snapshot_ok [OF snap] reissue_commit_key [OF run] show thesis by blast
qed (use replay in blast)

lemma updateNodeGroups_ok:
  assumes "updateNodeGroups env parseCertificate issuers cancelled eid now actor ident input viewed s = Inr (r, s')"
  obtains (replay) groups where "s' = s" "canonicalNodeMembershipGroups (ugiGroups input) = Inr groups"
      "findNodeGroupsReplay viewed (TrimSpace ident) input groups = Inr (Some r) \<or> findNodeGroupsReplay s (TrimSpace ident) input groups = Inr (Some r)"
  | (commit) groups old snapshot cert where "canonicalNodeMembershipGroups (ugiGroups input) = Inr groups"
      "findNode viewed (TrimSpace ident) = Some old" "findNetwork viewed (nodeNetworkID old) = Some snapshot" "nodeGroups old \<noteq> groups"
      "reissue_certificate env parseCertificate issuers cancelled now old (old\<lparr>nodeGroups := groups\<rparr>) snapshot = Inr cert"
      "reissues env cert now (TrimSpace ident) (\<lambda>_. groups) s s'" "\<And>v. findNode s (TrimSpace ident) = Some v \<Longrightarrow> nodePublicKeyHash v = nodePublicKeyHash old"
proof -
  from assms obtain groups where g: "canonicalNodeMembershipGroups (ugiGroups input) = Inr groups"
    by (auto simp: updateNodeGroups_def Let_def)
  show thesis
  proof (cases "s' = s \<and> (findNodeGroupsReplay viewed (TrimSpace ident) input groups = Inr (Some r) \<or>
      findNodeGroupsReplay s (TrimSpace ident) input groups = Inr (Some r))")
    case False
    with assms g obtain old snapshot cert node nr c s1 ev where
      snap: "reissue_snapshot (TrimSpace ident) (ugiConfirmationName input) (ugiExpectedConfigRevision input) (\<lambda>n. nodeGroups n = groups) now viewed =
        Inr (old, snapshot)"
      and cert: "reissue_certificate env parseCertificate issuers cancelled now old (old\<lparr>nodeGroups := groups\<rparr>) snapshot = Inr cert"
      and run: "reissue_commit env now (TrimSpace ident) (ugiConfirmationName input) (ugiExpectedConfigRevision input)
          ''certificate groups changed by administrator'' (\<lambda>n. nodeGroups n = nodeGroups old) (\<lambda>n. n\<lparr>nodeGroups := groups\<rparr>) cert old snapshot s =
        Inr (node, nr, c, s1)"
      and s': "s' = add_audit s1 ev"
      by (auto simp: updateNodeGroups_def Let_def split: option.splits)
    have "nodeCertificateFingerprint (old\<lparr>nodeGroups := groups\<rparr>) = nodeCertificateFingerprint old" by simp
    note c = reissue_certificate_ok(1,2) [OF cert this]
    have "reissues env cert now (TrimSpace ident) (\<lambda>_. groups) s s'"
      unfolding s' by (rule reissue_commit_reissues [OF run c reissue_snapshot_ok(4) [OF snap] refl])
    with commit g cert reissue_snapshot_ok [OF snap] reissue_commit_key [OF run] show thesis by blast
  qed (use replay g in blast)
qed

section \<open>Invariants\<close>

lemma reissues_steps:
  assumes "reissues env cert now ident groups s s'" "control_inv (envSHA env) s"
  shows "control_inv (envSHA env) s'"
proof -
  note inv = control_invD [OF assms(2)]
  from assms(1) obtain k v i n v' r where k: "find_node_idx s ident = Some k" "v = Nodes s ! k"
    and i: "find_network_idx s (nodeNetworkID v) = Some i" "n = Networks s ! i" and ca: "isdAuthority cert = fst (networkSigningAuthority n)"
    and v': "v' = (renewed_node env s cert now v)\<lparr>nodeGroups := groups v\<rparr>"
    and s': "Nodes s' = (Nodes s)[k := v']" "Networks s' = (Networks s)[i := n\<lparr>netConfigRevision := r, netConfigUpdatedAt := now\<rparr>]"
      "Version s' = Version s" "Enrollments s' = Enrollments s" "AgentRecoveries s' = filter (\<lambda>c. recNodeID c \<noteq> ident) (AgentRecoveries s)"
    by (auto simp: reissues_def)
  have kl: "k < length (Nodes s)" using k(1) find_idx_lt by (auto simp: find_node_idx_def)
  have v'_simps: "nodeID v' = nodeID v" "nodeNetworkID v' = nodeNetworkID v" "node_hashes v' = node_hashes v"
      "nodeCertificateAuthoritySHA256 v' = ConfigDigest (envSHA env) (isdAuthority cert)" "node_lifecycle_ok v' = node_lifecycle_ok v"
    using inv(6) by (simp_all add: v' renewed_node_def set_certificate_def node_hashes_def node_lifecycle_ok_def pending_shape_def active_shape_def
        revoked_shape_def)
  show ?thesis
  proof (rule node_update_inv [OF assms(2) kl s'(1), where H = "{#}"])
    show "\<forall>m \<in> set (Networks s). authority_ok (envSHA env) m v'"
      by (rule signed_authority_ok [OF inv(5)]) (use i ca v'_simps in \<open>simp_all add: findNetwork_idx\<close>)
    show "list_all2 same_trust (Networks s) (Networks s')"
      unfolding s'(2) using find_network_idx_lt [OF i(1)] i(2) by (intro list_all2_update) (simp_all add: list_all2_refl same_trust_def)
    show "mset (map recTokenHash (AgentRecoveries s')) \<subseteq># mset (map recTokenHash (AgentRecoveries s))"
      unfolding s'(5) using filter_mset_map [of recTokenHash "\<lambda>c. recNodeID c \<noteq> ident" "AgentRecoveries s"] by simp
  qed (use k lifecycle_nth [OF assms(2) kl] v'_simps s' in simp_all)
qed

lemma certificate_inv:
  "rotateNodeCertificate env parseCertificate issuers cancelled eid now actor ident input viewed s = Inr (r, s') \<Longrightarrow>
     control_inv (envSHA env) s \<Longrightarrow> control_inv (envSHA env) s'"
  "updateNodeGroups env parseCertificate issuers cancelled eid now actor ident ginput viewed s = Inr (u, s') \<Longrightarrow>
     control_inv (envSHA env) s \<Longrightarrow> control_inv (envSHA env) s'"
  by (erule rotateNodeCertificate_ok updateNodeGroups_ok; simp add: reissues_steps)+

text \<open>The claim of a renewal that was under way is gone, so the renewal cannot commit.\<close>

lemma unclaimed_renewal:
  assumes "distinct (map nodeID (Nodes s))" "findNode s (nodeID node) = Some v" "nodeRenewalClaimID v \<noteq> claimID"
  shows "\<exists>e. renew_commit env eid now claimID tokenHash cert node s = Inl e"
proof (cases "renew_commit env eid now claimID tokenHash cert node s")
  case (Inr p)
  then obtain b s' where "renew_commit env eid now claimID tokenHash cert node s = Inr (b, s')" by (cases p) simp
  from this assms(1) have False
  proof (rule renew_commit_ok)
    fix k w
    assume "find_node_idx s (nodeID node) = Some k" "w = Nodes s ! k" "renewable tokenHash claimID now w"
    with assms(2,3) show False by (simp add: findNode_def find_find_idx find_node_idx_def renewable_def)
  qed
  then show ?thesis ..
qed simp

section \<open>The effect\<close>

definition reissued_node :: "Environment \<Rightarrow> Network \<Rightarrow> issued \<Rightarrow> time \<Rightarrow> string list \<Rightarrow> Node \<Rightarrow> Node" where
  "reissued_node env network cert now groups node =
     node\<lparr>nodeGroups := groups, nodeCertificate := isdCertificate cert, nodeCertificateFingerprint := isdFingerprint cert,
       nodeCertificateAuthoritySHA256 := ConfigDigest (envSHA env) (fst (networkSigningAuthority network)),
       nodeCertificateExpiresAt := Some (isdExpiresAt cert), nodeCertificateRenewAfter := Some (isdRenewAfter cert),
       nodeCertificateGeneration := wrap64 (nodeCertificateGeneration node + 1), nodeLastRenewedAt := Some now,
       nodeRenewalClaimID := [], nodeRenewalClaimedAt := None\<rparr>"

lemma reissued_claim [simp]: "nodeRenewalClaimID (reissued_node env n cert now groups v) = []"
  by (simp add: reissued_node_def)

lemma find_update_key:
  assumes "distinct (map f xs)" "k < length xs" "f y = f (xs ! k)"
  shows "List.find (\<lambda>x. f x = a) (xs[k := y]) = (if a = f (xs ! k) then Some y else List.find (\<lambda>x. f x = a) xs)"
  using assms
proof (induction xs arbitrary: k)
  case (Cons x xs)
  then show ?case by (cases k) (auto simp: nth_mem image_iff)
qed simp

lemma reissues_effect:
  assumes run: "reissues env cert now ident groups s s'" and inv: "control_inv sha s"
    and v: "findNode s ident = Some v" "findNetwork s (nodeNetworkID v) = Some n"
  shows "findNode s' a = (if a = ident then Some (reissued_node env n cert now (groups v) v) else findNode s a)"
    and "findNetwork s' b = (if b = nodeNetworkID v then Some (n\<lparr>netConfigRevision := netConfigRevision n + 1, netConfigUpdatedAt := now\<rparr>) else findNetwork s b)"
    and "nodeCertificateFingerprint v \<in> set (config_blocklist s' (n\<lparr>netConfigRevision := netConfigRevision n + 1, netConfigUpdatedAt := now\<rparr>))"
    and "AgentRecoveries s' = filter (\<lambda>c. recNodeID c \<noteq> ident) (AgentRecoveries s)" "Enrollments s' = Enrollments s"
    and "isdAuthority cert = fst (networkSigningAuthority n)" "isdFingerprint cert \<noteq> nodeCertificateFingerprint v"
proof -
  from run v obtain k i v' r reason ev where k: "find_node_idx s ident = Some k" "v = Nodes s ! k"
    and i: "find_network_idx s (nodeNetworkID v) = Some i" "n = Networks s ! i" "nextConfigRevision (netConfigRevision n) True = Inr r"
    and c: "isdAuthority cert = fst (networkSigningAuthority n)" "isdFingerprint cert \<noteq> nodeCertificateFingerprint v"
    and v': "v' = (renewed_node env s cert now v)\<lparr>nodeGroups := groups v\<rparr>"
    and s': "s' = add_audit (s\<lparr>AgentRecoveries := filter (\<lambda>c. recNodeID c \<noteq> ident) (AgentRecoveries s),
          Revocations := Revocations s @ [\<lparr>rvFingerprint = nodeCertificateFingerprint v, rvNodeID = ident,
            rvNetworkID = nodeNetworkID v, rvReason = reason, rvAt = now, rvExpiresAt = nodeCertificateExpiresAt v\<rparr>],
          Nodes := (Nodes s)[k := v'], Networks := (Networks s)[i := n\<lparr>netConfigRevision := r, netConfigUpdatedAt := now\<rparr>],
          Issuances := Issuances s @ [issuance_record v' (isdFingerprint cert) now (isdExpiresAt cert)]\<rparr>) ev"
    unfolding reissues_def by (auto simp: findNode_def find_find_idx find_node_idx_def findNetwork_idx)
  have r: "r = netConfigRevision n + 1" using i(3) by (auto simp: nextConfigRevision_def split: if_splits)
  have kl: "k < length (Nodes s)" "nodeID v = ident" and il: "i < length (Networks s)" "netID n = nodeNetworkID v"
    using k find_idx_lt find_idx_P find_network_idx_lt [OF i(1)] find_network_idx_ID [OF i(1)] i(2) by (fastforce simp: find_node_idx_def)+
  have v'_eq: "v' = reissued_node env n cert now (groups v) v"
    using control_invD(6) [OF inv] c(1) by (simp add: v' renewed_node_def set_certificate_def reissued_node_def)
  note nodes = find_update_key [OF control_invD(4) [OF inv] kl(1), of v']
  note nets = find_update_key [OF control_invD(5) [OF inv] il(1), of "n\<lparr>netConfigRevision := r, netConfigUpdatedAt := now\<rparr>"]
  show found: "findNode s' a = (if a = ident then Some (reissued_node env n cert now (groups v) v) else findNode s a)" for a
    using nodes [of a] kl k(2) by (simp add: s' findNode_def add_audit_def v'_eq reissued_node_def)
  show "findNetwork s' b = (if b = nodeNetworkID v then Some (n\<lparr>netConfigRevision := netConfigRevision n + 1, netConfigUpdatedAt := now\<rparr>) else findNetwork s b)"
    using nets [of b] il i(2) by (simp add: s' findNetwork_def add_audit_def r)
  let ?entry = "\<lparr>rvFingerprint = nodeCertificateFingerprint v, rvNodeID = ident, rvNetworkID = nodeNetworkID v, rvReason = reason,
      rvAt = now, rvExpiresAt = nodeCertificateExpiresAt v\<rparr>"
  have "revocation_network s' ?entry = netID n" using found [of ident] il(2) by (simp add: revocation_network_def reissued_node_def)
  moreover have "?entry \<in> set (Revocations s')" by (simp add: s' add_audit_def)
  moreover have "rvFingerprint ?entry = nodeCertificateFingerprint v" by simp
  ultimately have "\<exists>e. nodeCertificateFingerprint v = rvFingerprint e \<and> e \<in> set (Revocations s') \<and> revocation_network s' e = netID n" by metis
  then show "nodeCertificateFingerprint v \<in> set (config_blocklist s' (n\<lparr>netConfigRevision := netConfigRevision n + 1, netConfigUpdatedAt := now\<rparr>))"
    unfolding config_blocklist_set by simp
  show "AgentRecoveries s' = filter (\<lambda>c. recNodeID c \<noteq> ident) (AgentRecoveries s)" "Enrollments s' = Enrollments s"
    by (simp_all add: s' add_audit_def)
  show "isdAuthority cert = fst (networkSigningAuthority n)" "isdFingerprint cert \<noteq> nodeCertificateFingerprint v" by fact+
qed

section \<open>A member that is given another group\<close>

definition held_member :: Node where
  "held_member = race_member\<lparr>nodeCertificate := ''held'', nodeGroups := [''all''], nodeRenewalClaimID := ''claim'',
     nodeRenewalClaimedAt := Some (990 * hour)\<rparr>"

definition held_state :: State where
  "held_state = race_state\<lparr>Nodes := [held_member]\<rparr>"

definition held_key :: string where
  "held_key = replicate 40 (CHR 0x03)"

definition held_parse :: "string \<Rightarrow> (string \<times> string) option" where
  "held_parse certificate = Some (held_key, [])"

definition held_input :: UpdateNodeGroupsInput where
  "held_input = \<lparr>ugiExpectedConfigRevision = 7, ugiConfirmationName = ''member'', ugiRequestID = ''request-0123456789'', ugiGroups = [''db'']\<rparr>"

lemma held_simps [simp]:
  "Networks held_state = [life_network]" "Nodes held_state = [held_member]" "Version held_state = 13" "nodeID held_member = ''member''"
  "nodeNetworkID held_member = ''net''" "nodeName held_member = ''member''" "nodeGroups held_member = [''all'']" "Audit held_state = Audit race_state"
  by (simp_all add: held_state_def held_member_def race_member_def life_member_def beat_node_def demo_member_def demo_node_def)

lemma held_inv: "control_inv wide_sha held_state"
proof -
  have "frame_step race_state held_state"
    by (simp add: frame_step_def held_state_def list_all2_refl same_credentials_def held_member_def)
  then show ?thesis using frame_control_inv race_inv by blast
qed

lemma held_groups: "canonicalNodeMembershipGroups [''db''] = Inr [''all'', ''db'']"
  by code_simp

lemma held_snapshot: "reissue_snapshot ''member'' ''member'' 7 (\<lambda>n. nodeGroups n = [''all'', ''db'']) (1000 * hour) held_state = Inr (held_member, life_network)"
  by code_simp

lemma held_certificate:
  "reissue_certificate life_env held_parse (\<lambda>_. envSignPublicKey life_env) False (1000 * hour) held_member
     (held_member\<lparr>nodeGroups := [''all'', ''db'']\<rparr>) life_network = Inr life_issued"
  by code_simp

lemma held_commit:
  "\<exists>v r c s1. reissue_commit life_env (1000 * hour) ''member'' ''member'' 7 ''certificate groups changed by administrator''
     (\<lambda>n. nodeGroups n = nodeGroups held_member) (\<lambda>n. n\<lparr>nodeGroups := [''all'', ''db'']\<rparr>) life_issued held_member life_network held_state =
     Inr (v, r, c, s1) \<and> Audit s1 = []"
proof -
  have "(case reissue_commit life_env (1000 * hour) ''member'' ''member'' 7 ''certificate groups changed by administrator''
      (\<lambda>n. nodeGroups n = nodeGroups held_member) (\<lambda>n. n\<lparr>nodeGroups := [''all'', ''db'']\<rparr>) life_issued held_member life_network held_state of
      Inl e \<Rightarrow> False | Inr (v, r, c, s1) \<Rightarrow> Audit s1 = [])"
    by code_simp
  then show ?thesis by (auto split: sum.splits)
qed

lemma held_request:
  "TrimSpace ''member'' = ''member''" "validPersistedID ''member''" "namePattern ''member''" "validCertificateRotationRequestID ''request-0123456789''"
  by code_simp+

lemma held_audit: "Audit held_state = []"
  by (simp add: race_state_def life_state_def demo_state_def empty_state_def)

lemma held_updated:
  "\<exists>u s'. updateNodeGroups life_env held_parse (\<lambda>_. envSignPublicKey life_env) False ''event'' (1000 * hour) None ''member'' held_input held_state held_state =
     Inr (u, s') \<and> length (Audit s') = 1"
proof -
  obtain v r c s1 where "reissue_commit life_env (1000 * hour) ''member'' ''member'' 7 ''certificate groups changed by administrator''
     (\<lambda>n. nodeGroups n = nodeGroups held_member) (\<lambda>n. n\<lparr>nodeGroups := [''all'', ''db'']\<rparr>) life_issued held_member life_network held_state =
     Inr (v, r, c, s1)" "Audit s1 = []" using held_commit by blast
  then show ?thesis
    using held_snapshot held_certificate held_groups held_request held_audit
    by (simp add: updateNodeGroups_def held_input_def Let_def guard_result_def findNodeGroupsReplay_def newOptionalAttributedAudit_def add_audit_def)
qed

text \<open>
  The commit asks that the certificate it replaces is not on the blocklist; it does not ask this of the certificate it installs.
  Issuance is deterministic within a second, so changing the groups away and back within one second brings back a blocklisted certificate.
\<close>

definition held_restored :: State where
  "held_restored = held_state\<lparr>Revocations := [\<lparr>rvFingerprint = isdFingerprint life_issued, rvNodeID = ''member'', rvNetworkID = ''net'',
     rvReason = ''certificate groups changed by administrator'', rvAt = 1000 * hour, rvExpiresAt = Some (1720 * hour)\<rparr>]\<rparr>"

lemma reissue_accepts_blocklisted:
  "\<exists>v r c s1. reissue_commit life_env (1000 * hour) ''member'' ''member'' 7 ''certificate groups changed by administrator''
     (\<lambda>n. nodeGroups n = nodeGroups held_member) (\<lambda>n. n\<lparr>nodeGroups := [''all'', ''db'']\<rparr>) life_issued held_member life_network held_restored =
     Inr (v, r, c, s1) \<and> nodeStatus v = ''active'' \<and> nodeCertificateFingerprint v \<in> set (config_blocklist s1 life_network)"
proof -
  have "(case reissue_commit life_env (1000 * hour) ''member'' ''member'' 7 ''certificate groups changed by administrator''
      (\<lambda>n. nodeGroups n = nodeGroups held_member) (\<lambda>n. n\<lparr>nodeGroups := [''all'', ''db'']\<rparr>) life_issued held_member life_network held_restored of
      Inl e \<Rightarrow> False | Inr (v, r, c, s1) \<Rightarrow> nodeStatus v = ''active'' \<and> nodeCertificateFingerprint v \<in> set (config_blocklist s1 life_network))"
    by code_simp
  then show ?thesis by (auto split: sum.splits)
qed

section \<open>Properties\<close>



end
