(* ===== verification/Mesh_Control.thy ===== *)
theory Mesh_Control
  imports Mesh_NodeCertificates
begin

text \<open>
  The control plane as one transition system.  A handler runs in one store transaction; the calls of an agent that ask
  the certificate issuer run in two, a claim and a commit, and other transactions may come between them.  A handler that first reads
  a snapshot takes it as an argument, and the relation admits any snapshot.
  The relation has one rule per handler and one per transaction of such a call, and keeps two ghosts: the
  calls that are under way and every node identifier that was ever given out.  It is over the state each
  transaction hands to the store; the store may refuse it, which leaves out steps and adds none.
\<close>

section \<open>Evolution of the nodes\<close>

definition node_kept :: "Node \<Rightarrow> Node \<Rightarrow> bool" where
  "node_kept v v' \<longleftrightarrow>
     nodeID v' = nodeID v \<and> nodeNetworkID v' = nodeNetworkID v \<and> (nodeStatus v = ''revoked'' \<longrightarrow> nodeStatus v' = ''revoked'')"

text \<open>The audit log grows, and each node is new or an earlier one that has kept its identity.\<close>

definition evolves :: "string set \<Rightarrow> State \<Rightarrow> State \<Rightarrow> bool" where
  "evolves new s s' \<longleftrightarrow>
     (\<exists>evs. Audit s' = Audit s @ evs) \<and> (\<forall>v' \<in> set (Nodes s'). nodeID v' \<in> new \<or> (\<exists>v \<in> set (Nodes s). node_kept v v'))"

lemma node_kept_refl [simp]: "node_kept v v"
  by (simp add: node_kept_def)

lemma same_credentials_kept: "same_credentials v v' \<Longrightarrow> node_kept v v'"
  by (simp add: same_credentials_def node_kept_def)

lemma evolves_subset: "\<exists>evs. Audit s' = Audit s @ evs \<Longrightarrow> set (Nodes s') \<subseteq> set (Nodes s) \<Longrightarrow> evolves new s s'"
  unfolding evolves_def using node_kept_refl by blast

lemma evolves_refl [simp]: "evolves new s s"
  by (rule evolves_subset) auto

lemma evolves_frame: "frame_step s s' \<Longrightarrow> \<exists>evs. Audit s' = Audit s @ evs \<Longrightarrow> evolves new s s'"
  unfolding evolves_def frame_step_def using frame_nodes(4) same_credentials_kept by blast

lemma evolves_update:
  assumes "\<exists>evs. Audit s' = Audit s @ evs" "Nodes s' = (Nodes s)[k := v']" "k < length (Nodes s)" "node_kept (Nodes s ! k) v'"
  shows "evolves new s s'"
proof -
  have "set (Nodes s') \<subseteq> insert v' (set (Nodes s))" unfolding assms(2) by (rule set_update_subset_insert)
  with assms(1,4) nth_mem [OF assms(3)] node_kept_refl show ?thesis unfolding evolves_def by blast
qed

lemma evolves_append:
  assumes "evolves new s s1" "\<exists>evs. Audit s' = Audit s1 @ evs" "Nodes s' = Nodes s1 @ vs" "\<forall>v \<in> set vs. nodeID v \<in> new"
  shows "evolves new s s'"
  using assms by (auto simp: evolves_def)

section \<open>Handlers that keep credentials and trust\<close>

text \<open>A commit that replaces one network by one with the same authorities.\<close>

lemma frame_commit:
  assumes "find_network_idx s ident = Some i" "same_trust (Networks s ! i) n"
  shows "frame_step s (add_audit (set_network s i n) ev)"
  by (rule frame_set_network [OF find_network_idx_lt [OF assms(1)] assms(2)]) (simp_all add: set_network_def)

lemma dns_frame:
  assumes "updateNetworkDNS eid now actor ident input s = Inr (d, s')"
  shows "frame_step s s'"
  using assms by (auto simp: updateNetworkDNS_def Let_def same_trust_def split: if_splits sum.splits option.splits intro!: frame_commit)

lemma relays_frame:
  assumes "updateNetworkRelays sha eid now actor ident input s = Inr (d, s')"
  shows "frame_step s s'"
  using assms by (auto simp: updateNetworkRelays_def Let_def same_trust_def split: if_splits sum.splits option.splits intro!: frame_commit)

lemma route_policy_frame:
  assumes "updateNetworkRoutePolicy eid now actor ident input s = Inr (d, s')"
  shows "frame_step s s'"
  using assms by (auto simp: updateNetworkRoutePolicy_def Let_def same_trust_def split: if_splits sum.splits option.splits intro!: frame_commit)

lemma firewall_policy_frame:
  assumes "updateFirewallPolicy sha eid now actor ident input s = Inr (d, s')"
  shows "frame_step s s'"
  using assms by (rule updateFirewallPolicy_ok) (auto simp: same_trust_def split: if_splits intro!: frame_commit)

lemma rollout_switch_trust: "rollout_switch sha now s n input ids nr = Inr (n', act, extra) \<Longrightarrow> same_trust n n'"
  by (auto simp: rollout_switch_def rollout_action_defs Let_def same_trust_def split: if_splits)

lemma firewall_rollout_frame:
  assumes "updateNetworkFirewallRollout sha eid now actor ident input s = Inr (d, s')"
  shows "frame_step s s'"
  using assms by (rule updateNetworkFirewallRollout_ok) (auto dest!: rollout_switch_trust simp: same_trust_def intro!: frame_commit)

lemma auto_rollback_ok:
  assumes "autoRollbackFirewallRollout sha eid s i node now reason evidence = Inr (d, s')"
  obtains n ev where "same_trust (Networks s ! i) n" "s' = add_audit (set_network s i n) ev"
proof -
  from assms obtain nr ev where "s' = add_audit (set_network s i ((Networks s ! i)\<lparr>netFirewallRollout := zero_rollout, netConfigRevision := nr,
      netConfigUpdatedAt := now\<rparr>)) ev"
    by (auto simp: autoRollbackFirewallRollout_def Let_def)
  then show thesis by (rule that [rotated]) (simp add: same_trust_def)
qed

lemma apply_failure_frame:
  assumes "ReportConfigApplyFailure sha viewed eid now token input s = Inr (d, s')"
  shows "frame_step s s' \<and> (\<exists>evs. Audit s' = Audit s @ evs)"
proof -
  from assms obtain k i evidence where "find_network_idx s (nodeNetworkID (Nodes s ! k)) = Some i"
      "autoRollbackFirewallRollout sha eid s i (Nodes s ! k) now ''canary_config_activation_failed'' evidence = Inr (d, s')"
    by (auto simp: ReportConfigApplyFailure_def Let_def split: option.splits)
  then show ?thesis by (auto elim!: auto_rollback_ok intro: frame_commit)
qed

lemma route_step_frame: "route_step ident now s s' \<Longrightarrow> frame_step s s'"
proof -
  assume "route_step ident now s s'"
  then obtain i n nodes ev where i: "i < length (Networks s)" "route_change now (Networks s ! i) n" "list_all2 routes_only (Nodes s) nodes"
    and s': "s' = add_audit (set_network (s\<lparr>Nodes := nodes\<rparr>) i n) ev"
    by (auto simp: route_step_def)
  have "routes_only a b \<Longrightarrow> same_credentials a b" for a b
    unfolding routes_only_def same_credentials_def by (erule ssubst) simp
  with i(3) have "list_all2 same_credentials (Nodes s) nodes" by (rule list_all2_mono)
  moreover have "same_trust (Networks s ! i) n" using route_change_simps [OF i(2)] by (simp add: same_trust_def)
  ultimately show ?thesis
    using i(1) by (auto simp: frame_step_def s' set_network_def list_all2_refl intro!: list_all2_update)
qed

lemma start_transfer_frame:
  assumes "startRouteTransfer sha eid now actor ident input s = Inr (d, s')"
  shows "frame_step s s'"
  using assms by (cases rule: startRouteTransfer_ok) (auto simp: same_trust_def intro!: frame_commit)

lemma route_frames:
  "updateRouteTransfer sha eid now actor ident tin cancel s = Inr (td, s') \<Longrightarrow> frame_step s s'"
  "startRouteProfileEdit sha eid now actor ident pin s = Inr (pd, s') \<Longrightarrow> frame_step s s'"
  "updateRouteProfileEdit sha eid now actor ident uin cancel s = Inr (pd, s') \<Longrightarrow> frame_step s s'"
  using update_transfer.transition start_profile.transition update_profile.transition route_step_frame frame_refl by metis+

section \<open>Handlers of the agent\<close>

lemma heartbeat_node_ok:
  assumes "node_lifecycle_ok v" "nodeStatus v = ''active''"
  shows "node_lifecycle_ok (heartbeat_node inp now c v)" "mset (node_hashes (heartbeat_node inp now c v)) \<subseteq># mset (node_hashes v)"
    and "node_kept v (heartbeat_node inp now c v)" "authority_ok sha n (heartbeat_node inp now c v) = authority_ok sha n v"
  using assms
  by (auto simp: heartbeat_node_def Let_def node_lifecycle_ok_def active_shape_def node_hashes_def node_kept_def authority_ok_def)

lemma heartbeat_steps:
  assumes "Heartbeat sha viewed at eid now token input s = Inr (v', s')" "control_inv sha s"
  shows "control_inv sha s' \<and> evolves new s s'"
  using assms(1)
proof (rule Heartbeat_ok)
  let ?h = "HashToken sha (TrimSpace token)"
  fix k i
  assume k: "find_idx (agent_matches ?h now) (Nodes s) = Some k" and i: "find_network_idx s (nodeNetworkID (Nodes s ! k)) = Some i"
    and run: "heartbeat_commit sha eid now ?h (heartbeat_report input) k i s = Inr (v', s')"
  have kl: "k < length (Nodes s)" and active: "nodeStatus (Nodes s ! k) = ''active''"
    using find_idx_lt [OF k] find_idx_P [OF k] by (auto simp: agent_matches_def)
  from run show ?thesis
  proof (rule heartbeat_commit_ok)
    fix rollback
    assume v': "v' = heartbeat_node (heartbeat_report input) now (snd (agentCredentialMatch (Nodes s ! k) ?h now)) (Nodes s ! k)"
      and eff: "if rollback then \<exists>d evidence. autoRollbackFirewallRollout sha eid (set_node s k v') i v' now ''canary_target_runtime_stopped'' evidence = Inr (d, s')
        else s' = set_node s k v'"
    have life: "node_lifecycle_ok (Nodes s ! k)" using control_invD(3) [OF assms(2)] kl by (simp add: list_all_length)
    have kept: "node_kept (Nodes s ! k) v'" unfolding v' by (rule heartbeat_node_ok(3) [OF life active])
    have "\<forall>n \<in> set (Networks s). authority_ok sha n (Nodes s ! k)" using control_invD(2) [OF assms(2)] kl by (simp add: trust_inv_def)
    then have inv: "control_inv sha (set_node s k v')"
      using heartbeat_node_ok [OF life active] by (intro node_update_inv [OF assms(2) kl, where v' = v' and H = "{#}"]) (simp_all add: set_node_def node_kept_def list_all2_refl v')
    have ev: "evolves new s t" if "Nodes t = (Nodes s)[k := v']" "\<exists>evs. Audit t = Audit s @ evs" for t
      by (rule evolves_update [OF that(2,1) kl kept])
    show ?thesis
    proof (cases rollback)
      case True
      with eff obtain n e where n: "same_trust (Networks s ! i) n" and s': "s' = add_audit (set_network (set_node s k v') i n) e"
        by (auto elim!: auto_rollback_ok simp: set_node_def)
      have "frame_step (set_node s k v') s'" unfolding s'
        by (rule frame_set_network [of i _ n]) (use n find_network_idx_lt [OF i] in \<open>simp_all add: set_network_def set_node_def\<close>)
      with inv frame_control_inv have "control_inv sha s'" by blast
      then show ?thesis using ev by (simp add: s' set_network_def set_node_def)
    next
      case False
      with eff inv ev show ?thesis by (simp add: set_node_def)
    qed
  qed
qed

lemma rotation_steps:
  assumes "RotateAgentCredential sha viewed eid now token new s = Inr (r, s')" "control_inv sha s"
  shows "control_inv sha s' \<and> evolves ids s s'"
  using assms(1)
proof (cases rule: RotateAgentCredential_cases)
  case (rotated i ev)
  let ?v = "rotate_credential (TrimSpace new) now (Nodes s ! i)"
  have il: "i < length (Nodes s)" and active: "nodeStatus (Nodes s ! i) = ''active''"
    using find_idx_lt [OF rotated(1)] find_idx_P [OF rotated(1)] by (auto simp: agent_matches_def)
  have life: "node_lifecycle_ok (Nodes s ! i)" using control_invD(3) [OF assms(2)] il by (simp add: list_all_length)
  have kept: "nodeID ?v = nodeID (Nodes s ! i)" "node_kept (Nodes s ! i) ?v" "authority_ok sha n ?v = authority_ok sha n (Nodes s ! i)" for n
    by (simp_all add: rotate_credential_def node_kept_def authority_ok_def)
  show ?thesis
  proof
    have "\<forall>n \<in> set (Networks s). authority_ok sha n (Nodes s ! i)" using control_invD(2) [OF assms(2)] il by (simp add: trust_inv_def)
    moreover have "node_lifecycle_ok ?v"
      using life active rotated(4,5) by (auto simp: node_lifecycle_ok_def active_shape_def rotate_credential_def ValidTokenHash_def split: option.splits)
    moreover have "mset (node_hashes ?v) \<subseteq># mset (node_hashes (Nodes s ! i)) + {#TrimSpace new#}"
      by (simp add: node_hashes_def rotate_credential_def)
    ultimately show "control_inv sha s'"
      using rotated(3,4) kept by (intro node_update_inv [OF assms(2) il, where v' = ?v and H = "{#TrimSpace new#}"]) (simp_all add: rotated(6) set_node_def list_all2_refl)
    show "evolves ids s s'" by (rule evolves_update [OF _ _ il kept(2)]) (simp_all add: rotated(6) set_node_def)
  qed
qed (use assms(2) in simp)

section \<open>The audit log\<close>

lemma step_audit: "s' = s \<or> network_step ident expected now s s' \<Longrightarrow> \<exists>evs. Audit s' = Audit s @ evs"
  by (auto simp: network_step_def)

lemma route_audit: "s' = s \<or> route_step ident now s s' \<Longrightarrow> \<exists>evs. Audit s' = Audit s @ evs"
  by (auto simp: route_step_def set_network_def)

lemma add_audit_extends [simp]: "\<exists>evs. Audit (add_audit s ev) = Audit s @ evs"
  by (simp add: add_audit_def)

section \<open>Changes of authority\<close>

lemma ca_recoveries:
  assumes "updateNetworkCARotation sha generate viewed eid now actor ident input s = Inr (d, s')"
  shows "\<exists>P. AgentRecoveries s' = filter P (AgentRecoveries s)"
proof -
  from assms obtain s1 i n ev where s1: "(if changes_trust (ucaAction input) then pruneExpiredNetworkRecoveryReplays s (netID (Networks s ! i)) now else Inr s) = Inr s1"
    and s': "s' = add_audit (set_network s1 i n) ev"
    by (auto simp: updateNetworkCARotation_def Let_def simp del: if_split split: option.splits)
  have "\<exists>P. AgentRecoveries s1 = filter P (AgentRecoveries s)"
  proof (cases "changes_trust (ucaAction input)")
    case True
    with s1 show ?thesis by (auto simp: prune_ok)
  next
    case False
    with s1 show ?thesis by (intro exI [of _ "\<lambda>_. True"]) simp
  qed
  then show ?thesis by (simp add: s' set_network_def)
qed

lemma ca_rotation_steps:
  assumes run: "updateNetworkCARotation sha generate viewed eid now actor ident input s = Inr (d, s')" and inv: "control_inv sha s"
  shows "control_inv sha s' \<and> evolves new s s'"
proof (cases "s' = s")
  case False
  with ca_rotation.effect [OF run] have step: "network_step ident (ucaExpectedConfigRevision input) now s s'" by blast
  then obtain i n where i: "find_network_idx s ident = Some i" "netID n = ident" and nets: "Networks s' = (Networks s)[i := n]"
    and same: "Nodes s' = Nodes s" "Version s' = Version s" "Enrollments s' = Enrollments s"
    by (auto simp: network_step_def)
  obtain P where P: "AgentRecoveries s' = filter P (AgentRecoveries s)" using ca_recoveries [OF run] by blast
  have "netID n = netID (Networks s ! i)" using i find_network_idx_ID by simp
  then have ids: "map netID (Networks s') = map netID (Networks s)" using find_network_idx_lt [OF i(1)] nets by (simp add: map_update_same)
  have "mset (credential_hashes s') \<subseteq># mset (credential_hashes s)"
    unfolding credential_mset same(1,3) P using filter_mset_map [of recTokenHash P "AgentRecoveries s"] by (simp add: mset_filter)
  then have "control_inv sha s'"
    using control_invD [OF inv] updateNetworkCARotation_trust [OF run] ids same
    by (intro control_invI) (auto intro: credential_inv_less)
  moreover have "evolves new s s'" using step_audit [of s' s] step same(1) by (intro evolves_subset) auto
  ultimately show ?thesis by simp
qed (use inv in simp)

section \<open>Tokens and credentials\<close>

lemma reissue_evolves: "reissueEnrollment sha bearers idents eid now actor ident s = Inr (d, s') \<Longrightarrow> evolves new s s'"
  by (erule reissueEnrollment_ok) (intro evolves_subset, simp_all)

lemma issue_recovery_evolves: "issueAgentRecovery sha bearers idents eid now actor ident s = Inr (d, s') \<Longrightarrow> evolves new s s'"
  by (erule issueAgentRecovery_ok) (intro evolves_subset, simp_all)

lemma claim_evolves:
  "enroll_claim env claimID at token publicKey hash s = Inr (eo, s') \<Longrightarrow> evolves new s s'"
  "recover_claim env claimID at token publicKey hash s = Inr (ro, s') \<Longrightarrow> evolves new s s'"
  "renew_claim env claimID at tokenHash publicKey s = Inr (no, s') \<Longrightarrow> evolves new s s'"
proof -
  show "enroll_claim env claimID at token publicKey hash s = Inr (eo, s') \<Longrightarrow> evolves new s s'"
    by (erule enroll_claim_ok) (auto intro: evolves_subset)
  show "recover_claim env claimID at token publicKey hash s = Inr (ro, s') \<Longrightarrow> evolves new s s'"
    by (erule recover_claim_ok) (auto intro: evolves_subset)
  assume run: "renew_claim env claimID at tokenHash publicKey s = Inr (no, s')"
  then have "Audit s' = Audit s" by (rule renew_claim_ok) (simp_all add: set_node_def)
  with renew_claim_frame [OF run] show "evolves new s s'" by (intro evolves_frame) simp_all
qed

lemma release_evolves:
  "evolves new s (releaseEnrollmentClaim ident claimID s)" "evolves new s (releaseAgentRecoveryClaim ident claimID s)"
  "evolves new s (releaseRenewalClaim ident claimID s)"
proof -
  show "evolves new s (releaseEnrollmentClaim ident claimID s)"
    by (intro evolves_frame release_enrollment_frame) (simp add: releaseEnrollmentClaim_def)
  show "evolves new s (releaseAgentRecoveryClaim ident claimID s)"
    by (intro evolves_frame release_recovery_frame) (simp add: releaseAgentRecoveryClaim_def)
  show "evolves new s (releaseRenewalClaim ident claimID s)"
    by (intro evolves_frame release_renewal_frame) (simp add: releaseRenewalClaim_def)
qed

lemma enroll_commit_evolves:
  assumes "enroll_commit env eid now claimID publicKey hash cert node network enrollment s = Inr (b, s')"
  shows "evolves new s s'"
  using assms
proof (rule enroll_commit_ok)
  fix latest i k e v v' s2 ev
  assume k: "find_node_idx s (nodeID node) = Some k" and v: "v = Nodes s ! k" "nodeStatus v = ''pending''"
    and v': "v' = enrolled_node env s cert publicKey hash now v"
    and s': "s' = add_audit (s\<lparr>Enrollments := (Enrollments s)[i := e\<lparr>enrUsedAt := Some now\<rparr>], Nodes := (Nodes s)[k := v'],
       Issuances := Issuances s @ [issuance_record v' (isdFingerprint cert) now (isdExpiresAt cert)],
       Networks := map (\<lambda>n. if netID n = netID latest then enrolled_network s2 v' now n else n) (Networks s)\<rparr>) ev"
  have "node_kept (Nodes s ! k) v'" using v by (simp add: node_kept_def v' enrolled_node_def set_certificate_def Let_def)
  then show ?thesis
    using find_idx_lt [OF k [unfolded find_node_idx_def]] by (intro evolves_update [where k = k and v' = v']) (simp_all add: s')
qed

lemma renew_commit_evolves:
  assumes "renew_commit env eid now claimID tokenHash cert node s = Inr (b, s')" "distinct (map nodeID (Nodes s))"
  shows "evolves new s s'"
  using assms
proof (rule renew_commit_ok)
  fix latest k v v' ev
  assume k: "find_node_idx s (nodeID node) = Some k" and v: "v = Nodes s ! k"
    and v': "v' = renewed_node env s (cert\<lparr>isdRenewAfter := renew_after latest (isdExpiresAt cert)\<rparr>) now v"
    and s': "s' = add_audit (s\<lparr>Nodes := (Nodes s)[k := v'],
       Issuances := Issuances s @ [issuance_record v' (isdFingerprint cert) now (isdExpiresAt cert)]\<rparr>) ev"
  have "node_kept (Nodes s ! k) v'" using v by (simp add: node_kept_def v' renewed_node_def set_certificate_def Let_def)
  then show ?thesis
    using find_idx_lt [OF k [unfolded find_node_idx_def]] by (intro evolves_update [where k = k and v' = v']) (simp_all add: s')
qed

lemma recover_commit_evolves:
  assumes "recover_commit env eid now claimID publicKey hash recovery s = Inr (result, s')"
  shows "evolves new s s'"
  using assms
proof (rule recover_commit_ok)
  fix i r k v v' ev
  assume k: "find_node_idx s (recNodeID r) = Some k" and v: "v = Nodes s ! k" and v': "v' = recovered_node hash now v"
    and s': "s' = add_audit (s\<lparr>Nodes := (Nodes s)[k := v'], AgentRecoveries :=
       filter (\<lambda>c. recNodeID c \<noteq> nodeID v \<or> recID c = recID r) ((AgentRecoveries s)[i := used_recovery now v' result r])\<rparr>) ev"
  have "node_kept (Nodes s ! k) v'" using v by (simp add: node_kept_def v' recovered_node_def)
  then show ?thesis
    using find_idx_lt [OF k [unfolded find_node_idx_def]] by (intro evolves_update [where k = k and v' = v']) (simp_all add: s')
qed

section \<open>The end of a node\<close>

lemma cut_off_evolves:
  assumes "cut_off sha eids now actor ident input s = Inr (node, d, receipt, s1)" "distinct (map nodeID (Nodes s))" "findNode s ident = Some source"
  shows "evolves new s s1"
proof -
  from assms(3) obtain k where k: "find_node_idx s ident = Some k" by (auto simp: findNode_def find_find_idx find_node_idx_def)
  from assms(1,2) k show ?thesis
  proof (rule cut_off_ok)
    fix evs xs
    assume nd: "node = revoked_node now (Nodes s ! k)" "Nodes s1 = (Nodes s)[k := node]" and a: "Audit s1 = Audit s @ evs"
    have "node_kept (Nodes s ! k) node" by (simp add: nd(1) node_kept_def)
    then show ?thesis
      using find_idx_lt [OF k [unfolded find_node_idx_def]] nd(2) a by (intro evolves_update [where k = k and v' = node]) simp_all
  qed
qed

lemma revoke_evolves:
  assumes "revokeOrReplaceNode sha fresh idents bearers eids now actor ident replace expected input s = Inr (n, repl, rc, s')"
    and dist: "distinct (map nodeID (Nodes s))" and new: "\<forall>rid. replace \<and> fresh = Inr rid \<longrightarrow> rid \<in> new"
  shows "evolves new s s'"
  using assms(1)
proof (cases rule: revokeOrReplaceNode_ok)
  case (revoked source node d receipt s1)
  from revoked(4) obtain ev where "s' = add_audit s1 ev" by (rule revocation_audit_ok)
  then show ?thesis by (intro evolves_append [OF cut_off_evolves [OF revoked(3) dist revoked(1)], of _ "[]"]) simp_all
next
  case (replaced source node d receipt s1 s2 r)
  from replaced(4) obtain ev where s2: "s2 = add_audit s1 ev" by (rule revocation_audit_ok)
  from replaced(9) show ?thesis
  proof (rule create_replacement_ok)
    fix i rid eid address token ev' policy
    assume "fresh = Inr rid" and s': "s' = add_audit (s2\<lparr>Networks := (Networks s2)[i := (Networks s2 ! i)\<lparr>netFirewallPolicy := policy\<rparr>],
       Nodes := Nodes s2 @ [replacement_node rid address now source],
       Enrollments := Enrollments s2 @ [new_enrollment eid rid (HashToken sha token) now (now + 30 * minute)]\<rparr>) ev'"
    then have "rid \<in> new" using new replaced(5) by blast
    then show ?thesis
      by (intro evolves_append [OF cut_off_evolves [OF replaced(3) dist replaced(1)], of _ "[replacement_node rid address now source]"])
         (simp_all add: s' s2 add_audit_def replacement_node_def)
  qed
qed simp

lemma cancel_evolves: "cancelPendingNode eid now actor ident confirmationName s = Inr (r, s') \<Longrightarrow> evolves new s s'"
  by (erule cancelPendingNode_ok) (intro evolves_subset, auto simp: remove_nth_def dest: in_set_takeD in_set_dropD)

lemma archive_evolves: "archiveNode eid now actor ident expected name s = Inr (r, s') \<Longrightarrow> evolves new s s'"
  by (erule archiveNode_ok) (intro evolves_subset, auto simp: remove_nth_def dest: in_set_takeD in_set_dropD)

lemma retire_evolves: "retireNetwork eid now actor ident expected name s = Inr (r, s') \<Longrightarrow> evolves new s s'"
  by (erule retireNetwork_ok) (intro evolves_subset, auto)

section \<open>New networks and nodes\<close>

lemma create_network_evolves:
  "createNetwork createCA seal signing sealFor fresh eid now actor viewed input s = Inr (n, s') \<Longrightarrow> evolves new s s'"
  by (erule createNetwork_ok) (intro evolves_subset, simp_all)

lemma create_node_evolves:
  "createNode sha freshNode freshEnrollment bearers eid now again actor networkID input s = Inr (c, s') \<Longrightarrow> evolves {nodeID (cnNode c)} s s'"
  by (erule createNode_ok) (rule evolves_append [OF evolves_refl, of _ _ "[cnNode c]"], simp_all)

lemma topology_evolves: "updateNodeTopology eid now actor ident site failureDomain s = Inr (v', s') \<Longrightarrow> evolves new s s'"
  by (rule evolves_frame [OF topology_frame], assumption, erule updateNodeTopology_ok) (auto simp: set_node_def)

lemma reissues_evolves:
  assumes "reissues env cert now ident groups s s'"
  shows "evolves new s s'"
proof -
  from assms obtain k v v' where k: "find_node_idx s ident = Some k" "v = Nodes s ! k" "v' = (renewed_node env s cert now v)\<lparr>nodeGroups := groups v\<rparr>"
    and s': "Nodes s' = (Nodes s)[k := v']" "\<exists>evs. Audit s' = Audit s @ evs"
    by (auto simp: reissues_def add_audit_def)
  have "node_kept (Nodes s ! k) v'" using k by (simp add: node_kept_def renewed_node_def set_certificate_def)
  then show ?thesis using find_idx_lt [OF k(1) [unfolded find_node_idx_def]] s' by (intro evolves_update [where k = k and v' = v'])
qed

lemma certificate_evolves:
  "rotateNodeCertificate env parseCertificate issuers cancelled eid now actor ident input viewed s = Inr (r, s') \<Longrightarrow> evolves new s s'"
  "updateNodeGroups env parseCertificate issuers cancelled eid now actor ident ginput viewed s = Inr (u, s') \<Longrightarrow> evolves new s s'"
  by (erule rotateNodeCertificate_ok updateNodeGroups_ok; simp add: reissues_evolves)+

section \<open>The transition system\<close>

text \<open>A handler that runs in one transaction; the first argument holds the node identifiers it gives out.\<close>

inductive handler_step :: "sha256 \<Rightarrow> string set \<Rightarrow> State \<Rightarrow> State \<Rightarrow> bool" for sha where
  dns: "updateNetworkDNS eid now actor ident dnsInput s = Inr (dnsDoc, s') \<Longrightarrow> handler_step sha {} s s'"
| relays: "updateNetworkRelays sha eid now actor ident relayInput s = Inr (relayDoc, s') \<Longrightarrow> handler_step sha {} s s'"
| firewall: "updateFirewallPolicy sha eid now actor ident policyInput s = Inr (policyDoc, s') \<Longrightarrow> handler_step sha {} s s'"
| rollout: "updateNetworkFirewallRollout sha eid now actor ident rolloutInput s = Inr (rolloutDoc, s') \<Longrightarrow> handler_step sha {} s s'"
| route_policy: "updateNetworkRoutePolicy eid now actor ident routeInput s = Inr (routeDoc, s') \<Longrightarrow> handler_step sha {} s s'"
| transfer_start: "startRouteTransfer sha eid now actor ident transferStart s = Inr (transferDoc, s') \<Longrightarrow> handler_step sha {} s s'"
| transfer_move: "updateRouteTransfer sha eid now actor ident transferMove cancel s = Inr (transferDoc, s') \<Longrightarrow> handler_step sha {} s s'"
| profile_start: "startRouteProfileEdit sha eid now actor ident profileStart s = Inr (profileDoc, s') \<Longrightarrow> handler_step sha {} s s'"
| profile_move: "updateRouteProfileEdit sha eid now actor ident profileMove cancel s = Inr (profileDoc, s') \<Longrightarrow> handler_step sha {} s s'"
| ca_rotation: "updateNetworkCARotation sha generate viewed eid now actor ident caInput s = Inr (caDoc, s') \<Longrightarrow> handler_step sha {} s s'"
| apply_failure: "ReportConfigApplyFailure sha viewed eid now token failure s = Inr (rolloutDoc, s') \<Longrightarrow> handler_step sha {} s s'"
| heartbeat: "Heartbeat sha viewed at eid now token report s = Inr (node, s') \<Longrightarrow> handler_step sha {} s s'"
| rotate: "RotateAgentCredential sha viewed eid now token hash s = Inr (rotation, s') \<Longrightarrow> handler_step sha {} s s'"
| reissue: "reissueEnrollment sha bearers idents eid now actor ident s = Inr (reissued, s') \<Longrightarrow> handler_step sha {} s s'"
| issue_recovery: "issueAgentRecovery sha bearers idents eid now actor ident s = Inr (issued, s') \<Longrightarrow> handler_step sha {} s s'"
| revoke: "revokeOrReplaceNode sha fresh idents bearers eids now actor ident replace expected revokeInput s = Inr (gone, repl, receipt, s') \<Longrightarrow>
    handler_step sha {rid. replace \<and> fresh = Inr rid} s s'"
| cancel: "cancelPendingNode eid now actor ident name s = Inr (cancelled, s') \<Longrightarrow> handler_step sha {} s s'"
| archive: "archiveNode eid now actor ident expected name s = Inr (archived, s') \<Longrightarrow> handler_step sha {} s s'"
| retire: "retireNetwork eid now actor ident expected name s = Inr (retired, s') \<Longrightarrow> handler_step sha {} s s'"
| create_network: "createNetwork createCA seal signing sealFor fresh eid now actor viewed networkInput s = Inr (network, s') \<Longrightarrow>
    netID network \<notin> netID ` set (Networks s) \<Longrightarrow> netID network \<notin> nodeNetworkID ` set (Nodes s) \<Longrightarrow> handler_step sha {} s s'"
| create_node: "createNode sha fresh freshEnrollment bearers eid now again actor ident nodeInput s = Inr (created, s') \<Longrightarrow>
    handler_step sha {nodeID (cnNode created)} s s'"
| topology: "updateNodeTopology eid now actor ident site failureDomain s = Inr (node, s') \<Longrightarrow> handler_step sha {} s s'"
| rotate_certificate: "rotateNodeCertificate env parseCertificate issuers stopped eid now actor ident rotationInput viewed s = Inr (rotated, s') \<Longrightarrow>
    envSHA env = sha \<Longrightarrow> handler_step sha {} s s'"
| node_groups: "updateNodeGroups env parseCertificate issuers stopped eid now actor ident groupsInput viewed s = Inr (updated, s') \<Longrightarrow>
    envSHA env = sha \<Longrightarrow> handler_step sha {} s s'"

text \<open>What a call in two transactions remembers between them.\<close>

datatype call =
    EnrollCall string string string Node Network EnrollmentToken
  | RenewCall string string string Node Network
  | RecoverCall string string string AgentRecoveryToken

type_synonym system = "State \<times> call set \<times> string set"

inductive system_step :: "Environment \<Rightarrow> system \<Rightarrow> system \<Rightarrow> bool" for env where
  handler: "handler_step (envSHA env) new s s' \<Longrightarrow> new \<inter> ids = {} \<Longrightarrow> system_step env (s, calls, ids) (s', calls, ids \<union> new)"
| enroll_begin: "enroll_claim env claimID at token publicKey hash s = Inr (EnrollClaimed node network enrollment, s') \<Longrightarrow> ValidTokenHash hash \<Longrightarrow>
    system_step env (s, calls, ids) (s', insert (EnrollCall claimID publicKey hash node network enrollment) calls, ids)"
| enroll_end: "EnrollCall claimID publicKey hash node network enrollment \<in> calls \<Longrightarrow> enroll_issue env now node network publicKey = Inr cert \<Longrightarrow>
    enroll_commit env eid now claimID publicKey hash cert node network enrollment s = Inr (bundle', s') \<Longrightarrow>
    system_step env (s, calls, ids) (s', calls - {EnrollCall claimID publicKey hash node network enrollment}, ids)"
| enroll_fail: "EnrollCall claimID publicKey hash node network enrollment \<in> calls \<Longrightarrow>
    system_step env (s, calls, ids) (releaseEnrollmentClaim (enrID enrollment) claimID s, calls - {EnrollCall claimID publicKey hash node network enrollment}, ids)"
| renew_begin: "renew_claim env claimID at tokenHash publicKey s = Inr (RenewClaimed node network, s') \<Longrightarrow>
    system_step env (s, calls, ids) (s', insert (RenewCall claimID tokenHash publicKey node network) calls, ids)"
| renew_end: "RenewCall claimID tokenHash publicKey node network \<in> calls \<Longrightarrow> renew_issue env now node network publicKey = Inr cert \<Longrightarrow>
    renew_commit env eid now claimID tokenHash cert node s = Inr (renewal, s') \<Longrightarrow>
    system_step env (s, calls, ids) (s', calls - {RenewCall claimID tokenHash publicKey node network}, ids)"
| renew_fail: "RenewCall claimID tokenHash publicKey node network \<in> calls \<Longrightarrow>
    system_step env (s, calls, ids) (releaseRenewalClaim (nodeID node) claimID s, calls - {RenewCall claimID tokenHash publicKey node network}, ids)"
| recover_begin: "recover_claim env claimID at token publicKey hash s = Inr (RecoverClaimed recovery, s') \<Longrightarrow> ValidTokenHash hash \<Longrightarrow>
    system_step env (s, calls, ids) (s', insert (RecoverCall claimID publicKey hash recovery) calls, ids)"
| recover_end: "RecoverCall claimID publicKey hash recovery \<in> calls \<Longrightarrow>
    recover_commit env eid now claimID publicKey hash recovery s = Inr (result, s') \<Longrightarrow>
    system_step env (s, calls, ids) (s', calls - {RecoverCall claimID publicKey hash recovery}, ids)"
| recover_fail: "RecoverCall claimID publicKey hash recovery \<in> calls \<Longrightarrow>
    system_step env (s, calls, ids) (releaseAgentRecoveryClaim (recID recovery) claimID s, calls - {RecoverCall claimID publicKey hash recovery}, ids)"

section \<open>The invariant of the system\<close>

lemma handler_evolves:
  assumes "handler_step sha new s s'" "control_inv sha s"
  shows "evolves new s s'"
  using assms(1)
proof cases
  case (revoke fresh idents bearers eids now actor ident replace expected revokeInput gone repl receipt)
  then show ?thesis using revoke_evolves [OF revoke(2) control_invD(4) [OF assms(2)], of new] by simp
qed (use assms(2) in \<open>auto intro: evolves_frame dns_frame relays_frame firewall_policy_frame firewall_rollout_frame route_policy_frame
      start_transfer_frame route_frames step_audit [OF dns.effect] step_audit [OF relays.effect] step_audit [OF firewall_policy.effect]
      step_audit [OF firewall_rollout.effect] step_audit [OF route_policies.effect] step_audit [OF start_transfer.effect]
      route_audit [OF update_transfer.transition] route_audit [OF start_profile.transition] route_audit [OF update_profile.transition]
      ca_rotation_steps [THEN conjunct2] heartbeat_steps [THEN conjunct2] rotation_steps [THEN conjunct2] reissue_evolves issue_recovery_evolves
      cancel_evolves archive_evolves retire_evolves create_network_evolves create_node_evolves topology_evolves certificate_evolves dest: apply_failure_frame\<close>)

lemma handler_inv:
  assumes "handler_step sha new s s'" "sum_shape sha" "control_inv sha s" "new \<inter> nodeID ` set (Nodes s) = {}"
  shows "control_inv sha s'"
  using assms(1)
proof cases
  case (revoke fresh idents bearers eids now actor ident replace expected revokeInput gone repl receipt)
  then show ?thesis using revoke_or_replace_inv [OF revoke(2) assms(2,3)] assms(4) by auto
next
  case (create_node fresh freshEnrollment bearers eid now again actor ident nodeInput created)
  then show ?thesis using create_node_inv [OF create_node(2) assms(2,3)] assms(4) by simp
qed (use assms(2,3) in \<open>auto intro: frame_control_inv [OF assms(3)] dns_frame relays_frame firewall_policy_frame firewall_rollout_frame route_policy_frame
      start_transfer_frame route_frames topology_frame ca_rotation_steps [THEN conjunct1] heartbeat_steps [THEN conjunct1]
      rotation_steps [THEN conjunct1] reissue_inv issue_recovery_inv cancel_inv archive_inv retire_inv create_network_inv certificate_inv dest: apply_failure_frame\<close>)

fun call_ok :: "string set \<Rightarrow> State \<Rightarrow> call \<Rightarrow> bool" where
  "call_ok ids s (EnrollCall claimID publicKey hash node network enrollment) =
     (ValidTokenHash hash \<and> nodeID node \<in> ids \<and> claim_current node (netID network) s)"
| "call_ok ids s (RenewCall claimID tokenHash publicKey node network) = (nodeID node \<in> ids \<and> claim_current node (nodeNetworkID node) s)"
| "call_ok ids s (RecoverCall claimID publicKey hash recovery) = ValidTokenHash hash"

fun system_inv :: "Environment \<Rightarrow> system \<Rightarrow> bool" where
  "system_inv env (s, calls, ids) = (control_inv (envSHA env) s \<and> nodeID ` set (Nodes s) \<subseteq> ids \<and> (\<forall>c \<in> calls. call_ok ids s c))"

lemma evolves_ids: "evolves new s s' \<Longrightarrow> nodeID ` set (Nodes s) \<subseteq> ids \<Longrightarrow> nodeID ` set (Nodes s') \<subseteq> ids \<union> new"
  by (fastforce simp: evolves_def node_kept_def)

lemma evolves_current:
  assumes "evolves new s s'" "nodeID node \<notin> new" "claim_current node network s"
  shows "claim_current node network s'"
  unfolding claim_current_def
proof (intro ballI impI)
  fix v' assume v': "v' \<in> set (Nodes s')" "nodeID v' = nodeID node"
  with assms(1,2) obtain v where "v \<in> set (Nodes s)" "node_kept v v'" by (auto simp: evolves_def)
  with assms(3) v'(2) show "nodeNetworkID v' = network" by (simp add: claim_current_def node_kept_def)
qed

lemma evolves_calls:
  assumes "evolves new s s'" "new \<inter> ids = {}" "call_ok ids s c"
  shows "call_ok (ids \<union> new) s' c"
  using assms by (cases c) (auto intro: evolves_current)

lemma found_current:
  assumes "distinct (map nodeID (Nodes s))" "v \<in> set (Nodes s)"
  shows "claim_current v (nodeNetworkID v) s"
  using assms by (auto simp: claim_current_def distinct_map inj_on_def)

lemma enroll_begin_ok:
  assumes run: "enroll_claim env claimID at token publicKey hash s = Inr (EnrollClaimed node network enrollment, s')"
    and dist: "distinct (map nodeID (Nodes s))"
  shows "nodeID node \<in> nodeID ` set (Nodes s) \<and> claim_current node (netID network) s"
  using run
proof (cases rule: enroll_claim_ok)
  case (claim i v n claimed)
  then have eq: "v = node" "n = network" by simp_all
  have "node \<in> set (Nodes s)" using claim(5) eq findNode_SomeD by blast
  moreover have "netID network = nodeNetworkID node" using claim(7) eq by (auto simp: findNetwork_def find_Some_iff)
  ultimately show ?thesis using found_current [OF dist] by simp
qed simp

lemma renew_begin_ok:
  assumes run: "renew_claim env claimID at tokenHash publicKey s = Inr (RenewClaimed node network, s')"
    and dist: "distinct (map nodeID (Nodes s))"
  shows "nodeID node \<in> nodeID ` set (Nodes s) \<and> claim_current node (nodeNetworkID node) s"
  using run
proof (cases rule: renew_claim_ok)
  case (claim i v n)
  have mem: "v \<in> set (Nodes s)" using find_idx_lt [OF claim(1)] claim(2) by simp
  have "nodeID node = nodeID v" "nodeNetworkID node = nodeNetworkID v" using claim(5) by simp_all
  then have "claim_current node (nodeNetworkID node) s = claim_current v (nodeNetworkID v) s" by (simp only: claim_current_def)
  then show ?thesis using found_current [OF dist mem] mem \<open>nodeID node = nodeID v\<close> by simp
qed simp

text \<open>What a step does to the state and to the ghosts.\<close>

fun system_effect :: "Environment \<Rightarrow> system \<Rightarrow> system \<Rightarrow> bool" where
  "system_effect env (s, calls, ids) (s', calls', ids') \<longleftrightarrow>
     (\<exists>new. evolves new s s' \<and> new \<inter> ids = {} \<and> ids' = ids \<union> new) \<and> control_inv (envSHA env) s' \<and> (\<forall>c \<in> calls'. c \<in> calls \<or> call_ok ids s c)"

lemma effectI:
  assumes "evolves {} s s'" "control_inv (envSHA env) s'" "\<forall>c \<in> calls'. c \<in> calls \<or> call_ok ids s c"
  shows "system_effect env (s, calls, ids) (s', calls', ids)"
  using assms by auto

lemma system_step_effect:
  assumes "system_step env p q" "sum_shape (envSHA env)" "system_inv env p"
  shows "system_effect env p q"
  using assms
proof induction
  case (handler new s s' ids calls)
  then have "new \<inter> nodeID ` set (Nodes s) = {}" by auto
  with handler show ?case using handler_evolves [OF handler(1)] handler_inv [OF handler(1)] by auto
next
  case (enroll_begin claimID at token publicKey hash s node network enrollment s' calls ids)
  then show ?case
    using enroll_begin_ok [OF enroll_begin(1) control_invD(4)] frame_control_inv [OF _ enroll_claim_frame [OF enroll_begin(1)]]
    by (intro effectI claim_evolves(1) [OF enroll_begin(1)]) auto
next
  case (enroll_end claimID publicKey hash node network enrollment calls now cert eid s bundle' s' ids)
  then have "call_ok ids s (EnrollCall claimID publicKey hash node network enrollment)" by auto
  with enroll_end show ?case by (intro effectI enroll_commit_evolves [OF enroll_end(3)] enroll_commit_inv [OF enroll_end(3)]) auto
next
  case (renew_begin claimID at tokenHash publicKey s node network s' calls ids)
  then show ?case
    using renew_begin_ok [OF renew_begin(1) control_invD(4)] frame_control_inv [OF _ renew_claim_frame [OF renew_begin(1)]]
    by (intro effectI claim_evolves(3) [OF renew_begin(1)]) auto
next
  case (renew_end claimID tokenHash publicKey node network calls now cert eid s renewal s' ids)
  then have "call_ok ids s (RenewCall claimID tokenHash publicKey node network)" "control_inv (envSHA env) s" by auto
  with renew_end show ?case
    by (intro effectI renew_commit_evolves [OF renew_end(3) control_invD(4)] renew_commit_inv [OF renew_end(3)]) auto
next
  case (recover_begin claimID at token publicKey hash s recovery s' calls ids)
  then show ?case
    using frame_control_inv [OF _ recover_claim_frame [OF recover_begin(1)]] by (intro effectI claim_evolves(2) [OF recover_begin(1)]) auto
next
  case (recover_end claimID publicKey hash recovery calls eid now s result s' ids)
  then have "call_ok ids s (RecoverCall claimID publicKey hash recovery)" by auto
  with recover_end show ?case by (intro effectI recover_commit_evolves [OF recover_end(2)] recover_commit_inv [OF recover_end(2)]) auto
qed (auto intro!: effectI release_evolves intro: frame_control_inv release_enrollment_frame release_renewal_frame release_recovery_frame
    simp del: system_effect.simps)

lemma system_step_inv:
  assumes "system_step env p q" "sum_shape (envSHA env)" "system_inv env p"
  shows "system_inv env q"
proof -
  obtain s calls ids where p: "p = (s, calls, ids)" by (cases p)
  obtain s' calls' ids' where q: "q = (s', calls', ids')" by (cases q)
  from system_step_effect [OF assms] obtain new where new: "evolves new s s'" "new \<inter> ids = {}" "ids' = ids \<union> new"
    and inv: "control_inv (envSHA env) s'" and calls: "\<forall>c \<in> calls'. c \<in> calls \<or> call_ok ids s c"
    by (auto simp: p q)
  show ?thesis
    using assms(3) new inv calls evolves_ids [OF new(1), of ids] evolves_calls [OF new(1,2)] by (auto simp: p q)
qed

lemma system_run_inv:
  assumes "(system_step env)\<^sup>*\<^sup>* p q" "sum_shape (envSHA env)" "system_inv env p"
  shows "system_inv env q"
  using assms by (induction rule: rtranclp_induct) (auto intro: system_step_inv)

lemma evolves_trans:
  assumes "evolves m s s1" "evolves n s1 s2"
  shows "evolves (m \<union> n) s s2"
proof -
  have kept: "node_kept a b \<Longrightarrow> node_kept b c \<Longrightarrow> node_kept a c" for a b c by (simp add: node_kept_def)
  have "nodeID v \<in> m \<union> n \<or> (\<exists>u \<in> set (Nodes s). node_kept u v)" if "v \<in> set (Nodes s2)" for v
  proof (cases "nodeID v \<in> n")
    case False
    with that assms(2) obtain w where w: "w \<in> set (Nodes s1)" "node_kept w v" by (auto simp: evolves_def)
    with assms(1) consider "nodeID w \<in> m" | u where "u \<in> set (Nodes s)" "node_kept u w" by (auto simp: evolves_def)
    then show ?thesis
    proof cases
      case 1
      with w(2) show ?thesis by (simp add: node_kept_def)
    next
      case 2
      with w(2) kept show ?thesis by blast
    qed
  qed simp
  with assms show ?thesis by (auto simp: evolves_def)
qed

lemma system_run_evolves:
  assumes "(system_step env)\<^sup>*\<^sup>* p q" "sum_shape (envSHA env)" "system_inv env p"
  shows "\<exists>new. evolves new (fst p) (fst q) \<and> new \<inter> snd (snd p) = {} \<and> snd (snd q) = snd (snd p) \<union> new"
  using assms
proof (induction rule: rtranclp_induct)
  case base
  show ?case by (intro exI [of _ "{}"]) simp
next
  case (step q r)
  then obtain m where m: "evolves m (fst p) (fst q)" "m \<inter> snd (snd p) = {}" "snd (snd q) = snd (snd p) \<union> m" by blast
  have "system_effect env q r" using system_step_effect [OF step(2,4) system_run_inv [OF step(1,4,5)]] .
  then obtain n where n: "evolves n (fst q) (fst r)" "n \<inter> snd (snd q) = {}" "snd (snd r) = snd (snd q) \<union> n" by (cases q, cases r) auto
  with m evolves_trans [OF m(1) n(1)] show ?case by (intro exI [of _ "m \<union> n"]) auto
qed

lemma system_run_revoked:
  assumes run: "(system_step env)\<^sup>*\<^sup>* (s, calls, ids) (t, calls', ids')" and "sum_shape (envSHA env)" and inv: "system_inv env (s, calls, ids)"
    and v: "v \<in> set (Nodes s)" "nodeStatus v = ''revoked''" and w: "w \<in> set (Nodes t)" "nodeID w = nodeID v"
  shows "nodeStatus w = ''revoked''"
proof -
  obtain new where new: "evolves new s t" "new \<inter> ids = {}" using system_run_evolves [OF run assms(2) inv] by auto
  have "nodeID w \<notin> new" using new(2) v(1) w(2) inv by auto
  with new(1) w(1) obtain u where u: "u \<in> set (Nodes s)" "node_kept u w" by (auto simp: evolves_def)
  have "distinct (map nodeID (Nodes s))" using inv control_invD(4) by auto
  with u v(1) w(2) have "u = v" by (auto simp: distinct_map inj_on_def node_kept_def)
  with u(2) v(2) show ?thesis by (simp add: node_kept_def)
qed

section \<open>A run\<close>

lemma start_inv: "control_inv (envSHA env) s \<Longrightarrow> system_inv env (s, {}, nodeID ` set (Nodes s))"
  by simp

lemma edge_step:
  obtains c s' where "createNode wide_sha (Inr ''edge-id'') (Inr ''enrollment'') [Inr (bearer 80)] ''event'' 100 100 None ''net'' edge_request race_state = Inr (c, s')"
    "(system_step life_env)\<^sup>*\<^sup>* (race_state, {}, nodeID ` set (Nodes race_state)) (s', {}, {''member'', ''edge-id''})"
proof -
  obtain c s' where run: "createNode wide_sha (Inr ''edge-id'') (Inr ''enrollment'') [Inr (bearer 80)] ''event'' 100 100 None ''net'' edge_request race_state =
      Inr (c, s')" using edge_created by blast
  then have id: "nodeID (cnNode c) = ''edge-id''" by (rule createNode_ok) simp
  have sha: "envSHA life_env = wide_sha" by (simp add: life_env_def)
  have "handler_step (envSHA life_env) {''edge-id''} race_state s'"
    using handler_step.create_node [OF run] by (simp add: id sha)
  from system_step.handler [OF this, of "{''member''}" "{}"]
  have "system_step life_env (race_state, {}, {''member''}) (s', {}, {''member'', ''edge-id''})" by (simp add: insert_commute)
  with run that show thesis by auto
qed

text \<open>The same call where the other node has been revoked.\<close>

lemma late_step:
  obtains s' where "(system_step life_env)\<^sup>*\<^sup>* (gone_state, {}, {''member''}) (s', {}, {''member'', ''edge-id''})" "map nodeID (Nodes s') = [''member'', ''edge-id'']"
proof -
  have base: "Networks gone_state = [life_network]" "Nodes gone_state = [gone_node]" "Version gone_state = 13" "Enrollments gone_state = []"
      "AgentRecoveries gone_state = []" "nodeID gone_node = ''member''"
    by (simp_all add: gone_state_def gone_node_def)
  have "uniqueBearer wide_sha gone_state [Inr (bearer 80)] = Inr (bearer 80)"
  proof -
    have "ValidBearerToken (bearer 80)" "HashToken wide_sha (bearer 80) = bearer 85" by code_simp+
    moreover have "\<not> strictCredentialHashInUse gone_state (bearer 85)"
      by (simp add: strictCredentialHashInUse_def base) (simp add: gone_node_def revoked_node_def)
    ultimately show ?thesis by (simp add: uniqueBearer_def numeral_eq_Suc)
  qed
  moreover have "findNetwork gone_state ''net'' = Some life_network" by (simp add: findNetwork_def base life_network_def beat_network_def)
  moreover have trim: "TrimSpace [] = []" by code_simp
  have "used_addresses life_network [gone_node] = used_addresses life_network [race_member]"
    by (simp add: used_addresses_def gone_node_def revoked_node_def)
  then have "node_address life_network [gone_node] [] = Inr ''10.9.8.10''"
    using edge_address nextAddress_used [of life_network "[gone_node]" "[race_member]"] trim by (simp add: node_address_def Let_def)
  moreover have "nodeStatus gone_node = ''revoked''" by (simp add: gone_node_def)
  ultimately obtain c s' where run: "createNode wide_sha (Inr ''edge-id'') (Inr ''enrollment'') [Inr (bearer 80)] ''event'' 100 100 None ''net'' edge_request gone_state =
      Inr (c, s')"
    using edge_input by (simp add: createNode_def guard_result_def Let_def edge_canonical_def validateNewRoutedSubnets_def edge_request_def
        newOptionalAttributedAudit_def base)
  then have id: "nodeID (cnNode c) = ''edge-id'' \<and> Nodes s' = [gone_node, cnNode c]" by (rule createNode_ok) (simp add: base)
  have "handler_step (envSHA life_env) {''edge-id''} gone_state s'"
    using handler_step.create_node [OF run] by (simp add: id life_env_def)
  from system_step.handler [OF this, of "{''member''}" "{}"]
  have "system_step life_env (gone_state, {}, {''member''}) (s', {}, {''member'', ''edge-id''})" by (simp add: insert_commute)
  moreover have "map nodeID (Nodes s') = [''member'', ''edge-id'']" using id base(6) by (simp only: list.map)
  ultimately show thesis by (intro that r_into_rtranclp)
qed

section \<open>Properties\<close>

text \<open>C1. Whatever the request handlers of the control plane do, in whatever order their transactions and the
  transactions of concurrent calls come, the state stays well formed: all stored credential hashes are valid and pairwise distinct, so
  that a bearer names at most one node, enrollment or recovery; every active node holds a certificate of an authority
  its network still trusts; each node has exactly the credentials its status allows; and the
  identifiers of nodes and networks are unique.  The schema passes that run once at start are not among the steps.\<close>
theorem control_state_typed:
  assumes "(system_step env)\<^sup>*\<^sup>* (s, {}, nodeID ` set (Nodes s)) (t, calls, ids)" "sum_shape (envSHA env)" "control_inv (envSHA env) s"
  shows "control_inv (envSHA env) t"
  using system_run_inv [OF assms(1,2) start_inv [OF assms(3)]] by simp

theorem control_state_typed_witness:
  "\<exists>t. (system_step life_env)\<^sup>*\<^sup>* (race_state, {}, nodeID ` set (Nodes race_state)) (t, {}, {''member'', ''edge-id''}) \<and> control_inv wide_sha t"
proof -
  have sha: "envSHA life_env = wide_sha" by (simp add: life_env_def)
  obtain c s' where run: "(system_step life_env)\<^sup>*\<^sup>* (race_state, {}, nodeID ` set (Nodes race_state)) (s', {}, {''member'', ''edge-id''})" by (rule edge_step)
  have "control_inv wide_sha s'" using control_state_typed [OF run] wide_sha_shape race_inv by (simp add: sha)
  with run show ?thesis by blast
qed

text \<open>C2. Revocation is for good.  Once a node is revoked no later state of the control plane, reached by any
  interleaving of transactions, has it in another status, and no bearer ever authenticates as it again, not
  even through an enrollment, a renewal or a recovery that was under way.  Meanwhile the audit log only grows.\<close>
theorem revocation_permanent:
  assumes run: "(system_step env)\<^sup>*\<^sup>* (s, calls, ids) (t, calls', ids')" and sha: "sum_shape (envSHA env)" and inv: "system_inv env (s, calls, ids)"
    and v: "findNode s ident = Some v" "nodeStatus v = ''revoked''"
  shows "(\<forall>w. findNode t ident = Some w \<longrightarrow> nodeStatus w = ''revoked'') \<and> (\<forall>h at w. findAgent t h at = Some w \<longrightarrow> nodeID w \<noteq> ident) \<and>
    (\<exists>evs. Audit t = Audit s @ evs)"
proof -
  have vs: "v \<in> set (Nodes s)" "nodeID v = ident" using findNode_SomeD [OF v(1)] by simp_all
  have gone: "nodeStatus w = ''revoked''" if "w \<in> set (Nodes t)" "nodeID w = ident" for w
    using system_run_revoked [OF run sha inv vs(1) v(2)] that vs(2) by simp
  have "nodeID w \<noteq> ident" if "findAgent t h at = Some w" for h at w
    using findAgent_Some [OF that] gone by (auto simp: agent_matches_def)
  moreover have "\<exists>evs. Audit t = Audit s @ evs" using system_run_evolves [OF run sha inv] by (auto simp: evolves_def)
  ultimately show ?thesis using gone findNode_SomeD by blast
qed

theorem revocation_permanent_witness:
  "\<exists>t. (system_step life_env)\<^sup>*\<^sup>* (gone_state, {}, {''member''}) (t, {}, {''member'', ''edge-id''}) \<and>
     (\<exists>w. findNode t ''member'' = Some w \<and> nodeStatus w = ''revoked'') \<and> (\<forall>h at w. findAgent t h at = Some w \<longrightarrow> nodeID w \<noteq> ''member'')"
proof -
  have sha: "envSHA life_env = wide_sha" by (simp add: life_env_def)
  have v: "findNode gone_state ''member'' = Some gone_node" "nodeStatus gone_node = ''revoked''"
    by (simp_all add: findNode_def gone_state_def gone_node_def)
  have inv: "system_inv life_env (gone_state, {}, {''member''})" using gone_inv by (simp add: sha gone_state_def gone_node_def)
  obtain t where run: "(system_step life_env)\<^sup>*\<^sup>* (gone_state, {}, {''member''}) (t, {}, {''member'', ''edge-id''})"
    and ids: "map nodeID (Nodes t) = [''member'', ''edge-id'']" by (rule late_step)
  note perm = revocation_permanent [OF run _ inv v]
  from ids obtain w where "findNode t ''member'' = Some w" by (auto simp: findNode_def)
  with perm wide_sha_shape run show ?thesis by (auto simp: sha)
qed

end
