(* ===== verification/Spec2Isabelle.thy ===== *)
theory Spec2Isabelle
  imports Mesh_Control
begin

text \<open>
  Verification of the Mesh control plane.

  Mesh manages Nebula overlay networks.  An administrator creates networks and nodes; an agent on each
  node trades a one-time enrollment token for a certificate and a bearer, fetches a signed configuration,
  reports what it runs, and renews its certificate; the control plane keeps everything in one document, the
  \<^verbatim>\<open>State\<close> of \<^verbatim>\<open>src/internal/control/model.go\<close>, which each call changes in one store transaction
  (\<^verbatim>\<open>updateState\<close> in \<^verbatim>\<open>service.go\<close>).  The development models the package \<^verbatim>\<open>src/internal/control\<close>; all
  file names below are relative to it.

  \<^bold>\<open>How the code is represented.\<close>  A struct is a record with the source's field names behind a short prefix,
  a call a function that returns an error or a result with the next state (\<^verbatim>\<open>'a result\<close>, with the
  sentinel errors of \<^verbatim>\<open>service.go\<close>; an error without a sentinel is \<^verbatim>\<open>ErrInternal\<close>).  The guards
  stand in the order of the source, and a failed call has no next state, as the store drops it.  A Go string is
  its list of bytes, a slice a list, a nil slice that matters an option, a map an association list, an
  instant the number of nanoseconds from the zero time, a 64-bit integer an \<^typ>\<open>int\<close> with \<^verbatim>\<open>wrap64\<close> where
  it can overflow, an IPv4 address a \<^typ>\<open>32 word\<close>.  What a call does not compute is an argument: the clock, fresh identifiers
  and random tokens, SHA-256 (\<^verbatim>\<open>sha256\<close>), Ed25519, AES-GCM, the Nebula certificate tool and the key and certificate parsers of the
  Nebula library (\<^verbatim>\<open>Environment\<close> in \<^verbatim>\<open>Mesh_Issuance\<close>).  A call that reads a snapshot before its transaction
  takes the snapshot as an argument of its own, so the theorems hold whatever committed in between.

  \<^bold>\<open>Foundations.\<close>
  \<^item> \<^verbatim>\<open>Mesh_Prelude\<close>: errors, the result type with its elimination rules, generic lemmas on lists and searches.
  \<^item> \<^verbatim>\<open>Mesh_Text\<close>: trimming, splitting, decimal numbers and the regular expressions of the identifiers.
  \<^item> \<^verbatim>\<open>Mesh_Encoding\<close>: UTF-8, RFC 3339 times and the line format of the signed payloads.
  \<^item> \<^verbatim>\<open>Mesh_Token\<close> (\<^verbatim>\<open>crypto.go\<close>, \<^verbatim>\<open>actor.go\<close>): bearers, token hashes, digests, hexadecimal and base64url text, and actors.
  \<^item> \<^verbatim>\<open>Mesh_Prefix\<close> (\<^verbatim>\<open>routes.go\<close>): addresses and prefixes and the normal form of routed subnets.
  \<^item> \<^verbatim>\<open>Mesh_Model\<close> (\<^verbatim>\<open>model.go\<close>): the state and its audit events.
  \<^item> \<^verbatim>\<open>Mesh_Handler\<close>: the contract of a network handler as the locale \<^verbatim>\<open>revisioned_handler\<close>: it changes one network, only
    at the revision the caller expects, moves the revision by one and appends one audit event.  It is interpreted on every handler that has it.
  \<^item> \<^verbatim>\<open>Mesh_Sample\<close>: a small state on which the witnesses evaluate the definitions.

  \<^bold>\<open>Networks and configurations.\<close>
  \<^item> \<^verbatim>\<open>Mesh_Address\<close> (\<^verbatim>\<open>nextAddress\<close>, \<^verbatim>\<open>validateNodeIP\<close> in \<^verbatim>\<open>service.go\<close>): allocation of overlay addresses.
  \<^item> \<^verbatim>\<open>Mesh_Routes\<close>, \<^verbatim>\<open>Mesh_RoutePolicy\<close> (\<^verbatim>\<open>routes.go\<close>, \<^verbatim>\<open>route_policies.go\<close>): the reserved address space, by a scan of the sorted
    reservations that is proved equal to the check of all pairs, and the gateways of shared prefixes.
  \<^item> \<^verbatim>\<open>Mesh_Firewall\<close>, \<^verbatim>\<open>Mesh_Relays\<close>, \<^verbatim>\<open>Mesh_DNS\<close> (\<^verbatim>\<open>firewall.go\<close>, \<^verbatim>\<open>relays.go\<close>, \<^verbatim>\<open>dns.go\<close>): policies and settings, their
    normal forms and updates.
  \<^item> \<^verbatim>\<open>Mesh_Render\<close> (\<^verbatim>\<open>renderConfig\<close> in \<^verbatim>\<open>service.go\<close>): the configuration text, with its blocklist and its unsafe routes
    characterised exactly.
  \<^item> \<^verbatim>\<open>Mesh_Signing\<close> (\<^verbatim>\<open>crypto.go\<close>): signed payloads, which determine what they sign, and sealed keys.
  \<^item> \<^verbatim>\<open>Mesh_CARotation\<close> (\<^verbatim>\<open>ca_rotation.go\<close>) and \<^verbatim>\<open>Mesh_FirewallRollout\<close> (\<^verbatim>\<open>firewall_rollout.go\<close>): each handler refines an
    abstract machine of its phases, given as an inductive relation; the trust bundle always contains the authority of every active node, and a
    policy reaches the whole network only after every canary confirmed it.
  \<^item> \<^verbatim>\<open>Mesh_RouteRecords\<close>, \<^verbatim>\<open>Mesh_RouteTransfer\<close>, \<^verbatim>\<open>Mesh_RouteProfileEdit\<close> (\<^verbatim>\<open>route_transfer.go\<close>, \<^verbatim>\<open>route_profile_edit.go\<close>): the two
    machines that move prefixes between nodes, with the locale \<^verbatim>\<open>route_transition\<close> for what their handlers share:
    ownership changes in one step, and only after the new owner has converged.

  \<^bold>\<open>Nodes and agents.\<close>
  \<^item> \<^verbatim>\<open>Mesh_Credential\<close>, \<^verbatim>\<open>Mesh_Agent\<close> (\<^verbatim>\<open>service.go\<close>): who a bearer is, its rotation, heartbeats, configurations and failure reports.
  \<^item> \<^verbatim>\<open>Mesh_Issuance\<close>, \<^verbatim>\<open>Mesh_Invariants\<close> (\<^verbatim>\<open>service.go\<close>, \<^verbatim>\<open>nebula.go\<close>, \<^verbatim>\<open>store.go\<close>): what the issuing calls share, and the invariant
    \<^verbatim>\<open>control_inv\<close> with one lemma per kind of change (a frame, an update of one node, new tokens, removals).
  \<^item> \<^verbatim>\<open>Mesh_Enrollment\<close>, \<^verbatim>\<open>Mesh_Renewal\<close>, \<^verbatim>\<open>Mesh_Recovery\<close> (\<^verbatim>\<open>service.go\<close>): calls in several transactions, a claim, the signing
    outside the store, and a commit or a release.
  \<^item> \<^verbatim>\<open>Mesh_AuditDetails\<close>, \<^verbatim>\<open>Mesh_Revocation\<close>, \<^verbatim>\<open>Mesh_Archival\<close> (\<^verbatim>\<open>node_revocation.go\<close>, \<^verbatim>\<open>pending_cancellation.go\<close>, \<^verbatim>\<open>node_archival.go\<close>,
    \<^verbatim>\<open>retirement.go\<close>): the end of nodes and networks, with receipts that are read back from the audit log.
  \<^item> \<^verbatim>\<open>Mesh_Provision\<close> (\<^verbatim>\<open>service.go\<close>, \<^verbatim>\<open>enrollment_preflight.go\<close>): new networks and nodes.
  \<^item> \<^verbatim>\<open>Mesh_NodeCertificates\<close> (\<^verbatim>\<open>certificate_rotation.go\<close>, \<^verbatim>\<open>node_groups.go\<close>): certificates an administrator has reissued.
  \<^item> \<^verbatim>\<open>Mesh_Control\<close>: all handlers as one transition system, \<^verbatim>\<open>system_step\<close>, in which the transactions of concurrent calls
    interleave freely.  Reachable states satisfy \<^verbatim>\<open>control_inv\<close> and a revoked node never comes back.
  \<^item> This theory: the invariant the two route machines keep together, and the end of the search for an unused bearer.

  \<^bold>\<open>Bounds.\<close>  Every function is total.  The address scan of \<^verbatim>\<open>nextAddress\<close> ends at offset 65536, as the loop does; the
  searches for an unused bearer or identifier take at most sixteen draws from a list, as the loops do, and a list that ends early is an
  error of the generator; a reissued certificate is tried twice.

  \<^bold>\<open>What the theorems assume.\<close>  \<^verbatim>\<open>sum_shape\<close> says that SHA-256 returns 32 bytes; the laws of Ed25519 and AES-GCM are named hypotheses where
  a verification or a decryption is claimed.  No theorem assumes that SHA-256 has no collisions.  In \<^verbatim>\<open>handler_step\<close> a new network has an identifier that no network
  and no node refers to, and in \<^verbatim>\<open>system_step\<close> a new node an identifier that was never given out: both are random.

  \<^bold>\<open>What is not modelled.\<close>  The stores themselves (\<^verbatim>\<open>store.go\<close>, \<^verbatim>\<open>postgres_store.go\<close>: files, locks, SQL), of whose validation only the parts above are
  modelled; the JSON form of the document; the schema passes \<^verbatim>\<open>Ensure...\<close> that upgrade old documents at start; the read-only reports of
  \<^verbatim>\<open>health.go\<close> and \<^verbatim>\<open>readiness.go\<close>; exported snapshots (\<^verbatim>\<open>recovery_snapshot.go\<close>); load fixtures; and the packages outside
  \<^verbatim>\<open>internal/control\<close>: HTTP, operator identity, the agent on the node, installers, backups and releases, which are
  input and output around this state.

  \<^bold>\<open>What the proofs showed.\<close>  Where the code does not do what it means to, the lemma states what it does: allocation hands out the broadcast
  address when a network is full and compares address texts; an edit that keeps a prefix stages an empty profile; a renewal under way can be
  taken for the certificate of an edit; replaced references leave a policy out of order; a reissued certificate is not compared with the blocklist.
\<close>

text \<open>C12. Starting, advancing and cancelling a route transfer or a route-profile edit keep the routing
  invariant: in every network the records of both stay valid against the nodes, which is what the store
  checks before it commits, and every node keeps a canonical profile.\<close>

theorem route_changes_keep_routing:
  assumes "routing_inv s" "now \<noteq> 0"
    and "startRouteTransfer sha eid now actor ident tstart s = Inr (td, s') \<or>
         updateRouteTransfer sha eid now actor ident tstep cancel s = Inr (td, s') \<or>
         startRouteProfileEdit sha eid now actor ident pstart s = Inr (pd, s') \<or>
         updateRouteProfileEdit sha eid now actor ident pstep cancel s = Inr (pd, s')"
  shows "routing_inv s'"
  using assms(3)
proof (elim disjE)
  show "routing_inv s'" if "startRouteTransfer sha eid now actor ident tstart s = Inr (td, s')"
    using start_keeps_routing [OF that assms(1,2)] .
  show "routing_inv s'" if "updateRouteTransfer sha eid now actor ident tstep cancel s = Inr (td, s')"
    using update_keeps_routing [OF that assms(1,2)] .
  show "routing_inv s'" if "startRouteProfileEdit sha eid now actor ident pstart s = Inr (pd, s')"
    using start_profile_routing [OF that assms(1)] .
  show "routing_inv s'" if "updateRouteProfileEdit sha eid now actor ident pstep cancel s = Inr (pd, s')"
    using update_profile_routing [OF that assms(1)] .
qed

theorem route_changes_keep_routing_witness:
  "\<exists>d s'. updateRouteTransfer wide_sha ''event'' 99 None ''net'' handover_step False handover_state = Inr (d, s') \<and>
     routing_inv s'"
proof -
  obtain d s' where "updateRouteTransfer wide_sha ''event'' 99 None ''net'' handover_step False handover_state = Inr (d, s')"
    by (rule handover_ok)
  moreover from this have "routing_inv s'"
    using route_changes_keep_routing [OF handover_invs(2), of 99 wide_sha "''event''" None "''net''" handover_input d s'
        handover_step False growth_input "routeProfileEditDocument wide_sha demo_state demo_network demo_gateway" growth_step]
    by simp
  ultimately show ?thesis by blast
qed

section \<open>The search for a bearer\<close>

lemma unique_bearer_find:
  "k \<le> length draws \<Longrightarrow> \<forall>d \<in> set (take k draws). \<exists>t. d = Inr t \<and> ValidBearerToken t \<Longrightarrow>
    unique_bearer sha s k draws =
      (case List.find (\<lambda>t. \<not> strictCredentialHashInUse s (HashToken sha t)) (map projr (take k draws)) of None \<Rightarrow> Inl ErrInternal | Some t \<Rightarrow> Inr t)"
  by (induction sha s k draws rule: unique_bearer.induct) auto

text \<open>C36. The search for an unused bearer ends after sixteen draws at the latest, whatever the state: with a
  generator that returns valid tokens it returns the first of the sixteen whose hash is not stored
  anywhere, and an error exactly when there is none.\<close>

theorem bearer_search_ends:
  assumes "16 \<le> length draws" "\<forall>d \<in> set (take 16 draws). \<exists>t. d = Inr t \<and> ValidBearerToken t"
  shows "uniqueBearer sha s draws =
    (case List.find (\<lambda>t. \<not> strictCredentialHashInUse s (HashToken sha t)) (map projr (take 16 draws)) of None \<Rightarrow> Inl ErrInternal | Some t \<Rightarrow> Inr t)"
  unfolding uniqueBearer_def by (rule unique_bearer_find [OF assms])

theorem bearer_search_ends_witness:
  "uniqueBearer wide_sha race_state (replicate 16 (Inr (bearer 80))) = Inr (bearer 80)"
proof -
  have valid: "ValidBearerToken (bearer 80)" and hash: "HashToken wide_sha (bearer 80) = bearer 85" by code_simp+
  have free: "\<not> strictCredentialHashInUse race_state (bearer 85)"
    by (simp add: strictCredentialHashInUse_def race_member_def life_member_def beat_node_def demo_member_def demo_node_def zero_node_def)
  have "map projr (take 16 (replicate 16 (Inr (bearer 80) :: string result))) = bearer 80 # replicate 15 (bearer 80)"
    by (simp add: numeral_eq_Suc)
  with bearer_search_ends [of "replicate 16 (Inr (bearer 80))" wide_sha race_state] valid hash free show ?thesis by simp
qed

end
